(* ===== verification/Prelude.thy ===== *)
theory Prelude
  imports Main
begin

text \<open>
  Shared vocabulary of the development: the outcome of a Go call that may panic, Go
  \<open>error\<close> values with the wrapping of \<open>fmt.Errorf("...: %w")\<close>, the fragment of
  \<open>container/list\<close> the queue uses, and the generic list and map lemmas the components
  share.  The collections \<open>go_simps\<close> (evaluation of the Go primitives) and
  \<open>inv_simps\<close> (invariants unfolded to their conjuncts) carry the component proofs.
\<close>

named_theorems go_simps \<open>unfolding of the Go primitives used by the models\<close>

named_theorems inv_simps \<open>component invariants, unfolded\<close>

section \<open>Panics and errors\<close>

datatype go_panic = NilDereference | IndexOutOfRange | ChanSizeOutOfRange

datatype 'a go = Ret 'a | Panic go_panic

primrec go_bind :: "'a go \<Rightarrow> ('a \<Rightarrow> 'b go) \<Rightarrow> 'b go" where
  "go_bind (Ret x) f = f x"
| "go_bind (Panic p) f = Panic p"

lemma go_bind_Ret_iff [simp]: "go_bind m f = Ret y \<longleftrightarrow> (\<exists>x. m = Ret x \<and> f x = Ret y)"
  by (cases m) auto

datatype grpc_code = OK | Canceled | Unknown | InvalidArgument | DeadlineExceededCode | NotFound
  | AlreadyExists | PermissionDenied | ResourceExhausted | FailedPrecondition | Aborted
  | OutOfRange | Unimplemented | Internal | Unavailable | DataLoss | Unauthenticated

text \<open>
  Error values: \<open>errors.New\<close> and \<open>fmt.Errorf\<close> without a wrapped cause, \<open>%w\<close>-wrapping,
  the sentinel \<open>context.DeadlineExceeded\<close>, gRPC status errors, and the cache sentinels.
\<close>

datatype go_error =
    ErrorString string
  | Wrapped string go_error
  | ContextDeadlineExceeded
  | StatusError grpc_code string
  | ErrCacheMiss
  | ErrCacheKeyLocked

type_synonym 'a result = "go_error + 'a"

text \<open>\<open>errors.Is(err, target)\<close> for the comparable sentinels used by the code.\<close>

primrec errors_Is :: "go_error \<Rightarrow> go_error \<Rightarrow> bool" where
  "errors_Is (ErrorString s) t = (ErrorString s = t)"
| "errors_Is (Wrapped s e) t = (Wrapped s e = t \<or> errors_Is e t)"
| "errors_Is ContextDeadlineExceeded t = (ContextDeadlineExceeded = t)"
| "errors_Is (StatusError c s) t = (StatusError c s = t)"
| "errors_Is ErrCacheMiss t = (ErrCacheMiss = t)"
| "errors_Is ErrCacheKeyLocked t = (ErrCacheKeyLocked = t)"

lemma errors_Is_refl [simp]: "errors_Is e e"
  by (cases e) auto

lemma errors_Is_Wrapped [simp]: "errors_Is e t \<Longrightarrow> errors_Is (Wrapped s e) t"
  by simp

definition isErr :: "'a result \<Rightarrow> bool" where
  "isErr r = (case r of Inl _ \<Rightarrow> True | Inr _ \<Rightarrow> False)"

lemma isErr_simps [simp]: "isErr (Inl e)" "\<not> isErr (Inr x)"
  by (simp_all add: isErr_def)

text \<open>The text of an error, as \<open>err.Error()\<close> gives it.\<close>

fun code_String :: "grpc_code \<Rightarrow> string" where
  "code_String OK = ''OK''"
| "code_String Canceled = ''Canceled''"
| "code_String Unknown = ''Unknown''"
| "code_String InvalidArgument = ''InvalidArgument''"
| "code_String DeadlineExceededCode = ''DeadlineExceeded''"
| "code_String NotFound = ''NotFound''"
| "code_String AlreadyExists = ''AlreadyExists''"
| "code_String PermissionDenied = ''PermissionDenied''"
| "code_String ResourceExhausted = ''ResourceExhausted''"
| "code_String FailedPrecondition = ''FailedPrecondition''"
| "code_String Aborted = ''Aborted''"
| "code_String OutOfRange = ''OutOfRange''"
| "code_String Unimplemented = ''Unimplemented''"
| "code_String Internal = ''Internal''"
| "code_String Unavailable = ''Unavailable''"
| "code_String DataLoss = ''DataLoss''"
| "code_String Unauthenticated = ''Unauthenticated''"

fun error_Error :: "go_error \<Rightarrow> string" where
  "error_Error (ErrorString s) = s"
| "error_Error (Wrapped s e) = s @ '': '' @ error_Error e"
| "error_Error ContextDeadlineExceeded = ''context deadline exceeded''"
| "error_Error (StatusError c s) = ''rpc error: code = '' @ code_String c @ '' desc = '' @ s"
| "error_Error ErrCacheMiss = ''cache: key is missing''"
| "error_Error ErrCacheKeyLocked = ''cache: key is locked''"

section \<open>Doubly linked lists (container/list)\<close>

text \<open>
  A \<open>list.Element\<close> is identified by its address, a natural number; a \<open>list.List\<close> is the
  sequence of its elements.  \<open>InsertAfter\<close> and \<open>Remove\<close> act on the element with the given
  address and leave the list unchanged when it is not a member, as the Go code does.
\<close>

fun list_InsertAfter :: "nat \<times> 'v \<Rightarrow> nat \<Rightarrow> (nat \<times> 'v) list \<Rightarrow> (nat \<times> 'v) list" where
  "list_InsertAfter x mark [] = []"
| "list_InsertAfter x mark (y # ys) =
     (if fst y = mark then y # x # ys else y # list_InsertAfter x mark ys)"

fun list_Remove :: "nat \<Rightarrow> (nat \<times> 'v) list \<Rightarrow> (nat \<times> 'v) list" where
  "list_Remove e [] = []"
| "list_Remove e (y # ys) = (if fst y = e then ys else y # list_Remove e ys)"

lemma list_InsertAfter_split:
  "m \<notin> fst ` set xs \<Longrightarrow>
   list_InsertAfter x m (xs @ (m, v) # ys) = xs @ (m, v) # x # ys"
  by (induction xs) auto

lemma list_Remove_split:
  "m \<notin> fst ` set xs \<Longrightarrow> list_Remove m (xs @ (m, v) # ys) = xs @ ys"
  by (induction xs) auto

text \<open>Replacing an element in place: \<open>InsertAfter\<close> followed by \<open>Remove\<close> of the mark.\<close>

lemma list_replace_in_place:
  assumes "m \<notin> fst ` set xs"
  shows "list_Remove m (list_InsertAfter x m (xs @ (m, v) # ys)) = xs @ x # ys"
  using assms by (simp add: list_InsertAfter_split list_Remove_split)

section \<open>Lists and maps\<close>

lemma map_fst_split:
  assumes "distinct (map fst xs)" "(e, v) \<in> set xs"
  obtains as bs where "xs = as @ (e, v) # bs" "e \<notin> fst ` set as" "e \<notin> fst ` set bs"
proof -
  from assms(2) obtain as bs where xs: "xs = as @ (e, v) # bs"
    by (meson split_list)
  with assms(1) have "e \<notin> fst ` set as" "e \<notin> fst ` set bs" by auto
  with xs that show thesis by blast
qed

lemma map_of_filter_None: "k \<notin> fst ` set xs \<Longrightarrow> map_of xs k = None"
  by (simp add: map_of_eq_None_iff)

lemma distinct_map_eqD:
  "distinct (map f xs) \<Longrightarrow> x \<in> set xs \<Longrightarrow> y \<in> set xs \<Longrightarrow> f x = f y \<Longrightarrow> x = y"
  by (auto simp: distinct_map dest: inj_onD)

section \<open>Loops over slices\<close>

text \<open>The index at which a \<open>for i := range xs\<close> loop breaks, if it does.\<close>

fun find_index :: "('a \<Rightarrow> bool) \<Rightarrow> 'a list \<Rightarrow> nat option" where
  "find_index P [] = None"
| "find_index P (x # xs) = (if P x then Some 0 else map_option Suc (find_index P xs))"

lemma find_index_None: "find_index P xs = None \<longleftrightarrow> (\<forall>x \<in> set xs. \<not> P x)"
  by (induction xs) auto

lemma find_index_Some:
  "find_index P xs = Some i \<Longrightarrow> i < length xs \<and> P (xs ! i) \<and> (\<forall>j < i. \<not> P (xs ! j))"
proof (induction xs arbitrary: i)
  case (Cons x xs)
  then show ?case by (auto split: if_splits simp: less_Suc_eq_0_disj)
qed simp

lemma find_index_eqI:
  "i < length xs \<Longrightarrow> P (xs ! i) \<Longrightarrow> (\<And>j. j < i \<Longrightarrow> \<not> P (xs ! j)) \<Longrightarrow> find_index P xs = Some i"
proof (induction xs arbitrary: i)
  case (Cons x xs)
  show ?case
  proof (cases i)
    case (Suc k)
    have "\<not> P (xs ! j)" if "j < k" for j using Cons.prems(3) [of "Suc j"] that Suc by simp
    with Suc Cons.prems(1,2) have "find_index P xs = Some k" by (intro Cons.IH) auto
    with Suc Cons.prems(3) [of 0] show ?thesis by simp
  qed (use Cons.prems(2) in simp)
qed simp

text \<open>Reading past the end of a slice panics.\<close>

definition slice_index :: "'a list \<Rightarrow> int \<Rightarrow> 'a go" where
  "slice_index xs i = (if 0 \<le> i \<and> i < int (length xs) then Ret (xs ! nat i) else Panic IndexOutOfRange)"

definition deref :: "'a option \<Rightarrow> 'a go" where
  "deref p = (case p of Some x \<Rightarrow> Ret x | None \<Rightarrow> Panic NilDereference)"

lemma deref_simps [simp]: "deref (Some x) = Ret x" "deref None = Panic NilDereference"
  by (simp_all add: deref_def)

end
