(* ===== verification/AppTypes.thy ===== *)
theory AppTypes
  imports Prelude
begin

text \<open>
  The Kubernetes data model of \<open>pkg/apis/application/v1alpha1/types.go\<close>: one record per Go
  struct, one field per struct field, in the order of the source.  A field \<open>F\<close> of the struct
  modelled with prefix \<open>p\<close> is \<open>p_F\<close>; an embedded struct is a field named after its type.
  Pointers are options, slices are lists, maps are partial functions; a slice or map whose
  \<open>nil\<close> is distinguished from its empty value by the code (\<open>OptionalMap.Map\<close>,
  \<open>OptionalArray.Array\<close>) is an option.  Named string types are \<open>string\<close>, 64-bit counters that
  the modelled code only stores are \<open>int\<close>.

  The types \<open>TypeMeta\<close>, \<open>ObjectMeta\<close>, \<open>Time\<close>, \<open>RawExtension\<close> and \<open>IntOrString\<close> belong to the
  Kubernetes API machinery: they carry the fields the modelled code reads.
\<close>

section \<open>API machinery data\<close>

type_synonym Time = int

record TypeMeta =
  tm_Kind :: string
  tm_APIVersion :: string

record ObjectMeta =
  om_Name :: string
  om_Namespace :: string
  om_ResourceVersion :: string
  om_DeletionTimestamp :: "Time option"
  om_Labels :: "string \<rightharpoonup> string"
  om_Annotations :: "string \<rightharpoonup> string"
  om_Finalizers :: "string list"

record RawExtension =
  raw_Raw :: "string option"

datatype IntOrString = IntVal int | StrVal string

section \<open>The application resource\<close>

subsection \<open>Small records\<close>

record ResourceIgnoreDifferences =
  rid_Group :: "string"
  rid_Kind :: "string"
  rid_Name :: "string"
  rid_Namespace :: "string"
  rid_JSONPointers :: "string list"
  rid_JQPathExpressions :: "string list"
  rid_ManagedFieldsManagers :: "string list"

record Info =
  info_Name :: "string"
  info_Value :: "string"

record EnvEntry =
  env_Name :: "string"
  env_Value :: "string"

subsection \<open>Source options: Helm\<close>

record HelmParameter =
  hp_Name :: "string"
  hp_Value :: "string"
  hp_ForceString :: "bool"

record HelmFileParameter =
  hfp_Name :: "string"
  hfp_Path :: "string"

record ApplicationSourceHelm =
  helm_ValueFiles :: "string list"
  helm_Parameters :: "HelmParameter list"
  helm_ReleaseName :: "string"
  helm_Values :: "string"
  helm_FileParameters :: "HelmFileParameter list"
  helm_Version :: "string"
  helm_PassCredentials :: "bool"
  helm_IgnoreMissingValueFiles :: "bool"
  helm_SkipCrds :: "bool"
  helm_ValuesObject :: "RawExtension option"
  helm_Namespace :: "string"
  helm_KubeVersion :: "string"
  helm_APIVersions :: "string list"
  helm_SkipTests :: "bool"
  helm_SkipSchemaValidation :: "bool"

subsection \<open>Source options: Kustomize\<close>

record KustomizeGvk =
  kgvk_Group :: "string"
  kgvk_Version :: "string"
  kgvk_Kind :: "string"

record KustomizeResId =
  krid_KustomizeGvk :: "KustomizeGvk"
  krid_Name :: "string"
  krid_Namespace :: "string"

record KustomizeSelector =
  ksel_KustomizeResId :: "KustomizeResId"
  ksel_AnnotationSelector :: "string"
  ksel_LabelSelector :: "string"

record KustomizePatch =
  kp_Path :: "string"
  kp_Patch :: "string"
  kp_Target :: "KustomizeSelector option"
  kp_Options :: "(string \<rightharpoonup> bool)"

record KustomizeReplica =
  kr_Name :: "string"
  kr_Count :: "IntOrString"

record ApplicationSourceKustomize =
  kust_NamePrefix :: "string"
  kust_NameSuffix :: "string"
  kust_Images :: "string list"
  kust_CommonLabels :: "(string \<rightharpoonup> string)"
  kust_Version :: "string"
  kust_CommonAnnotations :: "(string \<rightharpoonup> string)"
  kust_ForceCommonLabels :: "bool"
  kust_ForceCommonAnnotations :: "bool"
  kust_Namespace :: "string"
  kust_CommonAnnotationsEnvsubst :: "bool"
  kust_Replicas :: "KustomizeReplica list"
  kust_Patches :: "KustomizePatch list"
  kust_Components :: "string list"
  kust_IgnoreMissingComponents :: "bool"
  kust_LabelWithoutSelector :: "bool"
  kust_KubeVersion :: "string"
  kust_APIVersions :: "string list"
  kust_LabelIncludeTemplates :: "bool"

subsection \<open>Source options: directories and Jsonnet\<close>

record JsonnetVar =
  jv_Name :: "string"
  jv_Value :: "string"
  jv_Code :: "bool"

record ApplicationSourceJsonnet =
  jsonnet_ExtVars :: "JsonnetVar list"
  jsonnet_TLAs :: "JsonnetVar list"
  jsonnet_Libs :: "string list"

record ApplicationSourceDirectory =
  dir_Recurse :: "bool"
  dir_Jsonnet :: "ApplicationSourceJsonnet"
  dir_Exclude :: "string"
  dir_Include :: "string"

subsection \<open>Source options: plugins\<close>

record OptionalMap =
  optmap_Map :: "(string \<rightharpoonup> string) option"

record OptionalArray =
  optarr_Array :: "string list option"

record ApplicationSourcePluginParameter =
  pp_Name :: "string"
  pp_String :: "string option"
  pp_OptionalMap :: "OptionalMap option"
  pp_OptionalArray :: "OptionalArray option"

record ApplicationSourcePlugin =
  plugin_Name :: "string"
  plugin_Env :: "EnvEntry option list"
  plugin_Parameters :: "ApplicationSourcePluginParameter list"

subsection \<open>Sources and the hydrator\<close>

record ApplicationSource =
  src_RepoURL :: "string"
  src_Path :: "string"
  src_TargetRevision :: "string"
  src_Helm :: "ApplicationSourceHelm option"
  src_Kustomize :: "ApplicationSourceKustomize option"
  src_Directory :: "ApplicationSourceDirectory option"
  src_Plugin :: "ApplicationSourcePlugin option"
  src_Chart :: "string"
  src_Ref :: "string"
  src_Name :: "string"

record DrySource =
  dry_RepoURL :: "string"
  dry_TargetRevision :: "string"
  dry_Path :: "string"

record SyncSource =
  sync_TargetBranch :: "string"
  sync_Path :: "string"

record HydrateTo =
  hydto_TargetBranch :: "string"

record SourceHydrator =
  hyd_DrySource :: "DrySource"
  hyd_SyncSource :: "SyncSource"
  hyd_HydrateTo :: "HydrateTo option"

subsection \<open>Destination, policies and the specification\<close>

record ApplicationDestination =
  dest_Server :: "string"
  dest_Namespace :: "string"
  dest_Name :: "string"

record Backoff =
  backoff_Duration :: "string"
  backoff_Factor :: "int option"
  backoff_MaxDuration :: "string"

record RetryStrategy =
  retry_Limit :: "int"
  retry_Backoff :: "Backoff option"

record SyncPolicyAutomated =
  auto_Prune :: "bool"
  auto_SelfHeal :: "bool"
  auto_AllowEmpty :: "bool"
  auto_Enabled :: "bool option"

record ManagedNamespaceMetadata =
  mnm_Labels :: "(string \<rightharpoonup> string)"
  mnm_Annotations :: "(string \<rightharpoonup> string)"

record SyncPolicy =
  sp_Automated :: "SyncPolicyAutomated option"
  sp_SyncOptions :: "string list"
  sp_Retry :: "RetryStrategy option"
  sp_ManagedNamespaceMetadata :: "ManagedNamespaceMetadata option"

record ApplicationSpec =
  spec_Source :: "ApplicationSource option"
  spec_Destination :: "ApplicationDestination"
  spec_Project :: "string"
  spec_SyncPolicy :: "SyncPolicy option"
  spec_IgnoreDifferences :: "ResourceIgnoreDifferences list"
  spec_Info :: "Info list"
  spec_RevisionHistoryLimit :: "int option"
  spec_Sources :: "ApplicationSource list"
  spec_SourceHydrator :: "SourceHydrator option"

subsection \<open>Health, resources and sync status\<close>

record HealthStatus =
  hs_Status :: "string"
  hs_Message :: "string"
  hs_LastTransitionTime :: "Time option"

record AppHealthStatus =
  ahs_Status :: "string"
  ahs_Message :: "string"
  ahs_LastTransitionTime :: "Time option"

record ResourceStatus =
  rs_Group :: "string"
  rs_Version :: "string"
  rs_Kind :: "string"
  rs_Namespace :: "string"
  rs_Name :: "string"
  rs_Status :: "string"
  rs_Health :: "HealthStatus option"
  rs_Hook :: "bool"
  rs_RequiresPruning :: "bool"
  rs_SyncWave :: "int"
  rs_RequiresDeletionConfirmation :: "bool"

record ComparedTo =
  ct_Source :: "ApplicationSource"
  ct_Destination :: "ApplicationDestination"
  ct_Sources :: "ApplicationSource list"
  ct_IgnoreDifferences :: "ResourceIgnoreDifferences list"

record SyncStatus =
  ss_Status :: "string"
  ss_ComparedTo :: "ComparedTo"
  ss_Revision :: "string"
  ss_Revisions :: "string list"

record OperationInitiator =
  oi_Username :: "string"
  oi_Automated :: "bool"

record RevisionHistory =
  rh_Revision :: "string"
  rh_DeployedAt :: "Time"
  rh_ID :: "int"
  rh_Source :: "ApplicationSource"
  rh_DeployStartedAt :: "Time option"
  rh_Sources :: "ApplicationSource list"
  rh_Revisions :: "string list"
  rh_InitiatedBy :: "OperationInitiator"

record ApplicationCondition =
  cond_Type :: "string"
  cond_Message :: "string"
  cond_LastTransitionTime :: "Time option"

record ApplicationSummary =
  appsum_ExternalURLs :: "string list"
  appsum_Images :: "string list"

subsection \<open>Operations and their results\<close>

record SyncStrategyApply =
  ssa_Force :: "bool"

record SyncStrategyHook =
  ssh_SyncStrategyApply :: "SyncStrategyApply"

record SyncStrategy =
  strat_Apply :: "SyncStrategyApply option"
  strat_Hook :: "SyncStrategyHook option"

record SyncOperationResource =
  sor_Group :: "string"
  sor_Kind :: "string"
  sor_Name :: "string"
  sor_Namespace :: "string"
  sor_Exclude :: "bool"

record SyncOperation =
  so_Revision :: "string"
  so_Prune :: "bool"
  so_DryRun :: "bool"
  so_SyncStrategy :: "SyncStrategy option"
  so_Resources :: "SyncOperationResource list"
  so_Source :: "ApplicationSource option"
  so_Manifests :: "string list"
  so_SyncOptions :: "string list"
  so_Sources :: "ApplicationSource list"
  so_Revisions :: "string list"
  so_SelfHealAttemptsCount :: "int"

record Operation =
  op_Sync :: "SyncOperation option"
  op_InitiatedBy :: "OperationInitiator"
  op_Info :: "Info option list"
  op_Retry :: "RetryStrategy"

record ResourceResult =
  rr_Group :: "string"
  rr_Version :: "string"
  rr_Kind :: "string"
  rr_Namespace :: "string"
  rr_Name :: "string"
  rr_Status :: "string"
  rr_Message :: "string"
  rr_HookType :: "string"
  rr_HookPhase :: "string"
  rr_SyncPhase :: "string"
  rr_Images :: "string list"

record SyncOperationResult =
  sr_Resources :: "ResourceResult option list"
  sr_Revision :: "string"
  sr_Source :: "ApplicationSource"
  sr_Sources :: "ApplicationSource list"
  sr_Revisions :: "string list"
  sr_ManagedNamespaceMetadata :: "ManagedNamespaceMetadata option"

record OperationState =
  ops_Operation :: "Operation"
  ops_Phase :: "string"
  ops_Message :: "string"
  ops_SyncResult :: "SyncOperationResult option"
  ops_StartedAt :: "Time"
  ops_FinishedAt :: "Time option"
  ops_RetryCount :: "int"

subsection \<open>Status and the application itself\<close>

record SuccessfulHydrateOperation =
  sho_DrySHA :: "string"
  sho_HydratedSHA :: "string"
  sho_SourceHydrator :: "SourceHydrator"

record HydrateOperation =
  ho_StartedAt :: "Time"
  ho_FinishedAt :: "Time option"
  ho_Phase :: "string"
  ho_Message :: "string"
  ho_DrySHA :: "string"
  ho_HydratedSHA :: "string"
  ho_SourceHydrator :: "SourceHydrator"

record SourceHydratorStatus =
  shs_LastSuccessfulOperation :: "SuccessfulHydrateOperation option"
  shs_CurrentOperation :: "HydrateOperation option"

record ApplicationStatus =
  status_Resources :: "ResourceStatus list"
  status_Sync :: "SyncStatus"
  status_Health :: "AppHealthStatus"
  status_History :: "RevisionHistory list"
  status_Conditions :: "ApplicationCondition list"
  status_ReconciledAt :: "Time option"
  status_OperationState :: "OperationState option"
  status_ObservedAt :: "Time option"
  status_SourceType :: "string"
  status_Summary :: "ApplicationSummary"
  status_ResourceHealthSource :: "string"
  status_SourceTypes :: "string list"
  status_ControllerNamespace :: "string"
  status_SourceHydrator :: "SourceHydratorStatus"

record Application =
  app_TypeMeta :: "TypeMeta"
  app_ObjectMeta :: "ObjectMeta"
  app_Spec :: "ApplicationSpec"
  app_Status :: "ApplicationStatus"
  app_Operation :: "Operation option"

record ApplicationWatchEvent =
  ev_Type :: "string"
  ev_Application :: "Application"

text \<open>Promoted fields of the embedded \<open>ObjectMeta\<close>.\<close>

abbreviation app_Name :: "Application \<Rightarrow> string" where
  "app_Name a \<equiv> om_Name (app_ObjectMeta a)"

abbreviation app_Namespace :: "Application \<Rightarrow> string" where
  "app_Namespace a \<equiv> om_Namespace (app_ObjectMeta a)"

abbreviation app_Annotations :: "Application \<Rightarrow> (string \<rightharpoonup> string)" where
  "app_Annotations a \<equiv> om_Annotations (app_ObjectMeta a)"

section \<open>Zero values\<close>

text \<open>The zero values of the structs, as Go's composite literals with missing fields give them.\<close>

definition zero_TypeMeta :: TypeMeta where
    "zero_TypeMeta = \<lparr>tm_Kind = [], tm_APIVersion = []\<rparr>"

definition zero_ObjectMeta :: ObjectMeta where
    "zero_ObjectMeta = \<lparr>om_Name = [], om_Namespace = [], om_ResourceVersion = [],
     om_DeletionTimestamp = None, om_Labels = Map.empty, om_Annotations = Map.empty,
     om_Finalizers = []\<rparr>"

definition zero_ApplicationDestination :: ApplicationDestination where
    "zero_ApplicationDestination = \<lparr>dest_Server = [], dest_Namespace = [], dest_Name =
     []\<rparr>"

definition zero_ApplicationSpec :: ApplicationSpec where
    "zero_ApplicationSpec = \<lparr>spec_Source = None, spec_Destination =
     zero_ApplicationDestination, spec_Project = [], spec_SyncPolicy = None,
     spec_IgnoreDifferences = [], spec_Info = [], spec_RevisionHistoryLimit = None,
     spec_Sources = [], spec_SourceHydrator = None\<rparr>"

definition zero_ApplicationSource :: ApplicationSource where
    "zero_ApplicationSource = \<lparr>src_RepoURL = [], src_Path = [], src_TargetRevision = [],
     src_Helm = None, src_Kustomize = None, src_Directory = None, src_Plugin = None, src_Chart
     = [], src_Ref = [], src_Name = []\<rparr>"

definition zero_ComparedTo :: ComparedTo where
    "zero_ComparedTo = \<lparr>ct_Source = zero_ApplicationSource, ct_Destination =
     zero_ApplicationDestination, ct_Sources = [], ct_IgnoreDifferences = []\<rparr>"

definition zero_SyncStatus :: SyncStatus where
    "zero_SyncStatus = \<lparr>ss_Status = [], ss_ComparedTo = zero_ComparedTo, ss_Revision =
     [], ss_Revisions = []\<rparr>"

definition zero_AppHealthStatus :: AppHealthStatus where
    "zero_AppHealthStatus = \<lparr>ahs_Status = [], ahs_Message = [], ahs_LastTransitionTime =
     None\<rparr>"

definition zero_ApplicationSummary :: ApplicationSummary where
    "zero_ApplicationSummary = \<lparr>appsum_ExternalURLs = [], appsum_Images = []\<rparr>"

definition zero_SourceHydratorStatus :: SourceHydratorStatus where
    "zero_SourceHydratorStatus = \<lparr>shs_LastSuccessfulOperation = None,
     shs_CurrentOperation = None\<rparr>"

definition zero_ApplicationStatus :: ApplicationStatus where
    "zero_ApplicationStatus = \<lparr>status_Resources = [], status_Sync = zero_SyncStatus,
     status_Health = zero_AppHealthStatus, status_History = [], status_Conditions = [],
     status_ReconciledAt = None, status_OperationState = None, status_ObservedAt = None,
     status_SourceType = [], status_Summary = zero_ApplicationSummary,
     status_ResourceHealthSource = [], status_SourceTypes = [], status_ControllerNamespace =
     [], status_SourceHydrator = zero_SourceHydratorStatus\<rparr>"

definition zero_Application :: Application where
    "zero_Application = \<lparr>app_TypeMeta = zero_TypeMeta, app_ObjectMeta = zero_ObjectMeta,
     app_Spec = zero_ApplicationSpec, app_Status = zero_ApplicationStatus, app_Operation =
     None\<rparr>"

lemmas zero_defs [go_simps] =
  zero_TypeMeta_def zero_ObjectMeta_def zero_ApplicationDestination_def
  zero_ApplicationSpec_def zero_ApplicationSource_def zero_ComparedTo_def zero_SyncStatus_def
  zero_AppHealthStatus_def zero_ApplicationSummary_def zero_SourceHydratorStatus_def
  zero_ApplicationStatus_def zero_Application_def

end
