(* ===== verification/WorkQueue.thy ===== *)
theory WorkQueue
  imports Prelude
begin

text \<open>
  The contract of a coalescing work queue, as the clients of \<open>KeyedAppQueue\<close> rely on it.
  A key is \<^emph>\<open>waiting\<close> (in FIFO order) or \<^emph>\<open>active\<close> (handed to a worker and not finished);
  \<open>latest\<close> gives the newest value of a key that has not been handed out yet.  The locale
  \<open>keyed_workqueue\<close> fixes the operations and their laws; the lemmas on whole runs (only
  the newest value is delivered, nothing is lost, a key is never active twice, a waiting key
  is delivered within as many deliveries as its position) are proved once from the laws.
\<close>

section \<open>Runs of a work queue\<close>

datatype ('k, 'a) wq_op = EnqueueOp 'a | DequeueOp | DoneOp 'k

datatype ('k, 'a) wq_event = Added 'a | Delivered 'k 'a | Finished 'k

text \<open>A run applies the operations in order and records what they did, oldest event first.\<close>

fun wq_run :: "('a \<Rightarrow> 's \<Rightarrow> 's) \<Rightarrow> ('s \<Rightarrow> (('k \<times> 'a) \<times> 's) option) \<Rightarrow> ('k \<Rightarrow> 's \<Rightarrow> 's)
    \<Rightarrow> ('k, 'a) wq_op list \<Rightarrow> 's \<Rightarrow> ('k, 'a) wq_event list \<times> 's" where
  "wq_run enq deq fin [] s = ([], s)"
| "wq_run enq deq fin (EnqueueOp a # ops) s =
     (let (evs, s') = wq_run enq deq fin ops (enq a s) in (Added a # evs, s'))"
| "wq_run enq deq fin (DequeueOp # ops) s =
     (case deq s of
        None \<Rightarrow> wq_run enq deq fin ops s
      | Some ((k, a), s1) \<Rightarrow>
          let (evs, s') = wq_run enq deq fin ops s1 in (Delivered k a # evs, s'))"
| "wq_run enq deq fin (DoneOp k # ops) s =
     (let (evs, s') = wq_run enq deq fin ops (fin k s) in (Finished k # evs, s'))"

text \<open>
  Readings of an event history, given what held before it: the newest value added for a key
  and not delivered since, and whether the key has been delivered and not finished since.
\<close>

fun newest_after :: "('a \<Rightarrow> 'k) \<Rightarrow> ('k, 'a) wq_event list \<Rightarrow> 'k \<Rightarrow> 'a option \<Rightarrow> 'a option" where
  "newest_after key [] k v = v"
| "newest_after key (Added a # evs) k v = newest_after key evs k (if key a = k then Some a else v)"
| "newest_after key (Delivered k' a # evs) k v = newest_after key evs k (if k' = k then None else v)"
| "newest_after key (Finished k' # evs) k v = newest_after key evs k v"

fun active_after :: "('k, 'a) wq_event list \<Rightarrow> 'k \<Rightarrow> bool \<Rightarrow> bool" where
  "active_after [] k b = b"
| "active_after (Added a # evs) k b = active_after evs k b"
| "active_after (Delivered k' a # evs) k b = active_after evs k (k = k' \<or> b)"
| "active_after (Finished k' # evs) k b = active_after evs k (b \<and> k \<noteq> k')"

fun delivered :: "('k, 'a) wq_event list \<Rightarrow> 'k list" where
  "delivered [] = []"
| "delivered (Delivered k a # evs) = k # delivered evs"
| "delivered (_ # evs) = delivered evs"

lemma active_after_no_Finished:
  "Finished k \<notin> set evs \<Longrightarrow> b \<Longrightarrow> active_after evs k b"
  by (induction evs k b rule: active_after.induct) auto

lemma newest_after_append [simp]:
  "newest_after key (xs @ ys) k v = newest_after key ys k (newest_after key xs k v)"
  by (induction key xs k v rule: newest_after.induct) simp_all

lemma active_after_append [simp]:
  "active_after (xs @ ys) k b = active_after ys k (active_after xs k b)"
  by (induction xs k b rule: active_after.induct) simp_all

section \<open>The contract\<close>

locale keyed_workqueue =
  fixes enqueue :: "'a \<Rightarrow> 's \<Rightarrow> 's"
    and dequeue :: "'s \<Rightarrow> (('k \<times> 'a) \<times> 's) option"
    and finish :: "'k \<Rightarrow> 's \<Rightarrow> 's"
    and inv :: "'s \<Rightarrow> bool"
    and key :: "'a \<Rightarrow> 'k"
    and waiting :: "'s \<Rightarrow> 'k list"
    and latest :: "'s \<Rightarrow> 'k \<Rightarrow> 'a option"
    and active :: "'s \<Rightarrow> 'k set"
  assumes inv_enqueue: "inv s \<Longrightarrow> inv (enqueue a s)"
    and inv_dequeue: "inv s \<Longrightarrow> dequeue s = Some (r, s') \<Longrightarrow> inv s'"
    and inv_finish: "inv s \<Longrightarrow> inv (finish k s)"
    and waiting_distinct: "inv s \<Longrightarrow> distinct (waiting s)"
    and waiting_inactive: "inv s \<Longrightarrow> k \<in> set (waiting s) \<Longrightarrow> k \<notin> active s"
    and latest_dom: "inv s \<Longrightarrow> k \<notin> active s \<Longrightarrow> (latest s k \<noteq> None) = (k \<in> set (waiting s))"
    and waiting_enqueue: "inv s \<Longrightarrow> waiting (enqueue a s) =
      (if key a \<in> active s \<or> key a \<in> set (waiting s) then waiting s else waiting s @ [key a])"
    and latest_enqueue: "inv s \<Longrightarrow> latest (enqueue a s) = (latest s)(key a \<mapsto> a)"
    and active_enqueue: "inv s \<Longrightarrow> active (enqueue a s) = active s"
    and dequeue_None: "inv s \<Longrightarrow> (dequeue s = None) = (waiting s = [])"
    and dequeue_Some: "inv s \<Longrightarrow> dequeue s = Some ((k, a), s') \<Longrightarrow>
      waiting s = k # waiting s' \<and> latest s k = Some a \<and>
      latest s' = (latest s)(k := None) \<and> active s' = insert k (active s)"
    and waiting_finish: "inv s \<Longrightarrow> waiting (finish k s) =
      (if k \<in> active s \<and> latest s k \<noteq> None then waiting s @ [k] else waiting s)"
    and latest_finish: "inv s \<Longrightarrow> latest (finish k s) = latest s"
    and active_finish: "inv s \<Longrightarrow> active (finish k s) = active s - {k}"
begin

lemmas inv_laws = inv_enqueue inv_dequeue inv_finish

abbreviation run :: "('k, 'a) wq_op list \<Rightarrow> 's \<Rightarrow> ('k, 'a) wq_event list \<times> 's" where
  "run \<equiv> wq_run enqueue dequeue finish"

text \<open>Induction over a run: the empty run and the three ways an event extends it.\<close>

lemma run_induct [consumes 2, case_names Nil Enqueue Dequeue Done]:
  assumes "inv s" "run ops s = (evs, s')"
    and "\<And>s. inv s \<Longrightarrow> P s [] s"
    and "\<And>s a evs s'. inv s \<Longrightarrow> inv (enqueue a s) \<Longrightarrow> P (enqueue a s) evs s' \<Longrightarrow> P s (Added a # evs) s'"
    and "\<And>s k a s1 evs s'. inv s \<Longrightarrow> inv s1 \<Longrightarrow> dequeue s = Some ((k, a), s1) \<Longrightarrow>
      P s1 evs s' \<Longrightarrow> P s (Delivered k a # evs) s'"
    and "\<And>s k evs s'. inv s \<Longrightarrow> inv (finish k s) \<Longrightarrow> P (finish k s) evs s' \<Longrightarrow> P s (Finished k # evs) s'"
  shows "P s evs s'"
  using assms(1,2)
proof (induction ops arbitrary: s evs)
  case (Cons op ops)
  then show ?case
    by (cases op) (auto split: option.splits prod.splits
        intro: assms(4-6) inv_enqueue inv_finish dest: inv_dequeue)
qed (simp add: assms(3))

lemma run_inv: "inv s \<Longrightarrow> run ops s = (evs, s') \<Longrightarrow> inv s'"
  by (induction rule: run_induct)

lemma run_latest:
  "inv s \<Longrightarrow> run ops s = (evs, s') \<Longrightarrow> latest s' k = newest_after key evs k (latest s k)"
proof (induction rule: run_induct)
  case (Dequeue s k a s1 evs s')
  then show ?case using dequeue_Some by simp
qed (simp_all add: latest_enqueue latest_finish)

lemma run_active:
  "inv s \<Longrightarrow> run ops s = (evs, s') \<Longrightarrow> (k \<in> active s') = active_after evs k (k \<in> active s)"
proof (induction rule: run_induct)
  case (Dequeue s k a s1 evs s')
  then show ?case using dequeue_Some by (auto simp: eq_commute)
qed (auto simp: active_enqueue active_finish)

text \<open>Every delivery of a run: the value is the newest one, and the key was not active.\<close>

lemma run_delivery:
  "inv s \<Longrightarrow> run ops s = (pre @ Delivered k a # post, s') \<Longrightarrow>
   newest_after key pre k (latest s k) = Some a \<and> \<not> active_after pre k (k \<in> active s)"
proof (induction s "pre @ Delivered k a # post" s' arbitrary: pre rule: run_induct)
  case (Enqueue s b evs s')
  then show ?case by (cases pre) (auto simp: latest_enqueue active_enqueue)
next
  case (Dequeue s k' b s1 evs s')
  note d = dequeue_Some [OF Dequeue(1,3)]
  show ?case
  proof (cases pre)
    case Nil
    with Dequeue.hyps(1,5) d waiting_inactive [of s k'] show ?thesis by simp
  next
    case (Cons e pre')
    with Dequeue.hyps d show ?thesis by (auto simp: eq_commute)
  qed
next
  case (Done s k' evs s')
  then show ?case by (cases pre) (auto simp: latest_finish active_finish)
qed simp

text \<open>Between two deliveries of one key the key is finished.\<close>

lemma run_exclusive:
  assumes "inv s" "run ops s = (pre @ Delivered k a # mid @ Delivered k b # post, s')"
  shows "Finished k \<in> set mid"
proof (rule ccontr)
  assume "Finished k \<notin> set mid"
  then have "active_after (pre @ Delivered k a # mid) k (k \<in> active s)"
    by (simp add: active_after_no_Finished)
  with run_delivery [of s ops "pre @ Delivered k a # mid" k b post s'] assms show False by simp
qed

text \<open>
  First come, first served: what is delivered first is what was waiting, in order; enqueueing
  and finishing only ever extend the waiting keys at the end.
\<close>

lemma run_fifo:
  "inv s \<Longrightarrow> run ops s = (evs, s') \<Longrightarrow> n \<le> length (waiting s) \<Longrightarrow> n \<le> length (delivered evs) \<Longrightarrow>
   take n (delivered evs) = take n (waiting s)"
proof (induction arbitrary: n rule: run_induct)
  case (Enqueue s a evs s')
  from Enqueue.IH [of n] Enqueue.prems show ?case
    by (cases "key a \<in> active s \<or> key a \<in> set (waiting s)")
       (simp_all add: waiting_enqueue [OF Enqueue.hyps(1)])
next
  case (Dequeue s k' a s1 evs s')
  from Dequeue.IH [of "n - 1"] Dequeue.prems dequeue_Some [OF Dequeue.hyps(1,3)]
  show ?case by (cases n) auto
next
  case (Done s k' evs s')
  from Done.IH [of n] Done.prems show ?case
    by (cases "k' \<in> active s \<and> latest s k' \<noteq> None") 
       (simp_all add: waiting_finish [OF Done.hyps(1)])
qed simp

end

end
