(* ===== verification/AppQueue.thy ===== *)
theory AppQueue
  imports AppTypes WorkQueue
begin

text \<open>
  The keyed application queue of \<open>mrp_controller/controller/appqueue.go\<close>: the operations of
  \<open>KeyedAppQueue\<close> on its linked list, key map, processing set and pending map, the invariant
  they keep, and the coalescing work queue they implement, stated as the locale
  \<open>keyed_workqueue\<close> and discharged for the model.

  The mutex makes every operation atomic, so each is a function on the whole queue state.
  The condition variable \<open>notEmpty\<close> is the pair of counters \<open>kq_waiters\<close> (goroutines blocked
  in \<open>Wait\<close>) and \<open>kq_woken\<close> (signalled, not yet running).  A \<open>list.Element\<close> is an address taken
  from \<open>kq_next\<close>.  The gauge is \<open>None\<close> while no gauge is set and otherwise the last value
  reported (a count far below the range where \<open>float64\<close> is exact).
\<close>

section \<open>State and operations\<close>

record AppQueueItem =
  item_Key :: string
  item_Value :: Application

record KeyedAppQueue =
  kq_items :: "(nat \<times> AppQueueItem) list"
  kq_keyMap :: "string \<rightharpoonup> nat"
  kq_processing :: "string set"
  kq_pending :: "string \<rightharpoonup> Application"
  kq_lengthGauge :: "nat option"
  kq_waiters :: nat
  kq_woken :: nat
  kq_next :: nat

definition NewKeyedAppQueue :: KeyedAppQueue where
  "NewKeyedAppQueue = \<lparr>kq_items = [], kq_keyMap = Map.empty, kq_processing = {},
     kq_pending = Map.empty, kq_lengthGauge = None, kq_waiters = 0, kq_woken = 0, kq_next = 0\<rparr>"

definition app_key :: "Application \<Rightarrow> string" where
  "app_key app = app_Namespace app @ ''/'' @ app_Name app"

definition reportQueueLength :: "KeyedAppQueue \<Rightarrow> KeyedAppQueue" where
  "reportQueueLength kq =
     (case kq_lengthGauge kq of
        None \<Rightarrow> kq
      | Some _ \<Rightarrow> kq\<lparr>kq_lengthGauge := Some (length (kq_items kq) + card (dom (kq_pending kq)))\<rparr>)"

text \<open>\<open>Cond.Signal\<close> wakes one waiting goroutine, if there is any.\<close>

definition cond_Signal :: "KeyedAppQueue \<Rightarrow> KeyedAppQueue" where
  "cond_Signal kq =
     (if kq_waiters kq = 0 then kq
      else kq\<lparr>kq_waiters := kq_waiters kq - 1, kq_woken := Suc (kq_woken kq)\<rparr>)"

definition enqueueLocked :: "Application \<Rightarrow> KeyedAppQueue \<Rightarrow> KeyedAppQueue" where
  "enqueueLocked app kq =
     (let key = app_key app in
      if key \<in> kq_processing kq
      then reportQueueLength (kq\<lparr>kq_pending := (kq_pending kq)(key \<mapsto> app)\<rparr>)
      else
        let item = \<lparr>item_Key = key, item_Value = app\<rparr>;
            newElem = kq_next kq;
            items' = (case kq_keyMap kq key of
                        Some elem \<Rightarrow>
                          list_Remove elem (list_InsertAfter (newElem, item) elem (kq_items kq))
                      | None \<Rightarrow> kq_items kq @ [(newElem, item)])
        in reportQueueLength (cond_Signal
             (kq\<lparr>kq_items := items', kq_keyMap := (kq_keyMap kq)(key \<mapsto> newElem),
                 kq_next := Suc newElem\<rparr>)))"

definition Enqueue :: "Application \<Rightarrow> KeyedAppQueue \<Rightarrow> KeyedAppQueue" where
  "Enqueue app kq = enqueueLocked app kq"

definition SetLengthGauge :: "KeyedAppQueue \<Rightarrow> KeyedAppQueue" where
  "SetLengthGauge kq = reportQueueLength (kq\<lparr>kq_lengthGauge := Some 0\<rparr>)"

text \<open>
  One pass of \<open>DequeueWait\<close> from the loop test to its return or to \<open>notEmpty.Wait()\<close>.
  A blocked goroutine runs the pass again once it has been woken (\<open>DequeueWait_wake\<close>).
\<close>

datatype dequeue_result = Dequeued AppQueueItem | DequeueCancelled | DequeueBlocked

definition DequeueWait :: "bool \<Rightarrow> KeyedAppQueue \<Rightarrow> dequeue_result \<times> KeyedAppQueue" where
  "DequeueWait ctxDone kq =
     (case kq_items kq of
        [] \<Rightarrow> if ctxDone then (DequeueCancelled, kq)
              else (DequeueBlocked, kq\<lparr>kq_waiters := Suc (kq_waiters kq)\<rparr>)
      | elem # _ \<Rightarrow>
          let item = snd elem in
          (Dequeued item,
           reportQueueLength
             (kq\<lparr>kq_items := list_Remove (fst elem) (kq_items kq),
                 kq_keyMap := (kq_keyMap kq)(item_Key item := None),
                 kq_processing := insert (item_Key item) (kq_processing kq)\<rparr>)))"

definition DequeueWait_wake :: "KeyedAppQueue \<Rightarrow> KeyedAppQueue" where
  "DequeueWait_wake kq = kq\<lparr>kq_woken := kq_woken kq - 1\<rparr>"

definition Done :: "string \<Rightarrow> KeyedAppQueue \<Rightarrow> KeyedAppQueue" where
  "Done key kq =
     (if key \<notin> kq_processing kq then kq
      else
        let kq1 = kq\<lparr>kq_processing := kq_processing kq - {key}\<rparr> in
        case kq_pending kq1 key of
          None \<Rightarrow> kq1
        | Some app \<Rightarrow> enqueueLocked app (kq1\<lparr>kq_pending := (kq_pending kq1)(key := None)\<rparr>))"

section \<open>The invariant\<close>

abbreviation item_keys :: "KeyedAppQueue \<Rightarrow> string list" where
  "item_keys kq \<equiv> map (item_Key \<circ> snd) (kq_items kq)"

definition key_elems :: "(nat \<times> AppQueueItem) list \<Rightarrow> (string \<times> nat) list" where
  "key_elems its = map (\<lambda>x. (item_Key (snd x), fst x)) its"

definition keyMap_ok :: "KeyedAppQueue \<Rightarrow> bool" where
  "keyMap_ok kq \<longleftrightarrow> kq_keyMap kq = map_of (key_elems (kq_items kq))"

definition queue_inv :: "KeyedAppQueue \<Rightarrow> bool" where
  "queue_inv kq \<longleftrightarrow>
     distinct (map fst (kq_items kq)) \<and> distinct (item_keys kq) \<and> keyMap_ok kq \<and>
     (\<forall>x \<in> set (kq_items kq). fst x < kq_next kq \<and>
        item_Key (snd x) = app_key (item_Value (snd x)) \<and>
        item_Key (snd x) \<notin> kq_processing kq) \<and>
     dom (kq_pending kq) \<subseteq> kq_processing kq \<and>
     (\<forall>k a. kq_pending kq k = Some a \<longrightarrow> app_key a = k) \<and>
     finite (kq_processing kq)"

text \<open>No wake-up is lost: a goroutine sleeps only while every queued item has a woken taker.\<close>

definition wakeup_inv :: "KeyedAppQueue \<Rightarrow> bool" where
  "wakeup_inv kq \<longleftrightarrow> (kq_waiters kq > 0 \<longrightarrow> length (kq_items kq) \<le> kq_woken kq)"

definition gauge_ok :: "KeyedAppQueue \<Rightarrow> bool" where
  "gauge_ok kq \<longleftrightarrow>
     (case kq_lengthGauge kq of None \<Rightarrow> True
      | Some g \<Rightarrow> g = length (kq_items kq) + card (dom (kq_pending kq)))"

section \<open>Preservation\<close>

lemma reportQueueLength_sel [simp]:
  "kq_items (reportQueueLength kq) = kq_items kq"
  "kq_keyMap (reportQueueLength kq) = kq_keyMap kq"
  "kq_processing (reportQueueLength kq) = kq_processing kq"
  "kq_pending (reportQueueLength kq) = kq_pending kq"
  "kq_waiters (reportQueueLength kq) = kq_waiters kq"
  "kq_woken (reportQueueLength kq) = kq_woken kq"
  "kq_next (reportQueueLength kq) = kq_next kq"
  by (simp_all add: reportQueueLength_def split: option.split)

lemma cond_Signal_sel [simp]:
  "kq_items (cond_Signal kq) = kq_items kq"
  "kq_keyMap (cond_Signal kq) = kq_keyMap kq"
  "kq_processing (cond_Signal kq) = kq_processing kq"
  "kq_pending (cond_Signal kq) = kq_pending kq"
  "kq_next (cond_Signal kq) = kq_next kq"
  "kq_lengthGauge (cond_Signal kq) = kq_lengthGauge kq"
  by (simp_all add: cond_Signal_def)

lemma gauge_ok_reportQueueLength [simp, intro]: "gauge_ok (reportQueueLength kq)"
  by (simp add: gauge_ok_def reportQueueLength_def split: option.split)

lemma key_elems_simps [simp]:
  "key_elems [] = []"
  "key_elems ((e, it) # its) = (item_Key it, e) # key_elems its"
  "key_elems (xs @ ys) = key_elems xs @ key_elems ys"
  "fst ` set (key_elems its) = (item_Key \<circ> snd) ` set its"
  by (auto simp: key_elems_def image_image)

lemma map_of_key_elems:
  assumes "distinct (map (item_Key \<circ> snd) its)" "map_of (key_elems its) k = Some e"
  obtains as old bs where "its = as @ (e, old) # bs" "item_Key old = k"
    "k \<notin> (item_Key \<circ> snd) ` set as" "k \<notin> (item_Key \<circ> snd) ` set bs"
proof -
  from assms(2) have "(k, e) \<in> set (key_elems its)" by (rule map_of_SomeD)
  then obtain old where "(e, old) \<in> set its" "item_Key old = k"
    by (auto simp: key_elems_def)
  moreover from this obtain as bs where "its = as @ (e, old) # bs" by (meson split_list)
  ultimately show thesis using assms(1) that by (auto simp: image_iff)
qed

lemma map_of_key_elems_None:
  "map_of (key_elems its) k = None \<longleftrightarrow> k \<notin> (item_Key \<circ> snd) ` set its"
  by (simp add: map_of_eq_None_iff)

lemma queue_invD:
  assumes "queue_inv kq"
  shows "distinct (map fst (kq_items kq))" "distinct (item_keys kq)"
    "kq_keyMap kq = map_of (key_elems (kq_items kq))"
    "\<And>x. x \<in> set (kq_items kq) \<Longrightarrow> fst x < kq_next kq"
    "\<And>x. x \<in> set (kq_items kq) \<Longrightarrow> item_Key (snd x) = app_key (item_Value (snd x))"
    "\<And>x. x \<in> set (kq_items kq) \<Longrightarrow> item_Key (snd x) \<notin> kq_processing kq"
    "dom (kq_pending kq) \<subseteq> kq_processing kq"
    "\<And>k a. kq_pending kq k = Some a \<Longrightarrow> app_key a = k"
    "finite (kq_processing kq)"
  using assms by (auto simp: queue_inv_def keyMap_ok_def)

lemma map_of_key_elems_replace:
  assumes "item_Key old \<notin> (item_Key \<circ> snd) ` set as" "item_Key it = item_Key old"
  shows "map_of (key_elems (as @ (n, it) # bs)) =
    (map_of (key_elems (as @ (e, old) # bs)))(item_Key old \<mapsto> n)"
proof -
  from assms(1) have "map_of (key_elems as) (item_Key old) = None"
    by (simp add: map_of_key_elems_None)
  with assms(2) show ?thesis by (auto simp: map_add_def fun_eq_iff split: option.splits)
qed

lemma map_of_key_elems_append:
  assumes "item_Key it \<notin> (item_Key \<circ> snd) ` set its"
  shows "map_of (key_elems (its @ [(n, it)])) = (map_of (key_elems its))(item_Key it \<mapsto> n)"
proof -
  from assms have "map_of (key_elems its) (item_Key it) = None"
    by (simp add: map_of_key_elems_None)
  then show ?thesis by (auto simp: map_add_def fun_eq_iff split: option.splits)
qed

text \<open>
  What \<open>enqueueLocked\<close> does to the list of a well-formed queue: the element of the same key
  is replaced where it stands, or a new element is appended.
\<close>

lemma enqueueLocked_cases [consumes 1, case_names processing replace append]:
  assumes inv: "queue_inv kq"
  obtains
    (processing) "app_key app \<in> kq_processing kq"
      "enqueueLocked app kq =
         reportQueueLength (kq\<lparr>kq_pending := (kq_pending kq)(app_key app \<mapsto> app)\<rparr>)"
  | (replace) as e old bs where "app_key app \<notin> kq_processing kq"
      "kq_items kq = as @ (e, old) # bs" "item_Key old = app_key app"
      "enqueueLocked app kq = reportQueueLength (cond_Signal
         (kq\<lparr>kq_items := as @ (kq_next kq, \<lparr>item_Key = app_key app, item_Value = app\<rparr>) # bs,
             kq_keyMap := (kq_keyMap kq)(app_key app \<mapsto> kq_next kq), kq_next := Suc (kq_next kq)\<rparr>))"
  | (append) "app_key app \<notin> kq_processing kq" "app_key app \<notin> set (item_keys kq)"
      "enqueueLocked app kq = reportQueueLength (cond_Signal
         (kq\<lparr>kq_items := kq_items kq @ [(kq_next kq, \<lparr>item_Key = app_key app, item_Value = app\<rparr>)],
             kq_keyMap := (kq_keyMap kq)(app_key app \<mapsto> kq_next kq), kq_next := Suc (kq_next kq)\<rparr>))"
proof (cases "app_key app \<in> kq_processing kq")
  case True
  then show thesis by (auto intro: that(1) simp: enqueueLocked_def)
next
  case False
  show thesis
  proof (cases "kq_keyMap kq (app_key app)")
    case None
    with inv have "app_key app \<notin> set (item_keys kq)"
      by (simp add: queue_inv_def keyMap_ok_def map_of_key_elems_None)
    with False None show thesis by (intro that(3)) (simp_all add: enqueueLocked_def Let_def)
  next
    case (Some e)
    with inv obtain as old bs where its: "kq_items kq = as @ (e, old) # bs"
      "item_Key old = app_key app"
      by (auto simp: queue_inv_def keyMap_ok_def elim: map_of_key_elems)
    with inv have "e \<notin> fst ` set as" by (auto simp: queue_inv_def)
    with False Some its show thesis
      by (auto intro!: that(2) simp: enqueueLocked_def list_replace_in_place Let_def)
  qed
qed

lemma queue_inv_NewKeyedAppQueue [simp]: "queue_inv NewKeyedAppQueue"
  by (simp add: NewKeyedAppQueue_def queue_inv_def keyMap_ok_def)

lemma queue_inv_reportQueueLength [simp]: "queue_inv (reportQueueLength kq) = queue_inv kq"
  by (simp add: queue_inv_def keyMap_ok_def)

lemma queue_inv_cond_Signal [simp]: "queue_inv (cond_Signal kq) = queue_inv kq"
  by (simp add: queue_inv_def keyMap_ok_def)

lemma queue_inv_next_fresh:
  assumes "queue_inv kq"
  shows "kq_next kq \<notin> fst ` set (kq_items kq)"
proof
  assume "kq_next kq \<in> fst ` set (kq_items kq)"
  then obtain x where "x \<in> set (kq_items kq)" "fst x = kq_next kq" by force
  with queue_invD(4) [OF assms, of x] show False by simp
qed

lemma queue_invI:
  assumes "distinct (map fst (kq_items kq))" "distinct (item_keys kq)"
    "kq_keyMap kq = map_of (key_elems (kq_items kq))"
    "\<And>x. x \<in> set (kq_items kq) \<Longrightarrow> fst x < kq_next kq"
    "\<And>x. x \<in> set (kq_items kq) \<Longrightarrow> item_Key (snd x) = app_key (item_Value (snd x))"
    "\<And>x. x \<in> set (kq_items kq) \<Longrightarrow> item_Key (snd x) \<notin> kq_processing kq"
    "dom (kq_pending kq) \<subseteq> kq_processing kq"
    "\<And>k a. kq_pending kq k = Some a \<Longrightarrow> app_key a = k"
    "finite (kq_processing kq)"
  shows "queue_inv kq"
  unfolding queue_inv_def keyMap_ok_def using assms by blast

text \<open>
  Both ways of adding an element: a fresh element with the given key enters a list that has
  no other element of that key.
\<close>

lemma queue_inv_add_item:
  assumes inv: "queue_inv kq" and sub: "set as \<union> set bs \<subseteq> set (kq_items kq)"
    and dist: "distinct (map fst (as @ bs))" "distinct (map (item_Key \<circ> snd) (as @ bs))"
    and key: "app_key app \<notin> kq_processing kq"
      "app_key app \<notin> (item_Key \<circ> snd) ` set (as @ bs)"
    and km: "(kq_keyMap kq)(app_key app \<mapsto> kq_next kq) =
      map_of (key_elems (as @ (kq_next kq, \<lparr>item_Key = app_key app, item_Value = app\<rparr>) # bs))"
  shows "queue_inv
    (kq\<lparr>kq_items := as @ (kq_next kq, \<lparr>item_Key = app_key app, item_Value = app\<rparr>) # bs,
        kq_keyMap := (kq_keyMap kq)(app_key app \<mapsto> kq_next kq), kq_next := Suc (kq_next kq)\<rparr>)"
proof (rule queue_invI, goal_cases)
  case 1
  from queue_inv_next_fresh [OF inv] sub have "kq_next kq \<notin> fst ` set as" "kq_next kq \<notin> fst ` set bs"
    by auto
  with dist(1) show ?case by simp
next
  case 2
  from dist(2) key(2) show ?case by (simp add: image_Un)
next
  case 3
  from km show ?case by simp
next
  case (4 x)
  then have "x \<in> set (kq_items kq) \<or> fst x = kq_next kq" using sub by auto
  then show ?case using queue_invD(4) [OF inv, of x] by auto
next
  case (5 x)
  then have "x \<in> set (kq_items kq) \<or> snd x = \<lparr>item_Key = app_key app, item_Value = app\<rparr>"
    using sub by auto
  then show ?case using queue_invD(5) [OF inv, of x] by (elim disjE) simp_all
next
  case (6 x)
  then have "x \<in> set (kq_items kq) \<or> item_Key (snd x) = app_key app"
    using sub by auto
  then show ?case using queue_invD(6) [OF inv, of x] key(1) by (elim disjE) simp_all
qed (use queue_invD(7-9) [OF inv] in simp_all)

lemma queue_inv_enqueueLocked:
  assumes inv: "queue_inv kq"
  shows "queue_inv (enqueueLocked app kq)"
  using inv
proof (cases rule: enqueueLocked_cases [where app = app])
  case processing
  with inv show ?thesis by (auto simp: queue_inv_def keyMap_ok_def split: if_splits)
next
  case (replace as e old bs)
  let ?new = "(kq_next kq, \<lparr>item_Key = app_key app, item_Value = app\<rparr>)"
  from queue_invD(1,2) [OF inv] replace(2)
  have d: "distinct (map fst (as @ bs))" "distinct (map (item_Key \<circ> snd) (as @ bs))"
    "item_Key old \<notin> (item_Key \<circ> snd) ` set as" "item_Key old \<notin> (item_Key \<circ> snd) ` set bs" by simp_all
  have "map_of (key_elems (as @ ?new # bs)) = (kq_keyMap kq)(app_key app \<mapsto> kq_next kq)"
    unfolding queue_invD(3) [OF inv] replace(2) replace(3) [symmetric]
    by (rule map_of_key_elems_replace [OF d(3)]) simp
  then show ?thesis
    unfolding replace(4) queue_inv_reportQueueLength queue_inv_cond_Signal
    using d replace(1-3) by (intro queue_inv_add_item [OF inv]) auto
next
  case append
  let ?new = "(kq_next kq, \<lparr>item_Key = app_key app, item_Value = app\<rparr>)"
  from append(2) have "item_Key (snd ?new) \<notin> (item_Key \<circ> snd) ` set (kq_items kq)" by simp
  from map_of_key_elems_append [OF this, of "kq_next kq"]
  have "map_of (key_elems (kq_items kq @ [?new])) = (kq_keyMap kq)(app_key app \<mapsto> kq_next kq)"
    by (simp add: queue_invD(3) [OF inv])
  then show ?thesis
    unfolding append(3) queue_inv_reportQueueLength queue_inv_cond_Signal
    using queue_invD(1,2) [OF inv] append(1,2)
    by (intro queue_inv_add_item [OF inv, where bs = "[]"]) simp_all
qed

lemma queue_inv_Enqueue [intro]: "queue_inv kq \<Longrightarrow> queue_inv (Enqueue app kq)"
  by (simp add: Enqueue_def queue_inv_enqueueLocked)

lemma queue_inv_cong:
  assumes "kq_items kq' = kq_items kq" "kq_keyMap kq' = kq_keyMap kq"
    "kq_processing kq' = kq_processing kq" "kq_pending kq' = kq_pending kq" "kq_next kq' = kq_next kq"
  shows "queue_inv kq' = queue_inv kq"
  by (simp add: queue_inv_def keyMap_ok_def assms)

lemma queue_inv_SetLengthGauge [intro]: "queue_inv kq \<Longrightarrow> queue_inv (SetLengthGauge kq)"
  by (subst queue_inv_cong [where kq = kq]) (simp_all add: SetLengthGauge_def)

lemma queue_inv_wake [simp]: "queue_inv (DequeueWait_wake kq) = queue_inv kq"
  by (subst queue_inv_cong [where kq = kq]) (simp_all add: DequeueWait_wake_def)

lemma queue_inv_waiters [simp]: "queue_inv (kq\<lparr>kq_waiters := n\<rparr>) = queue_inv kq"
  by (rule queue_inv_cong) simp_all

text \<open>What a pass of \<open>DequeueWait\<close> does when it hands out an item.\<close>

lemma DequeueWait_Dequeued:
  assumes "DequeueWait c kq = (Dequeued it, kq')"
  obtains e its where "kq_items kq = (e, it) # its"
    "kq' = reportQueueLength (kq\<lparr>kq_items := its, kq_keyMap := (kq_keyMap kq)(item_Key it := None),
       kq_processing := insert (item_Key it) (kq_processing kq)\<rparr>)"
  using assms by (auto simp: DequeueWait_def Let_def split: list.splits if_splits)

lemma DequeueWait_not_Dequeued:
  assumes "DequeueWait c kq = (r, kq')" "\<forall>it. r \<noteq> Dequeued it"
  shows "kq_items kq = []" "kq' = kq \<or> kq' = kq\<lparr>kq_waiters := Suc (kq_waiters kq)\<rparr>"
    "r = (if c then DequeueCancelled else DequeueBlocked)"
  using assms by (auto simp: DequeueWait_def Let_def split: list.splits if_splits)

lemma queue_inv_remove_front:
  assumes inv: "queue_inv kq" and its: "kq_items kq = (e, it) # its"
  shows "queue_inv (kq\<lparr>kq_items := its, kq_keyMap := (kq_keyMap kq)(item_Key it := None),
     kq_processing := insert (item_Key it) (kq_processing kq)\<rparr>)"
proof (rule queue_invI, goal_cases)
  case 3
  from queue_invD(2) [OF inv] its have "map_of (key_elems its) (item_Key it) = None"
    by (simp add: map_of_key_elems_None)
  then show ?case using queue_invD(3) [OF inv] its by (simp add: fun_eq_iff)
next
  case (4 x)
  then show ?case using queue_invD(4) [OF inv, of x] its by simp
next
  case (5 x)
  then show ?case using queue_invD(5) [OF inv, of x] its by simp
next
  case (6 x)
  then have "x \<in> set its" by simp
  with queue_invD(2) [OF inv] its have "item_Key (snd x) \<noteq> item_Key it" by (auto simp: image_iff)
  with queue_invD(6) [OF inv, of x] \<open>x \<in> set its\<close> its show ?case by simp
qed (use queue_invD(1,2,7-9) [OF inv] its in auto)

lemma queue_inv_DequeueWait [intro]:
  assumes inv: "queue_inv kq" and run: "DequeueWait c kq = (r, kq')"
  shows "queue_inv kq'"
proof (cases r)
  case (Dequeued it)
  with run obtain e its where "kq_items kq = (e, it) # its"
    "kq' = reportQueueLength (kq\<lparr>kq_items := its, kq_keyMap := (kq_keyMap kq)(item_Key it := None),
       kq_processing := insert (item_Key it) (kq_processing kq)\<rparr>)"
    by (auto elim: DequeueWait_Dequeued)
  with queue_inv_remove_front [OF inv] show ?thesis by simp
next
  case DequeueCancelled
  with DequeueWait_not_Dequeued(2) [OF run] inv show ?thesis by auto
next
  case DequeueBlocked
  with DequeueWait_not_Dequeued(2) [OF run] inv show ?thesis by auto
qed

text \<open>\<open>Done\<close> without and with a pending update of the key.\<close>

definition release_key :: "string \<Rightarrow> KeyedAppQueue \<Rightarrow> KeyedAppQueue" where
  "release_key k kq = kq\<lparr>kq_processing := kq_processing kq - {k}, kq_pending := (kq_pending kq)(k := None)\<rparr>"

lemma release_key_sel [simp]:
  "kq_items (release_key k kq) = kq_items kq"
  "kq_keyMap (release_key k kq) = kq_keyMap kq"
  "kq_processing (release_key k kq) = kq_processing kq - {k}"
  "kq_pending (release_key k kq) = (kq_pending kq)(k := None)"
  "kq_lengthGauge (release_key k kq) = kq_lengthGauge kq"
  "kq_waiters (release_key k kq) = kq_waiters kq"
  "kq_woken (release_key k kq) = kq_woken kq"
  "kq_next (release_key k kq) = kq_next kq"
  by (simp_all add: release_key_def)

lemma Done_release_key:
  "Done k kq = (if k \<notin> kq_processing kq then kq
     else case kq_pending kq k of None \<Rightarrow> release_key k kq | Some a \<Rightarrow> enqueueLocked a (release_key k kq))"
  by (auto simp: Done_def release_key_def Let_def fun_upd_idem split: option.split)

lemma queue_inv_release_key:
  assumes "queue_inv kq"
  shows "queue_inv (release_key k kq)"
  using queue_invD(1-9) [OF assms] by (intro queue_invI) (auto split: if_splits)

lemma queue_inv_Done [intro]: "queue_inv kq \<Longrightarrow> queue_inv (Done k kq)"
  by (auto simp: Done_release_key queue_inv_release_key queue_inv_enqueueLocked split: option.split)

section \<open>Signals and the length gauge\<close>

lemma wakeup_inv_simps:
  "wakeup_inv (reportQueueLength kq) = wakeup_inv kq"
  "wakeup_inv (release_key k kq) = wakeup_inv kq"
  "wakeup_inv (kq\<lparr>kq_pending := p\<rparr>) = wakeup_inv kq"
  by (simp_all add: wakeup_inv_def)

text \<open>One \<open>Signal\<close> per added element keeps enough goroutines awake.\<close>

lemma wakeup_inv_cond_Signal:
  assumes "wakeup_inv kq" "length its \<le> Suc (length (kq_items kq))"
  shows "wakeup_inv (cond_Signal (kq\<lparr>kq_items := its, kq_keyMap := km, kq_next := n\<rparr>))"
  using assms by (auto simp: wakeup_inv_def cond_Signal_def)

lemma wakeup_inv_enqueueLocked:
  assumes inv: "queue_inv kq" and wk: "wakeup_inv kq"
  shows "wakeup_inv (enqueueLocked app kq)"
  using inv
proof (cases rule: enqueueLocked_cases [where app = app])
  case processing
  with wk show ?thesis by (simp add: wakeup_inv_simps)
next
  case (replace as e old bs)
  then show ?thesis by (simp add: wakeup_inv_simps wakeup_inv_cond_Signal [OF wk])
next
  case append
  then show ?thesis by (simp add: wakeup_inv_simps wakeup_inv_cond_Signal [OF wk])
qed

lemma wakeup_inv_Done: "queue_inv kq \<Longrightarrow> wakeup_inv kq \<Longrightarrow> wakeup_inv (Done k kq)"
  by (auto simp: Done_release_key wakeup_inv_simps wakeup_inv_enqueueLocked queue_inv_release_key
      split: option.split)

lemma wakeup_inv_DequeueWait:
  assumes "wakeup_inv kq" "DequeueWait c kq = (r, kq')"
  shows "wakeup_inv kq'"
  using assms by (auto simp: DequeueWait_def Let_def wakeup_inv_def split: list.splits if_splits)

text \<open>A woken goroutine re-runs the pass before the lock is released.\<close>

lemma wakeup_inv_woken_pass:
  assumes "wakeup_inv kq" "0 < kq_woken kq" "DequeueWait c (DequeueWait_wake kq) = (r, kq')"
  shows "wakeup_inv kq'"
  using assms
  by (auto simp: DequeueWait_def DequeueWait_wake_def Let_def wakeup_inv_def split: list.splits if_splits)

lemma gauge_ok_enqueueLocked [simp]: "gauge_ok (enqueueLocked app kq)"
  by (auto simp: enqueueLocked_def Let_def)

lemma gauge_ok_unchanged [simp]:
  "gauge_ok (kq\<lparr>kq_processing := ps\<rparr>) = gauge_ok kq"
  "gauge_ok (kq\<lparr>kq_waiters := n\<rparr>) = gauge_ok kq"
  "gauge_ok (kq\<lparr>kq_woken := n\<rparr>) = gauge_ok kq"
  by (simp_all add: gauge_ok_def split: option.split)

lemma gauge_ok_Done: "gauge_ok kq \<Longrightarrow> gauge_ok (Done k kq)"
  by (auto simp: Done_def Let_def split: option.splits)

lemma gauge_ok_DequeueWait: "gauge_ok kq \<Longrightarrow> DequeueWait c kq = (r, kq') \<Longrightarrow> gauge_ok kq'"
  by (auto simp: DequeueWait_def Let_def split: list.splits if_splits)

section \<open>The queue is a coalescing work queue\<close>

definition queue_latest :: "KeyedAppQueue \<Rightarrow> string \<Rightarrow> Application option" where
  "queue_latest kq = kq_pending kq ++ map_of (map (\<lambda>x. (item_Key (snd x), item_Value (snd x))) (kq_items kq))"

definition dequeue_now :: "KeyedAppQueue \<Rightarrow> ((string \<times> Application) \<times> KeyedAppQueue) option" where
  "dequeue_now kq = (case DequeueWait True kq of
       (Dequeued it, kq') \<Rightarrow> Some ((item_Key it, item_Value it), kq')
     | _ \<Rightarrow> None)"

definition key_values :: "(nat \<times> AppQueueItem) list \<Rightarrow> (string \<times> Application) list" where
  "key_values its = map (\<lambda>x. (item_Key (snd x), item_Value (snd x))) its"

lemma key_values_simps [simp]:
  "key_values [] = []"
  "key_values ((e, it) # its) = (item_Key it, item_Value it) # key_values its"
  "key_values (xs @ ys) = key_values xs @ key_values ys"
  "fst ` set (key_values its) = (item_Key \<circ> snd) ` set its"
  by (auto simp: key_values_def image_image)

lemma queue_latest_key_values: "queue_latest kq = kq_pending kq ++ map_of (key_values (kq_items kq))"
  by (simp add: queue_latest_def key_values_def)

lemma map_of_key_values_None:
  "map_of (key_values its) k = None \<longleftrightarrow> k \<notin> (item_Key \<circ> snd) ` set its"
  by (simp add: map_of_eq_None_iff)

text \<open>A key has either a queued item or a pending update, never both.\<close>

lemma pending_not_queued:
  assumes "queue_inv kq" "k \<in> kq_processing kq"
  shows "map_of (key_values (kq_items kq)) k = None"
  using queue_invD(6) [OF assms(1)] assms(2) by (auto simp: map_of_key_values_None)

lemma pending_None:
  assumes "queue_inv kq" "k \<notin> kq_processing kq"
  shows "kq_pending kq k = None"
  using queue_invD(7) [OF assms(1)] assms(2) by (auto simp: domIff)

lemma queue_latest_enqueueLocked:
  assumes inv: "queue_inv kq"
  shows "queue_latest (enqueueLocked app kq) = (queue_latest kq)(app_key app \<mapsto> app)"
  using inv
proof (cases rule: enqueueLocked_cases [where app = app])
  case processing
  then show ?thesis using pending_not_queued [OF inv processing(1)]
    by (auto simp: queue_latest_key_values map_add_def fun_eq_iff split: option.split)
next
  case (replace as e old bs)
  from queue_invD(2) [OF inv] replace(2,3)
  have "map_of (key_values as) (app_key app) = None" "map_of (key_values bs) (app_key app) = None"
    by (simp_all add: map_of_key_values_None)
  then show ?thesis using replace(2-4)
    by (auto simp: queue_latest_key_values map_add_def fun_eq_iff split: option.split)
next
  case append
  then have "map_of (key_values (kq_items kq)) (app_key app) = None"
    by (simp add: map_of_key_values_None)
  then show ?thesis using append(3)
    by (auto simp: queue_latest_key_values map_add_def fun_eq_iff split: option.split)
qed

lemma item_keys_enqueueLocked:
  assumes inv: "queue_inv kq"
  shows "item_keys (enqueueLocked app kq) =
    (if app_key app \<in> kq_processing kq \<or> app_key app \<in> set (item_keys kq) then item_keys kq
     else item_keys kq @ [app_key app])"
  using inv
  by (cases rule: enqueueLocked_cases [where app = app]) (auto simp: image_iff)

lemma processing_enqueueLocked [simp]: "kq_processing (enqueueLocked app kq) = kq_processing kq"
  by (auto simp: enqueueLocked_def Let_def)

lemma queue_latest_release_key:
  assumes "queue_inv kq" "k \<in> kq_processing kq"
  shows "queue_latest (release_key k kq) = (queue_latest kq)(k := None)"
  using pending_not_queued [OF assms]
  by (auto simp: queue_latest_key_values map_add_def fun_eq_iff split: option.split)

lemma queue_latest_Done:
  assumes inv: "queue_inv kq"
  shows "queue_latest (Done k kq) = queue_latest kq"
proof (cases "k \<in> kq_processing kq")
  case True
  have "queue_latest kq k = kq_pending kq k"
    using pending_not_queued [OF inv True] by (simp add: queue_latest_key_values map_add_def)
  with True queue_invD(8) [OF inv] show ?thesis
    by (auto simp: Done_release_key queue_latest_release_key [OF inv True]
        queue_latest_enqueueLocked queue_inv_release_key [OF inv] fun_upd_idem split: option.split)
qed (simp add: Done_def)

lemma item_keys_Done:
  assumes inv: "queue_inv kq"
  shows "item_keys (Done k kq) =
    (if k \<in> kq_processing kq \<and> queue_latest kq k \<noteq> None then item_keys kq @ [k] else item_keys kq)"
proof (cases "k \<in> kq_processing kq")
  case True
  note none = pending_not_queued [OF inv True]
  have "queue_latest kq k = kq_pending kq k" "k \<notin> set (item_keys kq)"
    using none by (simp add: queue_latest_key_values map_add_def)
      (use none in \<open>simp add: map_of_key_values_None\<close>)
  with True queue_invD(8) [OF inv] show ?thesis
    by (auto simp: Done_release_key item_keys_enqueueLocked queue_inv_release_key [OF inv] 
        split: option.split)
qed (simp add: Done_def)

lemma processing_Done: "kq_processing (Done k kq) = kq_processing kq - {k}"
  by (auto simp: Done_release_key split: option.split)

lemma dequeue_now_Some:
  assumes "queue_inv kq" "dequeue_now kq = Some ((k, a), kq')"
  shows "item_keys kq = k # item_keys kq'" "queue_latest kq k = Some a"
    "queue_latest kq' = (queue_latest kq)(k := None)" "kq_processing kq' = insert k (kq_processing kq)"
proof -
  from assms(2) obtain it where it: "DequeueWait True kq = (Dequeued it, kq')" "k = item_Key it"
    "a = item_Value it"
    by (auto simp: dequeue_now_def split: prod.splits dequeue_result.splits)
  from it(1) obtain e its where q: "kq_items kq = (e, it) # its"
    "kq' = reportQueueLength (kq\<lparr>kq_items := its, kq_keyMap := (kq_keyMap kq)(item_Key it := None),
       kq_processing := insert (item_Key it) (kq_processing kq)\<rparr>)"
    by (auto elim: DequeueWait_Dequeued)
  from q it show "item_keys kq = k # item_keys kq'" "kq_processing kq' = insert k (kq_processing kq)"
    by simp_all
  from q it show "queue_latest kq k = Some a" by (simp add: queue_latest_key_values)
  from queue_invD(2) [OF assms(1)] q(1) have "map_of (key_values its) (item_Key it) = None"
    by (simp add: map_of_key_values_None)
  moreover from queue_invD(6) [OF assms(1), of "(e, it)"] q(1) have "kq_pending kq (item_Key it) = None"
    by (intro pending_None [OF assms(1)]) simp
  ultimately show "queue_latest kq' = (queue_latest kq)(k := None)"
    using q it by (auto simp: queue_latest_key_values map_add_def fun_eq_iff split: option.split)
qed

interpretation kaq: keyed_workqueue Enqueue dequeue_now Done queue_inv app_key item_keys queue_latest
    kq_processing
proof (unfold_locales, goal_cases)
  case (2 s r s')
  then show ?case by (auto simp: dequeue_now_def split: prod.splits dequeue_result.splits)
next
  case (5 s k)
  then show ?case by (auto dest: queue_invD(6))
next
  case (6 s k)
  then show ?case
    by (auto simp: queue_latest_key_values pending_None map_of_key_values_None simp del: image_comp)
next
  case (10 s)
  then show ?case by (auto simp: dequeue_now_def DequeueWait_def split: list.splits prod.splits)
next
  case (11 s k a s')
  then show ?case using dequeue_now_Some by simp
qed (auto simp: Enqueue_def item_keys_enqueueLocked queue_latest_enqueueLocked queue_latest_Done
    item_keys_Done processing_Done queue_invD(2) queue_inv_enqueueLocked)

section \<open>Properties\<close>

text \<open>A named application with a resource version, for the concrete runs below.\<close>

definition sample_app :: "string \<Rightarrow> string \<Rightarrow> string \<Rightarrow> Application" where
  "sample_app ns n rv = zero_Application\<lparr>app_ObjectMeta :=
     zero_ObjectMeta\<lparr>om_Namespace := ns, om_Name := n, om_ResourceVersion := rv\<rparr>\<rparr>"

lemma sample_app_key [simp]: "app_key (sample_app ns n rv) = ns @ ''/'' @ n"
  by (simp add: app_key_def sample_app_def)

lemmas queue_ops_defs = NewKeyedAppQueue_def Enqueue_def enqueueLocked_def reportQueueLength_def
  cond_Signal_def dequeue_now_def DequeueWait_def Done_def SetLengthGauge_def DequeueWait_wake_def

abbreviation queue_run :: "(string, Application) wq_op list \<Rightarrow> KeyedAppQueue
    \<Rightarrow> (string, Application) wq_event list \<times> KeyedAppQueue" where
  "queue_run \<equiv> wq_run Enqueue dequeue_now Done"

text \<open>
  Every operation of the queue keeps it well formed: list addresses and keys are unique,
  \<open>keyMap\<close> is exactly the index of the list, no queued key is being processed, and an update
  is pending only for a key that is being processed.
\<close>

theorem queue_operations_keep_inv:
  assumes "queue_inv kq"
  shows "queue_inv (Enqueue app kq) \<and> queue_inv (Done k kq) \<and> queue_inv (SetLengthGauge kq) \<and>
    queue_inv (snd (DequeueWait ctxDone kq)) \<and> queue_inv (DequeueWait_wake kq)"
  using assms by (auto intro: queue_inv_DequeueWait [OF _ surjective_pairing])

theorem queue_operations_keep_inv_witness:
  "queue_inv (Enqueue (sample_app ''argocd'' ''web'' ''1'') NewKeyedAppQueue) \<and>
   queue_inv (Done ''argocd/web'' NewKeyedAppQueue) \<and> queue_inv (SetLengthGauge NewKeyedAppQueue) \<and>
   queue_inv (snd (DequeueWait False NewKeyedAppQueue)) \<and> queue_inv (DequeueWait_wake NewKeyedAppQueue)"
  by (rule queue_operations_keep_inv) simp

text \<open>
  (C14) In every sequence of operations on a new queue, an item handed to a worker carries the
  newest value enqueued for its key since the key was last handed out, and the key is not
  being processed by anyone else at that moment.
\<close>

theorem queue_delivers_newest:
  assumes "queue_run ops NewKeyedAppQueue = (pre @ Delivered k a # post, kq)"
  shows "newest_after app_key pre k None = Some a \<and> \<not> active_after pre k False"
  using kaq.run_delivery [OF queue_inv_NewKeyedAppQueue assms]
  by (simp_all add: NewKeyedAppQueue_def queue_latest_def)

lemma sample_run:
  "\<exists>kq. queue_run
     [EnqueueOp (sample_app ''argocd'' ''web'' ''1''), EnqueueOp (sample_app ''argocd'' ''web'' ''2''),
      DequeueOp, EnqueueOp (sample_app ''argocd'' ''web'' ''3''), DoneOp ''argocd/web'', DequeueOp]
     NewKeyedAppQueue =
   ([Added (sample_app ''argocd'' ''web'' ''1''), Added (sample_app ''argocd'' ''web'' ''2''),
     Delivered ''argocd/web'' (sample_app ''argocd'' ''web'' ''2''),
     Added (sample_app ''argocd'' ''web'' ''3''), Finished ''argocd/web'',
     Delivered ''argocd/web'' (sample_app ''argocd'' ''web'' ''3'')], kq)"
  by (simp add: queue_ops_defs Let_def)

theorem queue_delivers_newest_witness:
  "\<exists>pre. newest_after app_key pre ''argocd/web'' None = Some (sample_app ''argocd'' ''web'' ''3'') \<and>
     \<not> active_after pre ''argocd/web'' False"
proof -
  let ?app = "sample_app ''argocd'' ''web''"
  let ?pre = "[Added (?app ''1''), Added (?app ''2''), Delivered ''argocd/web'' (?app ''2''),
    Added (?app ''3''), Finished ''argocd/web'']"
  from sample_run obtain kq where "queue_run
     [EnqueueOp (?app ''1''), EnqueueOp (?app ''2''), DequeueOp, EnqueueOp (?app ''3''),
      DoneOp ''argocd/web'', DequeueOp] NewKeyedAppQueue =
     (?pre @ Delivered ''argocd/web'' (?app ''3'') # [], kq)" by auto
  from queue_delivers_newest [OF this] show ?thesis by blast
qed

text \<open>
  (C7) No update is lost: after any sequence of operations, the newest undelivered value of
  every key is still held by the queue, as a queued item of the key or, while the key is
  being processed, as its pending update.
\<close>

theorem queue_loses_no_update:
  assumes "queue_run ops NewKeyedAppQueue = (evs, kq)"
    and "newest_after app_key evs k None = Some a"
  shows "if k \<in> kq_processing kq then kq_pending kq k = Some a
    else \<exists>e. (e, \<lparr>item_Key = k, item_Value = a\<rparr>) \<in> set (kq_items kq)"
proof -
  have inv: "queue_inv kq" using kaq.run_inv [OF queue_inv_NewKeyedAppQueue assms(1)] .
  have "queue_latest kq k = Some a"
    using kaq.run_latest [OF queue_inv_NewKeyedAppQueue assms(1), of k] assms(2)
    by (simp add: NewKeyedAppQueue_def queue_latest_def)
  then have l: "map_of (key_values (kq_items kq)) k = Some a \<or>
      (map_of (key_values (kq_items kq)) k = None \<and> kq_pending kq k = Some a)"
    by (auto simp: queue_latest_key_values)
  show ?thesis
  proof (cases "k \<in> kq_processing kq")
    case True
    with l pending_not_queued [OF inv True] show ?thesis by simp
  next
    case False
    with l pending_None [OF inv False] have "map_of (key_values (kq_items kq)) k = Some a" by auto
    then have "(k, a) \<in> set (key_values (kq_items kq))" by (rule map_of_SomeD)
    then obtain e it where "(e, it) \<in> set (kq_items kq)" "item_Key it = k" "item_Value it = a"
      by (auto simp: key_values_def)
    then have "(e, \<lparr>item_Key = k, item_Value = a\<rparr>) \<in> set (kq_items kq)" by (cases it) auto
    with False show ?thesis by auto
  qed
qed

text \<open>The state reached by enqueueing twice around a dequeue: the second value is pending.\<close>

theorem queue_loses_no_update_witness:
  "\<exists>kq :: KeyedAppQueue. kq_pending kq ''argocd/web'' = Some (sample_app ''argocd'' ''web'' ''2'')"
proof -
  let ?app = "sample_app ''argocd'' ''web''"
  have "\<exists>kq. queue_run [EnqueueOp (?app ''1''), DequeueOp, EnqueueOp (?app ''2'')] NewKeyedAppQueue =
      ([Added (?app ''1''), Delivered ''argocd/web'' (?app ''1''), Added (?app ''2'')], kq) \<and>
      ''argocd/web'' \<in> kq_processing kq"
    by (simp add: queue_ops_defs Let_def)
  then obtain kq where kq: "queue_run [EnqueueOp (?app ''1''), DequeueOp, EnqueueOp (?app ''2'')]
      NewKeyedAppQueue = ([Added (?app ''1''), Delivered ''argocd/web'' (?app ''1''), Added (?app ''2'')], kq)"
    "''argocd/web'' \<in> kq_processing kq" by blast
  from queue_loses_no_update [OF kq(1), of "''argocd/web''" "?app ''2''"] kq(2) show ?thesis by auto
qed

text \<open>
  Items are handed out first come, first served: the first deliveries of any run are the
  keys that were waiting at its start, in their order, whatever is enqueued meanwhile; an
  application that stands behind \<open>n\<close> others is the \<open>n + 1\<close>-st to be delivered.
\<close>

theorem queue_first_come_first_served:
  assumes "queue_inv kq" "queue_run ops kq = (evs, kq')"
    and "n \<le> length (kq_items kq)" "n \<le> length (delivered evs)"
  shows "take n (delivered evs) = take n (item_keys kq)"
  using kaq.run_fifo [OF assms(1,2)] assms(3,4) by simp

theorem queue_first_come_first_served_witness:
  "take 1 [''argocd/web''] = take 1 (item_keys (Enqueue (sample_app ''argocd'' ''web'' ''1'') NewKeyedAppQueue))"
proof -
  let ?app = "sample_app ''argocd'' ''web''" and ?kq = "Enqueue (sample_app ''argocd'' ''web'' ''1'') NewKeyedAppQueue"
  have inv: "queue_inv ?kq" by (rule queue_inv_Enqueue) simp
  have "\<exists>kq'. queue_run [EnqueueOp (sample_app ''argocd'' ''api'' ''1''), EnqueueOp (?app ''2''), DequeueOp] ?kq =
    ([Added (sample_app ''argocd'' ''api'' ''1''), Added (?app ''2''), Delivered ''argocd/web'' (?app ''2'')], kq')"
    by (simp add: queue_ops_defs Let_def)
  then obtain kq' where "queue_run [EnqueueOp (sample_app ''argocd'' ''api'' ''1''), EnqueueOp (?app ''2''), DequeueOp] ?kq =
    ([Added (sample_app ''argocd'' ''api'' ''1''), Added (?app ''2''), Delivered ''argocd/web'' (?app ''2'')], kq')" ..
  from queue_first_come_first_served [OF inv this, of 1] show ?thesis
    by (simp add: queue_ops_defs Let_def)
qed

text \<open>The states the operations reach, a woken goroutine re-running its pass of \<open>DequeueWait\<close>.\<close>

inductive queue_reachable :: "KeyedAppQueue \<Rightarrow> bool" where
  new: "queue_reachable NewKeyedAppQueue"
| enqueue: "queue_reachable kq \<Longrightarrow> queue_reachable (Enqueue app kq)"
| finish: "queue_reachable kq \<Longrightarrow> queue_reachable (Done k kq)"
| gauge: "queue_reachable kq \<Longrightarrow> queue_reachable (SetLengthGauge kq)"
| dequeue: "queue_reachable kq \<Longrightarrow> queue_reachable (snd (DequeueWait c kq))"
| woken: "queue_reachable kq \<Longrightarrow> 0 < kq_woken kq \<Longrightarrow>
    queue_reachable (snd (DequeueWait c (DequeueWait_wake kq)))"

text \<open>
  No wake-up is lost and the gauge is exact: in every state reached by the operations, a
  goroutine sleeps in \<open>DequeueWait\<close> only if every queued item has a woken goroutine to take
  it, and the length gauge, once set, shows the number of queued items and pending updates.
\<close>

theorem queue_wakeups_and_gauge:
  "queue_reachable kq \<Longrightarrow> queue_inv kq \<and> wakeup_inv kq \<and> gauge_ok kq"
proof (induction rule: queue_reachable.induct)
  case new
  show ?case by (simp add: wakeup_inv_def gauge_ok_def NewKeyedAppQueue_def)
     (simp flip: NewKeyedAppQueue_def)
next
  case (enqueue kq app)
  then show ?case by (simp add: Enqueue_def queue_inv_enqueueLocked wakeup_inv_enqueueLocked)
next
  case (finish kq k)
  then show ?case by (auto intro: wakeup_inv_Done gauge_ok_Done)
next
  case (gauge kq)
  then have "wakeup_inv (SetLengthGauge kq)" "gauge_ok (SetLengthGauge kq)"
    by (simp_all add: SetLengthGauge_def wakeup_inv_simps) (simp add: wakeup_inv_def)
  with gauge show ?case by blast
next
  case (dequeue kq c)
  then show ?case
    using wakeup_inv_DequeueWait [OF _ surjective_pairing] gauge_ok_DequeueWait [OF _ surjective_pairing]
      queue_inv_DequeueWait [OF _ surjective_pairing] by blast
next
  case (woken kq c)
  moreover from this have "gauge_ok (DequeueWait_wake kq)"
    by (simp add: DequeueWait_wake_def)
  ultimately show ?case
    using wakeup_inv_woken_pass [OF _ _ surjective_pairing] gauge_ok_DequeueWait [OF _ surjective_pairing]
      queue_inv_DequeueWait [OF _ surjective_pairing, of "DequeueWait_wake kq"] by simp
qed

theorem queue_wakeups_and_gauge_witness:
  "wakeup_inv (Enqueue (sample_app ''argocd'' ''web'' ''1'') (SetLengthGauge NewKeyedAppQueue)) \<and>
   kq_lengthGauge (Enqueue (sample_app ''argocd'' ''web'' ''1'') (SetLengthGauge NewKeyedAppQueue)) = Some 1"
  using queue_wakeups_and_gauge [OF queue_reachable.enqueue [OF queue_reachable.gauge [OF queue_reachable.new]],
      of "sample_app ''argocd'' ''web'' ''1''"]
  by (simp add: queue_ops_defs Let_def)

end
