(* ===== verification/WorkerPool.thy ===== *)
theory WorkerPool
  imports AppQueue "HOL-Library.Multiset"
begin

text \<open>
  The worker pool of \<open>mrp_controller/controller/appqueue.go\<close>: one dispatcher goroutine
  (\<open>dequeueLoop\<close>) that moves items from the queue to a bounded channel, and \<open>numWorkers\<close>
  goroutines that take jobs from the channel, run the handler and call \<open>Done\<close>.  The
  goroutines interleave freely, so the pool is a step relation: \<open>pool_step\<close> has a rule for
  each atomic step of the dispatcher and of a worker, \<open>pool_env\<close> one for each call from
  outside (\<open>Enqueue\<close>, \<open>SetLengthGauge\<close>, \<open>Stop\<close>).  The handler's return is the moment its worker calls
  \<open>Done\<close>.
\<close>

section \<open>State and steps\<close>

text \<open>The dispatcher's program counter: at the first \<open>select\<close>, about to dequeue, asleep in
  \<open>notEmpty.Wait\<close>, at the second \<open>select\<close> holding an item, returned.\<close>

datatype dispatcher = DCheck | DDequeue | DWaiting | DSend AppQueueItem | DExited

datatype worker = WIdle | WRunning AppQueueItem | WExited

record WorkerPool =
  wp_queue :: KeyedAppQueue
  wp_cap :: nat
  wp_jobChan :: "AppQueueItem list"
  wp_closed :: bool
  wp_cancelled :: bool
  wp_dispatcher :: dispatcher
  wp_workers :: "worker list"

definition NewWorkerPool :: "KeyedAppQueue \<Rightarrow> int \<Rightarrow> WorkerPool go" where
  "NewWorkerPool q numWorkers =
     (if numWorkers < 0 then Panic ChanSizeOutOfRange
      else Ret \<lparr>wp_queue = q, wp_cap = nat (numWorkers * 2), wp_jobChan = [], wp_closed = False,
        wp_cancelled = False, wp_dispatcher = DCheck,
        wp_workers = replicate (nat numWorkers) WIdle\<rparr>)"

definition Stop :: "WorkerPool \<Rightarrow> WorkerPool" where
  "Stop wp = wp\<lparr>wp_cancelled := True\<rparr>"

text \<open>Where \<open>dequeueLoop\<close> goes after a pass of \<open>DequeueWait\<close>.\<close>

definition after_dequeue :: "dequeue_result \<times> KeyedAppQueue \<Rightarrow> WorkerPool \<Rightarrow> WorkerPool" where
  "after_dequeue r wp = wp\<lparr>wp_queue := snd r,
     wp_dispatcher := (case fst r of Dequeued it \<Rightarrow> DSend it
        | DequeueCancelled \<Rightarrow> DCheck | DequeueBlocked \<Rightarrow> DWaiting)\<rparr>"

inductive dequeueLoop :: "WorkerPool \<Rightarrow> WorkerPool \<Rightarrow> bool" where
  check_done: "wp_dispatcher wp = DCheck \<Longrightarrow> wp_cancelled wp \<Longrightarrow>
    dequeueLoop wp (wp\<lparr>wp_closed := True, wp_dispatcher := DExited\<rparr>)"
| check_default: "wp_dispatcher wp = DCheck \<Longrightarrow> \<not> wp_cancelled wp \<Longrightarrow>
    dequeueLoop wp (wp\<lparr>wp_dispatcher := DDequeue\<rparr>)"
| dequeue: "wp_dispatcher wp = DDequeue \<Longrightarrow>
    dequeueLoop wp (after_dequeue (DequeueWait (wp_cancelled wp) (wp_queue wp)) wp)"
| woken: "wp_dispatcher wp = DWaiting \<Longrightarrow> 0 < kq_woken (wp_queue wp) \<Longrightarrow>
    dequeueLoop wp (after_dequeue (DequeueWait (wp_cancelled wp) (DequeueWait_wake (wp_queue wp))) wp)"
| send: "wp_dispatcher wp = DSend it \<Longrightarrow> length (wp_jobChan wp) < wp_cap wp \<Longrightarrow>
    dequeueLoop wp (wp\<lparr>wp_jobChan := wp_jobChan wp @ [it], wp_dispatcher := DCheck\<rparr>)"
| send_done: "wp_dispatcher wp = DSend it \<Longrightarrow> wp_cancelled wp \<Longrightarrow>
    dequeueLoop wp (wp\<lparr>wp_dispatcher := DExited\<rparr>)"

inductive worker_step :: "nat \<Rightarrow> WorkerPool \<Rightarrow> WorkerPool \<Rightarrow> bool" where
  receive: "i < length (wp_workers wp) \<Longrightarrow> wp_workers wp ! i = WIdle \<Longrightarrow> wp_jobChan wp = job # jobs \<Longrightarrow>
    worker_step i wp (wp\<lparr>wp_jobChan := jobs, wp_workers := (wp_workers wp)[i := WRunning job]\<rparr>)"
| range_end: "i < length (wp_workers wp) \<Longrightarrow> wp_workers wp ! i = WIdle \<Longrightarrow> wp_jobChan wp = [] \<Longrightarrow>
    wp_closed wp \<Longrightarrow> worker_step i wp (wp\<lparr>wp_workers := (wp_workers wp)[i := WExited]\<rparr>)"
| handled: "i < length (wp_workers wp) \<Longrightarrow> wp_workers wp ! i = WRunning job \<Longrightarrow>
    worker_step i wp (wp\<lparr>wp_queue := Done (item_Key job) (wp_queue wp),
      wp_workers := (wp_workers wp)[i := WIdle]\<rparr>)"

definition pool_step :: "WorkerPool \<Rightarrow> WorkerPool \<Rightarrow> bool" where
  "pool_step wp wp' \<longleftrightarrow> dequeueLoop wp wp' \<or> (\<exists>i. worker_step i wp wp')"

inductive pool_env :: "WorkerPool \<Rightarrow> WorkerPool \<Rightarrow> bool" where
  enqueue: "pool_env wp (wp\<lparr>wp_queue := Enqueue app (wp_queue wp)\<rparr>)"
| gauge: "pool_env wp (wp\<lparr>wp_queue := SetLengthGauge (wp_queue wp)\<rparr>)"
| stop: "pool_env wp (Stop wp)"

inductive pool_reachable :: "int \<Rightarrow> WorkerPool \<Rightarrow> bool" for numWorkers where
  init: "NewWorkerPool NewKeyedAppQueue numWorkers = Ret wp \<Longrightarrow> pool_reachable numWorkers wp"
| step: "pool_reachable numWorkers wp \<Longrightarrow> pool_step wp wp' \<Longrightarrow> pool_reachable numWorkers wp'"
| env: "pool_reachable numWorkers wp \<Longrightarrow> pool_env wp wp' \<Longrightarrow> pool_reachable numWorkers wp'"

inductive_cases pool_envE: "pool_env wp wp'"

section \<open>The items in flight\<close>

fun dispatcher_items :: "dispatcher \<Rightarrow> AppQueueItem list" where
  "dispatcher_items (DSend it) = [it]"
| "dispatcher_items _ = []"

fun worker_items :: "worker \<Rightarrow> AppQueueItem list" where
  "worker_items (WRunning it) = [it]"
| "worker_items _ = []"

text \<open>The keys taken from the queue and not yet done, wherever they are held.\<close>

definition held_keys :: "WorkerPool \<Rightarrow> string multiset" where
  "held_keys wp = mset (map item_Key (dispatcher_items (wp_dispatcher wp) @ wp_jobChan wp @
     concat (map worker_items (wp_workers wp))))"

text \<open>
  The queue seen from its users: \<open>H\<close> are the keys they hold, \<open>complete\<close> says that no held key
  was dropped, \<open>asleep\<close> that the dispatcher is blocked in \<open>DequeueWait\<close>.
\<close>

definition flight_ok :: "KeyedAppQueue \<Rightarrow> string multiset \<Rightarrow> bool \<Rightarrow> bool \<Rightarrow> bool" where
  "flight_ok q H complete asleep \<longleftrightarrow>
     queue_inv q \<and> wakeup_inv q \<and> (\<forall>k. count H k \<le> 1) \<and> set_mset H \<subseteq> kq_processing q \<and>
     (complete \<longrightarrow> kq_processing q \<subseteq> set_mset H) \<and>
     kq_waiters q + kq_woken q = (if asleep then 1 else 0)"

definition pool_inv :: "WorkerPool \<Rightarrow> bool" where
  "pool_inv wp \<longleftrightarrow> flight_ok (wp_queue wp) (held_keys wp)
     (wp_dispatcher wp \<noteq> DExited \<or> wp_closed wp) (wp_dispatcher wp = DWaiting)"

definition chan_inv :: "WorkerPool \<Rightarrow> bool" where
  "chan_inv wp \<longleftrightarrow>
     length (wp_jobChan wp) \<le> wp_cap wp \<and> wp_cap wp = 2 * length (wp_workers wp) \<and>
     (wp_closed wp \<longrightarrow> wp_dispatcher wp = DExited \<and> wp_cancelled wp) \<and>
     (wp_dispatcher wp = DExited \<longrightarrow> wp_cancelled wp) \<and>
     (WExited \<in> set (wp_workers wp) \<longrightarrow> wp_closed wp \<and> wp_jobChan wp = [])"

lemma chan_inv_dequeueLoop: "dequeueLoop wp wp' \<Longrightarrow> chan_inv wp \<Longrightarrow> chan_inv wp'"
  by (erule dequeueLoop.cases) (auto simp: chan_inv_def after_dequeue_def split: dequeue_result.split)

lemma WExited_update: "WExited \<in> set (ws[i := w]) \<Longrightarrow> w \<noteq> WExited \<Longrightarrow> WExited \<in> set ws"
  by (auto dest: set_update_subset_insert [THEN subsetD])

lemma chan_inv_worker_step: "worker_step i wp wp' \<Longrightarrow> chan_inv wp \<Longrightarrow> chan_inv wp'"
  by (erule worker_step.cases) (auto simp: chan_inv_def dest: WExited_update)

lemma chan_inv_step: "chan_inv wp \<Longrightarrow> pool_step wp wp' \<Longrightarrow> chan_inv wp'"
  by (auto simp: pool_step_def intro: chan_inv_dequeueLoop chan_inv_worker_step)

lemma chan_inv_env: "chan_inv wp \<Longrightarrow> pool_env wp wp' \<Longrightarrow> chan_inv wp'"
  by (auto elim!: pool_envE simp: chan_inv_def Stop_def)

text \<open>Exchanging the state of one worker exchanges the items it holds.\<close>

lemma mset_worker_items_update:
  "i < length ws \<Longrightarrow> mset (concat (map worker_items (ws[i := w]))) + mset (worker_items (ws ! i)) =
     mset (concat (map worker_items ws)) + mset (worker_items w)"
proof (induction ws arbitrary: i)
  case (Cons v ws)
  then show ?case by (cases i) (auto simp: union_ac)
qed simp

lemma held_keys_worker:
  assumes "i < length (wp_workers wp)"
  shows "held_keys (wp\<lparr>wp_workers := (wp_workers wp)[i := w]\<rparr>) + mset (map item_Key (worker_items (wp_workers wp ! i))) =
    held_keys wp + mset (map item_Key (worker_items w))"
proof -
  have "image_mset item_Key (mset (concat (map worker_items ((wp_workers wp)[i := w]))) + mset (worker_items (wp_workers wp ! i))) =
     image_mset item_Key (mset (concat (map worker_items (wp_workers wp))) + mset (worker_items w))"
    using mset_worker_items_update [OF assms] by simp
  then show ?thesis by (simp add: held_keys_def union_ac)
qed

lemma held_keys_queue [simp]: "held_keys (wp\<lparr>wp_queue := q\<rparr>) = held_keys wp"
  by (simp add: held_keys_def)

lemma held_keys_dispatcher:
  "held_keys (wp\<lparr>wp_dispatcher := d\<rparr>) + mset (map item_Key (dispatcher_items (wp_dispatcher wp))) =
   held_keys wp + mset (map item_Key (dispatcher_items d))"
  by (simp add: held_keys_def)

lemma flight_okD:
  assumes "flight_ok q H f w"
  shows "queue_inv q" "wakeup_inv q" "\<And>k. count H k \<le> 1" "set_mset H \<subseteq> kq_processing q"
    "f \<Longrightarrow> kq_processing q = set_mset H" "kq_waiters q + kq_woken q = (if w then 1 else 0)"
  using assms by (auto simp: flight_ok_def)

lemma enqueueLocked_sleepers [simp]:
  "kq_waiters (enqueueLocked a q) + kq_woken (enqueueLocked a q) = kq_waiters q + kq_woken q"
  by (simp add: enqueueLocked_def Let_def cond_Signal_def)

lemma Done_sleepers [simp]: "kq_waiters (Done k q) + kq_woken (Done k q) = kq_waiters q + kq_woken q"
  by (simp add: Done_release_key split: option.split)

lemma flight_ok_Enqueue: "flight_ok q H f w \<Longrightarrow> flight_ok (Enqueue a q) H f w"
  by (simp add: flight_ok_def Enqueue_def queue_inv_enqueueLocked wakeup_inv_enqueueLocked)

lemma flight_ok_SetLengthGauge: "flight_ok q H f w \<Longrightarrow> flight_ok (SetLengthGauge q) H f w"
  by (auto simp: flight_ok_def) (auto simp: SetLengthGauge_def wakeup_inv_def)

lemma flight_ok_Done:
  assumes "flight_ok q (add_mset k H) f w"
  shows "flight_ok (Done k q) H f w"
proof -
  note ok = flight_okD [OF assms]
  have "count H k' \<le> 1" for k' using ok(3) [of k'] by (simp split: if_splits)
  moreover have "k \<notin># H" using ok(3) [of k] by (simp add: not_in_iff)
  moreover have "kq_processing q = insert k (set_mset H)" if f using ok(5) that by simp
  ultimately show ?thesis
    using ok(1,2,4,6) by (auto simp: flight_ok_def processing_Done wakeup_inv_Done)
qed

lemma flight_ok_drop:
  assumes "flight_ok q (add_mset k H) f w"
  shows "flight_ok q H False w"
proof -
  have "count H k' \<le> 1" for k' using flight_okD(3) [OF assms, of k'] by (simp split: if_splits)
  with assms show ?thesis by (auto simp: flight_ok_def)
qed

lemma flight_ok_Dequeued:
  assumes ok: "flight_ok q H f False" and run: "DequeueWait c q = (Dequeued it, q')"
  shows "flight_ok q' (add_mset (item_Key it) H) f False"
proof -
  from run obtain e its where its: "kq_items q = (e, it) # its" and
    q': "kq_processing q' = insert (item_Key it) (kq_processing q)"
      "kq_waiters q' = kq_waiters q" "kq_woken q' = kq_woken q"
    by (auto elim!: DequeueWait_Dequeued)
  from queue_invD(6) [OF flight_okD(1) [OF ok], of "(e, it)"] its
  have "item_Key it \<notin> kq_processing q" by simp
  with flight_okD(4) [OF ok] have "item_Key it \<notin># H" by blast
  then have "count (add_mset (item_Key it) H) k \<le> 1" for k
    using flight_okD(3) [OF ok, of k] by (auto simp: not_in_iff)
  moreover have "queue_inv q'" "wakeup_inv q'"
    using flight_okD(1,2) [OF ok] run by (auto intro: wakeup_inv_DequeueWait)
  ultimately show ?thesis using flight_okD(4-6) [OF ok] q' by (auto simp: flight_ok_def)
qed

lemma flight_ok_DequeueWait:
  assumes ok: "flight_ok q H f False" and run: "DequeueWait c q = (r, q')"
  shows "flight_ok q' (mset (map item_Key (case r of Dequeued it \<Rightarrow> [it] | _ \<Rightarrow> [])) + H) f
    (r = DequeueBlocked)"
proof (cases r)
  case (Dequeued it)
  with flight_ok_Dequeued [OF ok] run show ?thesis by simp
next
  case DequeueCancelled
  with run have "q' = q" by (auto simp: DequeueWait_def Let_def split: list.splits if_splits)
  with ok DequeueCancelled show ?thesis by simp
next
  case DequeueBlocked
  with run have "q' = q\<lparr>kq_waiters := Suc (kq_waiters q)\<rparr>" "kq_items q = []"
    by (auto simp: DequeueWait_def Let_def split: list.splits if_splits)
  with ok DequeueBlocked show ?thesis by (auto simp: flight_ok_def wakeup_inv_def)
qed

lemma flight_ok_wake:
  assumes "flight_ok q H f True" "0 < kq_woken q"
  shows "flight_ok (DequeueWait_wake q) H f False"
  using assms by (auto simp: flight_ok_def) (auto simp: DequeueWait_wake_def wakeup_inv_def)

text \<open>The invariant of the pool, step by step.\<close>

lemma held_keys_after_dequeue:
  assumes "dispatcher_items (wp_dispatcher wp) = []"
  shows "held_keys (after_dequeue (r, q) wp) =
    mset (map item_Key (case r of Dequeued it \<Rightarrow> [it] | _ \<Rightarrow> [])) + held_keys wp"
  using assms by (simp add: held_keys_def after_dequeue_def split: dequeue_result.split)

lemma pool_inv_after_dequeue:
  assumes "flight_ok q (held_keys wp) f False" "dispatcher_items (wp_dispatcher wp) = []"
    "f = (wp_dispatcher wp \<noteq> DExited \<or> wp_closed wp)" "wp_dispatcher wp \<noteq> DExited"
  shows "pool_inv (after_dequeue (DequeueWait c q) wp)"
proof -
  obtain r q' where run: "DequeueWait c q = (r, q')" by fastforce
  from flight_ok_DequeueWait [OF assms(1) run] assms(3,4)
    held_keys_after_dequeue [OF assms(2), of r q'] show ?thesis
    unfolding run pool_inv_def by (cases r) (simp_all add: after_dequeue_def)
qed

lemma pool_inv_dequeueLoop:
  assumes "dequeueLoop wp wp'" "pool_inv wp" "chan_inv wp"
  shows "pool_inv wp'"
  using assms
proof (cases rule: dequeueLoop.cases)
  case dequeue
  moreover from this assms(2) have "flight_ok (wp_queue wp) (held_keys wp) True False"
    by (simp add: pool_inv_def)
  ultimately show ?thesis by (auto intro: pool_inv_after_dequeue)
next
  case woken
  moreover from this assms(2) have "flight_ok (DequeueWait_wake (wp_queue wp)) (held_keys wp) True False"
    by (simp add: pool_inv_def flight_ok_wake)
  ultimately show ?thesis by (auto intro: pool_inv_after_dequeue)
next
  case (send it)
  then have "held_keys wp' = held_keys wp" by (simp add: held_keys_def)
  with send assms(2) show ?thesis by (simp add: pool_inv_def)
next
  case (send_done it)
  then have "held_keys wp = add_mset (item_Key it) (held_keys wp')" "\<not> wp_closed wp"
    using assms(3) by (simp_all add: held_keys_def chan_inv_def)
  with send_done assms(2) show ?thesis by (auto simp: pool_inv_def intro: flight_ok_drop)
qed (use assms(2) in \<open>auto simp: pool_inv_def held_keys_def\<close>)

lemma held_keys_chan:
  "held_keys (wp\<lparr>wp_jobChan := c\<rparr>) + mset (map item_Key (wp_jobChan wp)) = held_keys wp + mset (map item_Key c)"
  by (simp add: held_keys_def)

lemma pool_inv_worker_step:
  assumes "worker_step i wp wp'" "pool_inv wp"
  shows "pool_inv wp'"
  using assms
proof (cases rule: worker_step.cases)
  case (receive job jobs)
  from held_keys_worker [of i "wp\<lparr>wp_jobChan := jobs\<rparr>" "WRunning job"] held_keys_chan [of jobs wp] receive
  have "held_keys wp' = held_keys wp" by simp
  with receive assms(2) show ?thesis by (simp add: pool_inv_def)
next
  case range_end
  with held_keys_worker [of i wp WExited] have "held_keys wp' = held_keys wp" by simp
  with range_end assms(2) show ?thesis by (simp add: pool_inv_def)
next
  case (handled job)
  from held_keys_worker [of i "wp\<lparr>wp_queue := Done (item_Key job) (wp_queue wp)\<rparr>" WIdle] handled
  have "held_keys wp = add_mset (item_Key job) (held_keys wp')" by simp
  with handled assms(2) show ?thesis by (simp add: pool_inv_def flight_ok_Done)
qed

lemma pool_inv_env: "pool_env wp wp' \<Longrightarrow> pool_inv wp \<Longrightarrow> pool_inv wp'"
  by (erule pool_envE)
     (simp_all add: pool_inv_def flight_ok_Enqueue flight_ok_SetLengthGauge Stop_def held_keys_def)

lemma pool_inv_New:
  "NewWorkerPool NewKeyedAppQueue n = Ret wp \<Longrightarrow> pool_inv wp \<and> chan_inv wp"
  by (auto simp: NewWorkerPool_def pool_inv_def chan_inv_def flight_ok_def held_keys_def
      wakeup_inv_def split: if_splits) (auto simp: NewKeyedAppQueue_def)

lemma pool_reachable_inv: "pool_reachable n wp \<Longrightarrow> pool_inv wp \<and> chan_inv wp"
proof (induction rule: pool_reachable.induct)
  case (step wp wp')
  then show ?case
    by (meson pool_step_def pool_inv_dequeueLoop pool_inv_worker_step chan_inv_step)
next
  case (env wp wp')
  then show ?case by (meson pool_inv_env chan_inv_env)
qed (rule pool_inv_New)

section \<open>Progress and the work left\<close>

text \<open>An upper bound on the steps the goroutines can still take without a call from outside.\<close>

definition queue_work :: "KeyedAppQueue \<Rightarrow> nat" where
  "queue_work q = 10 * (length (kq_items q) + card (dom (kq_pending q))) + kq_woken q"

fun dispatcher_work :: "bool \<Rightarrow> dispatcher \<Rightarrow> nat" where
  "dispatcher_work c DCheck = (if c then 1 else 3)"
| "dispatcher_work c DDequeue = 2"
| "dispatcher_work c DWaiting = (if c then 1 else 0)"
| "dispatcher_work c (DSend it) = 8"
| "dispatcher_work c DExited = 0"

fun worker_work :: "worker \<Rightarrow> nat" where
  "worker_work WIdle = 1"
| "worker_work (WRunning it) = 3"
| "worker_work WExited = 0"

definition pool_work :: "WorkerPool \<Rightarrow> nat" where
  "pool_work wp = queue_work (wp_queue wp) + dispatcher_work (wp_cancelled wp) (wp_dispatcher wp) +
     3 * length (wp_jobChan wp) + sum_list (map worker_work (wp_workers wp))"

lemma sum_list_update_nat:
  "i < length xs \<Longrightarrow> sum_list (map f (xs[i := y])) + f (xs ! i) = sum_list (map f xs) + (f y :: nat)"
proof (induction xs arbitrary: i)
  case (Cons x xs)
  then show ?case by (cases i) (auto simp: algebra_simps)
qed simp

lemma finite_pending: "queue_inv q \<Longrightarrow> finite (dom (kq_pending q))"
  using queue_invD(7,9) finite_subset by blast

lemma queue_work_Done:
  assumes inv: "queue_inv q"
  shows "queue_work (Done k q) \<le> queue_work q + 1"
proof (cases "k \<in> kq_processing q \<and> kq_pending q k \<noteq> None")
  case True
  then obtain a where a: "kq_pending q k = Some a" "app_key a = k" "k \<in> kq_processing q"
    using queue_invD(8) [OF inv] by auto
  note rel = queue_inv_release_key [OF inv, of k]
  have card: "card (dom (kq_pending q)) = Suc (card (dom (kq_pending q) - {k}))"
    using a(1) finite_pending [OF inv] by (metis card_Suc_Diff1 domI)
  from rel have "length (kq_items (enqueueLocked a (release_key k q))) \<le> Suc (length (kq_items q)) \<and>
      kq_woken (enqueueLocked a (release_key k q)) \<le> Suc (kq_woken q) \<and>
      kq_pending (enqueueLocked a (release_key k q)) = (kq_pending q)(k := None)"
    by (cases rule: enqueueLocked_cases [where app = a]) (auto simp: cond_Signal_def a(2))
  with a card show ?thesis by (simp add: Done_release_key queue_work_def)
next
  case False
  then show ?thesis by (auto simp: Done_def queue_work_def Let_def)
qed

lemma queue_work_DequeueWait:
  assumes "DequeueWait c q = (r, q')"
  shows "queue_work q = queue_work q' + (case r of Dequeued it \<Rightarrow> 10 | _ \<Rightarrow> 0)"
    "r = DequeueCancelled \<Longrightarrow> c" "r = DequeueBlocked \<Longrightarrow> \<not> c"
  using assms by (auto simp: DequeueWait_def Let_def queue_work_def split: list.splits if_splits)

lemma pool_work_dequeueLoop:
  assumes "dequeueLoop wp wp'"
  shows "pool_work wp' < pool_work wp"
  using assms
proof (cases rule: dequeueLoop.cases)
  case dequeue
  obtain r q' where run: "DequeueWait (wp_cancelled wp) (wp_queue wp) = (r, q')" by fastforce
  from dequeue(1) have "wp' = after_dequeue (r, q') wp" unfolding run .
  with dequeue(2) queue_work_DequeueWait [OF run] show ?thesis
    by (cases r) (simp_all add: pool_work_def after_dequeue_def)
next
  case woken
  obtain r q' where run: "DequeueWait (wp_cancelled wp) (DequeueWait_wake (wp_queue wp)) = (r, q')"
    by fastforce
  have "queue_work (wp_queue wp) = Suc (queue_work (DequeueWait_wake (wp_queue wp)))"
    using woken(3) by (simp add: queue_work_def DequeueWait_wake_def)
  moreover from woken(1) have "wp' = after_dequeue (r, q') wp" unfolding run .
  ultimately show ?thesis using woken(2) queue_work_DequeueWait [OF run]
    by (cases r) (simp_all add: pool_work_def after_dequeue_def)
qed (auto simp: pool_work_def)

lemma pool_work_worker_step:
  assumes "worker_step i wp wp'" "pool_inv wp"
  shows "pool_work wp' < pool_work wp"
  using assms
proof (cases rule: worker_step.cases)
  case (handled job)
  have "queue_work (Done (item_Key job) (wp_queue wp)) \<le> queue_work (wp_queue wp) + 1"
    using assms(2) by (intro queue_work_Done) (simp add: pool_inv_def flight_ok_def)
  with handled sum_list_update_nat [of i "wp_workers wp" worker_work WIdle] show ?thesis
    by (simp add: pool_work_def)
next
  case (receive job jobs)
  with sum_list_update_nat [of i "wp_workers wp" worker_work "WRunning job"] show ?thesis
    by (simp add: pool_work_def)
next
  case range_end
  with sum_list_update_nat [of i "wp_workers wp" worker_work WExited] show ?thesis
    by (simp add: pool_work_def)
qed

text \<open>A worker can move while jobs wait in the channel or are being handled.\<close>

lemma worker_can_step:
  assumes "WExited \<notin> set (wp_workers wp)" "wp_workers wp \<noteq> []"
    "wp_jobChan wp \<noteq> [] \<or> (\<exists>job. WRunning job \<in> set (wp_workers wp))"
  shows "\<exists>i wp'. worker_step i wp wp'"
proof (cases "\<exists>job. WRunning job \<in> set (wp_workers wp)")
  case True
  then show ?thesis by (metis in_set_conv_nth worker_step.handled)
next
  case False
  from assms(2) have "wp_workers wp ! 0 \<in> set (wp_workers wp)" by simp
  with False assms(1) have "wp_workers wp ! 0 = WIdle" by (metis worker.exhaust)
  moreover from False assms(3) obtain job jobs where "wp_jobChan wp = job # jobs"
    by (auto simp: neq_Nil_conv)
  ultimately show ?thesis using worker_step.receive [of 0 wp] assms(2) by blast
qed

lemma pool_progress:
  assumes inv: "pool_inv wp" "chan_inv wp" and run: "\<not> wp_cancelled wp" "wp_workers wp \<noteq> []"
    and work: "kq_items (wp_queue wp) \<noteq> [] \<or> held_keys wp \<noteq> {#}"
  shows "\<exists>wp'. pool_step wp wp'"
proof (cases "wp_jobChan wp \<noteq> [] \<or> (\<exists>job. WRunning job \<in> set (wp_workers wp))")
  case True
  from inv(2) run(1) have "WExited \<notin> set (wp_workers wp)" by (auto simp: chan_inv_def)
  with True run(2) show ?thesis using worker_can_step pool_step_def by blast
next
  case False
  show ?thesis
  proof (cases "wp_dispatcher wp")
    case DWaiting
    from False have "worker_items w = []" if "w \<in> set (wp_workers wp)" for w
      using that by (cases w) auto
    with DWaiting False have "held_keys wp = {#}" by (simp add: held_keys_def)
    with work have "0 < length (kq_items (wp_queue wp))" by simp
    moreover from inv(1) DWaiting have "kq_waiters (wp_queue wp) + kq_woken (wp_queue wp) = 1"
      "kq_waiters (wp_queue wp) > 0 \<longrightarrow> length (kq_items (wp_queue wp)) \<le> kq_woken (wp_queue wp)"
      by (simp_all add: pool_inv_def flight_ok_def wakeup_inv_def)
    ultimately have "0 < kq_woken (wp_queue wp)" by linarith
    with DWaiting show ?thesis by (auto simp: pool_step_def intro: dequeueLoop.woken)
  next
    case (DSend it)
    with False inv(2) run(2) show ?thesis
      by (auto simp: pool_step_def chan_inv_def intro!: exI dequeueLoop.send)
  next
    case DExited
    with inv(2) run(1) show ?thesis by (simp add: chan_inv_def)
  qed (use run(1) in \<open>auto simp: pool_step_def intro: dequeueLoop.intros\<close>)
qed

section \<open>Properties\<close>

lemma distinct_if_count_le_1:
  assumes "\<And>k. count (mset xs) k \<le> 1"
  shows "distinct xs"
  unfolding distinct_count_atmost_1
proof
  fix a
  show "count (mset xs) a = (if a \<in> set xs then 1 else 0)"
    using assms [of a] count_mset_0_iff [of xs a] by (cases "a \<in> set xs") (auto simp: le_Suc_eq)
qed

lemma distinct_concat_less:
  assumes "distinct (map f (concat (map g ws)))" "i < j" "j < length ws"
    "x \<in> set (g (ws ! i))" "y \<in> set (g (ws ! j))"
  shows "f x \<noteq> f y"
proof -
  have ws: "ws = take j ws @ ws ! j # drop (Suc j) ws" using assms(3) by (rule id_take_nth_drop)
  have "ws ! i \<in> set (take j ws)" using assms(2,3) by (auto simp: in_set_conv_nth)
  then have "f x \<in> f ` set (concat (map g (take j ws)))" using assms(4) by auto
  moreover from assms(1) have "f ` set (concat (map g (take j ws))) \<inter> f ` set (g (ws ! j)) = {}"
    by (subst (asm) ws) (auto simp del: set_concat)
  ultimately show ?thesis using assms(5) by (metis disjoint_iff imageI)
qed

lemma distinct_concat_nth:
  assumes "distinct (map f (concat (map g ws)))" "i < length ws" "j < length ws" "i \<noteq> j"
    "x \<in> set (g (ws ! i))" "y \<in> set (g (ws ! j))"
  shows "f x \<noteq> f y"
proof (cases "i < j")
  case True
  with assms show ?thesis by (intro distinct_concat_less [of f g ws i j])
next
  case False
  with assms have "f y \<noteq> f x" by (intro distinct_concat_less [of f g ws j i]) simp_all
  then show ?thesis by simp
qed

text \<open>
  (C15) However the goroutines interleave, two workers never handle the same application at the
  same time, and an application that is being handled is neither queued nor in the channel.
\<close>

theorem pool_handles_app_exclusively:
  assumes "pool_reachable n wp" "i < length (wp_workers wp)" "wp_workers wp ! i = WRunning a"
  shows "(\<forall>j b. j < length (wp_workers wp) \<longrightarrow> j \<noteq> i \<longrightarrow> wp_workers wp ! j = WRunning b \<longrightarrow>
      item_Key b \<noteq> item_Key a) \<and>
    item_Key a \<notin> set (item_keys (wp_queue wp)) \<and> item_Key a \<notin> item_Key ` set (wp_jobChan wp)"
proof -
  let ?run = "concat (map worker_items (wp_workers wp))"
  from pool_reachable_inv [OF assms(1)] have ok: "flight_ok (wp_queue wp) (held_keys wp)
     (wp_dispatcher wp \<noteq> DExited \<or> wp_closed wp) (wp_dispatcher wp = DWaiting)"
    by (simp add: pool_inv_def)
  have "distinct (map item_Key (dispatcher_items (wp_dispatcher wp) @ wp_jobChan wp @ ?run))"
    using flight_okD(3) [OF ok] unfolding held_keys_def by (rule distinct_if_count_le_1)
  then have d: "distinct (map item_Key ?run)" "item_Key ` set (wp_jobChan wp) \<inter> item_Key ` set ?run = {}"
    by auto
  have a: "a \<in> set (worker_items (wp_workers wp ! i))" using assms(3) by simp
  then have a': "a \<in> set ?run" using nth_mem [OF assms(2)] by auto
  have "item_Key a \<in># held_keys wp" using a' by (auto simp: held_keys_def)
  then have "item_Key a \<in> kq_processing (wp_queue wp)" using flight_okD(4) [OF ok] by blast
  then have "item_Key a \<notin> set (item_keys (wp_queue wp))"
    using queue_invD(6) [OF flight_okD(1) [OF ok]] by auto
  moreover have "item_Key b \<noteq> item_Key a"
    if "j < length (wp_workers wp)" "j \<noteq> i" "wp_workers wp ! j = WRunning b" for j b
    using distinct_concat_nth [OF d(1) that(1) assms(2) that(2), of b a] that(3) a by simp
  ultimately show ?thesis using d(2) a' by blast
qed

lemma pool_step_config:
  assumes "pool_step wp wp'"
  shows "wp_cancelled wp' = wp_cancelled wp" "length (wp_workers wp') = length (wp_workers wp)"
  using assms
  by (auto simp: pool_step_def after_dequeue_def elim!: dequeueLoop.cases worker_step.cases)

lemma pool_workers_length: "pool_reachable n wp \<Longrightarrow> length (wp_workers wp) = nat n"
proof (induction rule: pool_reachable.induct)
  case (env wp wp')
  then show ?case by (auto elim!: pool_envE simp: Stop_def)
qed (auto simp: NewWorkerPool_def pool_step_config split: if_splits)

lemma pool_run_step:
  assumes "pool_step wp wp'" "pool_reachable n wp"
  shows "pool_reachable n wp' \<and> wp_cancelled wp' = wp_cancelled wp \<and> Suc (pool_work wp') \<le> pool_work wp"
proof -
  from pool_reachable_inv [OF assms(2)] assms(1) have "pool_work wp' < pool_work wp"
    by (auto simp: pool_step_def intro: pool_work_dequeueLoop pool_work_worker_step)
  with assms pool_step_config [OF assms(1)] show ?thesis by (auto intro: pool_reachable.step)
qed

definition drained :: "WorkerPool \<Rightarrow> bool" where
  "drained wp \<longleftrightarrow> kq_items (wp_queue wp) = [] \<and> kq_pending (wp_queue wp) = Map.empty \<and>
     kq_processing (wp_queue wp) = {} \<and> wp_jobChan wp = [] \<and> set (wp_workers wp) \<subseteq> {WIdle}"

lemma worker_items_Nil: "worker_items w = [] \<longleftrightarrow> (\<forall>job. w \<noteq> WRunning job)"
  by (cases w) auto

lemma pool_stuck_drained:
  assumes "pool_reachable n wp" "0 < n" "\<not> wp_cancelled wp" "\<nexists>wp'. pool_step wp wp'"
  shows "drained wp"
proof -
  from pool_reachable_inv [OF assms(1)] have inv: "pool_inv wp" "chan_inv wp" by simp_all
  have "wp_workers wp \<noteq> []" using pool_workers_length [OF assms(1)] assms(2) by auto
  with pool_progress [OF inv] assms(3,4) have e: "kq_items (wp_queue wp) = []" "held_keys wp = {#}"
    by blast+
  have dexit: "wp_dispatcher wp \<noteq> DExited" "WExited \<notin> set (wp_workers wp)"
    using inv(2) assms(3) by (auto simp: chan_inv_def)
  from inv(1) have ok: "flight_ok (wp_queue wp) (held_keys wp)
     (wp_dispatcher wp \<noteq> DExited \<or> wp_closed wp) (wp_dispatcher wp = DWaiting)"
    by (simp add: pool_inv_def)
  with dexit e(2) have p: "kq_processing (wp_queue wp) = {}" by (auto dest: flight_okD(5))
  with queue_invD(7) [OF flight_okD(1) [OF ok]] have "kq_pending (wp_queue wp) = Map.empty" by auto
  moreover from e(2) have "wp_jobChan wp = []" "\<forall>w \<in> set (wp_workers wp). worker_items w = []"
    by (auto simp: held_keys_def)
  moreover from this(2) dexit(2) have "set (wp_workers wp) \<subseteq> {WIdle}"
    by (metis insertI1 subsetI worker.exhaust worker_items_Nil)
  ultimately show ?thesis using e(1) p by (simp add: drained_def)
qed

text \<open>
  (C16) The pool drains its queue: from any reachable state with at least one worker that has
  not been stopped, and with no further calls from outside, the goroutines take at most
  \<open>pool_work\<close> steps, and they stop only when every queued and pending application has been
  handled and marked done.
\<close>

theorem pool_drains_queue:
  assumes "pool_reachable n wp" "0 < n" "\<not> wp_cancelled wp" "(pool_step ^^ m) wp wp'"
  shows "m \<le> pool_work wp \<and> ((\<exists>wp''. pool_step wp' wp'') \<or>
    drained wp')"
proof -
  have "pool_reachable n wp' \<and> \<not> wp_cancelled wp' \<and> m + pool_work wp' \<le> pool_work wp"
    using assms(4)
  proof (induction m arbitrary: wp')
    case (Suc m)
    then obtain v where "(pool_step ^^ m) wp v" "pool_step v wp'" by auto
    with Suc.IH [of v] pool_run_step [of v wp' n] show ?case by fastforce
  qed (use assms(1,3) in simp)
  moreover have "drained wp'" if "\<nexists>wp''. pool_step wp' wp''" "pool_reachable n wp'" "\<not> wp_cancelled wp'"
    using pool_stuck_drained [OF that(2) assms(2) that(3,1)] .
  ultimately show ?thesis by auto
qed

text \<open>
  \<open>Stop\<close> does not end an idle pool: when the dispatcher sleeps in \<open>DequeueWait\<close> and no job is
  in flight, cancelling the context enables no step of any goroutine, since nothing signals
  \<open>notEmpty\<close>; the dispatcher stays blocked and the channel is never closed.
\<close>

theorem stop_leaves_idle_pool_blocked:
  assumes "pool_reachable n wp" "wp_dispatcher wp = DWaiting" "kq_woken (wp_queue wp) = 0"
    "wp_jobChan wp = []" "set (wp_workers wp) \<subseteq> {WIdle}"
  shows "(\<nexists>wp'. pool_step (Stop wp) wp') \<and> \<not> wp_closed (Stop wp)"
proof -
  have "\<not> wp_closed wp" using pool_reachable_inv [OF assms(1)] assms(2) by (auto simp: chan_inv_def)
  moreover have "\<not> dequeueLoop (Stop wp) wp'" for wp'
    using assms(2,3) by (auto simp: Stop_def elim!: dequeueLoop.cases)
  moreover have "wp_workers wp ! i = WIdle" if "i < length (wp_workers wp)" for i
    using nth_mem [OF that] assms(5) by blast
  then have "\<not> worker_step i (Stop wp) wp'" for i wp'
    using assms(4) \<open>\<not> wp_closed wp\<close> by (auto simp: Stop_def elim!: worker_step.cases)
  ultimately show ?thesis by (auto simp: pool_step_def Stop_def)
qed

section \<open>Concrete runs\<close>

definition sample_pool :: "dispatcher \<Rightarrow> AppQueueItem list \<Rightarrow> worker list \<Rightarrow> KeyedAppQueue \<Rightarrow> WorkerPool" where
  "sample_pool d c ws q = \<lparr>wp_queue = q, wp_cap = 4, wp_jobChan = c, wp_closed = False,
     wp_cancelled = False, wp_dispatcher = d, wp_workers = ws\<rparr>"

abbreviation sample_item :: AppQueueItem where
  "sample_item \<equiv> \<lparr>item_Key = ''argocd/web'', item_Value = sample_app ''argocd'' ''web'' ''1''\<rparr>"

abbreviation sample_queue :: KeyedAppQueue where
  "sample_queue \<equiv> Enqueue (sample_app ''argocd'' ''web'' ''1'') NewKeyedAppQueue"

lemma sample_pool_new: "pool_reachable 2 (sample_pool DCheck [] [WIdle, WIdle] NewKeyedAppQueue)"
  by (rule pool_reachable.init) (simp add: NewWorkerPool_def sample_pool_def numeral_2_eq_2)

lemma sample_pool_enqueued: "pool_reachable 2 (sample_pool DCheck [] [WIdle, WIdle] sample_queue)"
  using pool_reachable.env [OF sample_pool_new pool_env.enqueue, of "sample_app ''argocd'' ''web'' ''1''"]
  by (simp add: sample_pool_def)

lemma sample_pool_check:
  "pool_step (sample_pool DCheck c ws q) (sample_pool DDequeue c ws q)"
  using dequeueLoop.check_default [of "sample_pool DCheck c ws q"]
  by (simp add: sample_pool_def pool_step_def)

lemma sample_pool_running:
  "\<exists>q. pool_reachable 2 (sample_pool DCheck [] [WRunning sample_item, WIdle] q)"
proof -
  define q where "q = snd (DequeueWait False sample_queue)"
  have d: "DequeueWait False sample_queue = (Dequeued sample_item, q)"
    by (simp add: q_def queue_ops_defs Let_def)
  have "pool_step (sample_pool DDequeue [] [WIdle, WIdle] sample_queue)
      (sample_pool (DSend sample_item) [] [WIdle, WIdle] q)"
    using dequeueLoop.dequeue [of "sample_pool DDequeue [] [WIdle, WIdle] sample_queue"] d
    by (simp add: sample_pool_def pool_step_def after_dequeue_def)
  moreover have "pool_step (sample_pool (DSend sample_item) [] [WIdle, WIdle] q)
      (sample_pool DCheck [sample_item] [WIdle, WIdle] q)"
    using dequeueLoop.send [of "sample_pool (DSend sample_item) [] [WIdle, WIdle] q"]
    by (simp add: sample_pool_def pool_step_def)
  moreover have "pool_step (sample_pool DCheck [sample_item] [WIdle, WIdle] q)
      (sample_pool DCheck [] [WRunning sample_item, WIdle] q)"
    using worker_step.receive [of 0 "sample_pool DCheck [sample_item] [WIdle, WIdle] q"]
    by (auto simp: sample_pool_def pool_step_def)
  ultimately have "pool_reachable 2 (sample_pool DCheck [] [WRunning sample_item, WIdle] q)"
    by (rule pool_reachable.step [OF pool_reachable.step [OF pool_reachable.step
          [OF pool_reachable.step [OF sample_pool_enqueued sample_pool_check]]]])
  then show ?thesis ..
qed

theorem pool_handles_app_exclusively_witness:
  "\<exists>q. item_Key sample_item \<notin> set (item_keys q)"
proof -
  from sample_pool_running obtain q where
    "pool_reachable 2 (sample_pool DCheck [] [WRunning sample_item, WIdle] q)" ..
  from pool_handles_app_exclusively [OF this, of 0 sample_item] show ?thesis
    by (auto simp: sample_pool_def)
qed

theorem pool_drains_queue_witness:
  "1 \<le> pool_work (sample_pool DCheck [] [WIdle, WIdle] sample_queue)"
proof -
  have "(pool_step ^^ 1) (sample_pool DCheck [] [WIdle, WIdle] sample_queue)
      (sample_pool DDequeue [] [WIdle, WIdle] sample_queue)"
    using sample_pool_check by (simp add: eq_OO)
  from pool_drains_queue [OF sample_pool_enqueued _ _ this] show ?thesis
    by (simp add: sample_pool_def)
qed

theorem stop_leaves_idle_pool_blocked_witness:
  "\<exists>wp. wp_cancelled wp \<and> wp_dispatcher wp = DWaiting \<and> (\<nexists>wp'. pool_step wp wp')"
proof -
  define q where "q = snd (DequeueWait False NewKeyedAppQueue)"
  have d: "DequeueWait False NewKeyedAppQueue = (DequeueBlocked, q)" "kq_woken q = 0"
    by (simp_all add: q_def queue_ops_defs)
  let ?wp = "sample_pool DWaiting [] [WIdle, WIdle] q"
  have "pool_step (sample_pool DDequeue [] [WIdle, WIdle] NewKeyedAppQueue) ?wp"
    using dequeueLoop.dequeue [of "sample_pool DDequeue [] [WIdle, WIdle] NewKeyedAppQueue"] d(1)
    by (simp add: sample_pool_def pool_step_def after_dequeue_def)
  with sample_pool_new sample_pool_check have "pool_reachable 2 ?wp" by (meson pool_reachable.step)
  from stop_leaves_idle_pool_blocked [OF this] d(2) have "\<nexists>wp'. pool_step (Stop ?wp) wp'"
    by (simp add: sample_pool_def)
  then show ?thesis by (intro exI [of _ "Stop ?wp"]) (simp add: Stop_def sample_pool_def)
qed

end
