(* ===== verification/EventHandler.thy ===== *)
theory EventHandler
  imports AppTypes
begin

text \<open>
  The broadcaster of application informer events, \<open>mrp_controller/controller/eventhandler.go\<close>.
  Subscribers are compared by pointer, so each carries the address it was allocated at; a
  subscriber's handler acts on the state \<open>'st\<close> of its owner and may return an error, which
  \<open>notify\<close> only logs.  The locale \<open>event_broadcaster\<close> states what subscribers rely on.
\<close>

section \<open>State and operations\<close>

record 'st subscriber =
  sub_addr :: nat
  sub_eventHandler :: "ApplicationWatchEvent \<Rightarrow> 'st \<Rightarrow> go_error option \<times> 'st"
  sub_filters :: "(ApplicationWatchEvent \<Rightarrow> bool) list"

fun matches_filters :: "(ApplicationWatchEvent \<Rightarrow> bool) list \<Rightarrow> ApplicationWatchEvent \<Rightarrow> bool" where
  "matches_filters [] event = True"
| "matches_filters (f # fs) event = (if \<not> f event then False else matches_filters fs event)"

definition matches :: "'st subscriber \<Rightarrow> ApplicationWatchEvent \<Rightarrow> bool" where
  "matches s event = matches_filters (sub_filters s) event"

record 'st appEventHandler =
  aeh_subscribers :: "'st subscriber list"
  aeh_next :: nat

definition NewAppEventHandler :: "'st appEventHandler" where
  "NewAppEventHandler = \<lparr>aeh_subscribers = [], aeh_next = 0\<rparr>"

fun notify_all :: "'st subscriber list \<Rightarrow> ApplicationWatchEvent \<Rightarrow> 'st \<Rightarrow> 'st" where
  "notify_all [] event st = st"
| "notify_all (s # ss) event st =
     notify_all ss event (if matches s event then snd (sub_eventHandler s event st) else st)"

definition notify :: "'st appEventHandler \<Rightarrow> ApplicationWatchEvent \<Rightarrow> 'st \<Rightarrow> 'st" where
  "notify b event st = notify_all (aeh_subscribers b) event st"

text \<open>\<open>Subscribe\<close> returns the address its closure compares with, and the new broadcaster.\<close>

definition Subscribe :: "(ApplicationWatchEvent \<Rightarrow> 'st \<Rightarrow> go_error option \<times> 'st)
    \<Rightarrow> (ApplicationWatchEvent \<Rightarrow> bool) list \<Rightarrow> 'st appEventHandler \<Rightarrow> nat \<times> 'st appEventHandler" where
  "Subscribe handlerFunc filters b =
     (let s = \<lparr>sub_addr = aeh_next b, sub_eventHandler = handlerFunc, sub_filters = filters\<rparr>
      in (aeh_next b, b\<lparr>aeh_subscribers := aeh_subscribers b @ [s], aeh_next := Suc (aeh_next b)\<rparr>))"

fun remove_first :: "nat \<Rightarrow> 'st subscriber list \<Rightarrow> 'st subscriber list" where
  "remove_first addr [] = []"
| "remove_first addr (s # ss) = (if sub_addr s = addr then ss else s # remove_first addr ss)"

definition unsubscribe :: "nat \<Rightarrow> 'st appEventHandler \<Rightarrow> 'st appEventHandler" where
  "unsubscribe addr b = b\<lparr>aeh_subscribers := remove_first addr (aeh_subscribers b)\<rparr>"

text \<open>
  An informer object is an interface value: a pointer to an application (possibly nil) or
  something else, such as the tombstone of a missed deletion.
\<close>

datatype informer_obj = ApplicationPtr "Application option" | OtherObject

definition watch_Added :: string where "watch_Added = ''ADDED''"
definition watch_Modified :: string where "watch_Modified = ''MODIFIED''"
definition watch_Deleted :: string where "watch_Deleted = ''DELETED''"
definition watch_Bookmark :: string where "watch_Bookmark = ''BOOKMARK''"

lemmas watch_defs = watch_Added_def watch_Modified_def watch_Deleted_def watch_Bookmark_def

definition notify_obj :: "string \<Rightarrow> 'st appEventHandler \<Rightarrow> informer_obj \<Rightarrow> 'st \<Rightarrow> 'st go" where
  "notify_obj ty b obj st =
     (case obj of
        ApplicationPtr (Some app) \<Rightarrow> Ret (notify b \<lparr>ev_Type = ty, ev_Application = app\<rparr> st)
      | ApplicationPtr None \<Rightarrow> Panic NilDereference
      | OtherObject \<Rightarrow> Ret st)"

definition OnAdd :: "'st appEventHandler \<Rightarrow> informer_obj \<Rightarrow> bool \<Rightarrow> 'st \<Rightarrow> 'st go" where
  "OnAdd b obj isInInitialList st = notify_obj watch_Added b obj st"

definition OnUpdate :: "'st appEventHandler \<Rightarrow> informer_obj \<Rightarrow> informer_obj \<Rightarrow> 'st \<Rightarrow> 'st go" where
  "OnUpdate b oldObj newObj st = notify_obj watch_Modified b newObj st"

definition OnDelete :: "'st appEventHandler \<Rightarrow> informer_obj \<Rightarrow> 'st \<Rightarrow> 'st go" where
  "OnDelete b obj st = notify_obj watch_Deleted b obj st"

section \<open>The contract of a broadcaster\<close>

text \<open>
  \<open>deliver b ev\<close> is the effect of broadcasting an event.  A new subscription adds its handler
  after those already there, and ending it restores the effect of broadcasting without it.
\<close>

locale event_broadcaster =
  fixes good :: "'b \<Rightarrow> bool"
    and deliver :: "'b \<Rightarrow> 'e \<Rightarrow> 'st \<Rightarrow> 'st"
    and subscribe :: "('e \<Rightarrow> 'st \<Rightarrow> go_error option \<times> 'st) \<Rightarrow> ('e \<Rightarrow> bool) list \<Rightarrow> 'b \<Rightarrow> 't \<times> 'b"
    and cancel :: "'t \<Rightarrow> 'b \<Rightarrow> 'b"
  assumes good_subscribe: "good b \<Longrightarrow> good (snd (subscribe h fs b))"
    and good_cancel: "good b \<Longrightarrow> good (cancel t b)"
    and deliver_subscribe: "good b \<Longrightarrow> deliver (snd (subscribe h fs b)) ev st =
      (if \<forall>f \<in> set fs. f ev then snd (h ev (deliver b ev st)) else deliver b ev st)"
    and deliver_cancel: "good b \<Longrightarrow> subscribe h fs b = (t, b') \<Longrightarrow> deliver (cancel t b') = deliver b"
    and cancel_other: "good b \<Longrightarrow> subscribe h fs b = (t, b') \<Longrightarrow> subscribe h' fs' b' = (t', b'') \<Longrightarrow>
      deliver (cancel t b'') ev st =
        (if \<forall>f \<in> set fs'. f ev then snd (h' ev (deliver b ev st)) else deliver b ev st)"
begin

lemma deliver_filtered:
  assumes "good b" "f \<in> set fs" "\<not> f ev"
  shows "deliver (snd (subscribe h fs b)) ev = deliver b ev"
  using assms by (auto simp: deliver_subscribe fun_eq_iff)

text \<open>What holds of the state under every handler is kept by broadcasting.\<close>

lemma deliver_subscribe_inv:
  assumes "good b" "P (deliver b ev st)" "\<And>s. P s \<Longrightarrow> P (snd (h ev s))"
  shows "P (deliver (snd (subscribe h fs b)) ev st)"
  using assms by (simp add: deliver_subscribe)

end

definition addrs_ok :: "'st appEventHandler \<Rightarrow> bool" where
  "addrs_ok b \<longleftrightarrow> distinct (map sub_addr (aeh_subscribers b)) \<and>
     (\<forall>s \<in> set (aeh_subscribers b). sub_addr s < aeh_next b)"

lemma matches_iff: "matches s event \<longleftrightarrow> (\<forall>f \<in> set (sub_filters s). f event)"
proof -
  have "matches_filters fs event \<longleftrightarrow> (\<forall>f \<in> set fs. f event)" for fs
    by (induction fs) auto
  then show ?thesis by (simp add: matches_def)
qed

lemma notify_all_append: "notify_all (xs @ ys) ev st = notify_all ys ev (notify_all xs ev st)"
  by (induction xs arbitrary: st) auto

lemma set_remove_first: "set (remove_first a ss) \<subseteq> set ss"
  by (induction ss) auto

lemma distinct_remove_first:
  "distinct (map sub_addr ss) \<Longrightarrow> distinct (map sub_addr (remove_first a ss))"
  by (induction ss) (auto dest: set_remove_first [THEN subsetD])

lemma remove_first_append:
  "a \<notin> sub_addr ` set xs \<Longrightarrow> remove_first a (xs @ ys) = xs @ remove_first a ys"
  by (induction xs) auto

lemma addrs_ok_fresh: "addrs_ok b \<Longrightarrow> aeh_next b \<notin> sub_addr ` set (aeh_subscribers b)"
  by (auto simp: addrs_ok_def)

lemma addrs_ok_Subscribe: "addrs_ok b \<Longrightarrow> addrs_ok (snd (Subscribe h fs b))"
  by (auto simp: addrs_ok_def Subscribe_def less_Suc_eq)

interpretation broadcaster: event_broadcaster addrs_ok notify Subscribe unsubscribe
proof (unfold_locales, goal_cases)
  case (1 b h fs)
  then show ?case by (rule addrs_ok_Subscribe)
next
  case (2 b t)
  then show ?case
    using set_remove_first by (fastforce simp: addrs_ok_def unsubscribe_def distinct_remove_first)
next
  case (3 b h fs ev st)
  then show ?case by (auto simp: notify_def Subscribe_def notify_all_append matches_iff)
next
  case (4 b h fs t b')
  then show ?case
    by (auto simp: notify_def Subscribe_def unsubscribe_def remove_first_append addrs_ok_fresh fun_eq_iff)
next
  case (5 b h fs t b' h' fs' t' b'' ev st)
  then show ?case
    by (auto simp: notify_def Subscribe_def unsubscribe_def remove_first_append addrs_ok_fresh
        notify_all_append matches_iff)
qed

end
