(* ===== verification/RepoTypes.thy ===== *)
theory RepoTypes
  imports AppTypes GoStrings
begin

text \<open>
  Repositories and their credentials, \<open>pkg/apis/application/v1alpha1/repository_types.go\<close>: the
  records, the merging of credentials and settings, and the copy that is safe to hand out.
  A nil pointer argument is \<open>None\<close>; a mutating method returns the updated record.
\<close>

section \<open>Data\<close>

record ConnectionState =
  conn_Status :: "string"
  conn_Message :: "string"
  conn_ModifiedAt :: "Time option"

record RepoCreds =
  rc_URL :: "string"
  rc_Username :: "string"
  rc_Password :: "string"
  rc_SSHPrivateKey :: "string"
  rc_TLSClientCertData :: "string"
  rc_TLSClientCertKey :: "string"
  rc_GithubAppPrivateKey :: "string"
  rc_GithubAppId :: "int"
  rc_GithubAppInstallationId :: "int"
  rc_GitHubAppEnterpriseBaseURL :: "string"
  rc_EnableOCI :: "bool"
  rc_Type :: "string"
  rc_GCPServiceAccountKey :: "string"
  rc_Proxy :: "string"
  rc_ForceHttpBasicAuth :: "bool"
  rc_NoProxy :: "string"
  rc_UseAzureWorkloadIdentity :: "bool"
  rc_BearerToken :: "string"
  rc_InsecureOCIForceHttp :: "bool"

record Repository =
  repo_Repo :: "string"
  repo_Username :: "string"
  repo_Password :: "string"
  repo_SSHPrivateKey :: "string"
  repo_ConnectionState :: "ConnectionState"
  repo_InsecureIgnoreHostKey :: "bool"
  repo_Insecure :: "bool"
  repo_EnableLFS :: "bool"
  repo_TLSClientCertData :: "string"
  repo_TLSClientCertKey :: "string"
  repo_Type :: "string"
  repo_Name :: "string"
  repo_InheritedCreds :: "bool"
  repo_EnableOCI :: "bool"
  repo_GithubAppPrivateKey :: "string"
  repo_GithubAppId :: "int"
  repo_GithubAppInstallationId :: "int"
  repo_GitHubAppEnterpriseBaseURL :: "string"
  repo_Proxy :: "string"
  repo_Project :: "string"
  repo_GCPServiceAccountKey :: "string"
  repo_ForceHttpBasicAuth :: "bool"
  repo_NoProxy :: "string"
  repo_UseAzureWorkloadIdentity :: "bool"
  repo_BearerToken :: "string"
  repo_InsecureOCIForceHttp :: "bool"

record RepositoryCertificate =
  cert_ServerName :: "string"
  cert_CertType :: "string"
  cert_CertSubType :: "string"
  cert_CertData :: "string"
  cert_CertInfo :: "string"

record GnuPGPublicKey =
  gpg_KeyID :: "string"
  gpg_Fingerprint :: "string"
  gpg_Owner :: "string"
  gpg_Trust :: "string"
  gpg_SubType :: "string"
  gpg_KeyData :: "string"

definition zero_ConnectionState :: ConnectionState where
  "zero_ConnectionState = \<lparr>conn_Status = [], conn_Message = [], conn_ModifiedAt = None\<rparr>"

definition zero_Repository :: Repository where
  "zero_Repository = \<lparr>repo_Repo = '''', repo_Username = '''', repo_Password = '''', repo_SSHPrivateKey = '''',
     repo_ConnectionState = zero_ConnectionState, repo_InsecureIgnoreHostKey = False,
     repo_Insecure = False, repo_EnableLFS = False, repo_TLSClientCertData = '''',
     repo_TLSClientCertKey = '''', repo_Type = '''', repo_Name = '''', repo_InheritedCreds =
     False, repo_EnableOCI = False, repo_GithubAppPrivateKey = '''', repo_GithubAppId = 0,
     repo_GithubAppInstallationId = 0, repo_GitHubAppEnterpriseBaseURL = '''', repo_Proxy = '''',
     repo_Project = '''', repo_GCPServiceAccountKey = '''', repo_ForceHttpBasicAuth = False,
     repo_NoProxy = '''', repo_UseAzureWorkloadIdentity = False, repo_BearerToken = '''',
     repo_InsecureOCIForceHttp = False\<rparr>"

section \<open>Operations\<close>

definition IsInsecure :: "Repository \<Rightarrow> bool" where
  "IsInsecure repo \<longleftrightarrow> repo_InsecureIgnoreHostKey repo \<or> repo_Insecure repo \<or> repo_InsecureOCIForceHttp repo"

definition IsLFSEnabled :: "Repository \<Rightarrow> bool" where
  "IsLFSEnabled repo = repo_EnableLFS repo"

definition HasCredentials :: "Repository \<Rightarrow> bool" where
  "HasCredentials repo \<longleftrightarrow> repo_Username repo \<noteq> [] \<or> repo_Password repo \<noteq> [] \<or>
     repo_BearerToken repo \<noteq> [] \<or> repo_SSHPrivateKey repo \<noteq> [] \<or> repo_TLSClientCertData repo \<noteq> [] \<or>
     repo_GithubAppPrivateKey repo \<noteq> [] \<or> repo_UseAzureWorkloadIdentity repo"

definition CopyCredentialsFromRepo :: "Repository \<Rightarrow> Repository option \<Rightarrow> Repository" where
  "CopyCredentialsFromRepo repo source = (case source of
     None \<Rightarrow> repo
   | Some s \<Rightarrow> repo\<lparr>
       repo_Username := (if repo_Username repo = '''' then repo_Username s else repo_Username repo),
       repo_Password := (if repo_Password repo = '''' then repo_Password s else repo_Password repo),
       repo_BearerToken := (if repo_BearerToken repo = '''' then repo_BearerToken s else repo_BearerToken repo),
       repo_SSHPrivateKey := (if repo_SSHPrivateKey repo = '''' then repo_SSHPrivateKey s else repo_SSHPrivateKey repo),
       repo_TLSClientCertData := (if repo_TLSClientCertData repo = '''' then repo_TLSClientCertData s else repo_TLSClientCertData repo),
       repo_TLSClientCertKey := (if repo_TLSClientCertKey repo = '''' then repo_TLSClientCertKey s else repo_TLSClientCertKey repo),
       repo_GithubAppPrivateKey := (if repo_GithubAppPrivateKey repo = '''' then repo_GithubAppPrivateKey s else repo_GithubAppPrivateKey repo),
       repo_GithubAppId := (if repo_GithubAppId repo = 0 then repo_GithubAppId s else repo_GithubAppId repo),
       repo_GithubAppInstallationId := (if repo_GithubAppInstallationId repo = 0 then repo_GithubAppInstallationId s else repo_GithubAppInstallationId repo),
       repo_GitHubAppEnterpriseBaseURL := (if repo_GitHubAppEnterpriseBaseURL repo = '''' then repo_GitHubAppEnterpriseBaseURL s else repo_GitHubAppEnterpriseBaseURL repo),
       repo_GCPServiceAccountKey := (if repo_GCPServiceAccountKey repo = '''' then repo_GCPServiceAccountKey s else repo_GCPServiceAccountKey repo),
       repo_InsecureOCIForceHttp := repo_InsecureOCIForceHttp s,
       repo_ForceHttpBasicAuth := repo_ForceHttpBasicAuth s,
       repo_UseAzureWorkloadIdentity := repo_UseAzureWorkloadIdentity s\<rparr>)"

definition CopyCredentialsFrom :: "Repository \<Rightarrow> RepoCreds option \<Rightarrow> Repository" where
  "CopyCredentialsFrom repo source = (case source of
     None \<Rightarrow> repo
   | Some s \<Rightarrow> repo\<lparr>
       repo_Username := (if repo_Username repo = '''' then rc_Username s else repo_Username repo),
       repo_Password := (if repo_Password repo = '''' then rc_Password s else repo_Password repo),
       repo_BearerToken := (if repo_BearerToken repo = '''' then rc_BearerToken s else repo_BearerToken repo),
       repo_SSHPrivateKey := (if repo_SSHPrivateKey repo = '''' then rc_SSHPrivateKey s else repo_SSHPrivateKey repo),
       repo_TLSClientCertData := (if repo_TLSClientCertData repo = '''' then rc_TLSClientCertData s else repo_TLSClientCertData repo),
       repo_TLSClientCertKey := (if repo_TLSClientCertKey repo = '''' then rc_TLSClientCertKey s else repo_TLSClientCertKey repo),
       repo_GithubAppPrivateKey := (if repo_GithubAppPrivateKey repo = '''' then rc_GithubAppPrivateKey s else repo_GithubAppPrivateKey repo),
       repo_GithubAppId := (if repo_GithubAppId repo = 0 then rc_GithubAppId s else repo_GithubAppId repo),
       repo_GithubAppInstallationId := (if repo_GithubAppInstallationId repo = 0 then rc_GithubAppInstallationId s else repo_GithubAppInstallationId repo),
       repo_GitHubAppEnterpriseBaseURL := (if repo_GitHubAppEnterpriseBaseURL repo = '''' then rc_GitHubAppEnterpriseBaseURL s else repo_GitHubAppEnterpriseBaseURL repo),
       repo_GCPServiceAccountKey := (if repo_GCPServiceAccountKey repo = '''' then rc_GCPServiceAccountKey s else repo_GCPServiceAccountKey repo),
       repo_Proxy := (if repo_Proxy repo = '''' then rc_Proxy s else repo_Proxy repo),
       repo_NoProxy := (if repo_NoProxy repo = '''' then rc_NoProxy s else repo_NoProxy repo),
       repo_Type := (if repo_Type repo = '''' then rc_Type s else repo_Type repo),
       repo_EnableOCI := rc_EnableOCI s,
       repo_InsecureOCIForceHttp := rc_InsecureOCIForceHttp s,
       repo_ForceHttpBasicAuth := rc_ForceHttpBasicAuth s,
       repo_UseAzureWorkloadIdentity := rc_UseAzureWorkloadIdentity s\<rparr>)"

definition CopySettingsFrom :: "Repository \<Rightarrow> Repository option \<Rightarrow> Repository" where
  "CopySettingsFrom repo source = (case source of
     None \<Rightarrow> repo
   | Some s \<Rightarrow> repo\<lparr>repo_EnableLFS := repo_EnableLFS s, repo_InsecureIgnoreHostKey := repo_InsecureIgnoreHostKey s, repo_Insecure := repo_Insecure s, repo_InheritedCreds := repo_InheritedCreds s\<rparr>)"

definition Sanitized :: "Repository \<Rightarrow> Repository" where
  "Sanitized repo = zero_Repository\<lparr>repo_Repo := repo_Repo repo, repo_Type := repo_Type repo, repo_Name := repo_Name repo,
     repo_Username := repo_Username repo, repo_Insecure := IsInsecure repo, repo_EnableLFS :=
     repo_EnableLFS repo, repo_EnableOCI := repo_EnableOCI repo, repo_Proxy := repo_Proxy repo,
     repo_NoProxy := repo_NoProxy repo, repo_Project := repo_Project repo,
     repo_ForceHttpBasicAuth := repo_ForceHttpBasicAuth repo, repo_InheritedCreds :=
     repo_InheritedCreds repo, repo_GithubAppId := repo_GithubAppId repo,
     repo_GithubAppInstallationId := repo_GithubAppInstallationId repo,
     repo_GitHubAppEnterpriseBaseURL := repo_GitHubAppEnterpriseBaseURL repo,
     repo_UseAzureWorkloadIdentity := repo_UseAzureWorkloadIdentity repo\<rparr>"

definition Repository_Normalize :: "Repository \<Rightarrow> Repository" where
  "Repository_Normalize repo = (if repo_Type repo = [] then repo\<lparr>repo_Type := ''git''\<rparr> else repo)"

fun Repositories_Filter :: "Repository list \<Rightarrow> (Repository \<Rightarrow> bool) \<Rightarrow> Repository list" where
  "Repositories_Filter [] predicate = []"
| "Repositories_Filter (r # rs) predicate =
     (if predicate r then r # Repositories_Filter rs predicate else Repositories_Filter rs predicate)"

section \<open>Properties\<close>

text \<open>Erasing the secret fields of a repository.\<close>

definition erase_secrets :: "Repository \<Rightarrow> Repository" where
  "erase_secrets repo = repo\<lparr>repo_Password := [], repo_SSHPrivateKey := [], repo_TLSClientCertData := [],
     repo_TLSClientCertKey := [], repo_GithubAppPrivateKey := [], repo_GCPServiceAccountKey := [],
     repo_BearerToken := []\<rparr>"


text \<open>
  Copying credentials from a template fills in what is missing and never replaces a
  credential the repository has; doing it twice is the same as doing it once.
\<close>

theorem copy_credentials_fills_missing:
  "CopyCredentialsFrom (CopyCredentialsFrom repo source) source = CopyCredentialsFrom repo source \<and>
   repo_Password (CopyCredentialsFrom repo (Some s)) =
     (if repo_Password repo \<noteq> [] then repo_Password repo else rc_Password s) \<and>
   repo_SSHPrivateKey (CopyCredentialsFrom repo (Some s)) =
     (if repo_SSHPrivateKey repo \<noteq> [] then repo_SSHPrivateKey repo else rc_SSHPrivateKey s) \<and>
   repo_BearerToken (CopyCredentialsFrom repo (Some s)) =
     (if repo_BearerToken repo \<noteq> [] then repo_BearerToken repo else rc_BearerToken s) \<and>
   repo_Repo (CopyCredentialsFrom repo source) = repo_Repo repo \<and>
   (HasCredentials repo \<and> \<not> repo_UseAzureWorkloadIdentity repo \<longrightarrow> HasCredentials (CopyCredentialsFrom repo source))"
  by (auto simp: CopyCredentialsFrom_def HasCredentials_def split: option.split)

theorem copy_credentials_fills_missing_witness:
  "HasCredentials (CopyCredentialsFrom (zero_Repository\<lparr>repo_Password := ''token''\<rparr>) None)"
  using copy_credentials_fills_missing [of "zero_Repository\<lparr>repo_Password := ''token''\<rparr>" None]
  by (simp add: HasCredentials_def zero_Repository_def)

text \<open>
  \<open>HasCredentials\<close> does not look at the Google Cloud service account key, nor at the TLS
  client key: a repository whose only credential is a service account key counts as having none.
\<close>

theorem HasCredentials_ignores_service_account:
  "HasCredentials (repo\<lparr>repo_GCPServiceAccountKey := key\<rparr>) = HasCredentials repo \<and>
   \<not> HasCredentials (zero_Repository\<lparr>repo_GCPServiceAccountKey := key\<rparr>)"
  by (simp add: HasCredentials_def zero_Repository_def)

end
