(* ===== verification/AppSpec.thy ===== *)
theory AppSpec
  imports AppTypes GoStrings "HOL-Library.Multiset"
begin

text \<open>
  Operations of \<open>pkg/apis/application/v1alpha1/types.go\<close> on the application resource: the
  source an application is built from, tests for empty options, merging of named entries into lists,
  sync options, history and the deletion finalizers.  Methods of the same name on different
  types carry the type as a prefix.
\<close>

section \<open>Sources\<close>

definition GetSyncSource :: "SourceHydrator \<Rightarrow> ApplicationSource" where
  "GetSyncSource s = zero_ApplicationSource\<lparr>src_RepoURL := dry_RepoURL (hyd_DrySource s),
     src_Path := sync_Path (hyd_SyncSource s), src_TargetRevision := sync_TargetBranch (hyd_SyncSource s)\<rparr>"

definition GetDrySource :: "SourceHydrator \<Rightarrow> ApplicationSource" where
  "GetDrySource s = zero_ApplicationSource\<lparr>src_RepoURL := dry_RepoURL (hyd_DrySource s),
     src_Path := dry_Path (hyd_DrySource s), src_TargetRevision := dry_TargetRevision (hyd_DrySource s)\<rparr>"

definition HydrateTo_DeepEquals :: "HydrateTo option \<Rightarrow> HydrateTo option \<Rightarrow> bool" where
  "HydrateTo_DeepEquals i t = (case i of
     None \<Rightarrow> t = None
   | Some x \<Rightarrow> (case t of None \<Rightarrow> False | Some y \<Rightarrow> x = y))"

definition SourceHydrator_DeepEquals :: "SourceHydrator \<Rightarrow> SourceHydrator \<Rightarrow> bool" where
  "SourceHydrator_DeepEquals s h \<longleftrightarrow> hyd_DrySource s = hyd_DrySource h \<and>
     hyd_SyncSource s = hyd_SyncSource h \<and> HydrateTo_DeepEquals (hyd_HydrateTo s) (hyd_HydrateTo h)"

definition HasMultipleSources :: "ApplicationSpec \<Rightarrow> bool" where
  "HasMultipleSources spec \<longleftrightarrow> spec_SourceHydrator spec = None \<and> length (spec_Sources spec) > 0"

definition GetSource :: "ApplicationSpec \<Rightarrow> ApplicationSource" where
  "GetSource spec =
     (case spec_SourceHydrator spec of
        Some h \<Rightarrow> GetSyncSource h
      | None \<Rightarrow>
          if HasMultipleSources spec then spec_Sources spec ! 0
          else case spec_Source spec of Some s \<Rightarrow> s | None \<Rightarrow> zero_ApplicationSource)"

definition GetHydrateToSource :: "ApplicationSpec \<Rightarrow> ApplicationSource" where
  "GetHydrateToSource spec =
     (case spec_SourceHydrator spec of
        Some h \<Rightarrow>
          let targetRevision = (case hyd_HydrateTo h of
                Some to \<Rightarrow> hydto_TargetBranch to
              | None \<Rightarrow> sync_TargetBranch (hyd_SyncSource h))
          in zero_ApplicationSource\<lparr>src_RepoURL := dry_RepoURL (hyd_DrySource h),
               src_Path := sync_Path (hyd_SyncSource h), src_TargetRevision := targetRevision\<rparr>
      | None \<Rightarrow> zero_ApplicationSource)"

definition GetSources :: "ApplicationSpec \<Rightarrow> ApplicationSource list" where
  "GetSources spec =
     (case spec_SourceHydrator spec of
        Some h \<Rightarrow> [GetSyncSource h]
      | None \<Rightarrow>
          if HasMultipleSources spec then spec_Sources spec
          else case spec_Source spec of Some s \<Rightarrow> [s] | None \<Rightarrow> [])"

definition GetSourcePtrByIndex :: "ApplicationSpec \<Rightarrow> int \<Rightarrow> ApplicationSource option go" where
  "GetSourcePtrByIndex spec sourceIndex =
     (case spec_SourceHydrator spec of
        Some h \<Rightarrow> Ret (Some (GetSyncSource h))
      | None \<Rightarrow>
          if HasMultipleSources spec then
            (if sourceIndex > 0 then go_bind (slice_index (spec_Sources spec) sourceIndex) (\<lambda>s. Ret (Some s))
             else go_bind (slice_index (spec_Sources spec) 0) (\<lambda>s. Ret (Some s)))
          else Ret (spec_Source spec))"

definition GetSourcePtrByPosition :: "ApplicationSpec \<Rightarrow> int \<Rightarrow> ApplicationSource option go" where
  "GetSourcePtrByPosition spec sourcePosition = GetSourcePtrByIndex spec (sourcePosition - 1)"

definition Kustomize_AllowsConcurrentProcessing :: "ApplicationSourceKustomize \<Rightarrow> bool" where
  "Kustomize_AllowsConcurrentProcessing k \<longleftrightarrow> length (kust_Images k) = 0 \<and>
     dom (kust_CommonLabels k) = {} \<and> dom (kust_CommonAnnotations k) = {} \<and>
     kust_NamePrefix k = '''' \<and> kust_Namespace k = '''' \<and> kust_NameSuffix k = '''' \<and>
     length (kust_Patches k) = 0 \<and> length (kust_Components k) = 0"

definition AllowsConcurrentProcessing :: "ApplicationSource \<Rightarrow> bool" where
  "AllowsConcurrentProcessing source = (case src_Kustomize source of
     Some k \<Rightarrow> Kustomize_AllowsConcurrentProcessing k | None \<Rightarrow> True)"

definition IsOCI :: "ApplicationSource \<Rightarrow> bool" where
  "IsOCI source = strings_HasPrefix (src_RepoURL source) ''oci://''"

definition IsRef :: "ApplicationSource \<Rightarrow> bool" where
  "IsRef source \<longleftrightarrow> src_Ref source \<noteq> ''''"

definition IsHelm :: "ApplicationSource \<Rightarrow> bool" where
  "IsHelm source \<longleftrightarrow> src_Chart source \<noteq> ''''"

section \<open>Empty options\<close>

text \<open>\<open>ValuesYAML\<close> converts with \<open>yaml.JSONToYAML\<close>, a parameter (\<open>None\<close> is its error).\<close>

definition ValuesYAML :: "(string \<Rightarrow> string option) \<Rightarrow> ApplicationSourceHelm \<Rightarrow> string" where
  "ValuesYAML JSONToYAML h =
     (case helm_ValuesObject h of
        None \<Rightarrow> helm_Values h
      | Some ro \<Rightarrow> (case raw_Raw ro of
          None \<Rightarrow> helm_Values h
        | Some raw \<Rightarrow> (case JSONToYAML raw of None \<Rightarrow> [] | Some b \<Rightarrow> b)))"

definition ValuesIsEmpty :: "(string \<Rightarrow> string option) \<Rightarrow> ApplicationSourceHelm \<Rightarrow> bool" where
  "ValuesIsEmpty JSONToYAML h \<longleftrightarrow> length (ValuesYAML JSONToYAML h) = 0"

definition ValuesString :: "(string \<Rightarrow> string option) \<Rightarrow> ApplicationSourceHelm \<Rightarrow> string" where
  "ValuesString JSONToYAML h =
     (case helm_ValuesObject h of
        None \<Rightarrow> helm_Values h
      | Some ro \<Rightarrow> (case raw_Raw ro of
          None \<Rightarrow> helm_Values h
        | Some raw \<Rightarrow> strings_TrimSuffix (ValuesYAML JSONToYAML h) [CHR 0x0A]))"

definition Helm_IsZero :: "(string \<Rightarrow> string option) \<Rightarrow> ApplicationSourceHelm option \<Rightarrow> bool" where
  "Helm_IsZero JSONToYAML ash = (case ash of
     None \<Rightarrow> True
   | Some h \<Rightarrow> helm_Version h = '''' \<and> helm_ReleaseName h = '''' \<and> length (helm_ValueFiles h) = 0 \<and>
       length (helm_Parameters h) = 0 \<and> length (helm_FileParameters h) = 0 \<and>
       ValuesIsEmpty JSONToYAML h \<and> \<not> helm_PassCredentials h \<and> \<not> helm_IgnoreMissingValueFiles h \<and>
       \<not> helm_SkipCrds h \<and> \<not> helm_SkipTests h \<and> \<not> helm_SkipSchemaValidation h \<and>
       helm_KubeVersion h = '''' \<and> length (helm_APIVersions h) = 0 \<and> helm_Namespace h = '''')"

definition Kustomize_IsZero :: "ApplicationSourceKustomize option \<Rightarrow> bool" where
  "Kustomize_IsZero k = (case k of
     None \<Rightarrow> True
   | Some k \<Rightarrow> kust_NamePrefix k = '''' \<and> kust_NameSuffix k = '''' \<and> kust_Version k = '''' \<and>
       kust_Namespace k = '''' \<and> length (kust_Images k) = 0 \<and> length (kust_Replicas k) = 0 \<and>
       dom (kust_CommonLabels k) = {} \<and> dom (kust_CommonAnnotations k) = {} \<and>
       length (kust_Patches k) = 0 \<and> length (kust_Components k) = 0 \<and> kust_KubeVersion k = '''' \<and>
       length (kust_APIVersions k) = 0 \<and> \<not> kust_IgnoreMissingComponents k)"

definition Jsonnet_IsZero :: "ApplicationSourceJsonnet \<Rightarrow> bool" where
  "Jsonnet_IsZero j \<longleftrightarrow> length (jsonnet_ExtVars j) = 0 \<and> length (jsonnet_TLAs j) = 0 \<and>
     length (jsonnet_Libs j) = 0"

definition Directory_IsZero :: "ApplicationSourceDirectory option \<Rightarrow> bool" where
  "Directory_IsZero d = (case d of
     None \<Rightarrow> True | Some d \<Rightarrow> \<not> dir_Recurse d \<and> Jsonnet_IsZero (dir_Jsonnet d))"

definition Plugin_IsZero :: "ApplicationSourcePlugin option \<Rightarrow> bool" where
  "Plugin_IsZero c = (case c of
     None \<Rightarrow> True
   | Some c \<Rightarrow> plugin_Name c = '''' \<and> length (plugin_Env c) = 0 \<and> length (plugin_Parameters c) = 0)"

definition Source_IsZero :: "(string \<Rightarrow> string option) \<Rightarrow> ApplicationSource option \<Rightarrow> bool" where
  "Source_IsZero JSONToYAML source = (case source of
     None \<Rightarrow> True
   | Some s \<Rightarrow> src_RepoURL s = '''' \<and> src_Path s = '''' \<and> src_TargetRevision s = '''' \<and>
       Helm_IsZero JSONToYAML (src_Helm s) \<and> Kustomize_IsZero (src_Kustomize s) \<and>
       Directory_IsZero (src_Directory s) \<and> Plugin_IsZero (src_Plugin s))"

definition GetNamespaceOrDefault :: "ApplicationSource option \<Rightarrow> string \<Rightarrow> string" where
  "GetNamespaceOrDefault source defaultNamespace = (case source of
     None \<Rightarrow> defaultNamespace
   | Some s \<Rightarrow>
       let kustomizeOrDefault = (case src_Kustomize s of
             Some k \<Rightarrow> if kust_Namespace k \<noteq> '''' then kust_Namespace k else defaultNamespace
           | None \<Rightarrow> defaultNamespace)
       in case src_Helm s of
            Some h \<Rightarrow> if helm_Namespace h \<noteq> '''' then helm_Namespace h else kustomizeOrDefault
          | None \<Rightarrow> kustomizeOrDefault)"

definition GetKubeVersionOrDefault :: "ApplicationSource option \<Rightarrow> string \<Rightarrow> string" where
  "GetKubeVersionOrDefault source defaultKubeVersion = (case source of
     None \<Rightarrow> defaultKubeVersion
   | Some s \<Rightarrow>
       let kustomizeOrDefault = (case src_Kustomize s of
             Some k \<Rightarrow> if kust_KubeVersion k \<noteq> '''' then kust_KubeVersion k else defaultKubeVersion
           | None \<Rightarrow> defaultKubeVersion)
       in case src_Helm s of
            Some h \<Rightarrow> if helm_KubeVersion h \<noteq> '''' then helm_KubeVersion h else kustomizeOrDefault
          | None \<Rightarrow> kustomizeOrDefault)"

definition GetAPIVersionsOrDefault :: "ApplicationSource option \<Rightarrow> string list \<Rightarrow> string list" where
  "GetAPIVersionsOrDefault source defaultAPIVersions = (case source of
     None \<Rightarrow> defaultAPIVersions
   | Some s \<Rightarrow>
       let kustomizeOrDefault = (case src_Kustomize s of
             Some k \<Rightarrow> if length (kust_APIVersions k) > 0 then kust_APIVersions k else defaultAPIVersions
           | None \<Rightarrow> defaultAPIVersions)
       in case src_Helm s of
            Some h \<Rightarrow> if length (helm_APIVersions h) > 0 then helm_APIVersions h else kustomizeOrDefault
          | None \<Rightarrow> kustomizeOrDefault)"

section \<open>Named entries\<close>

text \<open>
  Lists of named entries (Helm parameters, file parameters, Kustomize replicas) are merged alike: the
  first entry of the same name is overwritten where it stands, otherwise the new one is appended.
\<close>

definition AddParameter :: "HelmParameter \<Rightarrow> ApplicationSourceHelm \<Rightarrow> ApplicationSourceHelm" where
  "AddParameter p ash =
     (case find_index (\<lambda>cp. hp_Name cp = hp_Name p) (helm_Parameters ash) of
        Some i \<Rightarrow> ash\<lparr>helm_Parameters := (helm_Parameters ash)[i := p]\<rparr>
      | None \<Rightarrow> ash\<lparr>helm_Parameters := helm_Parameters ash @ [p]\<rparr>)"

definition AddFileParameter :: "HelmFileParameter \<Rightarrow> ApplicationSourceHelm \<Rightarrow> ApplicationSourceHelm" where
  "AddFileParameter p ash =
     (case find_index (\<lambda>cp. hfp_Name cp = hfp_Name p) (helm_FileParameters ash) of
        Some i \<Rightarrow> ash\<lparr>helm_FileParameters := (helm_FileParameters ash)[i := p]\<rparr>
      | None \<Rightarrow> ash\<lparr>helm_FileParameters := helm_FileParameters ash @ [p]\<rparr>)"

definition FindByName :: "KustomizeReplica list \<Rightarrow> string \<Rightarrow> int" where
  "FindByName rs name = (case find_index (\<lambda>r. kr_Name r = name) rs of Some i \<Rightarrow> int i | None \<Rightarrow> - 1)"

definition MergeReplica :: "KustomizeReplica \<Rightarrow> ApplicationSourceKustomize \<Rightarrow> ApplicationSourceKustomize" where
  "MergeReplica replica k =
     (let i = FindByName (kust_Replicas k) (kr_Name replica) in
      if i \<ge> 0 then k\<lparr>kust_Replicas := (kust_Replicas k)[nat i := replica]\<rparr>
      else k\<lparr>kust_Replicas := kust_Replicas k @ [replica]\<rparr>)"

text \<open>A Kustomize image is named by its text up to the delimiter of the image being merged.\<close>

definition delim :: "string \<Rightarrow> char" where
  "delim i = (if CHR ''='' \<in> set i then CHR ''='' else if CHR '':'' \<in> set i then CHR '':''
     else if CHR ''@'' \<in> set i then CHR ''@'' else CHR '':'')"

definition Image_Match :: "string \<Rightarrow> string \<Rightarrow> bool" where
  "Image_Match i j = (let d = delim j in fst (strings_Cut i d) = fst (strings_Cut j d))"

definition Images_Find :: "string list \<Rightarrow> string \<Rightarrow> int" where
  "Images_Find images img =
     (case find_index (\<lambda>a. Image_Match a img) images of Some i \<Rightarrow> int i | None \<Rightarrow> - 1)"

definition MergeImage :: "string \<Rightarrow> ApplicationSourceKustomize \<Rightarrow> ApplicationSourceKustomize" where
  "MergeImage img k =
     (let i = Images_Find (kust_Images k) img in
      if i \<ge> 0 then k\<lparr>kust_Images := (kust_Images k)[nat i := img]\<rparr>
      else k\<lparr>kust_Images := kust_Images k @ [img]\<rparr>)"

text \<open>Plugin environments are lists of pointers: the loops dereference every entry they pass.\<close>

fun env_find :: "string \<Rightarrow> EnvEntry option list \<Rightarrow> nat option go" where
  "env_find key [] = Ret None"
| "env_find key (None # es) = Panic NilDereference"
| "env_find key (Some ce # es) =
     (if env_Name ce = key then Ret (Some 0)
      else go_bind (env_find key es) (\<lambda>r. Ret (map_option Suc r)))"

definition AddEnvEntry :: "EnvEntry \<Rightarrow> ApplicationSourcePlugin \<Rightarrow> ApplicationSourcePlugin go" where
  "AddEnvEntry e c = go_bind (env_find (env_Name e) (plugin_Env c)) (\<lambda>r. Ret (case r of
       Some i \<Rightarrow> c\<lparr>plugin_Env := (plugin_Env c)[i := Some e]\<rparr>
     | None \<Rightarrow> c\<lparr>plugin_Env := plugin_Env c @ [Some e]\<rparr>))"

definition RemoveEnvEntry :: "string \<Rightarrow> ApplicationSourcePlugin \<Rightarrow> (go_error option \<times> ApplicationSourcePlugin) go" where
  "RemoveEnvEntry key c = go_bind (env_find key (plugin_Env c)) (\<lambda>r. Ret (case r of
       Some i \<Rightarrow>
         (None, c\<lparr>plugin_Env := butlast ((plugin_Env c)[i := last (plugin_Env c)])\<rparr>)
     | None \<Rightarrow> (Some (ErrorString (''unable to find env variable with key '' @ key @ '' for plugin '' @ plugin_Name c)), c)))"

definition EnvEntry_IsZero :: "EnvEntry option \<Rightarrow> bool" where
  "EnvEntry_IsZero a = (case a of None \<Rightarrow> True | Some a \<Rightarrow> env_Name a = '''' \<and> env_Value a = '''')"

definition NewEnvEntry :: "string \<Rightarrow> EnvEntry result" where
  "NewEnvEntry text =
     (case strings_SplitN2 text (CHR ''='') of
        [p0, p1] \<Rightarrow> Inr \<lparr>env_Name = p0, env_Value = p1\<rparr>
      | _ \<Rightarrow> Inl (ErrorString (''expected env entry of the form: param=value but received: '' @ text)))"

fun Environ :: "EnvEntry option list \<Rightarrow> string list" where
  "Environ [] = []"
| "Environ (item # es) =
     (case item of
        None \<Rightarrow> Environ es
      | Some i \<Rightarrow> if \<not> EnvEntry_IsZero item then (env_Name i @ ''='' @ env_Value i) # Environ es else Environ es)"

text \<open>\<open>helmParameterRx.ReplaceAllString\<close>: a comma preceded by anything but a backslash is escaped.\<close>

fun escape_commas :: "string \<Rightarrow> string" where
  "escape_commas [] = []"
| "escape_commas [c] = [c]"
| "escape_commas (c # d # s) =
     (if c \<noteq> CHR 0x5C \<and> d = CHR '','' then c # CHR 0x5C # d # escape_commas s
      else c # escape_commas (d # s))"

definition NewHelmParameter :: "string \<Rightarrow> bool \<Rightarrow> HelmParameter result" where
  "NewHelmParameter text forceString =
     (case strings_SplitN2 text (CHR ''='') of
        [p0, p1] \<Rightarrow> Inr \<lparr>hp_Name = p0, hp_Value = escape_commas p1, hp_ForceString = forceString\<rparr>
      | _ \<Rightarrow> Inl (ErrorString (''expected helm parameter of the form param=value but received: '' @ text)))"

definition NewHelmFileParameter :: "string \<Rightarrow> HelmFileParameter result" where
  "NewHelmFileParameter text =
     (case strings_SplitN2 text (CHR ''='') of
        [p0, p1] \<Rightarrow> Inr \<lparr>hfp_Name = p0, hfp_Path = escape_commas p1\<rparr>
      | _ \<Rightarrow> Inl (ErrorString (''expected helm file parameter of the form param=path but received: '' @ text)))"

definition NewJsonnetVar :: "string \<Rightarrow> bool \<Rightarrow> JsonnetVar" where
  "NewJsonnetVar s code =
     (case strings_SplitN2 s (CHR ''='') of
        [p0, p1] \<Rightarrow> \<lparr>jv_Name = p0, jv_Value = p1, jv_Code = code\<rparr>
      | _ \<Rightarrow> \<lparr>jv_Name = s, jv_Value = '''', jv_Code = code\<rparr>)"

section \<open>Comparison of plugin parameters\<close>

definition OptionalMap_Equals :: "OptionalMap option \<Rightarrow> OptionalMap option \<Rightarrow> bool" where
  "OptionalMap_Equals a b = (case (a, b) of
     (None, None) \<Rightarrow> True
   | (Some o1, Some o2) \<Rightarrow>
       let len = (\<lambda>m. case m of None \<Rightarrow> 0 | Some f \<Rightarrow> card (dom f)) in
       if len (optmap_Map o1) \<noteq> len (optmap_Map o2) then False
       else (case (optmap_Map o1, optmap_Map o2) of
           (None, None) \<Rightarrow> True
         | (None, Some f) \<Rightarrow> card (dom f) = 0
         | (Some f, None) \<Rightarrow> card (dom f) = 0
         | (Some f, Some g) \<Rightarrow> f = g)
   | _ \<Rightarrow> False)"

definition OptionalArray_Equals :: "OptionalArray option \<Rightarrow> OptionalArray option \<Rightarrow> bool" where
  "OptionalArray_Equals a b = (case (a, b) of
     (None, None) \<Rightarrow> True
   | (Some o1, Some o2) \<Rightarrow>
       let len = (\<lambda>m. case m of None \<Rightarrow> 0 | Some f \<Rightarrow> length f) in
       if len (optarr_Array o1) \<noteq> len (optarr_Array o2) then False
       else (case (optarr_Array o1, optarr_Array o2) of
           (None, None) \<Rightarrow> True
         | (None, Some f) \<Rightarrow> length f = 0
         | (Some f, None) \<Rightarrow> length f = 0
         | (Some f, Some g) \<Rightarrow> f = g)
   | _ \<Rightarrow> False)"

definition PluginParameter_Equals
  :: "ApplicationSourcePluginParameter \<Rightarrow> ApplicationSourcePluginParameter \<Rightarrow> bool" where
  "PluginParameter_Equals p other =
     (if pp_Name p \<noteq> pp_Name other then False
      else if pp_String p \<noteq> pp_String other then False
      else OptionalMap_Equals (pp_OptionalMap p) (pp_OptionalMap other) \<and>
           OptionalArray_Equals (pp_OptionalArray p) (pp_OptionalArray other))"

fun PluginParameters_Equals
  :: "ApplicationSourcePluginParameter list \<Rightarrow> ApplicationSourcePluginParameter list \<Rightarrow> bool" where
  "PluginParameters_Equals [] [] = True"
| "PluginParameters_Equals (p # ps) (q # qs) =
     (if \<not> PluginParameter_Equals p q then False else PluginParameters_Equals ps qs)"
| "PluginParameters_Equals _ _ = False"

section \<open>Revisions, history and sync options\<close>

definition GetRevisions :: "ApplicationStatus \<Rightarrow> string list" where
  "GetRevisions status =
     (if length (ss_Revisions (status_Sync status)) > 0 then ss_Revisions (status_Sync status)
      else if ss_Revision (status_Sync status) \<noteq> '''' then [ss_Revision (status_Sync status)]
      else [])"

definition BuildComparedToStatus :: "ApplicationSpec \<Rightarrow> ComparedTo" where
  "BuildComparedToStatus spec =
     (let ct = zero_ComparedTo\<lparr>ct_Destination := spec_Destination spec,
            ct_IgnoreDifferences := spec_IgnoreDifferences spec\<rparr>
      in if HasMultipleSources spec then ct\<lparr>ct_Sources := spec_Sources spec\<rparr>
         else ct\<lparr>ct_Source := GetSource spec\<rparr>)"

definition DryRun :: "Operation \<Rightarrow> bool" where
  "DryRun o1 = (case op_Sync o1 of Some s \<Rightarrow> so_DryRun s | None \<Rightarrow> False)"

definition LastRevisionHistory :: "RevisionHistory list \<Rightarrow> RevisionHistory go" where
  "LastRevisionHistory h = slice_index h (int (length h) - 1)"

definition Trunc :: "RevisionHistory list \<Rightarrow> int \<Rightarrow> RevisionHistory list" where
  "Trunc h n0 =
     (let n = (if n0 < 0 then 0 else n0); i = int (length h) - n in
      if i > 0 then drop (nat i) h else h)"

record GroupVersionKind =
  gvk_Group :: string
  gvk_Version :: string
  gvk_Kind :: string

definition HasIdentity :: "SyncOperationResource \<Rightarrow> string \<Rightarrow> string \<Rightarrow> GroupVersionKind \<Rightarrow> bool" where
  "HasIdentity r name namespace gvk \<longleftrightarrow> name = sor_Name r \<and> gvk_Kind gvk = sor_Kind r \<and>
     gvk_Group gvk = sor_Group r \<and> (sor_Namespace r = '''' \<or> namespace = sor_Namespace r)"

definition SyncOperationResource_Compare
  :: "SyncOperationResource \<Rightarrow> string \<Rightarrow> string \<Rightarrow> GroupVersionKind \<Rightarrow> bool" where
  "SyncOperationResource_Compare r name namespace gvk \<longleftrightarrow>
     (sor_Group r = ''*'' \<or> gvk_Group gvk = sor_Group r) \<and>
     (sor_Kind r = ''*'' \<or> gvk_Kind gvk = sor_Kind r) \<and>
     (sor_Name r = ''*'' \<or> name = sor_Name r) \<and>
     (sor_Namespace r = ''*'' \<or> sor_Namespace r = '''' \<or> namespace = sor_Namespace r)"

definition IsApplyStrategy :: "SyncOperation \<Rightarrow> bool" where
  "IsApplyStrategy o1 = (case so_SyncStrategy o1 of Some s \<Rightarrow> strat_Apply s \<noteq> None | None \<Rightarrow> False)"

fun HasOption :: "string list \<Rightarrow> string \<Rightarrow> bool" where
  "HasOption [] opt = False"
| "HasOption (i # os) opt = (if opt = i then True else HasOption os opt)"

definition AddOption :: "string list \<Rightarrow> string \<Rightarrow> string list" where
  "AddOption os opt = (case find_index (\<lambda>j. j = opt) os of Some _ \<Rightarrow> os | None \<Rightarrow> os @ [opt])"

fun RemoveOption :: "string list \<Rightarrow> string \<Rightarrow> string list" where
  "RemoveOption [] opt = []"
| "RemoveOption (j # os) opt = (if j = opt then os else j # RemoveOption os opt)"

definition IsAutomatedSyncEnabled :: "SyncPolicy \<Rightarrow> bool" where
  "IsAutomatedSyncEnabled p = (case sp_Automated p of
     Some a \<Rightarrow> (case auto_Enabled a of None \<Rightarrow> True | Some e \<Rightarrow> e)
   | None \<Rightarrow> False)"

definition SyncPolicy_IsZero :: "SyncPolicy option \<Rightarrow> bool" where
  "SyncPolicy_IsZero p = (case p of
     None \<Rightarrow> True
   | Some p \<Rightarrow> sp_Automated p = None \<and> length (sp_SyncOptions p) = 0 \<and> sp_Retry p = None \<and>
       sp_ManagedNamespaceMetadata p = None)"

definition Force :: "SyncStrategy option \<Rightarrow> bool" where
  "Force m = (case m of
     None \<Rightarrow> False
   | Some s \<Rightarrow> (case strat_Apply s of
       Some a \<Rightarrow> ssa_Force a
     | None \<Rightarrow> (case strat_Hook s of
         Some h \<Rightarrow> ssa_Force (ssh_SyncStrategyApply h) | None \<Rightarrow> False)))"

definition GetProject :: "ApplicationSpec \<Rightarrow> string" where
  "GetProject spec = (if spec_Project spec = '''' then ''default'' else spec_Project spec)"

definition GetRevisionHistoryLimit :: "ApplicationSpec \<Rightarrow> int" where
  "GetRevisionHistoryLimit spec = (case spec_RevisionHistoryLimit spec of Some n \<Rightarrow> n | None \<Rightarrow> 10)"

definition ExplicitType :: "ApplicationSource \<Rightarrow> string option result" where
  "ExplicitType source =
     (let appTypes = (if src_Kustomize source \<noteq> None then [''Kustomize''] else []) @
            (if src_Helm source \<noteq> None then [''Helm''] else []) @
            (if src_Directory source \<noteq> None then [''Directory''] else []) @
            (if src_Plugin source \<noteq> None then [''Plugin''] else [])
      in if length appTypes = 0 then Inr None
         else if length appTypes > 1
           then Inl (ErrorString (''multiple application sources defined: '' @ strings_Join appTypes '',''))
         else Inr (Some (appTypes ! 0)))"

section \<open>Names and annotations\<close>

definition AnnotationKeyRefresh :: string where
  "AnnotationKeyRefresh = ''argocd.argoproj.io/refresh''"

definition AnnotationKeyHydrate :: string where
  "AnnotationKeyHydrate = ''argocd.argoproj.io/hydrate''"

definition AnnotationKeyManifestGeneratePaths :: string where
  "AnnotationKeyManifestGeneratePaths = ''argocd.argoproj.io/manifest-generate-paths''"

definition GetAnnotation :: "Application \<Rightarrow> string \<Rightarrow> string" where
  "GetAnnotation app annotation = (case app_Annotations app annotation of None \<Rightarrow> '''' | Some v \<Rightarrow> v)"

definition IsRefreshRequested :: "Application \<Rightarrow> string \<times> bool" where
  "IsRefreshRequested app = (case app_Annotations app AnnotationKeyRefresh of
     None \<Rightarrow> (''normal'', False)
   | Some typeStr \<Rightarrow> (if typeStr = ''hard'' then ''hard'' else ''normal'', True))"

definition IsHydrateRequested :: "Application \<Rightarrow> bool" where
  "IsHydrateRequested app = (case app_Annotations app AnnotationKeyHydrate of
     None \<Rightarrow> False | Some typeStr \<Rightarrow> typeStr = ''normal'')"

definition InstanceName :: "Application \<Rightarrow> string \<Rightarrow> string" where
  "InstanceName app defaultNs =
     (if app_Namespace app = '''' \<or> app_Namespace app = defaultNs then app_Name app
      else app_Namespace app @ ''_'' @ app_Name app)"

definition QualifiedName :: "Application \<Rightarrow> string" where
  "QualifiedName app =
     (if app_Namespace app = '''' then app_Name app else app_Namespace app @ ''/'' @ app_Name app)"

section \<open>Conditions\<close>

definition findConditionIndexByType :: "ApplicationCondition list \<Rightarrow> string \<Rightarrow> int" where
  "findConditionIndexByType conditions t =
     (case find_index (\<lambda>c. cond_Type c = t) conditions of Some i \<Rightarrow> int i | None \<Rightarrow> - 1)"

definition GetConditions :: "ApplicationStatus \<Rightarrow> (string \<rightharpoonup> bool) \<Rightarrow> ApplicationCondition list" where
  "GetConditions status conditionTypes =
     filter (\<lambda>c. conditionTypes (cond_Type c) = Some True) (status_Conditions status)"

definition Condition_IsError :: "ApplicationCondition \<Rightarrow> bool" where
  "Condition_IsError condition = strings_HasSuffix (cond_Type condition) ''Error''"

section \<open>Finalizers\<close>

definition ResourcesFinalizerName :: string where
  "ResourcesFinalizerName = ''resources-finalizer.argocd.argoproj.io''"

definition PostDeleteFinalizerName :: string where
  "PostDeleteFinalizerName = ''post-delete-finalizer.argocd.argoproj.io''"

definition ForegroundPropagationPolicyFinalizer :: string where
  "ForegroundPropagationPolicyFinalizer = ''resources-finalizer.argocd.argoproj.io/foreground''"

definition BackgroundPropagationPolicyFinalizer :: string where
  "BackgroundPropagationPolicyFinalizer = ''resources-finalizer.argocd.argoproj.io/background''"

definition isPropagationPolicyFinalizer :: "string \<Rightarrow> bool" where
  "isPropagationPolicyFinalizer finalizer \<longleftrightarrow> finalizer = ResourcesFinalizerName \<or>
     finalizer = ForegroundPropagationPolicyFinalizer \<or> finalizer = BackgroundPropagationPolicyFinalizer"

fun CascadedDeletion_loop :: "string list \<Rightarrow> bool" where
  "CascadedDeletion_loop [] = False"
| "CascadedDeletion_loop (f # fs) = (if isPropagationPolicyFinalizer f then True else CascadedDeletion_loop fs)"

definition CascadedDeletion :: "Application \<Rightarrow> bool" where
  "CascadedDeletion app = CascadedDeletion_loop (om_Finalizers (app_ObjectMeta app))"

fun GetPropagationPolicy_loop :: "string list \<Rightarrow> string" where
  "GetPropagationPolicy_loop [] = ''''"
| "GetPropagationPolicy_loop (f # fs) =
     (if isPropagationPolicyFinalizer f then f else GetPropagationPolicy_loop fs)"

definition GetPropagationPolicy :: "Application \<Rightarrow> string" where
  "GetPropagationPolicy app = GetPropagationPolicy_loop (om_Finalizers (app_ObjectMeta app))"

definition getFinalizerIndex :: "string list \<Rightarrow> string \<Rightarrow> int" where
  "getFinalizerIndex finalizers name =
     (case find_index (\<lambda>f. f = name) finalizers of Some i \<Rightarrow> int i | None \<Rightarrow> - 1)"

text \<open>
  \<open>meta.Finalizers\<close> is a slice: a backing array and the length of its live prefix.  Removal
  writes the last live element over the removed one and shortens the slice, so a loop that
  ranges over the old slice sees the write.
\<close>

record finalizer_slice =
  fs_array :: "string list"
  fs_len :: nat

definition live :: "finalizer_slice \<Rightarrow> string list" where
  "live s = take (fs_len s) (fs_array s)"

definition setFinalizer :: "finalizer_slice \<Rightarrow> string \<Rightarrow> bool \<Rightarrow> finalizer_slice" where
  "setFinalizer s name exist =
     (let index = getFinalizerIndex (live s) name in
      if exist \<noteq> (index > - 1) then
        (if index > - 1
         then s\<lparr>fs_array := (fs_array s)[nat index := fs_array s ! (fs_len s - 1)], fs_len := fs_len s - 1\<rparr>
         else \<lparr>fs_array = live s @ [name], fs_len = Suc (fs_len s)\<rparr>)
      else s)"

text \<open>The loop of \<open>UnSetCascadedDeletion\<close> reads position \<open>i\<close> of the backing array as it is by then.\<close>

fun UnSet_loop :: "nat \<Rightarrow> nat \<Rightarrow> finalizer_slice \<Rightarrow> finalizer_slice" where
  "UnSet_loop i 0 s = s"
| "UnSet_loop i (Suc n) s =
     (let f = fs_array s ! i in
      UnSet_loop (Suc i) n (if isPropagationPolicyFinalizer f then setFinalizer s f False else s))"

definition with_finalizers :: "Application \<Rightarrow> finalizer_slice \<Rightarrow> Application" where
  "with_finalizers app s = app\<lparr>app_ObjectMeta := (app_ObjectMeta app)\<lparr>om_Finalizers := live s\<rparr>\<rparr>"

definition finalizers_of :: "Application \<Rightarrow> finalizer_slice" where
  "finalizers_of app = \<lparr>fs_array = om_Finalizers (app_ObjectMeta app), fs_len = length (om_Finalizers (app_ObjectMeta app))\<rparr>"

definition UnSetCascadedDeletion :: "Application \<Rightarrow> Application" where
  "UnSetCascadedDeletion app =
     with_finalizers app (UnSet_loop 0 (fs_len (finalizers_of app)) (finalizers_of app))"

definition SetCascadedDeletion :: "Application \<Rightarrow> string \<Rightarrow> Application" where
  "SetCascadedDeletion app finalizer = with_finalizers app (setFinalizer (finalizers_of app) finalizer True)"

definition SetPostDeleteFinalizer :: "Application \<Rightarrow> string list \<Rightarrow> Application" where
  "SetPostDeleteFinalizer app stage = with_finalizers app
     (setFinalizer (finalizers_of app) (strings_Join (PostDeleteFinalizerName # stage) ''/'') True)"

definition UnSetPostDeleteFinalizer :: "Application \<Rightarrow> string list \<Rightarrow> Application" where
  "UnSetPostDeleteFinalizer app stage = with_finalizers app
     (setFinalizer (finalizers_of app) (strings_Join (PostDeleteFinalizerName # stage) ''/'') False)"

definition HasPostDeleteFinalizer :: "Application \<Rightarrow> string list \<Rightarrow> bool" where
  "HasPostDeleteFinalizer app stage \<longleftrightarrow> getFinalizerIndex (om_Finalizers (app_ObjectMeta app))
     (strings_Join (PostDeleteFinalizerName # stage) ''/'') > - 1"

definition IsFinalizerPresent :: "Application \<Rightarrow> string \<Rightarrow> bool" where
  "IsFinalizerPresent app finalizer \<longleftrightarrow> getFinalizerIndex (om_Finalizers (app_ObjectMeta app)) finalizer > - 1"

section \<open>Merging by name\<close>

text \<open>
  What the merge operations promise: afterwards the name is bound to the new entry, other
  names keep theirs, and the order of the names changes only by a new name at the end.
\<close>

locale merged_entries =
  fixes name :: "'e \<Rightarrow> 'n"
    and entries :: "'s \<Rightarrow> 'e list"
    and merge :: "'e \<Rightarrow> 's \<Rightarrow> 's"
  assumes find_merge: "find (\<lambda>x. name x = n) (entries (merge e s)) =
      (if n = name e then Some e else find (\<lambda>x. name x = n) (entries s))"
    and names_merge: "map name (entries (merge e s)) =
      (if name e \<in> name ` set (entries s) then map name (entries s) else map name (entries s) @ [name e])"
begin

lemma merge_distinct: "distinct (map name (entries s)) \<Longrightarrow> distinct (map name (entries (merge e s)))"
  by (simp add: names_merge)

lemma merge_length:
  "length (entries (merge e s)) = (if name e \<in> name ` set (entries s) then 0 else 1) + length (entries s)"
  using arg_cong [OF names_merge, of length] by (simp split: if_splits)

lemma last_merge_wins:
  "name e = name e' \<Longrightarrow> find (\<lambda>x. name x = name e) (entries (merge e (merge e' s))) = Some e"
  by (simp add: find_merge)

lemma merge_commute_lookup:
  "name e \<noteq> name e' \<Longrightarrow> find (\<lambda>x. name x = n) (entries (merge e (merge e' s))) =
     find (\<lambda>x. name x = n) (entries (merge e' (merge e s)))"
  by (simp add: find_merge)

end

definition upsert :: "('e \<Rightarrow> 'n) \<Rightarrow> 'e \<Rightarrow> 'e list \<Rightarrow> 'e list" where
  "upsert nm e xs = (case find_index (\<lambda>x. nm x = nm e) xs of Some i \<Rightarrow> xs[i := e] | None \<Rightarrow> xs @ [e])"

lemma find_append: "find P (xs @ ys) = (case find P xs of None \<Rightarrow> find P ys | r \<Rightarrow> r)"
  by (induction xs) auto

lemma upsert_split:
  obtains (replace) as old bs where "xs = as @ old # bs" "nm old = nm e" "nm e \<notin> nm ` set as"
    "upsert nm e xs = as @ e # bs"
  | (append) "nm e \<notin> nm ` set xs" "upsert nm e xs = xs @ [e]"
proof (cases "find_index (\<lambda>x. nm x = nm e) xs")
  case None
  then have "nm e \<notin> nm ` set xs" by (force simp: find_index_None)
  with None show thesis by (intro append) (auto simp: upsert_def)
next
  case (Some i)
  note i = find_index_Some [OF Some]
  have xs: "xs = take i xs @ xs ! i # drop (Suc i) xs" using i by (simp add: id_take_nth_drop)
  have "nm e \<notin> nm ` set (take i xs)"
  proof
    assume "nm e \<in> nm ` set (take i xs)"
    then obtain x where x: "x \<in> set (take i xs)" "nm x = nm e" by force
    then obtain j where "j < i" "xs ! j = x" by (auto simp: in_set_conv_nth)
    with i x(2) show False by blast
  qed
  moreover have "upsert nm e xs = take i xs @ e # drop (Suc i) xs"
    using i Some by (simp add: upsert_def upd_conv_take_nth_drop)
  ultimately show thesis using xs i replace [of "take i xs" "xs ! i" "drop (Suc i) xs"] by blast
qed

lemma find_upsert:
  "find (\<lambda>x. nm x = n) (upsert nm e xs) = (if n = nm e then Some e else find (\<lambda>x. nm x = n) xs)"
proof (cases rule: upsert_split [of xs nm e])
  case (replace as old bs)
  from replace(3) have "find (\<lambda>x. nm x = nm e) as = None" unfolding find_None_iff by (metis imageI)
  with replace show ?thesis by (auto simp: find_append split: option.split)
next
  case append
  from append(1) have "find (\<lambda>x. nm x = nm e) xs = None" unfolding find_None_iff by (metis imageI)
  with append show ?thesis by (auto simp: find_append split: option.split)
qed

lemma names_upsert:
  "map nm (upsert nm e xs) = (if nm e \<in> nm ` set xs then map nm xs else map nm xs @ [nm e])"
  by (cases rule: upsert_split [of xs nm e]) auto

lemma entries_AddParameter: "helm_Parameters (AddParameter p ash) = upsert hp_Name p (helm_Parameters ash)"
  by (simp add: AddParameter_def upsert_def split: option.split)

lemma entries_AddFileParameter:
  "helm_FileParameters (AddFileParameter p ash) = upsert hfp_Name p (helm_FileParameters ash)"
  by (simp add: AddFileParameter_def upsert_def split: option.split)

lemma entries_MergeReplica: "kust_Replicas (MergeReplica r k) = upsert kr_Name r (kust_Replicas k)"
  by (simp add: MergeReplica_def FindByName_def upsert_def Let_def split: option.split)

interpretation helm_parameters: merged_entries hp_Name helm_Parameters AddParameter
  by unfold_locales (simp_all add: entries_AddParameter find_upsert names_upsert)

interpretation helm_file_parameters: merged_entries hfp_Name helm_FileParameters AddFileParameter
  by unfold_locales (simp_all add: entries_AddFileParameter find_upsert names_upsert)

interpretation kustomize_replicas: merged_entries kr_Name kust_Replicas MergeReplica
  by unfold_locales (simp_all add: entries_MergeReplica find_upsert names_upsert)

section \<open>Properties\<close>

text \<open>
  Adding Helm parameters, Helm file parameters and Kustomize replicas behaves like a map
  update: the name is bound to the new entry, every other name keeps its entry, and names
  that were unique stay unique.
\<close>

theorem merge_operations_update_by_name:
  "find (\<lambda>x. hp_Name x = n) (helm_Parameters (AddParameter p h)) =
     (if n = hp_Name p then Some p else find (\<lambda>x. hp_Name x = n) (helm_Parameters h)) \<and>
   find (\<lambda>x. hfp_Name x = n) (helm_FileParameters (AddFileParameter q h)) =
     (if n = hfp_Name q then Some q else find (\<lambda>x. hfp_Name x = n) (helm_FileParameters h)) \<and>
   find (\<lambda>x. kr_Name x = n) (kust_Replicas (MergeReplica r k)) =
     (if n = kr_Name r then Some r else find (\<lambda>x. kr_Name x = n) (kust_Replicas k)) \<and>
   distinct (map hp_Name (helm_Parameters (AddParameter p h))) =
     distinct (map hp_Name (helm_Parameters h))"
  by (simp add: helm_parameters.find_merge helm_file_parameters.find_merge
      kustomize_replicas.find_merge helm_parameters.names_merge)

text \<open>
  The accessors of an application's sources agree: the first source of \<open>GetSources\<close> is
  the one \<open>GetSource\<close> returns, an application has several sources exactly if \<open>Sources\<close> is
  used, and positions within the list of sources never panic.
\<close>

theorem source_accessors_agree:
  "(GetSources spec = [] \<longrightarrow> GetSource spec = zero_ApplicationSource) \<and>
   (GetSources spec \<noteq> [] \<longrightarrow> GetSource spec = hd (GetSources spec)) \<and>
   (HasMultipleSources spec \<longrightarrow> GetSources spec = spec_Sources spec) \<and>
   (\<not> HasMultipleSources spec \<longrightarrow> length (GetSources spec) \<le> 1) \<and>
   (1 \<le> pos \<and> pos \<le> int (length (GetSources spec)) \<longrightarrow>
      GetSourcePtrByPosition spec pos = Ret (Some (GetSources spec ! nat (pos - 1))))"
proof -
  have "GetSourcePtrByPosition spec pos = Ret (Some (GetSources spec ! nat (pos - 1)))"
    if "1 \<le> pos" "pos \<le> int (length (GetSources spec))"
    using that
    by (auto simp: GetSourcePtrByPosition_def GetSourcePtrByIndex_def GetSources_def slice_index_def
        HasMultipleSources_def split: option.splits if_splits)
  then show ?thesis
    by (auto simp: GetSource_def GetSources_def HasMultipleSources_def hd_conv_nth split: option.splits)
qed

theorem source_accessors_agree_witness:
  "let spec = zero_ApplicationSpec\<lparr>spec_Source := Some (zero_ApplicationSource\<lparr>src_Path := ''apps/web''\<rparr>)\<rparr>
   in GetSource spec = hd (GetSources spec) \<and> GetSourcePtrByPosition spec 1 = Ret (Some (GetSources spec ! 0))"
  using source_accessors_agree
    [of "zero_ApplicationSpec\<lparr>spec_Source := Some (zero_ApplicationSource\<lparr>src_Path := ''apps/web''\<rparr>)\<rparr>" 1]
  by (simp add: GetSources_def HasMultipleSources_def zero_ApplicationSpec_def)

text \<open>The loop invariant of \<open>UnSetCascadedDeletion\<close>: as many slots still hold a policy as are live.\<close>

lemma live_simps:
  assumes "fs_len s \<le> length (fs_array s)"
  shows "length (live s) = fs_len s" "\<And>i. i < fs_len s \<Longrightarrow> live s ! i = fs_array s ! i"
  using assms by (simp_all add: live_def)

lemma mset_swap_remove:
  assumes "k < length xs"
  shows "mset (butlast (xs[k := last xs])) = mset xs - {#xs ! k#}"
proof -
  let ?ys = "xs[k := last xs]"
  have "last ?ys = last xs"
    using assms by (metis last_list_update length_greater_0_conv list.size(3) not_less_zero)
  moreover have "mset (butlast ?ys) = mset ?ys - {#last ?ys#}"
    using assms by (cases ?ys rule: rev_cases) auto
  ultimately show ?thesis using assms by (simp add: mset_update)
qed

lemma setFinalizer_removes:
  assumes ok: "fs_len s \<le> length (fs_array s)" and i: "i < length (fs_array s)" and f: "f = fs_array s ! i"
  defines "s' \<equiv> setFinalizer s f False"
  shows "fs_len s' \<le> length (fs_array s')" "length (fs_array s') = length (fs_array s)"
    "drop (Suc i) (fs_array s') = drop (Suc i) (fs_array s)" "mset (live s') = mset (live s) - {#f#}"
proof -
  have "fs_len s' \<le> length (fs_array s') \<and> length (fs_array s') = length (fs_array s) \<and>
    drop (Suc i) (fs_array s') = drop (Suc i) (fs_array s) \<and> mset (live s') = mset (live s) - {#f#}"
  proof (cases "find_index (\<lambda>x. x = f) (live s)")
    case None
    then have "f \<notin># mset (live s)" by (auto simp: find_index_None)
    with None ok show ?thesis
      by (simp add: s'_def setFinalizer_def getFinalizerIndex_def diff_single_trivial)
  next
    case (Some k)
    note k = find_index_Some [OF Some]
    have klen: "k < fs_len s" using k live_simps(1) [OF ok] by simp
    have "k \<le> i"
    proof (rule ccontr)
      assume "\<not> k \<le> i"
      then have "i < k" by simp
      with klen live_simps(2) [OF ok, of i] f have "live s ! i = f" by simp
      with \<open>i < k\<close> k show False by blast
    qed
    have s': "s' = s\<lparr>fs_array := (fs_array s)[k := fs_array s ! (fs_len s - 1)], fs_len := fs_len s - 1\<rparr>"
      using Some by (simp add: s'_def setFinalizer_def getFinalizerIndex_def)
    have "last (live s) = fs_array s ! (fs_len s - 1)"
      using klen ok by (subst last_conv_nth) (auto simp: live_def)
    then have "live s' = butlast ((live s)[k := last (live s)])"
      using klen ok by (simp add: s' live_def butlast_take take_update_swap butlast_conv_take min_def)
    moreover have "mset (butlast ((live s)[k := last (live s)])) = mset (live s) - {#live s ! k#}"
      using klen live_simps(1) [OF ok] by (intro mset_swap_remove) simp
    ultimately show ?thesis using klen ok k \<open>k \<le> i\<close> by (auto simp: s')
  qed
  then show "fs_len s' \<le> length (fs_array s')" "length (fs_array s') = length (fs_array s)"
    "drop (Suc i) (fs_array s') = drop (Suc i) (fs_array s)" "mset (live s') = mset (live s) - {#f#}"
    by simp_all
qed

lemma UnSet_loop_mset:
  assumes "fs_len s \<le> length (fs_array s)" "i + n = length (fs_array s)"
    "\<And>f. isPropagationPolicyFinalizer f \<Longrightarrow> count (mset (live s)) f \<le> count (mset (drop i (fs_array s))) f"
  shows "mset (live (UnSet_loop i n s)) = {#f \<in># mset (live s). \<not> isPropagationPolicyFinalizer f#}"
  using assms
proof (induction n arbitrary: i s)
  case 0
  then have "\<And>f. isPropagationPolicyFinalizer f \<Longrightarrow> f \<notin># mset (live s)"
    by (metis add.right_neutral count_eq_zero_iff count_empty drop_all le_refl le_zero_eq mset.simps(1))
  then have "{#f \<in># mset (live s). \<not> isPropagationPolicyFinalizer f#} = mset (live s)"
    by (metis (mono_tags, lifting) filter_mset_cong filter_mset_True)
  then show ?case by simp
next
  case (Suc n)
  let ?f = "fs_array s ! i"
  have i: "i < length (fs_array s)" using Suc.prems(2) by simp
  have drop: "drop i (fs_array s) = ?f # drop (Suc i) (fs_array s)" using i by (rule Cons_nth_drop_Suc [symmetric])
  show ?case
  proof (cases "isPropagationPolicyFinalizer ?f")
    case True
    let ?s = "setFinalizer s ?f False"
    note r = setFinalizer_removes [OF Suc.prems(1) i refl]
    have "count (mset (live ?s)) f \<le> count (mset (drop (Suc i) (fs_array ?s))) f"
      if "isPropagationPolicyFinalizer f" for f
      using Suc.prems(3) [OF that] r(3,4) drop by auto
    with Suc.IH [of ?s "Suc i"] r Suc.prems(2) True show ?thesis
      by (auto simp: Let_def filter_diff_mset)
  next
    case False
    have "count (mset (live s)) f \<le> count (mset (drop (Suc i) (fs_array s))) f"
      if "isPropagationPolicyFinalizer f" for f
      using Suc.prems(3) [OF that] drop False that by (auto split: if_splits)
    with Suc.IH [of s "Suc i"] Suc.prems False show ?thesis by (simp add: Let_def)
  qed
qed

text \<open>
  \<open>UnSetCascadedDeletion\<close> removes exactly the propagation policy finalizers, all of them and with
  their repetitions, although it shortens the slice it is ranging over: afterwards the
  application has no cascaded deletion and every other finalizer is still there.
\<close>

theorem UnSetCascadedDeletion_removes_policies:
  "mset (om_Finalizers (app_ObjectMeta (UnSetCascadedDeletion app))) =
     {#f \<in># mset (om_Finalizers (app_ObjectMeta app)). \<not> isPropagationPolicyFinalizer f#} \<and>
   \<not> CascadedDeletion (UnSetCascadedDeletion app)"
proof -
  have m: "mset (om_Finalizers (app_ObjectMeta (UnSetCascadedDeletion app))) =
     {#f \<in># mset (om_Finalizers (app_ObjectMeta app)). \<not> isPropagationPolicyFinalizer f#}"
    using UnSet_loop_mset [of "finalizers_of app" 0 "fs_len (finalizers_of app)"]
    by (simp add: UnSetCascadedDeletion_def with_finalizers_def finalizers_of_def live_def)
  have "CascadedDeletion_loop fs \<longleftrightarrow> (\<exists>f \<in> set fs. isPropagationPolicyFinalizer f)" for fs
    by (induction fs) auto
  moreover from arg_cong [OF m, of set_mset]
  have "\<not> isPropagationPolicyFinalizer f"
    if "f \<in> set (om_Finalizers (app_ObjectMeta (UnSetCascadedDeletion app)))" for f
    using that by simp
  ultimately show ?thesis using m by (auto simp: CascadedDeletion_def)
qed

end
