(* ===== verification/GoStrconv.thy ===== *)
theory GoStrconv
  imports GoStrings
begin

text \<open>
  Numbers and truth values as text: the functions of the Go packages \<open>strconv\<close> and \<open>strings\<close> that read and
  write them, and the round trips.
\<close>

section \<open>Letters\<close>

text \<open>\<open>unicode.ToLower\<close> for ASCII letters; other letters are left as they are.\<close>

definition ascii_lower :: "char \<Rightarrow> char" where
  "ascii_lower c = (if 65 \<le> byte c \<and> byte c \<le> 90 then char_of (byte c + 32) else c)"

section \<open>Truth values\<close>

definition FormatBool :: "bool \<Rightarrow> string" where
  "FormatBool b = (if b then ''true'' else ''false'')"

definition strconv_ParseBool :: "string \<Rightarrow> bool option" where
  "strconv_ParseBool str =
     (if str \<in> {''1'', ''t'', ''T'', ''true'', ''TRUE'', ''True''} then Some True
      else if str \<in> {''0'', ''f'', ''F'', ''false'', ''FALSE'', ''False''} then Some False
      else None)"

lemma ParseBool_FormatBool [simp]: "strconv_ParseBool (FormatBool b) = Some b"
  by (simp add: strconv_ParseBool_def FormatBool_def)

section \<open>Numbers\<close>

text \<open>The verb \<open>%d\<close> for a natural number.\<close>

fun decimal :: "nat \<Rightarrow> string" where
  "decimal n = (if n < 10 then [char_of (48 + n)] else decimal (n div 10) @ [char_of (48 + n mod 10)])"

declare decimal.simps [simp del]

definition MaxInt64 :: int where "MaxInt64 = 9223372036854775807"
definition MinInt64 :: int where "MinInt64 = - 9223372036854775808"

definition digit_value :: "char \<Rightarrow> nat option" where
  "digit_value c = (if 48 \<le> byte c \<and> byte c \<le> 57 then Some (byte c - 48) else None)"

fun parse_digits :: "nat \<Rightarrow> string \<Rightarrow> nat option" where
  "parse_digits n [] = Some n"
| "parse_digits n (c # s) = (case digit_value c of None \<Rightarrow> None | Some d \<Rightarrow> parse_digits (10 * n + d) s)"

text \<open>\<open>strconv.ParseInt(s, 10, 64)\<close>: an optional sign, at least one digit, in range.\<close>

definition strconv_ParseInt :: "string \<Rightarrow> int option" where
  "strconv_ParseInt s =
     (let neg = (s \<noteq> [] \<and> hd s = CHR ''-'');
          body = (if s \<noteq> [] \<and> (hd s = CHR ''-'' \<or> hd s = CHR ''+'') then tl s else s)
      in if body = [] then None
         else case parse_digits 0 body of
           None \<Rightarrow> None
         | Some n \<Rightarrow>
             let v = (if neg then - int n else int n)
             in if MinInt64 \<le> v \<and> v \<le> MaxInt64 then Some v else None)"

text \<open>\<open>strings.Split\<close> with a separator of any length.\<close>

function split_on :: "string \<Rightarrow> string \<Rightarrow> string \<Rightarrow> string list" where
  "split_on sep acc s =
     (if s = [] then [rev acc]
      else if sep \<noteq> [] \<and> strings_HasPrefix s sep then rev acc # split_on sep [] (drop (length sep) s)
      else split_on sep (hd s # acc) (tl s))"
  by auto
termination by (relation "measure (\<lambda>(sep, acc, s). length s)") auto

declare split_on.simps [simp del]

definition strings_SplitStr :: "string \<Rightarrow> string \<Rightarrow> string list" where
  "strings_SplitStr s sep = (if sep = [] then map (\<lambda>c. [c]) s else split_on sep [] s)"

text \<open>
  \<open>strings.EqualFold\<close> against an ASCII text: two letters outside ASCII fold to ASCII ones, the long s
  and the Kelvin sign.
\<close>

fun fold_case :: "string \<Rightarrow> string" where
  "fold_case (a # b # c # s) =
     (if byte a = 0xE2 \<and> byte b = 0x84 \<and> byte c = 0xAA then CHR ''k'' # fold_case s
      else if byte a = 0xC5 \<and> byte b = 0xBF then CHR ''s'' # fold_case (c # s)
      else ascii_lower a # fold_case (b # c # s))"
| "fold_case [a, b] = (if byte a = 0xC5 \<and> byte b = 0xBF then ''s'' else [ascii_lower a, ascii_lower b])"
| "fold_case [a] = [ascii_lower a]"
| "fold_case [] = []"

text \<open>The text of a number, as \<open>%d\<close> prints it.\<close>

definition int_text :: "int \<Rightarrow> string" where
  "int_text n = (if n < 0 then ''-'' @ decimal (nat (- n)) else decimal (nat n))"

lemma parse_digits_append:
  "parse_digits n (s @ t) = (case parse_digits n s of None \<Rightarrow> None | Some m \<Rightarrow> parse_digits m t)"
  by (induction s arbitrary: n) (auto split: option.splits)

lemma digit_value_digit: "d < 10 \<Longrightarrow> digit_value (char_of (48 + d)) = Some d"
  by (simp add: digit_value_def)

lemma parse_digits_decimal: "parse_digits 0 (decimal n) = Some n"
proof (induction n rule: decimal.induct)
  case (1 n)
  show ?case
  proof (cases "n < 10")
    case True
    then show ?thesis using digit_value_digit [OF True] by (subst decimal.simps) simp
  next
    case False
    have "digit_value (char_of (48 + n mod 10)) = Some (n mod 10)" by (rule digit_value_digit) simp
    with 1 [OF False] False show ?thesis by (subst decimal.simps) (simp add: parse_digits_append)
  qed
qed


lemma decimal_not_empty: "decimal n \<noteq> []"
  by (subst decimal.simps) simp

lemma decimal_head: "hd (decimal n) \<noteq> CHR ''-'' \<and> hd (decimal n) \<noteq> CHR ''+''"
proof -
  obtain c s where c: "decimal n = c # s" using decimal_not_empty [of n] by (cases "decimal n") auto
  from parse_digits_decimal [of n] c have "digit_value c \<noteq> None" by (auto split: option.splits)
  then have "c \<noteq> CHR ''-'' \<and> c \<noteq> CHR ''+''" by (auto simp: digit_value_def)
  with c show ?thesis by simp
qed

lemma ParseInt_int_text: "MinInt64 \<le> n \<Longrightarrow> n \<le> MaxInt64 \<Longrightarrow> strconv_ParseInt (int_text n) = Some n"
  using decimal_head [of "nat n"]
  by (auto simp: strconv_ParseInt_def int_text_def parse_digits_decimal decimal_not_empty Let_def)

lemma ParseInt_of_int_text: "strconv_ParseInt (int_text n) = (if MinInt64 \<le> n \<and> n \<le> MaxInt64 then Some n else None)"
  using decimal_head [of "nat n"]
  by (auto simp: strconv_ParseInt_def int_text_def parse_digits_decimal decimal_not_empty Let_def)

lemma int_text_not_empty: "int_text n \<noteq> []"
  by (simp add: int_text_def decimal_not_empty)

lemma parse_digits_other: "c \<in> set s \<Longrightarrow> digit_value c = None \<Longrightarrow> parse_digits n s = None"
  by (induction s arbitrary: n) (auto split: option.splits)

text \<open>A text with a character that is no digit and no sign is not a number.\<close>

lemma ParseInt_other:
  assumes "c \<in> set s" "digit_value c = None" "c \<noteq> CHR ''-''" "c \<noteq> CHR ''+''"
  shows "strconv_ParseInt s = None"
proof -
  obtain x xs where s: "s = x # xs" using assms(1) by (cases s) auto
  have "parse_digits 0 (if x = CHR ''-'' \<or> x = CHR ''+'' then xs else s) = None"
    using assms s by (intro parse_digits_other [of c]) auto
  then show ?thesis by (cases "x = CHR ''-'' \<or> x = CHR ''+''") (auto simp: strconv_ParseInt_def s Let_def simp del: parse_digits.simps)
qed

lemma ParseInt_range: "strconv_ParseInt s = Some n \<Longrightarrow> MinInt64 \<le> n \<and> n \<le> MaxInt64"
  by (auto simp: strconv_ParseInt_def Let_def split: if_splits option.splits)

end
