(* ===== verification/Metrics.thy ===== *)
theory Metrics
  imports AppSpec GoStrconv
begin

text \<open>
  The metrics servers of the controller (\<open>mrp_controller/metrics/metrics.go\<close>) and of the
  repository server (\<open>reposerver/metrics/metrics.go\<close>).  A Prometheus vector is its name, its label names and
  the value per tuple of label values; a histogram is represented by its number of
  observations, the observed durations are not modelled.  \<open>WithLabelValues\<close> panics when the
  number of values differs from the number of labels: \<open>mv_panic\<close> records that this happened.
\<close>

section \<open>Vectors\<close>

record metric_vec =
  mv_name :: string
  mv_labels :: "string list"
  mv_value :: "string list \<Rightarrow> int"
  mv_panic :: bool

definition new_vec :: "string \<Rightarrow> string list \<Rightarrow> metric_vec" where
  "new_vec name labels = \<lparr>mv_name = name, mv_labels = labels, mv_value = (\<lambda>_. 0), mv_panic = False\<rparr>"

definition vec_add :: "string list \<Rightarrow> int \<Rightarrow> metric_vec \<Rightarrow> metric_vec" where
  "vec_add lv d v =
     (if length lv = length (mv_labels v) then v\<lparr>mv_value := (mv_value v)(lv := mv_value v lv + d)\<rparr>
      else v\<lparr>mv_panic := True\<rparr>)"

definition vec_reset :: "metric_vec \<Rightarrow> metric_vec" where
  "vec_reset v = v\<lparr>mv_value := (\<lambda>_. 0)\<rparr>"



section \<open>The controller's metrics\<close>

record MetricsServer =
  ms_syncCounter :: metric_vec
  ms_syncDuration :: metric_vec
  ms_k8sRequestCounter :: metric_vec
  ms_repoServerRequestCounter :: metric_vec
  ms_reconcileHistogram :: metric_vec
  ms_repoServerRequestHistogram :: metric_vec
  ms_queueLengthGauge :: metric_vec
  ms_hostname :: string
  ms_cronEntries :: nat

definition NewMetricsServer :: "string result \<Rightarrow> MetricsServer result" where
  "NewMetricsServer Hostname = (case Hostname of
     Inl err \<Rightarrow> Inl err
   | Inr hostname \<Rightarrow> Inr \<lparr>
       ms_syncCounter = new_vec ''monorepo_app_sync_total''
         [''namespace'', ''name'', ''project'', ''dest_server'', ''phase'', ''dry_run''],
       ms_syncDuration = new_vec ''monorepo_app_sync_duration_seconds_total''
         [''namespace'', ''name'', ''project'', ''dest_server''],
       ms_k8sRequestCounter = new_vec ''monorepo_app_k8s_request_total''
         [''namespace'', ''name'', ''project'', ''server'', ''response_code'', ''verb'', ''resource_kind'', ''resource_namespace'', ''dry_run''],
       ms_repoServerRequestCounter = new_vec ''monorepo_repo_server_request_total''
         [''hostname'', ''initiator'', ''failed''],
       ms_reconcileHistogram = new_vec ''monorepo_app_reconcile''
         [''namespace'', ''application'', ''status''],
       ms_repoServerRequestHistogram = new_vec ''monorepo_repo_server_request_duration''
         [''hostname'', ''initiator''],
       ms_queueLengthGauge = new_vec ''monorepo_app_queue_length''
         [''hostname''],
       ms_hostname = hostname, ms_cronEntries = 0\<rparr>)"

text \<open>\<open>Completed\<close> is the phase test of the GitOps engine.\<close>

definition IncSync :: "(string \<Rightarrow> bool) \<Rightarrow> Application \<Rightarrow> string \<Rightarrow> OperationState \<Rightarrow> MetricsServer \<Rightarrow> MetricsServer" where
  "IncSync Completed app destServer state m =
     (if \<not> Completed (ops_Phase state) then m
      else
        let isDryRun = (case app_Operation app of Some op \<Rightarrow> DryRun op | None \<Rightarrow> False) in
        m\<lparr>ms_syncCounter := vec_add [app_Namespace app, app_Name app, GetProject (app_Spec app), destServer,
             ops_Phase state, FormatBool isDryRun] 1 (ms_syncCounter m)\<rparr>)"

definition IncAppSyncDuration :: "Application \<Rightarrow> string \<Rightarrow> OperationState \<Rightarrow> MetricsServer \<Rightarrow> MetricsServer" where
  "IncAppSyncDuration app destServer state m = (case ops_FinishedAt state of
     None \<Rightarrow> m
   | Some finished \<Rightarrow> m\<lparr>ms_syncDuration := vec_add [app_Namespace app, app_Name app, GetProject (app_Spec app), destServer]
       (finished - ops_StartedAt state) (ms_syncDuration m)\<rparr>)"

definition IncKubernetesRequest :: "Application option \<Rightarrow> string \<Rightarrow> string \<Rightarrow> string \<Rightarrow> string \<Rightarrow> string
    \<Rightarrow> MetricsServer \<Rightarrow> MetricsServer" where
  "IncKubernetesRequest app server statusCode verb resourceKind resourceNamespace m =
     (let (namespace, name, project, isDryRun) = (case app of
            None \<Rightarrow> ([], [], [], False)
          | Some a \<Rightarrow> (app_Namespace a, app_Name a, GetProject (app_Spec a),
              (case app_Operation a of Some op \<Rightarrow> DryRun op | None \<Rightarrow> False)))
      in m\<lparr>ms_k8sRequestCounter := vec_add [namespace, name, project, server, statusCode, verb,
           resourceKind, resourceNamespace, FormatBool isDryRun] 1 (ms_k8sRequestCounter m)\<rparr>)"

definition IncRepoServerRequest :: "bool \<Rightarrow> MetricsServer \<Rightarrow> MetricsServer" where
  "IncRepoServerRequest failed m = m\<lparr>ms_repoServerRequestCounter :=
     vec_add [ms_hostname m, ''argocd-application-controller'', FormatBool failed] 1 (ms_repoServerRequestCounter m)\<rparr>"

definition ObserveRepoServerRequestDuration :: "MetricsServer \<Rightarrow> MetricsServer" where
  "ObserveRepoServerRequestDuration m = m\<lparr>ms_repoServerRequestHistogram :=
     vec_add [ms_hostname m, ''argocd-application-controller''] 1 (ms_repoServerRequestHistogram m)\<rparr>"

definition IncReconcile :: "Application \<Rightarrow> string \<Rightarrow> MetricsServer \<Rightarrow> MetricsServer" where
  "IncReconcile app status m = m\<lparr>ms_reconcileHistogram :=
     vec_add [app_Namespace app, app_Name app, status] 1 (ms_reconcileHistogram m)\<rparr>"

definition HasExpiration :: "MetricsServer \<Rightarrow> bool" where
  "HasExpiration m \<longleftrightarrow> ms_cronEntries m > 0"

text \<open>\<open>AddFunc\<close> is the scheduler's answer to adding the job; the job itself is \<open>expire_metrics\<close>.\<close>

definition SetExpiration :: "go_error option \<Rightarrow> MetricsServer \<Rightarrow> go_error option \<times> MetricsServer" where
  "SetExpiration AddFunc m =
     (if HasExpiration m then (Some (ErrorString ''expiration is already set''), m)
      else case AddFunc of
        Some err \<Rightarrow> (Some err, m)
      | None \<Rightarrow> (None, m\<lparr>ms_cronEntries := Suc (ms_cronEntries m)\<rparr>))"

definition expire_metrics :: "MetricsServer \<Rightarrow> MetricsServer" where
  "expire_metrics m = m\<lparr>ms_syncCounter := vec_reset (ms_syncCounter m),
     ms_syncDuration := vec_reset (ms_syncDuration m),
     ms_k8sRequestCounter := vec_reset (ms_k8sRequestCounter m),
     ms_repoServerRequestCounter := vec_reset (ms_repoServerRequestCounter m),
     ms_reconcileHistogram := vec_reset (ms_reconcileHistogram m),
     ms_repoServerRequestHistogram := vec_reset (ms_repoServerRequestHistogram m)\<rparr>"

section \<open>The repository server's metrics\<close>

record RepoMetricsServer =
  rm_gitFetchFailCounter :: metric_vec
  rm_gitLsRemoteFailCounter :: metric_vec
  rm_gitDiffTreeFailCounter :: metric_vec
  rm_gitRevListFailCounter :: metric_vec
  rm_gitRequestCounter :: metric_vec
  rm_gitRequestHistogram :: metric_vec
  rm_getChangeRevisionRequestCounter :: metric_vec
  rm_getChangeRevisionRequestHistogram :: metric_vec
  rm_repoPendingRequestsGauge :: metric_vec
  rm_redisRequestCounter :: metric_vec
  rm_redisRequestHistogram :: metric_vec

definition NewRepoMetricsServer :: RepoMetricsServer where
  "NewRepoMetricsServer = \<lparr>
     rm_gitFetchFailCounter = new_vec ''monorepo_git_fetch_fail_total''
       [''repo'', ''revision''],
     rm_gitLsRemoteFailCounter = new_vec ''monorepo_git_lsremote_fail_total''
       [''repo'', ''revision''],
     rm_gitDiffTreeFailCounter = new_vec ''monorepo_git_difftree_fail_total''
       [''repo'', ''app'', ''namespace''],
     rm_gitRevListFailCounter = new_vec ''monorepo_git_revlist_fail_total''
       [''repo'', ''app'', ''namespace''],
     rm_gitRequestCounter = new_vec ''monorepo_git_request_total''
       [''repo'', ''request_type'', ''cached'', ''success''],
     rm_gitRequestHistogram = new_vec ''monorepo_git_request_duration_seconds''
       [''repo'', ''request_type'', ''cached'', ''success''],
     rm_getChangeRevisionRequestCounter = new_vec ''monorepo_getchangerevision_request_total''
       [''repo'', ''failed'', ''application'', ''namespace''],
     rm_getChangeRevisionRequestHistogram = new_vec ''monorepo_getchangerevision_request_duration_seconds''
       [''repo'', ''application'', ''namespace''],
     rm_repoPendingRequestsGauge = new_vec ''monorepo_repo_pending_request_total''
       [''repo''],
     rm_redisRequestCounter = new_vec ''monorepo_redis_request_total''
       [''initiator'', ''command'', ''failed''],
     rm_redisRequestHistogram = new_vec ''monorepo_redis_request_duration_seconds''
       [''initiator'']\<rparr>"

definition IncGitFetchFail :: "string \<Rightarrow> string \<Rightarrow> RepoMetricsServer \<Rightarrow> RepoMetricsServer" where
  "IncGitFetchFail repo revision m = m\<lparr>rm_gitFetchFailCounter :=
     vec_add [repo, revision] 1 (rm_gitFetchFailCounter m)\<rparr>"

definition IncGitLsRemoteFail :: "string \<Rightarrow> string \<Rightarrow> RepoMetricsServer \<Rightarrow> RepoMetricsServer" where
  "IncGitLsRemoteFail repo revision m = m\<lparr>rm_gitLsRemoteFailCounter :=
     vec_add [repo, revision] 1 (rm_gitLsRemoteFailCounter m)\<rparr>"

definition IncDiffTreeFail :: "string \<Rightarrow> string \<Rightarrow> string \<Rightarrow> RepoMetricsServer \<Rightarrow> RepoMetricsServer" where
  "IncDiffTreeFail repo app namespace m = m\<lparr>rm_gitDiffTreeFailCounter :=
     vec_add [repo, app, namespace] 1 (rm_gitDiffTreeFailCounter m)\<rparr>"

definition IncRevListFail :: "string \<Rightarrow> string \<Rightarrow> string \<Rightarrow> RepoMetricsServer \<Rightarrow> RepoMetricsServer" where
  "IncRevListFail repo app namespace m = m\<lparr>rm_gitRevListFailCounter :=
     vec_add [repo, app, namespace] 1 (rm_gitRevListFailCounter m)\<rparr>"

definition IncGitRequest :: "string \<Rightarrow> string \<Rightarrow> bool \<Rightarrow> bool \<Rightarrow> RepoMetricsServer \<Rightarrow> RepoMetricsServer" where
  "IncGitRequest repo requestType cached success m = m\<lparr>rm_gitRequestCounter :=
     vec_add [repo, requestType, FormatBool cached, FormatBool success] 1 (rm_gitRequestCounter m)\<rparr>"

definition IncPendingRepoRequest :: "string \<Rightarrow> RepoMetricsServer \<Rightarrow> RepoMetricsServer" where
  "IncPendingRepoRequest repo m = m\<lparr>rm_repoPendingRequestsGauge :=
     vec_add [repo] 1 (rm_repoPendingRequestsGauge m)\<rparr>"

definition ObserveGitRequestDuration :: "string \<Rightarrow> string \<Rightarrow> bool \<Rightarrow> bool \<Rightarrow> RepoMetricsServer \<Rightarrow> RepoMetricsServer" where
  "ObserveGitRequestDuration repo requestType cached success m = m\<lparr>rm_gitRequestHistogram :=
     vec_add [repo, requestType, FormatBool cached, FormatBool success] 1 (rm_gitRequestHistogram m)\<rparr>"

definition DecPendingRepoRequest :: "string \<Rightarrow> RepoMetricsServer \<Rightarrow> RepoMetricsServer" where
  "DecPendingRepoRequest repo m = m\<lparr>rm_repoPendingRequestsGauge :=
     vec_add [repo] (- 1) (rm_repoPendingRequestsGauge m)\<rparr>"

definition IncRedisRequest :: "string \<Rightarrow> bool \<Rightarrow> RepoMetricsServer \<Rightarrow> RepoMetricsServer" where
  "IncRedisRequest command failed m = m\<lparr>rm_redisRequestCounter :=
     vec_add [''argocd-monorepo-repo-server'', command, FormatBool failed] 1 (rm_redisRequestCounter m)\<rparr>"

definition ObserveRedisRequestDuration :: "RepoMetricsServer \<Rightarrow> RepoMetricsServer" where
  "ObserveRedisRequestDuration m = m\<lparr>rm_redisRequestHistogram :=
     vec_add [''argocd-monorepo-repo-server''] 1 (rm_redisRequestHistogram m)\<rparr>"

definition IncGetChangeRevisionRequest :: "string \<Rightarrow> bool \<Rightarrow> string \<Rightarrow> string \<Rightarrow> RepoMetricsServer \<Rightarrow> RepoMetricsServer" where
  "IncGetChangeRevisionRequest repo failed app namespace m = m\<lparr>rm_getChangeRevisionRequestCounter :=
     vec_add [repo, FormatBool failed, app, namespace] 1 (rm_getChangeRevisionRequestCounter m)\<rparr>"

definition ObserveGetChangeRevisionRequestDuration :: "string \<Rightarrow> string \<Rightarrow> string \<Rightarrow> RepoMetricsServer \<Rightarrow> RepoMetricsServer" where
  "ObserveGetChangeRevisionRequestDuration repo app namespace m = m\<lparr>rm_getChangeRevisionRequestHistogram :=
     vec_add [repo, app, namespace] 1 (rm_getChangeRevisionRequestHistogram m)\<rparr>"

section \<open>No label mismatch\<close>

definition ctrl_vecs :: "MetricsServer \<Rightarrow> metric_vec list" where
  "ctrl_vecs m = [ms_syncCounter m, ms_syncDuration m, ms_k8sRequestCounter m, ms_repoServerRequestCounter m, ms_reconcileHistogram m, ms_repoServerRequestHistogram m, ms_queueLengthGauge m]"

definition repo_vecs :: "RepoMetricsServer \<Rightarrow> metric_vec list" where
  "repo_vecs m = [rm_gitFetchFailCounter m, rm_gitLsRemoteFailCounter m, rm_gitDiffTreeFailCounter m, rm_gitRevListFailCounter m, rm_gitRequestCounter m, rm_gitRequestHistogram m, rm_getChangeRevisionRequestCounter m, rm_getChangeRevisionRequestHistogram m, rm_repoPendingRequestsGauge m, rm_redisRequestCounter m, rm_redisRequestHistogram m]"

definition same_labels :: "metric_vec list \<Rightarrow> metric_vec list \<Rightarrow> bool" where
  "same_labels vs ws \<longleftrightarrow> map mv_labels vs = map mv_labels ws"

definition no_panic :: "metric_vec list \<Rightarrow> bool" where
  "no_panic vs \<longleftrightarrow> list_all (\<lambda>v. \<not> mv_panic v) vs"

definition repo_metrics_ok :: "RepoMetricsServer \<Rightarrow> bool" where
  "repo_metrics_ok m \<longleftrightarrow> same_labels (repo_vecs m) (repo_vecs NewRepoMetricsServer) \<and> no_panic (repo_vecs m)"

definition ctrl_labels :: "string list list" where
  "ctrl_labels = (case NewMetricsServer (Inr []) of Inr m \<Rightarrow> map mv_labels (ctrl_vecs m) | Inl _ \<Rightarrow> [])"

definition ctrl_metrics_ok :: "MetricsServer \<Rightarrow> bool" where
  "ctrl_metrics_ok m \<longleftrightarrow> map mv_labels (ctrl_vecs m) = ctrl_labels \<and> no_panic (ctrl_vecs m)"

lemma vec_add_labels [simp]: "mv_labels (vec_add lv d v) = mv_labels v"
  by (simp add: vec_add_def)

lemma vec_add_panic [simp]:
  "mv_panic (vec_add lv d v) \<longleftrightarrow> mv_panic v \<or> length lv \<noteq> length (mv_labels v)"
  by (simp add: vec_add_def)

lemma vec_add_value [simp]:
  "length lv = length (mv_labels v) \<Longrightarrow> mv_value (vec_add lv d v) lv' = (if lv' = lv then d else 0) + mv_value v lv'"
  by (simp add: vec_add_def)

lemmas repo_metrics_defs = repo_metrics_ok_def same_labels_def no_panic_def repo_vecs_def
  NewRepoMetricsServer_def new_vec_def

lemmas repo_metrics_ops = IncGitFetchFail_def IncGitLsRemoteFail_def IncDiffTreeFail_def IncRevListFail_def
  IncGitRequest_def IncPendingRepoRequest_def ObserveGitRequestDuration_def DecPendingRepoRequest_def
  IncRedisRequest_def ObserveRedisRequestDuration_def IncGetChangeRevisionRequest_def
  ObserveGetChangeRevisionRequestDuration_def

lemmas ctrl_metrics_defs = ctrl_metrics_ok_def no_panic_def ctrl_vecs_def ctrl_labels_def
  NewMetricsServer_def new_vec_def

lemma repo_metrics_ok_New [simp]: "repo_metrics_ok NewRepoMetricsServer"
  by (simp add: repo_metrics_defs)

lemma repo_metrics_ok_ops:
  assumes "repo_metrics_ok m"
  shows "repo_metrics_ok (IncGitFetchFail r v m)" "repo_metrics_ok (IncGitLsRemoteFail r v m)"
    "repo_metrics_ok (IncDiffTreeFail r a n m)" "repo_metrics_ok (IncRevListFail r a n m)"
    "repo_metrics_ok (IncGitRequest r t c s m)" "repo_metrics_ok (IncPendingRepoRequest r m)"
    "repo_metrics_ok (ObserveGitRequestDuration r t c s m)" "repo_metrics_ok (DecPendingRepoRequest r m)"
    "repo_metrics_ok (IncRedisRequest cmd f m)" "repo_metrics_ok (ObserveRedisRequestDuration m)"
    "repo_metrics_ok (IncGetChangeRevisionRequest r f a n m)"
    "repo_metrics_ok (ObserveGetChangeRevisionRequestDuration r a n m)"
  using assms by (simp_all add: repo_metrics_defs repo_metrics_ops)

lemma ctrl_metrics_ok_ops:
  assumes "ctrl_metrics_ok m"
  shows "ctrl_metrics_ok (IncSync Completed app ds st m)" "ctrl_metrics_ok (IncAppSyncDuration app ds st m)"
    "ctrl_metrics_ok (IncKubernetesRequest oa srv code vrb rk rns m)"
    "ctrl_metrics_ok (IncRepoServerRequest f m)" "ctrl_metrics_ok (ObserveRepoServerRequestDuration m)"
    "ctrl_metrics_ok (IncReconcile app s m)" "ctrl_metrics_ok (expire_metrics m)"
    "ctrl_metrics_ok (snd (SetExpiration e m))"
  using assms
  by (simp_all add: ctrl_metrics_defs IncSync_def IncAppSyncDuration_def IncKubernetesRequest_def
      IncRepoServerRequest_def ObserveRepoServerRequestDuration_def IncReconcile_def expire_metrics_def
      vec_reset_def SetExpiration_def HasExpiration_def Let_def split: option.split)

text \<open>
  No metric update panics: every operation of the two metrics servers passes as many label
  values as its vector was declared with, whatever sequence of operations came before.
\<close>

theorem metric_updates_never_panic:
  "(repo_metrics_ok m \<longrightarrow>
      repo_metrics_ok (IncGitRequest r t c s m) \<and> repo_metrics_ok (IncRevListFail r a n m) \<and>
      repo_metrics_ok (IncDiffTreeFail r a n m) \<and> repo_metrics_ok (IncPendingRepoRequest r m) \<and>
      repo_metrics_ok (DecPendingRepoRequest r m) \<and> repo_metrics_ok (IncGetChangeRevisionRequest r f a n m) \<and>
      repo_metrics_ok (ObserveGetChangeRevisionRequestDuration r a n m)) \<and>
   (ctrl_metrics_ok cm \<longrightarrow>
      ctrl_metrics_ok (IncReconcile app st cm) \<and> ctrl_metrics_ok (IncRepoServerRequest f cm) \<and>
      ctrl_metrics_ok (ObserveRepoServerRequestDuration cm) \<and>
      ctrl_metrics_ok (IncKubernetesRequest oa srv code vrb rk rns cm)) \<and>
   repo_metrics_ok NewRepoMetricsServer"
  by (simp add: repo_metrics_ok_ops ctrl_metrics_ok_ops)

theorem metric_updates_never_panic_witness:
  "repo_metrics_ok (DecPendingRepoRequest ''https://git.example/mono''
     (IncPendingRepoRequest ''https://git.example/mono'' NewRepoMetricsServer))"
  using metric_updates_never_panic
    [of "IncPendingRepoRequest ''https://git.example/mono'' NewRepoMetricsServer"
      "''https://git.example/mono''"] repo_metrics_ok_ops(6) [OF repo_metrics_ok_New] by blast

end
