(* ===== verification/GoJSON.thy ===== *)
theory GoJSON
  imports GoStrings
begin

text \<open>
  The use the code makes of \<open>encoding/json\<close>: \<open>json.Marshal\<close> of a non-nil \<open>[]string\<close> and
  \<open>json.Unmarshal\<close> into a nil \<open>[]string\<close>.  Validation is the scanner's push-down automaton, one step
  per byte; decoding stores the string elements of the top-level array while it runs, as the
  decoder does, so a value of another type leaves an empty string in its place.  A document that is not valid leaves the slice
  nil.  The main result is that unmarshalling what was marshalled gives the slice back.
\<close>

section \<open>Marshal\<close>

definition hex_digit :: "nat \<Rightarrow> char" where
  "hex_digit n = (if n < 10 then char_of (48 + n) else char_of (87 + n))"

definition u_escape :: "nat \<Rightarrow> string" where
  "u_escape n = [CHR 0x5C, CHR ''u'', hex_digit (n div 4096 mod 16), hex_digit (n div 256 mod 16),
     hex_digit (n div 16 mod 16), hex_digit (n mod 16)]"

text \<open>The encoding of one ASCII byte, with HTML escaping on.\<close>

definition escape_ascii :: "char \<Rightarrow> string" where
  "escape_ascii c =
     (if c = CHR 0x22 \<or> c = CHR 0x5C then [CHR 0x5C, c]
      else if c = CHR 0x08 then [CHR 0x5C, CHR ''b'']
      else if c = CHR 0x0C then [CHR 0x5C, CHR ''f'']
      else if c = CHR 0x0A then [CHR 0x5C, CHR ''n'']
      else if c = CHR 0x0D then [CHR 0x5C, CHR ''r'']
      else if c = CHR 0x09 then [CHR 0x5C, CHR ''t'']
      else if byte c < 0x20 \<or> c = CHR ''<'' \<or> c = CHR ''>'' \<or> c = CHR ''&'' then u_escape (byte c)
      else [c])"

function escape_string :: "string \<Rightarrow> string" where
  "escape_string [] = []"
| "escape_string (c # s) =
     (if byte c < 0x80 then escape_ascii c @ escape_string s
      else
        let (r, n) = utf8_DecodeRune (c # s) in
        (if r = RuneError \<and> n = 1 then u_escape 0xFFFD
         else if r = 0x2028 \<or> r = 0x2029 then u_escape r
         else take n (c # s)) @ escape_string (drop (max n 1) (c # s)))"
  by pat_completeness auto
termination
  by (relation "measure length") auto

definition json_quote :: "string \<Rightarrow> string" where
  "json_quote s = [CHR 0x22] @ escape_string s @ [CHR 0x22]"

definition json_Marshal :: "string list \<Rightarrow> string" where
  "json_Marshal xs = ''['' @ strings_Join (map json_quote xs) '','' @ '']''"

section \<open>Unmarshal\<close>

datatype json_item = Raw char | Unit nat

datatype json_frame = ObjectKey | ObjectValue | ArrayValue

datatype json_state =
    BeginValue | BeginValueOrEmpty | BeginStringOrEmpty | BeginString | EndValue
  | InString | InStringEsc | InStringEscU nat nat
  | Neg | Digit0 | Digits | Dot | DotDigits | Exp | ExpSign | ExpDigits
  | Lit string | JsonError

record json_scan =
  js_state :: json_state
  js_stack :: "json_frame list"
  js_elems :: "string list"
  js_buf :: "json_item list"

definition is_ws :: "char \<Rightarrow> bool" where
  "is_ws c \<longleftrightarrow> c = CHR '' '' \<or> c = CHR 0x09 \<or> c = CHR 0x0D \<or> c = CHR 0x0A"

definition is_digit :: "char \<Rightarrow> bool" where
  "is_digit c \<longleftrightarrow> 48 \<le> byte c \<and> byte c \<le> 57"

definition hex_value :: "char \<Rightarrow> nat option" where
  "hex_value c =
     (if is_digit c then Some (byte c - 48)
      else if 97 \<le> byte c \<and> byte c \<le> 102 then Some (byte c - 87)
      else if 65 \<le> byte c \<and> byte c \<le> 70 then Some (byte c - 55)
      else None)"

definition surrogate_hi :: "nat \<Rightarrow> bool" where
  "surrogate_hi u \<longleftrightarrow> 0xD800 \<le> u \<and> u < 0xDC00"

definition surrogate_lo :: "nat \<Rightarrow> bool" where
  "surrogate_lo u \<longleftrightarrow> 0xDC00 \<le> u \<and> u < 0xE000"

fun raw_prefix :: "json_item list \<Rightarrow> string" where
  "raw_prefix (Raw c # is) = c # raw_prefix is"
| "raw_prefix _ = []"

lemma length_raw_prefix: "length (raw_prefix is) \<le> length is"
  by (induction "is" rule: raw_prefix.induct) auto

text \<open>The string denoted by a literal: surrogate pairs are joined, invalid bytes are replaced.\<close>

function unquote :: "json_item list \<Rightarrow> string" where
  "unquote [] = []"
| "unquote (Unit u # is) =
     (if surrogate_hi u then
        (case is of
           Unit v # is' \<Rightarrow>
             if surrogate_lo v
             then utf8_EncodeRune ((u - 0xD800) * 1024 + (v - 0xDC00) + 0x10000) @ unquote is'
             else utf8_EncodeRune RuneError @ unquote is
         | _ \<Rightarrow> utf8_EncodeRune RuneError @ unquote is)
      else if surrogate_lo u then utf8_EncodeRune RuneError @ unquote is
      else utf8_EncodeRune u @ unquote is)"
| "unquote (Raw c # is) =
     (let raw = raw_prefix (Raw c # is); (r, n) = utf8_DecodeRune raw in
      if r = RuneError \<and> n = 1 then utf8_EncodeRune RuneError @ unquote is
      else take n raw @ unquote (drop (max n 1) (Raw c # is)))"
  by pat_completeness auto
termination
  by (relation "measure length") auto

definition maxNestingDepth :: nat where
  "maxNestingDepth = 10000"

text \<open>Starting a value: a new element of the top-level array begins as the empty string.\<close>

definition start_value :: "json_scan \<Rightarrow> json_scan" where
  "start_value j = (if js_stack j = [ArrayValue] then j\<lparr>js_elems := js_elems j @ ['''']\<rparr> else j)"

definition push_frame :: "json_frame \<Rightarrow> json_state \<Rightarrow> json_scan \<Rightarrow> json_scan" where
  "push_frame f st j =
     (if length (js_stack j) < maxNestingDepth then j\<lparr>js_stack := f # js_stack j, js_state := st\<rparr>
      else j\<lparr>js_state := JsonError\<rparr>)"

definition goto :: "json_state \<Rightarrow> json_scan \<Rightarrow> json_scan" where
  "goto st j = j\<lparr>js_state := st\<rparr>"

definition step_end_value :: "char \<Rightarrow> json_scan \<Rightarrow> json_scan" where
  "step_end_value c j =
     (if is_ws c then goto EndValue j
      else case js_stack j of
        [] \<Rightarrow> goto JsonError j
      | f # fs \<Rightarrow>
          (case f of
             ObjectKey \<Rightarrow> if c = CHR '':'' then j\<lparr>js_stack := ObjectValue # fs, js_state := BeginValue\<rparr>
                          else goto JsonError j
           | ObjectValue \<Rightarrow> if c = CHR '','' then j\<lparr>js_stack := ObjectKey # fs, js_state := BeginString\<rparr>
                          else if c = CHR ''}'' then j\<lparr>js_stack := fs, js_state := EndValue\<rparr>
                          else goto JsonError j
           | ArrayValue \<Rightarrow> if c = CHR '','' then goto BeginValue j
                          else if c = CHR '']'' then j\<lparr>js_stack := fs, js_state := EndValue\<rparr>
                          else goto JsonError j))"

definition step_begin_value :: "char \<Rightarrow> json_scan \<Rightarrow> json_scan" where
  "step_begin_value c j =
     (if is_ws c then j
      else
        let j' = start_value j in
        if c = CHR ''{'' then push_frame ObjectKey BeginStringOrEmpty j'
        else if c = CHR ''['' then push_frame ArrayValue BeginValueOrEmpty j'
        else if c = CHR 0x22 then j'\<lparr>js_state := InString, js_buf := []\<rparr>
        else if c = CHR ''-'' then goto Neg j'
        else if c = CHR ''0'' then goto Digit0 j'
        else if is_digit c then goto Digits j'
        else if c = CHR ''t'' then goto (Lit ''rue'') j'
        else if c = CHR ''f'' then goto (Lit ''alse'') j'
        else if c = CHR ''n'' then goto (Lit ''ull'') j'
        else goto JsonError j)"

definition step_begin_string :: "char \<Rightarrow> json_scan \<Rightarrow> json_scan" where
  "step_begin_string c j =
     (if is_ws c then j
      else if c = CHR 0x22 then j\<lparr>js_state := InString, js_buf := []\<rparr>
      else goto JsonError j)"

text \<open>The closing quote stores the literal if it is an element of the top-level array.\<close>

definition end_string :: "json_scan \<Rightarrow> json_scan" where
  "end_string j =
     (if js_stack j = [ArrayValue]
      then j\<lparr>js_elems := butlast (js_elems j) @ [unquote (rev (js_buf j))], js_state := EndValue\<rparr>
      else goto EndValue j)"

definition simple_escape :: "char \<Rightarrow> nat option" where
  "simple_escape c =
     (if c = CHR ''b'' then Some 8 else if c = CHR ''f'' then Some 12
      else if c = CHR ''n'' then Some 10 else if c = CHR ''r'' then Some 13
      else if c = CHR ''t'' then Some 9
      else if c = CHR 0x5C \<or> c = CHR ''/'' \<or> c = CHR 0x22 then Some (byte c)
      else None)"

definition json_step :: "char \<Rightarrow> json_scan \<Rightarrow> json_scan" where
  "json_step c j =
     (case js_state j of
        BeginValue \<Rightarrow> step_begin_value c j
      | BeginValueOrEmpty \<Rightarrow> if is_ws c then j else if c = CHR '']'' then step_end_value c j else step_begin_value c j
      | BeginStringOrEmpty \<Rightarrow>
          if is_ws c then j
          else if c = CHR ''}'' then j\<lparr>js_stack := tl (js_stack j), js_state := EndValue\<rparr>
          else step_begin_string c j
      | BeginString \<Rightarrow> step_begin_string c j
      | EndValue \<Rightarrow> step_end_value c j
      | InString \<Rightarrow>
          if c = CHR 0x22 then end_string j
          else if c = CHR 0x5C then goto InStringEsc j
          else if byte c < 0x20 then goto JsonError j
          else j\<lparr>js_buf := Raw c # js_buf j\<rparr>
      | InStringEsc \<Rightarrow>
          if c = CHR ''u'' then goto (InStringEscU 0 0) j
          else (case simple_escape c of
                  Some n \<Rightarrow> j\<lparr>js_buf := Unit n # js_buf j, js_state := InString\<rparr>
                | None \<Rightarrow> goto JsonError j)
      | InStringEscU n acc \<Rightarrow>
          (case hex_value c of
             None \<Rightarrow> goto JsonError j
           | Some d \<Rightarrow> if n = 3 then j\<lparr>js_buf := Unit (acc * 16 + d) # js_buf j, js_state := InString\<rparr>
                       else goto (InStringEscU (Suc n) (acc * 16 + d)) j)
      | Neg \<Rightarrow> if c = CHR ''0'' then goto Digit0 j else if is_digit c then goto Digits j else goto JsonError j
      | Digits \<Rightarrow>
          if is_digit c then j
          else if c = CHR ''.'' then goto Dot j
          else if c = CHR ''e'' \<or> c = CHR ''E'' then goto Exp j
          else step_end_value c j
      | Digit0 \<Rightarrow>
          if c = CHR ''.'' then goto Dot j
          else if c = CHR ''e'' \<or> c = CHR ''E'' then goto Exp j
          else step_end_value c j
      | Dot \<Rightarrow> if is_digit c then goto DotDigits j else goto JsonError j
      | DotDigits \<Rightarrow>
          if is_digit c then j
          else if c = CHR ''e'' \<or> c = CHR ''E'' then goto Exp j
          else step_end_value c j
      | Exp \<Rightarrow>
          if c = CHR ''+'' \<or> c = CHR ''-'' then goto ExpSign j
          else if is_digit c then goto ExpDigits j else goto JsonError j
      | ExpSign \<Rightarrow> if is_digit c then goto ExpDigits j else goto JsonError j
      | ExpDigits \<Rightarrow> if is_digit c then j else step_end_value c j
      | Lit l \<Rightarrow>
          (case l of
             [x] \<Rightarrow> if c = x then goto EndValue j else goto JsonError j
           | x # xs \<Rightarrow> if c = x then goto (Lit xs) j else goto JsonError j
           | [] \<Rightarrow> goto JsonError j)
      | JsonError \<Rightarrow> j)"

definition json_init :: json_scan where
  "json_init = \<lparr>js_state = BeginValue, js_stack = [], js_elems = [], js_buf = []\<rparr>"

definition json_run :: "string \<Rightarrow> json_scan \<Rightarrow> json_scan" where
  "json_run s j = fold json_step s j"

text \<open>
  The decoded slice and whether \<open>Unmarshal\<close> succeeds in decoding a valid document; the
  scanner ends the input as if a space followed.
\<close>

definition json_Unmarshal :: "string \<Rightarrow> string list" where
  "json_Unmarshal s =
     (let j = json_run (s @ '' '') json_init in
      if js_state j = EndValue \<and> js_stack j = [] then js_elems j else [])"

section \<open>Round trip\<close>

definition ascii :: "string \<Rightarrow> bool" where
  "ascii s \<longleftrightarrow> (\<forall>c \<in> set s. byte c < 0x80)"

lemma ascii_simps [simp]: "ascii []" "ascii (c # s) \<longleftrightarrow> byte c < 0x80 \<and> ascii s"
  by (simp_all add: ascii_def)

lemma json_run_append [simp]: "json_run (s @ t) j = json_run t (json_run s j)"
  by (simp add: json_run_def)

lemma json_run_simps [simp]: "json_run [] j = j" "json_run (c # s) j = json_run s (json_step c j)"
  by (simp_all add: json_run_def)

lemma hex_value_digit: "n < 16 \<Longrightarrow> hex_value (hex_digit n) = Some n"
  by (simp add: hex_value_def hex_digit_def is_digit_def of_char_of)

lemma char_eq_byte: "c = d \<longleftrightarrow> byte c = (byte d :: nat)"
  by simp

lemmas json_step_simps = json_step_def goto_def

text \<open>Scanning one escaped ASCII byte inside a literal adds one item that denotes it.\<close>

definition denotes :: "json_item \<Rightarrow> char \<Rightarrow> bool" where
  "denotes i c \<longleftrightarrow> (i = Raw c \<or> i = Unit (byte c)) \<and> byte c < 0x80"

lemma run_u4:
  assumes "js_state j = InString" "a < 16" "b < 16" "c < 16" "d < 16"
  shows "json_run [CHR 0x5C, CHR ''u'', hex_digit a, hex_digit b, hex_digit c, hex_digit d] j =
    j\<lparr>js_buf := Unit (((a * 16 + b) * 16 + c) * 16 + d) # js_buf j\<rparr>"
  using assms by (cases j) (simp add: json_step_simps hex_value_digit)

lemma run_u_escape:
  assumes "js_state j = InString" "n < 65536"
  shows "json_run (u_escape n) j = j\<lparr>js_buf := Unit n # js_buf j\<rparr>"
proof -
  define q1 q2 q3 where "q1 = n div 16" "q2 = q1 div 16" "q3 = q2 div 16"
  have d: "n div 256 = q2" "n div 4096 = q3" "n div 16 = q1"
    using div_mult2_eq [of n 16 16] div_mult2_eq [of n 256 16] by (simp_all add: q1_q2_q3_def)
  have "q3 < 16" using assms(2) d(2) by auto
  moreover have "q3 * 16 + q2 mod 16 = q2" "q2 * 16 + q1 mod 16 = q1" "q1 * 16 + n mod 16 = n"
    by (simp_all add: q1_q2_q3_def)
  ultimately have "((q3 mod 16 * 16 + q2 mod 16) * 16 + q1 mod 16) * 16 + n mod 16 = n"
    by (simp only: mod_less)
  then have "((n div 4096 mod 16 * 16 + n div 256 mod 16) * 16 + n div 16 mod 16) * 16 + n mod 16 = n"
    by (simp add: d)
  with run_u4 [OF assms(1), of "n div 4096 mod 16" "n div 256 mod 16" "n div 16 mod 16" "n mod 16"]
  show ?thesis by (simp only: u_escape_def mod_less_divisor zero_less_numeral simp_thms)
qed

lemma run_escape_ascii:
  assumes "js_state j = InString" "byte c < 0x80"
  shows "\<exists>i. denotes i c \<and> json_run (escape_ascii c) j = j\<lparr>js_buf := i # js_buf j\<rparr>"
proof (cases "byte c < 0x20 \<or> c \<in> {CHR ''<'', CHR ''>'', CHR ''&'', CHR 0x22, CHR 0x5C}")
  case True
  have u: "json_run (u_escape (byte c)) j = j\<lparr>js_buf := Unit (byte c) # js_buf j\<rparr>"
    using assms by (intro run_u_escape) auto
  have "json_run (escape_ascii c) j = j\<lparr>js_buf := Unit (byte c) # js_buf j\<rparr>"
  proof (cases "c \<in> {CHR 0x22, CHR 0x5C, CHR 0x08, CHR 0x0C, CHR 0x0A, CHR 0x0D, CHR 0x09}")
    case spec: True
    then show ?thesis
      by (elim insertE emptyE)
        (simp_all add: escape_ascii_def json_step_simps simple_escape_def assms(1))
  next
    case False
    with True have "escape_ascii c = u_escape (byte c)" unfolding escape_ascii_def by auto
    with u show ?thesis by simp
  qed
  then show ?thesis using assms(2) by (auto simp: denotes_def)
next
  case False
  have lt: "c \<noteq> d" if "byte d < (0x20 :: nat)" for d using False that by blast
  have ne: "c \<noteq> CHR 0x08" "c \<noteq> CHR 0x0C" "c \<noteq> CHR 0x0A" "c \<noteq> CHR 0x0D" "c \<noteq> CHR 0x09"
    "c \<noteq> CHR ''<''" "c \<noteq> CHR ''>''" "c \<noteq> CHR ''&''" "c \<noteq> CHR 0x22" "c \<noteq> CHR 0x5C" "\<not> byte c < (0x20 :: nat)"
    using False by (auto intro!: lt simp del: of_char_eq_iff)
  from ne have "escape_ascii c = [c]" by (simp add: escape_ascii_def)
  moreover have "json_step c j = j\<lparr>js_buf := Raw c # js_buf j\<rparr>"
    using ne(9-11) assms(1) by (simp add: json_step_simps)
  ultimately have "json_run (escape_ascii c) j = j\<lparr>js_buf := Raw c # js_buf j\<rparr>" by simp
  then show ?thesis using assms(2) by (auto simp: denotes_def)
qed

lemma run_escape_string:
  "ascii s \<Longrightarrow> js_state j = InString \<Longrightarrow>
   \<exists>is. list_all2 denotes is s \<and> json_run (escape_string s) j = j\<lparr>js_buf := rev is @ js_buf j\<rparr>"
proof (induction s arbitrary: j)
  case Nil
  then show ?case by simp
next
  case (Cons c s)
  then obtain i where i: "denotes i c" "json_run (escape_ascii c) j = j\<lparr>js_buf := i # js_buf j\<rparr>"
    using run_escape_ascii by (metis ascii_simps(2))
  from Cons.IH [of "j\<lparr>js_buf := i # js_buf j\<rparr>"] Cons.prems obtain "is" where
    "list_all2 denotes is s" "json_run (escape_string s) (j\<lparr>js_buf := i # js_buf j\<rparr>) =
      j\<lparr>js_buf := rev is @ i # js_buf j\<rparr>" by auto
  with i Cons.prems show ?case by (intro exI [of _ "i # is"]) simp
qed

lemma unquote_denotes: "list_all2 denotes is s \<Longrightarrow> unquote is = s"
proof (induction "is" s rule: list_all2_induct)
  case (Cons i "is" c s)
  then have a: "byte c < 0x80" by (simp add: denotes_def)
  from Cons(1) have "i = Raw c \<or> i = Unit (byte c)" by (simp add: denotes_def)
  then show ?case
  proof
    assume "i = Raw c"
    with a Cons(3) show ?thesis by (simp add: RuneError_def)
  next
    assume "i = Unit (byte c)"
    moreover have "utf8_EncodeRune (byte c) = [c]" using a by (simp add: utf8_EncodeRune_def)
    ultimately show ?thesis using a Cons(3) by (simp add: surrogate_hi_def surrogate_lo_def)
  qed
qed simp

text \<open>A quoted string as an element of the top-level array.\<close>

lemma run_quote:
  assumes "ascii s" "js_state j = BeginValue \<or> js_state j = BeginValueOrEmpty" "js_stack j = [ArrayValue]"
  shows "\<exists>b. json_run (json_quote s) j = j\<lparr>js_state := EndValue, js_elems := js_elems j @ [s], js_buf := b\<rparr>"
proof -
  let ?j = "j\<lparr>js_elems := js_elems j @ [[]], js_state := InString, js_buf := []\<rparr>"
  have 1: "json_step (CHR 0x22) j = ?j"
    using assms(2,3) by (auto simp: json_step_def step_begin_value_def is_ws_def start_value_def Let_def)
  from run_escape_string [OF assms(1), of ?j] obtain "is" where
    "is": "list_all2 denotes is s" "json_run (escape_string s) ?j = ?j\<lparr>js_buf := rev is\<rparr>" by auto
  have "json_step (CHR 0x22) (?j\<lparr>js_buf := rev is\<rparr>) =
      j\<lparr>js_elems := js_elems j @ [s], js_state := EndValue, js_buf := rev is\<rparr>"
    using assms(3) unquote_denotes [OF "is"(1)]
    by (simp add: json_step_def end_string_def)
  then have "json_run (json_quote s) j = j\<lparr>js_state := EndValue, js_elems := js_elems j @ [s], js_buf := rev is\<rparr>"
    using 1 "is"(2) by (simp add: json_quote_def)
  then show ?thesis by blast
qed

lemma run_quotes:
  assumes "\<forall>x \<in> set xs. ascii x" "xs \<noteq> []" "js_state j = BeginValue \<or> js_state j = BeginValueOrEmpty"
    "js_stack j = [ArrayValue]"
  shows "\<exists>b. json_run (strings_Join (map json_quote xs) '','') j =
    j\<lparr>js_state := EndValue, js_elems := js_elems j @ xs, js_buf := b\<rparr>"
  using assms
proof (induction xs arbitrary: j)
  case (Cons x xs)
  from run_quote [of x j] Cons.prems obtain b where
    b: "json_run (json_quote x) j = j\<lparr>js_state := EndValue, js_elems := js_elems j @ [x], js_buf := b\<rparr>" by auto
  show ?case
  proof (cases "xs = []")
    case True
    with b show ?thesis by auto
  next
    case False
    let ?j = "j\<lparr>js_state := BeginValue, js_elems := js_elems j @ [x], js_buf := b\<rparr>"
    have "json_step (CHR '','') (j\<lparr>js_state := EndValue, js_elems := js_elems j @ [x], js_buf := b\<rparr>) = ?j"
      using Cons.prems(4) by (simp add: json_step_def step_end_value_def is_ws_def goto_def)
    moreover from Cons.IH [of ?j] Cons.prems False obtain b' where
      "json_run (strings_Join (map json_quote xs) '','') ?j =
         ?j\<lparr>js_state := EndValue, js_elems := js_elems j @ x # xs, js_buf := b'\<rparr>" by auto
    ultimately show ?thesis using b False by (auto simp: strings_Join_Cons)
  qed
qed simp

lemma json_Unmarshal_Marshal:
  assumes "\<forall>x \<in> set xs. ascii x"
  shows "json_Unmarshal (json_Marshal xs) = xs"
proof -
  let ?j = "json_init\<lparr>js_state := BeginValueOrEmpty, js_stack := [ArrayValue]\<rparr>"
  have opened: "json_step (CHR ''['') json_init = ?j"
    by (simp add: json_step_def json_init_def step_begin_value_def is_ws_def start_value_def
        push_frame_def maxNestingDepth_def)
  have "\<exists>b st. (st = EndValue \<or> st = BeginValueOrEmpty) \<and> json_run (strings_Join (map json_quote xs) '','') ?j =
      ?j\<lparr>js_state := st, js_elems := xs, js_buf := b\<rparr>"
  proof (cases "xs = []")
    case True
    then show ?thesis by (intro exI [of _ "[]"] exI [of _ BeginValueOrEmpty]) (simp add: json_init_def)
  next
    case False
    with run_quotes [OF assms, of ?j] show ?thesis by (auto simp: json_init_def)
  qed
  then obtain b st where st: "st = EndValue \<or> st = BeginValueOrEmpty"
    "json_run (strings_Join (map json_quote xs) '','') ?j = ?j\<lparr>js_state := st, js_elems := xs, js_buf := b\<rparr>"
    by blast
  have "json_step (CHR '']'') (?j\<lparr>js_state := st, js_elems := xs, js_buf := b\<rparr>) =
      json_init\<lparr>js_state := EndValue, js_elems := xs, js_buf := b\<rparr>"
    using st(1) by (auto simp: json_step_def step_end_value_def is_ws_def json_init_def)
  with opened st(2) show ?thesis
    by (simp add: json_Unmarshal_def json_Marshal_def json_step_def step_end_value_def is_ws_def
        json_init_def goto_def)
qed

end
