(* ===== verification/GoFilepath.thy ===== *)
theory GoFilepath
  imports GoStrings
begin

text \<open>
  Package \<open>path/filepath\<close> on Unix: lexical cleaning of paths, joining, splitting into
  directory and base, and shell patterns.  \<open>Clean\<close> is given on the list of path components, which is what its
  documented rules speak about; \<open>Match\<close> follows the chunk-wise algorithm of the library, since
  its answers on malformed patterns are part of what callers see.
\<close>

section \<open>Clean, Join, Dir and Base\<close>

definition filepath_IsAbs :: "string \<Rightarrow> bool" where
  "filepath_IsAbs p = strings_HasPrefix p ''/''"

text \<open>The components kept so far are the second argument, innermost first.\<close>

fun clean_comps :: "bool \<Rightarrow> string list \<Rightarrow> string list \<Rightarrow> string list" where
  "clean_comps rooted out [] = rev out"
| "clean_comps rooted out (c # cs) =
     (if c = [] \<or> c = ''.'' then clean_comps rooted out cs
      else if c = ''..'' then
        (case out of
           [] \<Rightarrow> if rooted then clean_comps rooted [] cs else clean_comps rooted [''..''] cs
         | t # ts \<Rightarrow> if t = ''..'' then clean_comps rooted (''..'' # out) cs
                     else clean_comps rooted ts cs)
      else clean_comps rooted (c # out) cs)"

definition filepath_Clean :: "string \<Rightarrow> string" where
  "filepath_Clean p =
     (if p = [] then ''.''
      else
        let rooted = filepath_IsAbs p;
            out = clean_comps rooted [] (strings_Split (CHR ''/'') p)
        in if rooted then ''/'' @ strings_Join out ''/''
           else if out = [] then ''.'' else strings_Join out ''/'')"

fun filepath_Join :: "string list \<Rightarrow> string" where
  "filepath_Join [] = []"
| "filepath_Join (e # es) = (if e \<noteq> [] then filepath_Clean (strings_Join (e # es) ''/'') else filepath_Join es)"

text \<open>Everything up to and including the last separator, and what follows it.\<close>

definition filepath_Split :: "string \<Rightarrow> string \<times> string" where
  "filepath_Split p =
     (let file = rev (takeWhile (\<lambda>c. c \<noteq> CHR ''/'') (rev p)) in (take (length p - length file) p, file))"

definition filepath_Dir :: "string \<Rightarrow> string" where
  "filepath_Dir p = filepath_Clean (fst (filepath_Split p))"

definition filepath_Base :: "string \<Rightarrow> string" where
  "filepath_Base p =
     (if p = [] then ''.''
      else
        let q = rev (dropWhile (\<lambda>c. c = CHR ''/'') (rev p)) in
        if q = [] then ''/'' else snd (filepath_Split q))"

section \<open>Match\<close>

fun scan_stars :: "string \<Rightarrow> bool \<times> string" where
  "scan_stars (c # p) = (if c = CHR ''*'' then (True, snd (scan_stars p)) else (False, c # p))"
| "scan_stars [] = (False, [])"

fun scan_rest :: "bool \<Rightarrow> string \<Rightarrow> string \<times> string" where
  "scan_rest inrange [] = ([], [])"
| "scan_rest inrange [c] = (if c = CHR ''*'' \<and> \<not> inrange then ([], [c]) else ([c], []))"
| "scan_rest inrange (c # d # p) =
     (if c = CHR 0x5C then (let (ch, r) = scan_rest inrange p in (c # d # ch, r))
      else if c = CHR ''*'' \<and> \<not> inrange then ([], c # d # p)
      else let (ch, r) = scan_rest (if c = CHR ''['' then True else if c = CHR '']'' then False else inrange) (d # p)
           in (c # ch, r))"

definition scanChunk :: "string \<Rightarrow> bool \<times> string \<times> string" where
  "scanChunk pattern = (let (star, p) = scan_stars pattern; (chunk, rest) = scan_rest False p in (star, chunk, rest))"

text \<open>A possibly escaped character of a class; \<open>None\<close> is \<open>ErrBadPattern\<close>.\<close>

definition getEsc :: "string \<Rightarrow> (nat \<times> string) option" where
  "getEsc chunk =
     (if chunk = [] \<or> hd chunk = CHR ''-'' \<or> hd chunk = CHR '']'' then None
      else
        let chunk' = (if hd chunk = CHR 0x5C then tl chunk else chunk) in
        if chunk' = [] then None
        else
          let (r, n) = utf8_DecodeRune chunk'; nchunk = drop n chunk' in
          if (r = RuneError \<and> n = 1) \<or> nchunk = [] then None else Some (r, nchunk))"

lemma getEsc_shorter: "getEsc chunk = Some (r, c') \<Longrightarrow> length c' < length chunk"
proof -
  assume g: "getEsc chunk = Some (r, c')"
  define chunk' where "chunk' = (if hd chunk = CHR 0x5C then tl chunk else chunk)"
  from g have "chunk' \<noteq> []" "c' = drop (snd (utf8_DecodeRune chunk')) chunk'"
    by (auto simp: getEsc_def chunk'_def Let_def split: if_splits prod.splits)
  with DecodeRune_width [of chunk'] have "length c' < length chunk'" by auto
  also have "length chunk' \<le> length chunk" by (simp add: chunk'_def)
  finally show ?thesis .
qed

text \<open>The ranges of a class up to its closing bracket: whether \<open>r\<close> is in one, and the rest.\<close>

function class_ranges :: "nat \<Rightarrow> nat \<Rightarrow> bool \<Rightarrow> string \<Rightarrow> (bool \<times> string) option" where
  "class_ranges r nrange matched chunk =
     (if chunk \<noteq> [] \<and> hd chunk = CHR '']'' \<and> nrange > 0 then Some (matched, tl chunk)
      else case getEsc chunk of
        None \<Rightarrow> None
      | Some (lo, c1) \<Rightarrow>
          if hd c1 = CHR ''-'' then
            (case getEsc (tl c1) of
               None \<Rightarrow> None
             | Some (hi, c2) \<Rightarrow> class_ranges r (Suc nrange) (matched \<or> lo \<le> r \<and> r \<le> hi) c2)
          else class_ranges r (Suc nrange) (matched \<or> r = lo) c1)"
  by pat_completeness auto
termination
  by (relation "measure (\<lambda>(r, n, m, c). length c)")
     (auto dest!: getEsc_shorter simp: le_less_trans less_imp_le_nat)

declare class_ranges.simps [simp del]

lemma class_ranges_shorter: "class_ranges r n m chunk = Some (b, c') \<Longrightarrow> length c' \<le> length chunk"
proof (induction r n m chunk rule: class_ranges.induct)
  case (1 r n m chunk)
  then show ?case
    by (subst (asm) (3) class_ranges.simps)
       (fastforce split: if_splits option.splits dest!: getEsc_shorter)
qed

text \<open>\<open>None\<close> is \<open>ErrBadPattern\<close>, \<open>Some None\<close> a mismatch, \<open>Some (Some rest)\<close> a match.\<close>

function matchChunk :: "string \<Rightarrow> string \<Rightarrow> bool \<Rightarrow> string option option" where
  "matchChunk chunk s failed0 =
     (if chunk = [] then Some (if failed0 then None else Some s)
      else
        let failed = (failed0 \<or> s = []); c = hd chunk; rest = tl chunk in
        if c = CHR ''['' then
          let (r, n) = (if failed then (0, 0) else utf8_DecodeRune s);
              negated = (rest \<noteq> [] \<and> hd rest = CHR ''^'')
          in case class_ranges r 0 False (if negated then tl rest else rest) of
               None \<Rightarrow> None
             | Some (m, rest') \<Rightarrow> matchChunk rest' (drop n s) (failed \<or> m = negated)
        else if c = CHR ''?'' then
          (if failed then matchChunk rest s True
           else matchChunk rest (drop (snd (utf8_DecodeRune s)) s) (hd s = CHR ''/''))
        else if c = CHR 0x5C then
          (if rest = [] then None
           else if failed then matchChunk (tl rest) s True
           else matchChunk (tl rest) (tl s) (hd rest \<noteq> hd s))
        else if failed then matchChunk rest s True
        else matchChunk rest (tl s) (c \<noteq> hd s))"
  by pat_completeness auto
termination
proof (relation "measure (\<lambda>(c, s, f). length c)", goal_cases)
  case (2 chunk s failed0 failed c rest x r n negated y m rest')
  then show ?case
    using class_ranges_shorter [of r 0 False "if negated then tl rest else rest" m rest']
    by (cases chunk) (auto split: if_splits)
qed (auto simp: neq_Nil_conv)

declare matchChunk.simps [simp del]

text \<open>After a star: the first position, without passing a separator, where the chunk matches.\<close>

fun star_search :: "string \<Rightarrow> bool \<Rightarrow> string \<Rightarrow> string option option" where
  "star_search chunk final [] = Some None"
| "star_search chunk final (c # name) =
     (if c = CHR ''/'' then Some None
      else case matchChunk chunk name False of
        None \<Rightarrow> None
      | Some (Some t) \<Rightarrow> if final \<and> t \<noteq> [] then star_search chunk final name else Some (Some t)
      | Some None \<Rightarrow> star_search chunk final name)"

lemma scan_rest_shorter: "scan_rest b p = (ch, r) \<Longrightarrow> length r \<le> length p"
  by (induction b p arbitrary: ch r rule: scan_rest.induct) (fastforce split: if_splits prod.splits)+

lemma scan_stars_shorter: "length (snd (scan_stars p)) \<le> length p"
  by (induction p rule: scan_stars.induct) auto

lemma scanChunk_shorter:
  assumes "p \<noteq> []" "scanChunk p = (star, chunk, rest)"
  shows "length rest < length p"
proof -
  from assms(1) obtain c q where p: "p = c # q" by (cases p) auto
  obtain st p' where st: "scan_stars p = (st, p')" by fastforce
  with assms(2) have r: "scan_rest False p' = (chunk, rest)" by (auto simp: scanChunk_def split: prod.splits)
  show ?thesis
  proof (cases "c = CHR ''*''")
    case True
    with p st have "length p' \<le> length q" using scan_stars_shorter [of q] by auto
    with scan_rest_shorter [OF r] p show ?thesis by simp
  next
    case False
    with p st have "p' = c # q" by auto
    with r False show ?thesis
      by (cases q) (auto simp: p split: if_splits prod.splits dest: scan_rest_shorter)
  qed
qed

function well_formed_rest :: "string \<Rightarrow> bool" where
  "well_formed_rest pattern =
     (if pattern = [] then True
      else let (star, chunk, rest) = scanChunk pattern in
           if matchChunk chunk [] False = None then False else well_formed_rest rest)"
  by pat_completeness auto
termination
  by (relation "measure length") (auto intro: scanChunk_shorter [OF _ sym])

declare well_formed_rest.simps [simp del]

text \<open>\<open>None\<close> is \<open>ErrBadPattern\<close>.\<close>

function filepath_Match :: "string \<Rightarrow> string \<Rightarrow> bool option" where
  "filepath_Match pattern name =
     (if pattern = [] then Some (name = [])
      else
        let (star, chunk, rest) = scanChunk pattern;
            mismatch = (if well_formed_rest rest then Some False else None)
        in if star \<and> chunk = [] then Some (CHR ''/'' \<notin> set name)
           else case matchChunk chunk name False of
             None \<Rightarrow> None
           | Some r \<Rightarrow>
               (case r of
                  Some t \<Rightarrow>
                    if t = [] \<or> rest \<noteq> [] then filepath_Match rest t
                    else if star then
                      (case star_search chunk (rest = []) name of
                         None \<Rightarrow> None
                       | Some (Some t') \<Rightarrow> filepath_Match rest t'
                       | Some None \<Rightarrow> mismatch)
                    else mismatch
                | None \<Rightarrow>
                    if star then
                      (case star_search chunk (rest = []) name of
                         None \<Rightarrow> None
                       | Some (Some t') \<Rightarrow> filepath_Match rest t'
                       | Some None \<Rightarrow> mismatch)
                    else mismatch))"
  by pat_completeness auto
termination
  by (relation "measure (\<lambda>(p, n). length p)") (auto intro: scanChunk_shorter [OF _ sym])

declare filepath_Match.simps [simp del]

end
