(* ===== verification/MRPService.thy ===== *)
theory MRPService
  imports RepoTypes Metrics GoJSON GoFilepath
begin

text \<open>
  The reconciliation service of the controller, \<open>mrp_controller/service/mrp_service.go\<close>: reading the
  current and previous revision of every source from the application manifest, asking the
  repository server for the last revision that changed the source's files, and patching the
  result into the application's annotations.

  The service reaches the Kubernetes API, the database and the repository server through
  interfaces; they are the functions of \<open>mrp_env\<close>, which act on a world \<open>'w\<close>.  A run time
  panic is the outcome \<open>Panic\<close>.  Log output and durations are not modelled.
\<close>

section \<open>Interfaces\<close>

record ChangeRevisionRequest =
  crr_AppName :: string
  crr_Namespace :: string
  crr_CurrentRevision :: string
  crr_PreviousRevision :: string
  crr_Paths :: "string list"
  crr_Repo :: "Repository option"

text \<open>
  \<open>env_GetChangeRevision\<close> returns an error, a nil response (\<open>Inr None\<close>) or the revision of the
  response; \<open>env_FromError\<close> is the gRPC library's reading of an error as a status.
\<close>

record 'w mrp_env =
  env_Get :: "string \<Rightarrow> string \<Rightarrow> 'w \<Rightarrow> Application result \<times> 'w"
  env_Patch :: "string \<Rightarrow> string \<Rightarrow> (string \<rightharpoonup> string) \<Rightarrow> 'w \<Rightarrow> go_error option \<times> 'w"
  env_GetRepository :: "string \<Rightarrow> string \<Rightarrow> 'w \<Rightarrow> Repository result \<times> 'w"
  env_NewRepoServerClient :: "'w \<Rightarrow> go_error option \<times> 'w"
  env_GetChangeRevision :: "ChangeRevisionRequest \<Rightarrow> 'w \<Rightarrow> string option result \<times> 'w"
  env_Close :: "'w \<Rightarrow> 'w"
  env_FromError :: "go_error \<Rightarrow> grpc_code option"

definition CHANGE_REVISION_ANN :: string where
  "CHANGE_REVISION_ANN = ''mrp-controller.argoproj.io/change-revision''"

definition CHANGE_REVISIONS_ANN :: string where
  "CHANGE_REVISIONS_ANN = ''mrp-controller.argoproj.io/change-revisions''"

definition GIT_REVISION_ANN :: string where
  "GIT_REVISION_ANN = ''mrp-controller.argoproj.io/git-revision''"

definition GIT_REVISIONS_ANN :: string where
  "GIT_REVISIONS_ANN = ''mrp-controller.argoproj.io/git-revisions''"

lemmas ann_defs = CHANGE_REVISION_ANN_def CHANGE_REVISIONS_ANN_def GIT_REVISION_ANN_def GIT_REVISIONS_ANN_def

section \<open>Revisions recorded in the manifest\<close>

record sourceRevisions =
  rv_changeRevision :: string
  rv_gitRevision :: string
  rv_currentRevision :: string
  rv_previousRevision :: string
  rv_repoURL :: string
  rv_isHelmRepo :: bool
  rv_path :: string

definition getArrayFromAnnotation :: "Application \<Rightarrow> string \<Rightarrow> string list" where
  "getArrayFromAnnotation app annotationName = (case app_Annotations app annotationName of
     None \<Rightarrow> []
   | Some annStr \<Rightarrow> if strings_TrimSpace annStr \<noteq> [] then json_Unmarshal annStr else [])"

definition sliceGetString :: "string list \<Rightarrow> int \<Rightarrow> string" where
  "sliceGetString sl idx = (if idx \<ge> 0 \<and> idx < int (length sl) then sl ! nat idx else [])"

definition isMatchingHistoryEntry :: "ApplicationSource \<Rightarrow> ApplicationSource \<Rightarrow> bool" where
  "isMatchingHistoryEntry a b =
     (if src_Name a \<noteq> [] \<and> src_Name b \<noteq> [] \<and> strings_TrimSpace (src_Name a) \<noteq> [] \<and>
         strings_TrimSpace (src_Name a) = strings_TrimSpace (src_Name b) then True
      else src_RepoURL a = src_RepoURL b \<and> src_Path a = src_Path b \<and> src_Chart a = src_Chart b \<and>
        src_Ref a = src_Ref b \<and>
        (src_TargetRevision a = src_TargetRevision b \<or>
         src_TargetRevision a = [] \<and> src_TargetRevision b = ''HEAD'' \<or>
         src_TargetRevision a = ''HEAD'' \<and> src_TargetRevision b = []))"

definition getRevisionsFromHistoryMS :: "Application \<Rightarrow> int \<Rightarrow> int \<Rightarrow> string go" where
  "getRevisionsFromHistoryMS a historyIdx sourceIdx =
     go_bind (slice_index (status_History (app_Status a)) historyIdx) (\<lambda>history.
     go_bind (slice_index (spec_Sources (app_Spec a)) sourceIdx) (\<lambda>src.
       let sources = rh_Sources history;
           sameIdx = (sourceIdx < int (length sources) \<and> 0 \<le> sourceIdx \<and>
             isMatchingHistoryEntry (sources ! nat sourceIdx) src);
           historicalSourceIdx =
             (if sameIdx then sourceIdx
              else case find_index (\<lambda>s. isMatchingHistoryEntry s src) sources of
                Some i \<Rightarrow> int i | None \<Rightarrow> - 1)
       in if historicalSourceIdx \<ge> 0 then Ret (sliceGetString (rh_Revisions history) historicalSourceIdx)
          else Ret []))"

definition getCurrentRevisionForFirstSyncMultiSource :: "Application \<Rightarrow> int \<Rightarrow> string" where
  "getCurrentRevisionForFirstSyncMultiSource a idx =
     (case (case app_Operation a of Some op \<Rightarrow> op_Sync op | None \<Rightarrow> None) of
        Some sync \<Rightarrow> sliceGetString (so_Revisions sync) idx
      | None \<Rightarrow>
          if ss_Status (status_Sync (app_Status a)) = ''Synced''
          then sliceGetString (ss_Revisions (status_Sync (app_Status a))) idx else [])"

definition getCurrentRevisionForFirstSync :: "Application \<Rightarrow> string" where
  "getCurrentRevisionForFirstSync a =
     (case (case app_Operation a of Some op \<Rightarrow> op_Sync op | None \<Rightarrow> None) of
        Some sync \<Rightarrow> so_Revision sync
      | None \<Rightarrow>
          if ss_Status (status_Sync (app_Status a)) = ''Synced'' \<and> ss_Revision (status_Sync (app_Status a)) \<noteq> []
          then ss_Revision (status_Sync (app_Status a)) else [])"

text \<open>The sync result of the last operation, if the application is synced and has one.\<close>

definition finished_sync :: "Application \<Rightarrow> SyncOperationResult option" where
  "finished_sync a =
     (if ss_Status (status_Sync (app_Status a)) = ''Synced''
      then (case status_OperationState (app_Status a) of Some os \<Rightarrow> ops_SyncResult os | None \<Rightarrow> None)
      else None)"

definition getRevisionsMultiSource :: "Application \<Rightarrow> int \<Rightarrow> (string \<times> string) go" where
  "getRevisionsMultiSource a idx =
     (let history = status_History (app_Status a); n = int (length history) in
      if n = 0 then Ret (getCurrentRevisionForFirstSyncMultiSource a idx, [])
      else case finished_sync a of
        Some sr \<Rightarrow>
          if n = 1 then Ret (sliceGetString (sr_Revisions sr) idx, [])
          else go_bind (getRevisionsFromHistoryMS a (n - 2) idx)
                 (\<lambda>prev. Ret (sliceGetString (sr_Revisions sr) idx, prev))
      | None \<Rightarrow>
          go_bind (getRevisionsFromHistoryMS a (n - 1) idx)
            (\<lambda>prev. Ret (getCurrentRevisionForFirstSyncMultiSource a idx, prev)))"

definition getRevisionsSingleSource :: "Application \<Rightarrow> (string \<times> string) go" where
  "getRevisionsSingleSource a =
     (let history = status_History (app_Status a); n = int (length history) in
      if n = 0 then Ret (getCurrentRevisionForFirstSync a, [])
      else case finished_sync a of
        Some sr \<Rightarrow>
          if n = 1 then Ret (sr_Revision sr, [])
          else go_bind (slice_index history (n - 2)) (\<lambda>h. Ret (sr_Revision sr, rh_Revision h))
      | None \<Rightarrow>
          go_bind (slice_index history (n - 1)) (\<lambda>h. Ret (getCurrentRevisionForFirstSync a, rh_Revision h)))"

definition isHelmRepoMultiSource :: "Application \<Rightarrow> int \<Rightarrow> bool go" where
  "isHelmRepoMultiSource a idx =
     go_bind (slice_index (spec_Sources (app_Spec a)) idx) (\<lambda>s. Ret (strings_TrimSpace (src_Chart s) \<noteq> []))"

definition isHelmRepoSingleSource :: "Application \<Rightarrow> bool go" where
  "isHelmRepoSingleSource a =
     go_bind (deref (spec_Source (app_Spec a))) (\<lambda>s. Ret (strings_TrimSpace (src_Chart s) \<noteq> []))"

definition multi_source_revisions :: "Application \<Rightarrow> string list \<Rightarrow> string list \<Rightarrow> int \<Rightarrow> sourceRevisions go" where
  "multi_source_revisions app changeRevisions gitRevisions idx =
     go_bind (getRevisionsMultiSource app idx) (\<lambda>(currentRevision, previousRevision).
     go_bind (slice_index (spec_Sources (app_Spec app)) idx) (\<lambda>src.
     go_bind (isHelmRepoMultiSource app idx) (\<lambda>helm.
       Ret \<lparr>rv_changeRevision = sliceGetString changeRevisions idx,
            rv_gitRevision = sliceGetString gitRevisions idx,
            rv_currentRevision = currentRevision, rv_previousRevision = previousRevision,
            rv_repoURL = src_RepoURL src, rv_isHelmRepo = helm, rv_path = src_Path src\<rparr>)))"

fun go_map :: "('a \<Rightarrow> 'b go) \<Rightarrow> 'a list \<Rightarrow> 'b list go" where
  "go_map f [] = Ret []"
| "go_map f (x # xs) = go_bind (f x) (\<lambda>y. go_bind (go_map f xs) (\<lambda>ys. Ret (y # ys)))"

definition getSourcesRevisions :: "Application \<Rightarrow> sourceRevisions list go" where
  "getSourcesRevisions app =
     (if HasMultipleSources (app_Spec app) then
        go_map (\<lambda>i. multi_source_revisions app (getArrayFromAnnotation app CHANGE_REVISIONS_ANN)
                  (getArrayFromAnnotation app GIT_REVISIONS_ANN) (int i))
          [0 ..< length (GetSources (app_Spec app))]
      else
        go_bind (getRevisionsSingleSource app) (\<lambda>(currentRevision, previousRevision).
        go_bind (deref (spec_Source (app_Spec app))) (\<lambda>src.
        go_bind (isHelmRepoSingleSource app) (\<lambda>helm.
          Ret [\<lparr>rv_changeRevision = GetAnnotation app CHANGE_REVISION_ANN,
                rv_gitRevision = GetAnnotation app GIT_REVISION_ANN,
                rv_currentRevision = currentRevision, rv_previousRevision = previousRevision,
                rv_repoURL = src_RepoURL src, rv_isHelmRepo = helm, rv_path = src_Path src\<rparr>]))))"

section \<open>Calculating change revisions\<close>

definition GetSourceRefreshPaths :: "Application \<Rightarrow> string \<Rightarrow> string list" where
  "GetSourceRefreshPaths app sourcePath =
     (case app_Annotations app AnnotationKeyManifestGeneratePaths of
        None \<Rightarrow> []
      | Some val \<Rightarrow>
          if val = [] then []
          else concat (map (\<lambda>item.
             if item = [] then []
             else if filepath_IsAbs item then [drop 1 item]
             else [filepath_Clean (filepath_Join [sourcePath, item])])
            (strings_Split (CHR '';'') val)))"

definition isTimeout :: "'w mrp_env \<Rightarrow> go_error \<Rightarrow> bool" where
  "isTimeout env err =
     (if errors_Is err ContextDeadlineExceeded then True
      else env_FromError env err = Some DeadlineExceededCode)"

type_synonym 'w mrp_state = "'w \<times> MetricsServer"

definition calculateChangeRevision :: "'w mrp_env \<Rightarrow> Application \<Rightarrow> string \<Rightarrow> string \<Rightarrow> string \<Rightarrow> string
    \<Rightarrow> 'w mrp_state \<Rightarrow> string result \<times> 'w mrp_state" where
  "calculateChangeRevision env a currentRevision previousRevision repoURL sourcePath st =
     (let (w0, m) = st; (rrepo, w1) = env_GetRepository env repoURL (spec_Project (app_Spec a)) w0 in
      case rrepo of
        Inl err \<Rightarrow> (Inl (Wrapped ''error getting repository'' err), (w1, m))
      | Inr repo \<Rightarrow>
          let (cerr, w2) = env_NewRepoServerClient env w1 in
          case cerr of
            Some err \<Rightarrow> (Inl (Wrapped ''error creating repo server client'' err), (w2, m))
          | None \<Rightarrow>
              let (res, w3) = env_GetChangeRevision env
                    \<lparr>crr_AppName = app_Name a, crr_Namespace = app_Namespace a,
                     crr_CurrentRevision = currentRevision, crr_PreviousRevision = previousRevision,
                     crr_Paths = GetSourceRefreshPaths a sourcePath, crr_Repo = Some repo\<rparr> w2;
                  st' = (env_Close env w3,
                         IncRepoServerRequest (isErr res) (ObserveRepoServerRequestDuration m))
              in case res of
                   Inl err \<Rightarrow> (Inl (Wrapped ''error getting change revision'' err), st')
                 | Inr None \<Rightarrow> (Inl (ErrorString ''got nil change revision result, this cannot not happen''), st')
                 | Inr (Some revision) \<Rightarrow> (Inr revision, st'))"

text \<open>One pass of the loop over the sources: the change and git revision to record, or a timeout.\<close>

definition patch_source :: "'w mrp_env \<Rightarrow> Application \<Rightarrow> sourceRevisions \<Rightarrow> 'w mrp_state
    \<Rightarrow> (string \<times> string) result \<times> 'w mrp_state" where
  "patch_source env app r st =
     (if rv_currentRevision r = [] then (Inr (rv_changeRevision r, rv_gitRevision r), st)
      else if rv_isHelmRepo r then (Inr (rv_gitRevision r, rv_currentRevision r), st)
      else if rv_gitRevision r \<noteq> [] \<and> rv_gitRevision r = rv_currentRevision r \<and> rv_changeRevision r \<noteq> []
        then (Inr (rv_changeRevision r, rv_currentRevision r), st)
      else
        let (res, st') = calculateChangeRevision env app (rv_currentRevision r) (rv_previousRevision r)
              (rv_repoURL r) (rv_path r) st
        in case res of
             Inl err \<Rightarrow>
               (if isTimeout env err then Inl err else Inr (rv_changeRevision r, rv_currentRevision r), st')
           | Inr new \<Rightarrow>
               (Inr (if new = [] then
                       (if rv_changeRevision r = [] then rv_currentRevision r else rv_changeRevision r)
                     else new, rv_currentRevision r), st'))"

fun patch_sources :: "'w mrp_env \<Rightarrow> Application \<Rightarrow> sourceRevisions list \<Rightarrow> 'w mrp_state
    \<Rightarrow> (string \<times> string) list result \<times> 'w mrp_state" where
  "patch_sources env app [] st = (Inr [], st)"
| "patch_sources env app (r # rs) st =
     (let (res, st1) = patch_source env app r st in
      case res of
        Inl err \<Rightarrow> (Inl err, st1)
      | Inr p \<Rightarrow>
          let (rest, st2) = patch_sources env app rs st1 in
          (case rest of Inl err \<Rightarrow> Inl err | Inr ps \<Rightarrow> Inr (p # ps), st2))"

section \<open>The annotation patch\<close>

definition addPatchIfNeeded :: "(string \<rightharpoonup> string) \<Rightarrow> string \<Rightarrow> string \<Rightarrow> (string \<rightharpoonup> string) \<Rightarrow> (string \<rightharpoonup> string)" where
  "addPatchIfNeeded currentAnnotations key val annotations =
     (case currentAnnotations key of
        Some currentVal \<Rightarrow> if currentVal \<noteq> val then annotations(key \<mapsto> val) else annotations
      | None \<Rightarrow> annotations(key \<mapsto> val))"

text \<open>\<open>None\<close> is the nil patch.\<close>

definition makeAnnotationPatch :: "Application \<Rightarrow> string \<Rightarrow> string list \<Rightarrow> string \<Rightarrow> string list
    \<Rightarrow> (string \<rightharpoonup> string) option" where
  "makeAnnotationPatch a changeRevision changeRevisions gitRevision gitRevisions =
     (let cur = app_Annotations a;
          annotations = addPatchIfNeeded cur GIT_REVISIONS_ANN (json_Marshal gitRevisions)
            (addPatchIfNeeded cur GIT_REVISION_ANN gitRevision
              (addPatchIfNeeded cur CHANGE_REVISIONS_ANN (json_Marshal changeRevisions)
                (addPatchIfNeeded cur CHANGE_REVISION_ANN changeRevision Map.empty)))
      in if dom annotations = {} then None else Some annotations)"

definition makeChangeRevisionPatch :: "'w mrp_env \<Rightarrow> Application \<Rightarrow> 'w mrp_state
    \<Rightarrow> ((string \<rightharpoonup> string) option result \<times> 'w mrp_state) go" where
  "makeChangeRevisionPatch env a st =
     (let (w, m) = st; (rapp, w1) = env_Get env (app_Namespace a) (app_Name a) w in
      case rapp of
        Inl err \<Rightarrow> Ret (Inl err, (w1, m))
      | Inr app \<Rightarrow>
          if GetAnnotation a AnnotationKeyManifestGeneratePaths = []
          then Ret (Inl (StatusError FailedPrecondition ''manifest generation paths not set''), (w1, m))
          else go_bind (getSourcesRevisions a) (\<lambda>revs.
            let (res, st') = patch_sources env app revs (w1, m) in
            case res of
              Inl err \<Rightarrow> Ret (Inl err, st')
            | Inr ps \<Rightarrow>
                go_bind (slice_index ps 0) (\<lambda>p0.
                  Ret (Inr (makeAnnotationPatch a (fst p0) (map fst ps) (snd p0) (map snd ps)), st'))))"

definition annotateApplication :: "'w mrp_env \<Rightarrow> Application \<Rightarrow> (string \<rightharpoonup> string) \<Rightarrow> 'w \<Rightarrow> go_error option \<times> 'w" where
  "annotateApplication env a patch w = env_Patch env (app_Namespace a) (app_Name a) patch w"

definition ChangeRevision :: "'w mrp_env \<Rightarrow> Application \<Rightarrow> 'w mrp_state
    \<Rightarrow> (go_error option \<times> 'w mrp_state) go" where
  "ChangeRevision env a st =
     go_bind (makeChangeRevisionPatch env a st) (\<lambda>(res, (w, m)).
       Ret (case res of
          Inl err \<Rightarrow> (Some err, (w, IncReconcile a (if isTimeout env err then ''timeout'' else ''error'') m))
        | Inr None \<Rightarrow> (None, (w, IncReconcile a ''up-to-date'' m))
        | Inr (Some patch) \<Rightarrow>
            (let (perr, w') = annotateApplication env a patch w in
             case perr of
               None \<Rightarrow> (None, (w', IncReconcile a ''updated'' m))
             | Some err \<Rightarrow> (Some err, (w', IncReconcile a ''patch-error'' m)))))"

section \<open>Applying the patch\<close>

text \<open>What the API server does with the merge patch: the given annotations are overwritten.\<close>

definition apply_patch :: "Application \<Rightarrow> (string \<rightharpoonup> string) \<Rightarrow> Application" where
  "apply_patch a p = a\<lparr>app_ObjectMeta := (app_ObjectMeta a)\<lparr>om_Annotations := app_Annotations a ++ p\<rparr>\<rparr>"

lemma apply_patch_sel [simp]:
  "app_Annotations (apply_patch a p) = app_Annotations a ++ p"
  "app_Spec (apply_patch a p) = app_Spec a" "app_Status (apply_patch a p) = app_Status a"
  "app_Operation (apply_patch a p) = app_Operation a"
  "app_Name (apply_patch a p) = app_Name a" "app_Namespace (apply_patch a p) = app_Namespace a"
  by (simp_all add: apply_patch_def)

lemma ann_distinct:
  "distinct [CHANGE_REVISION_ANN, CHANGE_REVISIONS_ANN, GIT_REVISION_ANN, GIT_REVISIONS_ANN,
     AnnotationKeyManifestGeneratePaths]"
  by (simp add: ann_defs AnnotationKeyManifestGeneratePaths_def)

lemma ann_neq [simp]:
  "CHANGE_REVISION_ANN \<noteq> CHANGE_REVISIONS_ANN" "CHANGE_REVISION_ANN \<noteq> GIT_REVISION_ANN"
  "CHANGE_REVISION_ANN \<noteq> GIT_REVISIONS_ANN" "CHANGE_REVISIONS_ANN \<noteq> GIT_REVISION_ANN"
  "CHANGE_REVISIONS_ANN \<noteq> GIT_REVISIONS_ANN" "GIT_REVISION_ANN \<noteq> GIT_REVISIONS_ANN"
  "AnnotationKeyManifestGeneratePaths \<noteq> CHANGE_REVISION_ANN"
  "AnnotationKeyManifestGeneratePaths \<noteq> CHANGE_REVISIONS_ANN"
  "AnnotationKeyManifestGeneratePaths \<noteq> GIT_REVISION_ANN"
  "AnnotationKeyManifestGeneratePaths \<noteq> GIT_REVISIONS_ANN"
  using ann_distinct by auto

lemmas ann_neq' [simp] = ann_neq [symmetric]

lemma addPatchIfNeeded_value:
  "addPatchIfNeeded cur k v anns k' =
     (if k' = k \<and> cur k \<noteq> Some v then Some v else anns k')"
  by (auto simp: addPatchIfNeeded_def split: option.split)

text \<open>The annotations the service wants the application to have.\<close>

definition wanted :: "string \<Rightarrow> string list \<Rightarrow> string \<Rightarrow> string list \<Rightarrow> (string \<rightharpoonup> string)" where
  "wanted c cs g gs = [CHANGE_REVISION_ANN \<mapsto> c, CHANGE_REVISIONS_ANN \<mapsto> json_Marshal cs,
     GIT_REVISION_ANN \<mapsto> g, GIT_REVISIONS_ANN \<mapsto> json_Marshal gs]"

lemma makeAnnotationPatch_eq:
  "makeAnnotationPatch a c cs g gs =
     (let p = (\<lambda>k. if wanted c cs g gs k \<noteq> None \<and> app_Annotations a k \<noteq> wanted c cs g gs k
                    then wanted c cs g gs k else None)
      in if p = Map.empty then None else Some p)"
proof -
  have "addPatchIfNeeded cur GIT_REVISIONS_ANN (json_Marshal gs)
      (addPatchIfNeeded cur GIT_REVISION_ANN g
        (addPatchIfNeeded cur CHANGE_REVISIONS_ANN (json_Marshal cs)
          (addPatchIfNeeded cur CHANGE_REVISION_ANN c Map.empty))) =
    (\<lambda>k. if wanted c cs g gs k \<noteq> None \<and> cur k \<noteq> wanted c cs g gs k then wanted c cs g gs k else None)" for cur
    by (rule ext) (simp add: addPatchIfNeeded_value wanted_def)
  then show ?thesis by (simp add: makeAnnotationPatch_def Let_def)
qed

lemma apply_makeAnnotationPatch:
  assumes "makeAnnotationPatch a c cs g gs = Some p"
  shows "app_Annotations a ++ p = app_Annotations a ++ wanted c cs g gs"
proof (rule ext)
  fix k
  from assms have p: "p = (\<lambda>k. if wanted c cs g gs k \<noteq> None \<and> app_Annotations a k \<noteq> wanted c cs g gs k
      then wanted c cs g gs k else None)" by (simp add: makeAnnotationPatch_eq Let_def split: if_splits)
  show "(app_Annotations a ++ p) k = (app_Annotations a ++ wanted c cs g gs) k"
    by (cases "wanted c cs g gs k") (auto simp: p map_add_def)
qed

lemma makeAnnotationPatch_wanted: "makeAnnotationPatch a c cs g gs = None \<longleftrightarrow> wanted c cs g gs \<subseteq>\<^sub>m app_Annotations a"
  by (auto simp: makeAnnotationPatch_eq Let_def map_le_def fun_eq_iff dom_def)

text \<open>The patch is nil iff it has none of the four keys, which is how it is evaluated.\<close>

lemma makeAnnotationPatch_code [code]:
  "makeAnnotationPatch a c cs g gs =
     (let cur = app_Annotations a;
          annotations = addPatchIfNeeded cur GIT_REVISIONS_ANN (json_Marshal gs)
            (addPatchIfNeeded cur GIT_REVISION_ANN g
              (addPatchIfNeeded cur CHANGE_REVISIONS_ANN (json_Marshal cs)
                (addPatchIfNeeded cur CHANGE_REVISION_ANN c Map.empty)))
      in if list_all (\<lambda>k. annotations k = None) [CHANGE_REVISION_ANN, CHANGE_REVISIONS_ANN, GIT_REVISION_ANN, GIT_REVISIONS_ANN]
         then None else Some annotations)"
proof -
  have "dom (addPatchIfNeeded cur k4 v4 (addPatchIfNeeded cur k3 v3 (addPatchIfNeeded cur k2 v2 (addPatchIfNeeded cur k1 v1 Map.empty)))) = {} \<longleftrightarrow>
    list_all (\<lambda>k. addPatchIfNeeded cur k4 v4 (addPatchIfNeeded cur k3 v3 (addPatchIfNeeded cur k2 v2 (addPatchIfNeeded cur k1 v1 Map.empty))) k = None)
      [k1, k2, k3, k4]" for cur k1 k2 k3 k4 and v1 v2 v3 v4 :: string
    by (auto simp: dom_def addPatchIfNeeded_value)
  then show ?thesis by (simp only: makeAnnotationPatch_def Let_def)
qed

section \<open>Reading the revisions never panics\<close>

lemma go_map_Ret: "(\<And>x. x \<in> set xs \<Longrightarrow> f x = Ret (g x)) \<Longrightarrow> go_map f xs = Ret (map g xs)"
  by (induction xs) simp_all

lemma slice_index_Ret: "0 \<le> i \<Longrightarrow> i < int (length xs) \<Longrightarrow> slice_index xs i = Ret (xs ! nat i)"
  by (simp add: slice_index_def)

lemma getRevisionsFromHistoryMS_Ret:
  assumes "0 \<le> h" "h < int (length (status_History (app_Status a)))" "0 \<le> i" "i < int (length (spec_Sources (app_Spec a)))"
  shows "\<exists>r. getRevisionsFromHistoryMS a h i = Ret r"
  using assms by (simp add: getRevisionsFromHistoryMS_def slice_index_Ret Let_def)

lemma getRevisionsMultiSource_Ret:
  assumes "0 \<le> i" "i < int (length (spec_Sources (app_Spec a)))"
  shows "\<exists>c p. getRevisionsMultiSource a i = Ret (c, p)"
proof (cases "length (status_History (app_Status a)) = 0")
  case False
  then have "\<exists>r. getRevisionsFromHistoryMS a (int (length (status_History (app_Status a))) - 1) i = Ret r"
    using assms by (intro getRevisionsFromHistoryMS_Ret) auto
  moreover have "length (status_History (app_Status a)) \<noteq> 1 \<Longrightarrow>
      \<exists>r. getRevisionsFromHistoryMS a (int (length (status_History (app_Status a))) - 2) i = Ret r"
  proof -
    assume "length (status_History (app_Status a)) \<noteq> 1"
    with False have "2 \<le> length (status_History (app_Status a))" by arith
    with assms show ?thesis by (intro getRevisionsFromHistoryMS_Ret) simp_all
  qed
  ultimately show ?thesis using False
    by (auto simp: getRevisionsMultiSource_def Let_def split: option.splits)
qed (simp add: getRevisionsMultiSource_def)

lemma getRevisionsSingleSource_Ret: "\<exists>c p. getRevisionsSingleSource a = Ret (c, p)"
proof (cases "length (status_History (app_Status a)) = 0 \<or> length (status_History (app_Status a)) = 1")
  case False
  then have "2 \<le> length (status_History (app_Status a))" by arith
  then show ?thesis
    by (auto simp: getRevisionsSingleSource_def Let_def slice_index_def split: option.splits)
qed (auto simp: getRevisionsSingleSource_def slice_index_def Let_def split: option.splits)

lemma multi_source_revisions_Ret:
  assumes "i < length (spec_Sources (app_Spec a))"
  shows "\<exists>r. multi_source_revisions a cs gs (int i) = Ret r \<and> rv_changeRevision r = sliceGetString cs (int i) \<and>
    rv_gitRevision r = sliceGetString gs (int i)"
proof -
  from assms obtain c p where "getRevisionsMultiSource a (int i) = Ret (c, p)"
    using getRevisionsMultiSource_Ret [of "int i" a] by auto
  with assms show ?thesis
    by (simp add: multi_source_revisions_def slice_index_Ret isHelmRepoMultiSource_def)
qed

lemma getSourcesRevisions_multi:
  assumes "HasMultipleSources (app_Spec a)"
  obtains revs where "getSourcesRevisions a = Ret revs" "length revs = length (spec_Sources (app_Spec a))"
    "\<And>i. i < length revs \<Longrightarrow> multi_source_revisions a (getArrayFromAnnotation a CHANGE_REVISIONS_ANN)
       (getArrayFromAnnotation a GIT_REVISIONS_ANN) (int i) = Ret (revs ! i)"
proof -
  let ?f = "\<lambda>i. multi_source_revisions a (getArrayFromAnnotation a CHANGE_REVISIONS_ANN)
       (getArrayFromAnnotation a GIT_REVISIONS_ANN) (int i)"
  from assms have src: "GetSources (app_Spec a) = spec_Sources (app_Spec a)"
    by (auto simp: GetSources_def HasMultipleSources_def)
  define g where "g i = (case ?f i of Ret r \<Rightarrow> r)" for i
  have g: "?f i = Ret (g i)" if "i < length (spec_Sources (app_Spec a))" for i
    using multi_source_revisions_Ret [OF that, of "getArrayFromAnnotation a CHANGE_REVISIONS_ANN"
      "getArrayFromAnnotation a GIT_REVISIONS_ANN"] by (auto simp: g_def)
  then have "go_map ?f [0..<length (spec_Sources (app_Spec a))] = Ret (map g [0..<length (spec_Sources (app_Spec a))])"
    by (intro go_map_Ret) simp
  then have "getSourcesRevisions a = Ret (map g [0..<length (spec_Sources (app_Spec a))])"
    using assms src by (simp add: getSourcesRevisions_def)
  then show thesis using that g by simp
qed

text \<open>Everything but the recorded revisions is the same in a patched application.\<close>

lemma status_reads_apply_patch [simp]:
  "finished_sync (apply_patch a p) = finished_sync a"
  "getCurrentRevisionForFirstSyncMultiSource (apply_patch a p) i = getCurrentRevisionForFirstSyncMultiSource a i"
  "getCurrentRevisionForFirstSync (apply_patch a p) = getCurrentRevisionForFirstSync a"
  "getRevisionsFromHistoryMS (apply_patch a p) h i = getRevisionsFromHistoryMS a h i"
  unfolding finished_sync_def getCurrentRevisionForFirstSyncMultiSource_def
    getCurrentRevisionForFirstSync_def getRevisionsFromHistoryMS_def apply_patch_sel by (rule refl)+

lemma getRevisions_apply_patch [simp]:
  "getRevisionsMultiSource (apply_patch a p) i = getRevisionsMultiSource a i"
  "getRevisionsSingleSource (apply_patch a p) = getRevisionsSingleSource a"
  "isHelmRepoMultiSource (apply_patch a p) i = isHelmRepoMultiSource a i"
  "isHelmRepoSingleSource (apply_patch a p) = isHelmRepoSingleSource a"
  unfolding getRevisionsMultiSource_def getRevisionsSingleSource_def isHelmRepoMultiSource_def
    isHelmRepoSingleSource_def apply_patch_sel status_reads_apply_patch by (rule refl)+

definition record_revisions :: "sourceRevisions \<Rightarrow> string \<times> string \<Rightarrow> sourceRevisions" where
  "record_revisions r p = r\<lparr>rv_changeRevision := fst p, rv_gitRevision := snd p\<rparr>"

lemma multi_source_revisions_apply_patch:
  assumes "multi_source_revisions a cs gs i = Ret r"
  shows "multi_source_revisions (apply_patch a p) cs' gs' i =
    Ret (record_revisions r (sliceGetString cs' i, sliceGetString gs' i))"
  using assms by (auto simp: multi_source_revisions_def record_revisions_def split: prod.splits)

lemma TrimSpace_json: "strings_TrimSpace (json_Marshal xs) \<noteq> []"
proof -
  have l: "strip_prefixes space_encodings (CHR ''['' # s) = CHR ''['' # s" for s
    by (subst strip_prefixes.simps) (simp add: space_encodings_def)
  have r: "strip_prefixes (map rev space_encodings) (CHR '']'' # s) = CHR '']'' # s" for s
    by (subst strip_prefixes.simps) (simp add: space_encodings_def)
  show ?thesis by (simp add: strings_TrimSpace_def json_Marshal_def l r)
qed

lemma getArrayFromAnnotation_json:
  assumes "app_Annotations a k = Some (json_Marshal xs)" "\<forall>x \<in> set xs. ascii x"
  shows "getArrayFromAnnotation a k = xs"
  using assms by (simp add: getArrayFromAnnotation_def TrimSpace_json json_Unmarshal_Marshal)

lemma wanted_values:
  "wanted c cs g gs CHANGE_REVISION_ANN = Some c" "wanted c cs g gs CHANGE_REVISIONS_ANN = Some (json_Marshal cs)"
  "wanted c cs g gs GIT_REVISION_ANN = Some g" "wanted c cs g gs GIT_REVISIONS_ANN = Some (json_Marshal gs)"
  "wanted c cs g gs AnnotationKeyManifestGeneratePaths = None"
  by (simp_all add: wanted_def)

text \<open>
  Reading back what was recorded: the sources of the patched application carry the revisions
  of the patch.
\<close>

lemma getSourcesRevisions_apply_patch:
  assumes revs: "getSourcesRevisions a = Ret revs" and len: "length ps = length revs"
    and asc: "\<forall>p \<in> set ps. ascii (fst p) \<and> ascii (snd p)"
    and anns: "app_Annotations a ++ p = app_Annotations a ++
      wanted (fst (ps ! 0)) (map fst ps) (snd (ps ! 0)) (map snd ps)"
  shows "getSourcesRevisions (apply_patch a p) = Ret (map2 record_revisions revs ps)"
proof (cases "HasMultipleSources (app_Spec a)")
  case True
  let ?a = "apply_patch a p"
  obtain revs0 where "getSourcesRevisions a = Ret revs0" "length revs0 = length (spec_Sources (app_Spec a))"
    "\<And>i. i < length revs0 \<Longrightarrow> multi_source_revisions a (getArrayFromAnnotation a CHANGE_REVISIONS_ANN)
       (getArrayFromAnnotation a GIT_REVISIONS_ANN) (int i) = Ret (revs0 ! i)"
    using getSourcesRevisions_multi [OF True] by blast
  with revs have n: "length revs = length (spec_Sources (app_Spec a))" and
    r: "\<And>i. i < length revs \<Longrightarrow> multi_source_revisions a (getArrayFromAnnotation a CHANGE_REVISIONS_ANN)
       (getArrayFromAnnotation a GIT_REVISIONS_ANN) (int i) = Ret (revs ! i)" by simp_all
  have arr: "getArrayFromAnnotation ?a CHANGE_REVISIONS_ANN = map fst ps"
    "getArrayFromAnnotation ?a GIT_REVISIONS_ANN = map snd ps"
    using asc by (auto intro!: getArrayFromAnnotation_json simp: anns wanted_values)
  from True have "HasMultipleSources (app_Spec ?a)" by simp
  from getSourcesRevisions_multi [OF this, unfolded arr apply_patch_sel, folded n] obtain revs' where
    revs': "getSourcesRevisions ?a = Ret revs'" "length revs' = length revs"
    "\<And>i. i < length revs' \<Longrightarrow> multi_source_revisions ?a (map fst ps) (map snd ps) (int i) = Ret (revs' ! i)"
    by blast
  have "revs' = map2 record_revisions revs ps"
  proof (rule nth_equalityI)
    fix i assume i: "i < length revs'"
    with revs'(2) have i': "i < length revs" by simp
    from multi_source_revisions_apply_patch [OF r [OF i']] have
      "Ret (revs' ! i) = Ret (record_revisions (revs ! i) (fst (ps ! i), snd (ps ! i)))"
      unfolding revs'(3) [OF i, symmetric] using i' len by (simp add: sliceGetString_def)
    with i' len show "revs' ! i = map2 record_revisions revs ps ! i" by simp
  qed (simp add: revs'(2) len)
  with revs'(1) show ?thesis by simp
next
  case False
  from revs False obtain r where r: "revs = [r]"
    by (auto simp: getSourcesRevisions_def split: prod.splits)
  with len obtain q where q: "ps = [q]" by (cases ps) auto
  have "GetAnnotation (apply_patch a p) CHANGE_REVISION_ANN = fst q"
    "GetAnnotation (apply_patch a p) GIT_REVISION_ANN = snd q"
    by (simp_all add: GetAnnotation_def anns q wanted_values)
  with revs False r q show ?thesis
    by (auto simp: getSourcesRevisions_def record_revisions_def split: prod.splits)
qed

text \<open>A source whose recorded git revision is current and has a change revision is left alone.\<close>

definition settled :: "sourceRevisions \<Rightarrow> bool" where
  "settled r \<longleftrightarrow> (rv_currentRevision r \<noteq> [] \<longrightarrow>
     \<not> rv_isHelmRepo r \<and> rv_gitRevision r = rv_currentRevision r \<and> rv_changeRevision r \<noteq> [])"

lemma patch_source_settled:
  "settled r \<Longrightarrow> patch_source env app r st = (Inr (rv_changeRevision r, rv_gitRevision r), st)"
  by (auto simp: patch_source_def settled_def)

lemma patch_sources_settled:
  "\<forall>r \<in> set rs. settled r \<Longrightarrow>
   patch_sources env app rs st = (Inr (map (\<lambda>r. (rv_changeRevision r, rv_gitRevision r)) rs), st)"
  by (induction rs) (simp_all add: patch_source_settled)

lemma patch_source_records:
  assumes "patch_source env app r st = (Inr p, st')"
  shows "rv_currentRevision r \<noteq> [] \<Longrightarrow> snd p = rv_currentRevision r"
    "rv_currentRevision r = [] \<Longrightarrow> p = (rv_changeRevision r, rv_gitRevision r)"
  using assms
  by (auto simp: patch_source_def Let_def split: if_splits sum.splits prod.splits)

lemma patch_sources_length:
  "patch_sources env app rs st = (Inr ps, st') \<Longrightarrow> list_all2
     (\<lambda>r p. (rv_currentRevision r \<noteq> [] \<longrightarrow> snd p = rv_currentRevision r) \<and>
            (rv_currentRevision r = [] \<longrightarrow> p = (rv_changeRevision r, rv_gitRevision r))) rs ps"
proof (induction rs arbitrary: st ps)
  case (Cons r rs)
  then obtain p st1 ps' where "patch_source env app r st = (Inr p, st1)"
    "patch_sources env app rs st1 = (Inr ps', st')" "ps = p # ps'"
    by (auto split: prod.splits sum.splits)
  with Cons.IH [of st1 ps'] show ?case by (auto dest: patch_source_records)
qed simp

section \<open>The reconciliation as a whole\<close>

lemma makeChangeRevisionPatch_Inr:
  assumes "makeChangeRevisionPatch env a (w, m) = Ret (Inr p, st')"
  obtains app w1 revs ps where "env_Get env (app_Namespace a) (app_Name a) w = (Inr app, w1)"
    "GetAnnotation a AnnotationKeyManifestGeneratePaths \<noteq> []" "getSourcesRevisions a = Ret revs"
    "patch_sources env app revs (w1, m) = (Inr ps, st')" "ps \<noteq> []"
    "p = makeAnnotationPatch a (fst (ps ! 0)) (map fst ps) (snd (ps ! 0)) (map snd ps)"
proof -
  obtain rapp w1 where g: "env_Get env (app_Namespace a) (app_Name a) w = (rapp, w1)" by fastforce
  with assms obtain app where app: "rapp = Inr app" "GetAnnotation a AnnotationKeyManifestGeneratePaths \<noteq> []"
    by (auto simp: makeChangeRevisionPatch_def split: sum.splits if_splits)
  with assms g obtain revs where revs: "getSourcesRevisions a = Ret revs"
    by (auto simp: makeChangeRevisionPatch_def)
  obtain res st1 where ps: "patch_sources env app revs (w1, m) = (res, st1)" by (rule prod.exhaust)
  from assms g app revs ps obtain qs where "res = Inr qs" "st1 = st'" "qs \<noteq> []"
    "p = makeAnnotationPatch a (fst (qs ! 0)) (map fst qs) (snd (qs ! 0)) (map snd qs)"
    by (auto simp: makeChangeRevisionPatch_def slice_index_def split: sum.splits if_splits)
  with g app revs ps that show thesis by blast
qed

text \<open>The application after the patch, or as it was when there is none.\<close>

definition patched :: "Application \<Rightarrow> (string \<rightharpoonup> string) option \<Rightarrow> Application" where
  "patched a p = apply_patch a (case p of None \<Rightarrow> Map.empty | Some q \<Rightarrow> q)"

lemma patched_annotations:
  assumes "p = makeAnnotationPatch a c cs g gs"
  shows "app_Annotations (patched a p) = app_Annotations a ++ wanted c cs g gs"
proof (cases p)
  case None
  with assms have "wanted c cs g gs \<subseteq>\<^sub>m app_Annotations a" by (metis makeAnnotationPatch_wanted)
  then have "app_Annotations a ++ wanted c cs g gs = app_Annotations a"
    by (auto simp: map_le_def map_add_def fun_eq_iff dom_def split: option.splits) 
  with None show ?thesis by (simp add: patched_def)
next
  case (Some q)
  with assms have "makeAnnotationPatch a c cs g gs = Some q" by simp
  from apply_makeAnnotationPatch [OF this] Some show ?thesis by (simp add: patched_def)
qed

definition ascii_revisions :: "sourceRevisions \<Rightarrow> bool" where
  "ascii_revisions r \<longleftrightarrow> ascii (rv_changeRevision r) \<and> ascii (rv_gitRevision r) \<and> ascii (rv_currentRevision r)"

text \<open>
  The calculation for one source and the state in which the loop reaches the source at an index; \<open>calculated\<close> are the sources for which
  the loop makes it, and \<open>recorded\<close> is the change revision to record for its result: an empty one keeps what is recorded, if anything is.
\<close>

definition source_calculation :: "'w mrp_env \<Rightarrow> Application \<Rightarrow> sourceRevisions \<Rightarrow> 'w mrp_state \<Rightarrow> string result \<times> 'w mrp_state" where
  "source_calculation env app r st =
     calculateChangeRevision env app (rv_currentRevision r) (rv_previousRevision r) (rv_repoURL r) (rv_path r) st"

definition source_state :: "'w mrp_env \<Rightarrow> Application \<Rightarrow> sourceRevisions list \<Rightarrow> 'w mrp_state \<Rightarrow> nat \<Rightarrow> 'w mrp_state" where
  "source_state env app rs st i = snd (patch_sources env app (take i rs) st)"

definition calculated :: "sourceRevisions \<Rightarrow> bool" where
  "calculated r \<longleftrightarrow> rv_currentRevision r \<noteq> [] \<and> \<not> rv_isHelmRepo r \<and>
     \<not> (rv_gitRevision r = rv_currentRevision r \<and> rv_changeRevision r \<noteq> [])"

definition recorded :: "sourceRevisions \<Rightarrow> string \<Rightarrow> string" where
  "recorded r x = (if x = [] then if rv_changeRevision r = [] then rv_currentRevision r else rv_changeRevision r else x)"

lemma patch_source_not_calculated:
  "\<not> calculated r \<Longrightarrow> patch_source env app r st =
     (Inr (if rv_currentRevision r \<noteq> [] \<and> rv_isHelmRepo r then rv_gitRevision r else rv_changeRevision r,
        if rv_currentRevision r = [] then rv_gitRevision r else rv_currentRevision r), st)"
  by (auto simp: patch_source_def calculated_def)

lemma patch_source_calculated:
  assumes "calculated r" "source_calculation env app r st = (res, st')"
  shows "patch_source env app r st = (case res of
      Inl err \<Rightarrow> if isTimeout env err then Inl err else Inr (rv_changeRevision r, rv_currentRevision r)
    | Inr x \<Rightarrow> Inr (recorded r x, rv_currentRevision r), st')"
  using assms by (auto simp: patch_source_def calculated_def source_calculation_def recorded_def split: sum.splits)

lemma patch_sources_nth:
  "patch_sources env app rs st = (Inr ps, st') \<Longrightarrow> length ps = length rs \<and>
    (\<forall>i < length rs. fst (patch_source env app (rs ! i) (source_state env app rs st i)) = Inr (ps ! i))"
proof (induction rs arbitrary: st ps)
  case (Cons r rs)
  from Cons.prems obtain p st1 ps' where p: "patch_source env app r st = (Inr p, st1)"
    and ps': "patch_sources env app rs st1 = (Inr ps', st')" "ps = p # ps'"
    by (auto split: prod.splits sum.splits)
  have s: "source_state env app (r # rs) st 0 = st"
    "source_state env app (r # rs) st (Suc i) = source_state env app rs st1 i" for i
    by (simp_all add: source_state_def p split: prod.splits)
  show ?case
  proof (intro conjI allI impI)
    show "length ps = length (r # rs)" using Cons.IH [OF ps'(1)] ps'(2) by simp
    show "fst (patch_source env app ((r # rs) ! i) (source_state env app (r # rs) st i)) = Inr (ps ! i)" if "i < length (r # rs)" for i
      using that Cons.IH [OF ps'(1)] by (cases i) (simp_all add: s p ps'(2))
  qed
qed simp

text \<open>What a pass over the sources records for each of them.\<close>

lemma patch_sources_values:
  assumes "patch_sources env app rs st = (Inr ps, st')" "i < length rs"
  shows "\<not> calculated (rs ! i) \<Longrightarrow>
      fst (ps ! i) = (if rv_currentRevision (rs ! i) \<noteq> [] \<and> rv_isHelmRepo (rs ! i) then rv_gitRevision (rs ! i) else rv_changeRevision (rs ! i))"
    "calculated (rs ! i) \<Longrightarrow> (case fst (source_calculation env app (rs ! i) (source_state env app rs st i)) of
        Inl err \<Rightarrow> \<not> isTimeout env err \<and> fst (ps ! i) = rv_changeRevision (rs ! i)
      | Inr x \<Rightarrow> fst (ps ! i) = recorded (rs ! i) x)"
    "snd (ps ! i) = (if rv_currentRevision (rs ! i) = [] then rv_gitRevision (rs ! i) else rv_currentRevision (rs ! i))"
proof -
  let ?st = "source_state env app rs st i"
  have p: "fst (patch_source env app (rs ! i) ?st) = Inr (ps ! i)" using patch_sources_nth [OF assms(1)] assms(2) by blast
  obtain res st1 where c: "source_calculation env app (rs ! i) ?st = (res, st1)" by (rule prod.exhaust)
  show "fst (ps ! i) = (if rv_currentRevision (rs ! i) \<noteq> [] \<and> rv_isHelmRepo (rs ! i) then rv_gitRevision (rs ! i) else rv_changeRevision (rs ! i))"
    if "\<not> calculated (rs ! i)"
  proof -
    from p have "ps ! i = (if rv_currentRevision (rs ! i) \<noteq> [] \<and> rv_isHelmRepo (rs ! i) then rv_gitRevision (rs ! i) else rv_changeRevision (rs ! i),
        if rv_currentRevision (rs ! i) = [] then rv_gitRevision (rs ! i) else rv_currentRevision (rs ! i))"
      unfolding patch_source_not_calculated [OF that] fst_conv by (simp only: sum.inject)
    then show ?thesis by simp
  qed
  show "case fst (source_calculation env app (rs ! i) ?st) of
        Inl err \<Rightarrow> \<not> isTimeout env err \<and> fst (ps ! i) = rv_changeRevision (rs ! i)
      | Inr x \<Rightarrow> fst (ps ! i) = recorded (rs ! i) x" if "calculated (rs ! i)"
    using p patch_source_calculated [OF that c] by (cases res; cases "ps ! i") (auto simp: c split: if_splits)
  show "snd (ps ! i) = (if rv_currentRevision (rs ! i) = [] then rv_gitRevision (rs ! i) else rv_currentRevision (rs ! i))"
  proof -
    obtain st2 where "patch_source env app (rs ! i) ?st = (Inr (ps ! i), st2)" using p by (cases "patch_source env app (rs ! i) ?st") simp
    from patch_source_records [OF this] show ?thesis by (cases "rv_currentRevision (rs ! i) = []") simp_all
  qed
qed

text \<open>
  Sources whose reconciliation comes to rest: no Helm charts, the recorded and current revisions are ASCII, and if a calculation is made
  it answers with an ASCII revision, or fails when a change revision is recorded already.
\<close>

definition comes_to_rest :: "'w mrp_env \<Rightarrow> Application \<Rightarrow> sourceRevisions \<Rightarrow> 'w mrp_state \<Rightarrow> bool" where
  "comes_to_rest env app r st \<longleftrightarrow> \<not> rv_isHelmRepo r \<and> ascii_revisions r \<and>
     (calculated r \<longrightarrow> (case fst (source_calculation env app r st) of Inl err \<Rightarrow> rv_changeRevision r \<noteq> [] | Inr x \<Rightarrow> ascii x))"

lemma patch_sources_at_rest:
  assumes "patch_sources env app rs st = (Inr ps, st')" "\<forall>i < length rs. comes_to_rest env app (rs ! i) (source_state env app rs st i)"
  shows "list_all2 (\<lambda>r p. settled (record_revisions r p) \<and> ascii (fst p) \<and> ascii (snd p)) rs ps"
proof -
  have "settled (record_revisions (rs ! i) (ps ! i)) \<and> ascii (fst (ps ! i)) \<and> ascii (snd (ps ! i))" if i: "i < length rs" for i
  proof -
    note v = patch_sources_values [OF assms(1) i]
    have r: "comes_to_rest env app (rs ! i) (source_state env app rs st i)" using assms(2) i by blast
    then have "ascii (snd (ps ! i))" using v(3) by (auto simp: comes_to_rest_def ascii_revisions_def)
    moreover have "settled (record_revisions (rs ! i) (ps ! i)) \<and> ascii (fst (ps ! i))"
    proof (cases "calculated (rs ! i)")
      case True
      with v(2,3) r show ?thesis
        by (auto simp: comes_to_rest_def ascii_revisions_def settled_def record_revisions_def recorded_def split: sum.splits)
    next
      case False
      with v(1,3) r show ?thesis
        by (auto simp: comes_to_rest_def ascii_revisions_def settled_def record_revisions_def calculated_def split: if_splits)
    qed
    ultimately show ?thesis by blast
  qed
  then show ?thesis using patch_sources_nth [OF assms(1)] by (simp add: list_all2_conv_all_nth)
qed

lemma makeChangeRevisionPatch_settled:
  assumes "env_Get env (app_Namespace a) (app_Name a) w = (Inr app, w1)"
    "GetAnnotation a AnnotationKeyManifestGeneratePaths \<noteq> []" "getSourcesRevisions a = Ret revs" "revs \<noteq> []"
    "\<forall>r \<in> set revs. settled r"
  shows "makeChangeRevisionPatch env a (w, m) =
    Ret (Inr (makeAnnotationPatch a (rv_changeRevision (revs ! 0)) (map rv_changeRevision revs)
      (rv_gitRevision (revs ! 0)) (map rv_gitRevision revs)), (w1, m))"
proof -
  have 1: "patch_sources env app revs (w1, m) = (Inr (map (\<lambda>r. (rv_changeRevision r, rv_gitRevision r)) revs), (w1, m))"
    using assms(5) by (rule patch_sources_settled)
  show ?thesis using assms(1-4) by (simp add: makeChangeRevisionPatch_def 1 slice_index_def o_def)
qed

lemma apply_patch_empty [simp]: "apply_patch a Map.empty = a"
  by (simp add: apply_patch_def)

lemma GetAnnotation_patched [simp]:
  assumes "p = makeAnnotationPatch a c cs g gs"
  shows "GetAnnotation (patched a p) AnnotationKeyManifestGeneratePaths = GetAnnotation a AnnotationKeyManifestGeneratePaths"
  unfolding GetAnnotation_def patched_annotations [OF assms] by (simp add: map_add_def wanted_values)

lemma map2_record:
  assumes "length ps = length revs"
  shows "map rv_changeRevision (map2 record_revisions revs ps) = map fst ps"
    "map rv_gitRevision (map2 record_revisions revs ps) = map snd ps"
  using assms by (auto simp: record_revisions_def intro!: nth_equalityI)

lemma patched_sel [simp]:
  "app_Name (patched a p) = app_Name a" "app_Namespace (patched a p) = app_Namespace a"
  "app_Spec (patched a p) = app_Spec a" "app_Status (patched a p) = app_Status a"
  by (simp_all add: patched_def)


text \<open>
  A concrete world for the witnesses: the Kubernetes API answers with the given application,
  the repository server with the given result, and the world counts the requests.
\<close>

definition sample_env :: "Application \<Rightarrow> string option result \<Rightarrow> nat mrp_env" where
  "sample_env app answer = \<lparr>
     env_Get = (\<lambda>ns n w. (Inr app, w)),
     env_Patch = (\<lambda>ns n p w. (None, Suc w)),
     env_GetRepository = (\<lambda>url proj w. (Inr (zero_Repository\<lparr>repo_Repo := url\<rparr>), w)),
     env_NewRepoServerClient = (\<lambda>w. (None, w)),
     env_GetChangeRevision = (\<lambda>req w. (answer, Suc w)),
     env_Close = (\<lambda>w. w),
     env_FromError = (\<lambda>e. case e of StatusError c s \<Rightarrow> Some c | _ \<Rightarrow> None)\<rparr>"

definition sample_metrics :: MetricsServer where
  "sample_metrics = (case NewMetricsServer (Inr ''controller-0'') of Inr m \<Rightarrow> m)"

text \<open>An application with the given sources, generate-paths annotation and sync in progress.\<close>

definition syncing_app :: "ApplicationSource list \<Rightarrow> string list \<Rightarrow> Application" where
  "syncing_app srcs revisions = zero_Application\<lparr>
     app_ObjectMeta := zero_ObjectMeta\<lparr>om_Name := ''web'', om_Namespace := ''argocd'',
       om_Annotations := [AnnotationKeyManifestGeneratePaths \<mapsto> ''.'']\<rparr>,
     app_Spec := zero_ApplicationSpec\<lparr>spec_Sources := srcs\<rparr>,
     app_Status := zero_ApplicationStatus\<lparr>status_Sync := zero_SyncStatus\<lparr>ss_Status := ''Synced'', ss_Revisions := revisions\<rparr>\<rparr>\<rparr>"

definition web_app :: Application where
  "web_app = syncing_app [zero_ApplicationSource\<lparr>src_RepoURL := ''https://git.example/mono'', src_Path := ''web''\<rparr>] [''c2'']"

lemmas sample_defs = web_app_def syncing_app_def zero_Application_def zero_ObjectMeta_def zero_ApplicationSpec_def
  zero_ApplicationStatus_def zero_SyncStatus_def zero_ApplicationSource_def

lemma web_app_revisions:
  "getSourcesRevisions web_app = Ret [\<lparr>rv_changeRevision = [], rv_gitRevision = [], rv_currentRevision = ''c2'',
     rv_previousRevision = [], rv_repoURL = ''https://git.example/mono'', rv_isHelmRepo = False, rv_path = ''web''\<rparr>]"
proof -
  have t: "strings_TrimSpace [] = []"
    by (simp add: strings_TrimSpace_def strip_prefixes.simps space_encodings_def)
  show ?thesis
    by (simp add: sample_defs getSourcesRevisions_def HasMultipleSources_def GetSources_def multi_source_revisions_def
        getRevisionsMultiSource_def slice_index_def isHelmRepoMultiSource_def getArrayFromAnnotation_def t
        getCurrentRevisionForFirstSyncMultiSource_def sliceGetString_def)
qed

lemma web_app_meta [simp]:
  "app_Name web_app = ''web''" "app_Namespace web_app = ''argocd''"
  "app_Annotations web_app = [AnnotationKeyManifestGeneratePaths \<mapsto> ''.'']" "spec_Project (app_Spec web_app) = []"
  "GetAnnotation web_app AnnotationKeyManifestGeneratePaths = ''.''"
  by (simp_all add: sample_defs GetAnnotation_def)

text \<open>The first reconciliation of the sample application, answered \<open>c1\<close> by the repository server.\<close>

lemma web_app_first:
  "\<exists>p m'. makeChangeRevisionPatch (sample_env web_app (Inr (Some ''c1''))) web_app (0, m) = Ret (Inr p, (1, m'))"
  by (simp add: makeChangeRevisionPatch_def sample_env_def web_app_revisions patch_source_def
      calculateChangeRevision_def Let_def slice_index_def)


text \<open>
  (C23) What a patch records: applied to the application it leaves every other annotation as it
  was and sets the four annotations of the controller from two lists with one entry per
  source.  The git revision of a source is its current revision whenever that is known, and
  the entry of a source without a known revision is kept.  Nothing that the application
  already has is patched again.
\<close>

theorem patch_records_every_source:
  assumes "makeChangeRevisionPatch env a (w, m) = Ret (Inr (Some q), st')" "getSourcesRevisions a = Ret revs"
  shows "\<exists>cs gs. length cs = length revs \<and> length gs = length revs \<and>
    app_Annotations (apply_patch a q) = app_Annotations a ++
      [CHANGE_REVISION_ANN \<mapsto> cs ! 0, CHANGE_REVISIONS_ANN \<mapsto> json_Marshal cs,
       GIT_REVISION_ANN \<mapsto> gs ! 0, GIT_REVISIONS_ANN \<mapsto> json_Marshal gs] \<and>
    (\<forall>i < length revs. if rv_currentRevision (revs ! i) = []
       then cs ! i = rv_changeRevision (revs ! i) \<and> gs ! i = rv_gitRevision (revs ! i)
       else gs ! i = rv_currentRevision (revs ! i)) \<and>
    (\<forall>k v. q k = Some v \<longrightarrow> app_Annotations a k \<noteq> Some v)"
proof -
  from assms obtain app w1 ps where ps: "patch_sources env app revs (w1, m) = (Inr ps, st')" "ps \<noteq> []"
    and q: "Some q = makeAnnotationPatch a (fst (ps ! 0)) (map fst ps) (snd (ps ! 0)) (map snd ps)"
    by (auto elim: makeChangeRevisionPatch_Inr)
  note each = patch_sources_length [OF ps(1)]
  then have len: "length ps = length revs" by (auto dest: list_all2_lengthD)
  have hd: "map fst ps ! 0 = fst (ps ! 0)" "map snd ps ! 0 = snd (ps ! 0)" using ps(2) by simp_all
  have anns: "app_Annotations (apply_patch a q) = app_Annotations a ++
      wanted (map fst ps ! 0) (map fst ps) (map snd ps ! 0) (map snd ps)"
    unfolding hd using patched_annotations [OF q] by (simp add: patched_def)
  have "q k = Some v \<Longrightarrow> app_Annotations a k \<noteq> Some v" for k v
    using q by (auto simp: makeAnnotationPatch_eq Let_def split: if_splits)
  with len anns each show ?thesis
    unfolding wanted_def by (intro exI [of _ "map fst ps"] exI [of _ "map snd ps"]) (auto simp: list_all2_conv_all_nth)
qed

lemma patch_sources_histogram:
  "patch_sources env app rs (w, m) = (res, (w', m')) \<Longrightarrow> ms_reconcileHistogram m' = ms_reconcileHistogram m"
proof (induction rs arbitrary: w m res)
  case (Cons r rs)
  obtain res1 w1 m1 where 1: "patch_source env app r (w, m) = (res1, (w1, m1))" by (metis surj_pair)
  have "ms_reconcileHistogram m1 = ms_reconcileHistogram m"
    using 1 by (auto simp: patch_source_def calculateChangeRevision_def Let_def IncRepoServerRequest_def
        ObserveRepoServerRequestDuration_def split: if_splits prod.splits sum.splits option.splits)
  with 1 Cons show ?case by (auto split: sum.splits prod.splits)
qed simp

lemma makeChangeRevisionPatch_histogram:
  assumes "makeChangeRevisionPatch env a (w, m) = Ret (res, (w', m'))"
  shows "ms_reconcileHistogram m' = ms_reconcileHistogram m"
proof -
  obtain rapp w1 where g: "env_Get env (app_Namespace a) (app_Name a) w = (rapp, w1)" by (rule prod.exhaust)
  show ?thesis
  proof (cases "isErr rapp \<or> GetAnnotation a AnnotationKeyManifestGeneratePaths = []")
    case True
    with assms g show ?thesis by (auto simp: makeChangeRevisionPatch_def isErr_def split: sum.splits if_splits)
  next
    case False
    then obtain app where app: "rapp = Inr app" by (cases rapp) auto
    from assms g False app obtain revs where revs: "getSourcesRevisions a = Ret revs"
      by (auto simp: makeChangeRevisionPatch_def)
    obtain res' st1 where ps: "patch_sources env app revs (w1, m) = (res', st1)" by (rule prod.exhaust)
    from assms g False app revs ps have "st1 = (w', m')"
      by (auto simp: makeChangeRevisionPatch_def split: sum.splits)
    with ps show ?thesis using patch_sources_histogram [of env app revs w1 m res' w' m'] by simp
  qed
qed

text \<open>
  Every reconciliation that returns is counted once, under a status that tells its outcome:
  an error is returned exactly when the status is \<open>timeout\<close>, \<open>error\<close> or \<open>patch-error\<close>, and
  \<open>timeout\<close> is used only for errors that are timeouts.
\<close>

theorem reconcile_counts_its_outcome:
  assumes "ChangeRevision env a (w, m) = Ret (e, (w', m'))"
  shows "\<exists>status. ms_reconcileHistogram m' =
      vec_add [app_Namespace a, app_Name a, status] 1 (ms_reconcileHistogram m) \<and>
    status \<in> {''up-to-date'', ''updated'', ''timeout'', ''error'', ''patch-error''} \<and>
    (e = None \<longleftrightarrow> status \<in> {''up-to-date'', ''updated''}) \<and>
    (status = ''timeout'' \<longrightarrow> (\<exists>err. e = Some err \<and> isTimeout env err))"
proof -
  from assms obtain res w1 m1 where 1: "makeChangeRevisionPatch env a (w, m) = Ret (res, (w1, m1))"
    by (auto simp: ChangeRevision_def)
  note h = makeChangeRevisionPatch_histogram [OF 1]
  from assms 1 h show ?thesis
    by (auto simp: ChangeRevision_def IncReconcile_def split: sum.splits option.splits prod.splits if_splits)
qed

lemma web_app_ChangeRevision:
  "\<exists>w' m'. ChangeRevision (sample_env web_app (Inr (Some ''c1''))) web_app (0, sample_metrics) = Ret (None, (w', m'))"
  by (simp add: ChangeRevision_def makeChangeRevisionPatch_def sample_env_def web_app_revisions patch_source_def
      calculateChangeRevision_def Let_def slice_index_def annotateApplication_def split: option.split)

theorem reconcile_counts_its_outcome_witness:
  "\<exists>w' m' status. ChangeRevision (sample_env web_app (Inr (Some ''c1''))) web_app (0, sample_metrics) = Ret (None, (w', m')) \<and>
     ms_reconcileHistogram m' = vec_add [''argocd'', ''web'', status] 1 (ms_reconcileHistogram sample_metrics) \<and>
     status \<in> {''up-to-date'', ''updated''}"
proof -
  obtain w' m' where 1: "ChangeRevision (sample_env web_app (Inr (Some ''c1''))) web_app (0, sample_metrics) = Ret (None, (w', m'))"
    using web_app_ChangeRevision by blast
  from reconcile_counts_its_outcome [OF 1] 1 show ?thesis by auto
qed

lemma web_app_first_patch:
  "\<exists>q m'. makeChangeRevisionPatch (sample_env web_app (Inr (Some ''c1''))) web_app (0, m) = Ret (Inr (Some q), (1, m'))"
proof -
  have "makeAnnotationPatch web_app c cs g gs \<noteq> None" for c cs g gs
    unfolding makeAnnotationPatch_wanted by (simp add: map_le_def wanted_def dom_def) (metis ann_neq(7))
  then obtain q where "makeAnnotationPatch web_app ''c1'' [''c1''] ''c2'' [''c2''] = Some q" by blast
  then show ?thesis
    by (simp add: makeChangeRevisionPatch_def sample_env_def web_app_revisions patch_source_def
      calculateChangeRevision_def Let_def slice_index_def)
qed

theorem patch_records_every_source_witness:
  "\<exists>q (cs :: string list) gs. length cs = 1 \<and> gs ! 0 = ''c2'' \<and>
     app_Annotations (apply_patch web_app q) GIT_REVISIONS_ANN = Some (json_Marshal gs)"
proof -
  obtain q m' where 1: "makeChangeRevisionPatch (sample_env web_app (Inr (Some ''c1''))) web_app (0, sample_metrics)
      = Ret (Inr (Some q), (1, m'))" using web_app_first_patch by blast
  from patch_records_every_source [OF 1 web_app_revisions] obtain cs gs where
    "length cs = 1" "gs ! 0 = ''c2''" and q: "app_Annotations (apply_patch web_app q) = app_Annotations web_app ++
      [CHANGE_REVISION_ANN \<mapsto> cs ! 0, CHANGE_REVISIONS_ANN \<mapsto> json_Marshal cs,
       GIT_REVISION_ANN \<mapsto> gs ! 0, GIT_REVISIONS_ANN \<mapsto> json_Marshal gs]" by auto
  moreover have "app_Annotations (apply_patch web_app q) GIT_REVISIONS_ANN = Some (json_Marshal gs)"
    unfolding q by simp
  ultimately show ?thesis by blast
qed

lemma getSourcesRevisions_Panic:
  "\<not> HasMultipleSources (app_Spec a) \<Longrightarrow> spec_Source (app_Spec a) = None \<Longrightarrow>
   getSourcesRevisions a = Panic NilDereference"
  using getRevisionsSingleSource_Ret [of a] by (auto simp: getSourcesRevisions_def)

lemma getSourcesRevisions_Ret:
  assumes "HasMultipleSources (app_Spec a) \<or> spec_Source (app_Spec a) \<noteq> None"
  shows "\<exists>revs. getSourcesRevisions a = Ret revs \<and> revs \<noteq> []"
proof (cases "HasMultipleSources (app_Spec a)")
  case True
  then show ?thesis
    by (rule getSourcesRevisions_multi) (use True in \<open>auto simp: HasMultipleSources_def\<close>)
next
  case False
  with assms getRevisionsSingleSource_Ret [of a] show ?thesis
    by (auto simp: getSourcesRevisions_def isHelmRepoSingleSource_def)
qed

text \<open>
  (C36) A reconciliation panics exactly when the application is of the single-source kind but has
  no \<open>source\<close> field, which is the shape of an application with a source hydrator: then
  \<open>app.Spec.Source.RepoURL\<close> dereferences nil.  Reading revisions of multi-source
  applications, whatever the lengths of the recorded and historical lists, never does.
\<close>

theorem reconcile_panics_iff_source_missing:
  "(\<exists>p. ChangeRevision env a (w, m) = Panic p) \<longleftrightarrow>
     \<not> isErr (fst (env_Get env (app_Namespace a) (app_Name a) w)) \<and>
     GetAnnotation a AnnotationKeyManifestGeneratePaths \<noteq> [] \<and>
     \<not> HasMultipleSources (app_Spec a) \<and> spec_Source (app_Spec a) = None"
proof -
  obtain rapp w1 where g: "env_Get env (app_Namespace a) (app_Name a) w = (rapp, w1)" by (rule prod.exhaust)
  show ?thesis
  proof (cases "isErr rapp \<or> GetAnnotation a AnnotationKeyManifestGeneratePaths = []")
    case True
    with g show ?thesis
      by (cases rapp) (auto simp: ChangeRevision_def makeChangeRevisionPatch_def)
  next
    case False
    then obtain app where app: "rapp = Inr app" by (cases rapp) auto
    show ?thesis
    proof (cases "\<not> HasMultipleSources (app_Spec a) \<and> spec_Source (app_Spec a) = None")
      case True
      then show ?thesis using False g app
        by (simp add: ChangeRevision_def makeChangeRevisionPatch_def getSourcesRevisions_Panic)
    next
      case ok: False
      then obtain revs where revs: "getSourcesRevisions a = Ret revs" "revs \<noteq> []"
        using getSourcesRevisions_Ret by blast
      obtain res st1 where ps: "patch_sources env app revs (w1, m) = (res, st1)" by (rule prod.exhaust)
      have "res = Inr qs \<Longrightarrow> qs \<noteq> []" for qs
        using patch_sources_length [of env app revs "(w1, m)" qs st1] ps revs(2) by auto
      with False ok g app revs(1) ps have "\<exists>r. makeChangeRevisionPatch env a (w, m) = Ret r"
        by (cases res) (auto simp: makeChangeRevisionPatch_def slice_index_def)
      with ok False g app show ?thesis by (auto simp: ChangeRevision_def)
    qed
  qed
qed

lemma patch_sources_timeout:
  assumes "patch_source env app r st1 = (Inl err, st2)"
  shows "patch_sources env app pre st = (Inr ps, st1) \<Longrightarrow> patch_sources env app (pre @ r # post) st = (Inl err, st2)"
proof (induction pre arbitrary: st ps)
  case (Cons q pre)
  then obtain p st' ps' where "patch_source env app q st = (Inr p, st')" "patch_sources env app pre st' = (Inr ps', st1)"
    by (auto split: prod.splits sum.splits)
  with Cons.IH [of st' ps'] show ?case by simp
qed (simp add: assms)

text \<open>
  (C35) A timeout aborts the reconciliation: if the calculation for a source fails with an error that is a timeout, the sources after it
  are not asked for, the error is returned and counted as \<open>timeout\<close>, and the API server is not reached after it, so no
  annotation is patched and a later event starts from the old annotations.
\<close>

theorem timeout_aborts_reconcile:
  assumes "env_Get env (app_Namespace a) (app_Name a) w = (Inr app, w1)"
    and "GetAnnotation a AnnotationKeyManifestGeneratePaths \<noteq> []"
    and "getSourcesRevisions a = Ret (pre @ r # post)"
    and "patch_sources env app pre (w1, m) = (Inr ps, st1)" "calculated r"
    and "source_calculation env app r st1 = (Inl err, (w2, m2))" "isTimeout env err"
  shows "ChangeRevision env a (w, m) = Ret (Some err, (w2, IncReconcile a ''timeout'' m2))"
proof -
  have "patch_source env app r st1 = (Inl err, (w2, m2))" using patch_source_calculated [OF assms(5,6)] assms(7) by simp
  from patch_sources_timeout [OF this assms(4)] assms(1-3,7) show ?thesis
    by (simp add: ChangeRevision_def makeChangeRevisionPatch_def)
qed

text \<open>The repository server does not answer in time.\<close>

theorem timeout_aborts_reconcile_witness:
  "\<exists>err m2. ChangeRevision (sample_env web_app (Inl ContextDeadlineExceeded)) web_app (0, sample_metrics) =
     Ret (Some err, (1, IncReconcile web_app ''timeout'' m2))"
proof -
  let ?r = "\<lparr>rv_changeRevision = [], rv_gitRevision = [], rv_currentRevision = ''c2'',
     rv_previousRevision = [], rv_repoURL = ''https://git.example/mono'', rv_isHelmRepo = False, rv_path = ''web''\<rparr>"
  let ?env = "sample_env web_app (Inl ContextDeadlineExceeded)"
  let ?err = "Wrapped ''error getting change revision'' ContextDeadlineExceeded"
  have "\<exists>m2. source_calculation ?env web_app ?r (0, sample_metrics) = (Inl ?err, (1, m2))"
    by (simp add: source_calculation_def calculateChangeRevision_def sample_env_def Let_def)
  then obtain m2 where 1: "source_calculation ?env web_app ?r (0, sample_metrics) = (Inl ?err, (1, m2))" by blast
  have "ChangeRevision ?env web_app (0, sample_metrics) = Ret (Some ?err, (1, IncReconcile web_app ''timeout'' m2))"
    by (rule timeout_aborts_reconcile [where pre = "[]" and app = web_app, OF _ _ _ _ _ 1])
      (simp_all add: web_app_revisions calculated_def, simp_all add: sample_env_def isTimeout_def)
  then show ?thesis by blast
qed

text \<open>
  (C37) A failed calculation is not retried when an older change revision is recorded.  A source
  whose new revision is current, which still has the change revision of an earlier one, and
  whose calculation fails with anything but a timeout is recorded with the new git revision
  and the old change revision; every later reconciliation of that revision takes it as
  already calculated, asks nobody and keeps the stale change revision.
\<close>

theorem failed_calculation_is_not_retried:
  assumes "rv_currentRevision r \<noteq> []" "rv_changeRevision r \<noteq> []" "rv_gitRevision r \<noteq> rv_currentRevision r"
    and "\<not> rv_isHelmRepo r"
    and "calculateChangeRevision env app (rv_currentRevision r) (rv_previousRevision r) (rv_repoURL r) (rv_path r) st
      = (Inl err, st1)" "\<not> isTimeout env err"
  shows "patch_source env app r st = (Inr (rv_changeRevision r, rv_currentRevision r), st1) \<and>
    patch_source env2 app2 (record_revisions r (rv_changeRevision r, rv_currentRevision r)) st2 =
      (Inr (rv_changeRevision r, rv_currentRevision r), st2)"
  using assms by (auto simp: patch_source_def record_revisions_def)

definition moved_source :: sourceRevisions where
  "moved_source = \<lparr>rv_changeRevision = ''c1'', rv_gitRevision = ''c1'', rv_currentRevision = ''c2'',
     rv_previousRevision = ''c1'', rv_repoURL = ''https://git.example/mono'', rv_isHelmRepo = False, rv_path = ''web''\<rparr>"

theorem failed_calculation_is_not_retried_witness:
  "\<exists>st1. patch_source (sample_env web_app (Inl (StatusError Unavailable ''down''))) web_app moved_source (0, sample_metrics)
      = (Inr (''c1'', ''c2''), st1) \<and>
    patch_source (sample_env web_app (Inr (Some ''c2''))) web_app (record_revisions moved_source (''c1'', ''c2'')) st1
      = (Inr (''c1'', ''c2''), st1)"
proof -
  let ?env = "sample_env web_app (Inl (StatusError Unavailable ''down''))"
  let ?err = "Wrapped ''error getting change revision'' (StatusError Unavailable ''down'')"
  have "\<exists>st1. calculateChangeRevision ?env web_app ''c2'' ''c1'' ''https://git.example/mono'' ''web'' (0, sample_metrics)
      = (Inl ?err, st1)"
    by (simp add: calculateChangeRevision_def sample_env_def Let_def)
  then obtain st1 where "calculateChangeRevision ?env web_app ''c2'' ''c1'' ''https://git.example/mono'' ''web''
      (0, sample_metrics) = (Inl ?err, st1)" by blast
  with failed_calculation_is_not_retried [of moved_source ?env web_app "(0, sample_metrics)" ?err st1
      "sample_env web_app (Inr (Some ''c2''))" web_app st1] show ?thesis
    by (auto simp: moved_source_def isTimeout_def sample_env_def)
qed

section \<open>Historical revisions\<close>

text \<open>
  The previous revision of a source is found in the history wherever the source stood in the
  historical list: if one historical source matches it, its revision is returned, after any
  reordering, insertion or removal of the other sources; if none matches, the result is
  empty; and a matching source at the same position is preferred over earlier ones.
\<close>

theorem history_lookup_follows_source:
  assumes "0 \<le> h" "h < int (length (status_History (app_Status a)))" "i < length (spec_Sources (app_Spec a))"
    and hist: "hist = status_History (app_Status a) ! nat h" and src: "src = spec_Sources (app_Spec a) ! i"
  shows "(\<forall>j < length (rh_Sources hist). isMatchingHistoryEntry (rh_Sources hist ! j) src \<longrightarrow>
      (j = i \<or> (\<forall>k < length (rh_Sources hist). isMatchingHistoryEntry (rh_Sources hist ! k) src \<longrightarrow> k = j)) \<longrightarrow>
      getRevisionsFromHistoryMS a h (int i) = Ret (if j < length (rh_Revisions hist) then rh_Revisions hist ! j else [])) \<and>
    ((\<forall>k < length (rh_Sources hist). \<not> isMatchingHistoryEntry (rh_Sources hist ! k) src) \<longrightarrow>
      getRevisionsFromHistoryMS a h (int i) = Ret [])"
proof -
  let ?P = "\<lambda>s. isMatchingHistoryEntry s src"
  have read: "getRevisionsFromHistoryMS a h (int i) =
    (let k = (if i < length (rh_Sources hist) \<and> ?P (rh_Sources hist ! i) then int i
        else case find_index ?P (rh_Sources hist) of Some i \<Rightarrow> int i | None \<Rightarrow> - 1)
     in if k \<ge> 0 then Ret (sliceGetString (rh_Revisions hist) k) else Ret [])"
    using assms by (simp add: getRevisionsFromHistoryMS_def slice_index_Ret Let_def)
  have none: "find_index ?P (rh_Sources hist) = None" if "\<forall>k < length (rh_Sources hist). \<not> ?P (rh_Sources hist ! k)"
    using that by (auto simp: find_index_None in_set_conv_nth)
  have conv: "sliceGetString xs (int j) = (if j < length xs then xs ! j else [])" for xs j
    by (simp add: sliceGetString_def)
  have "getRevisionsFromHistoryMS a h (int i) = Ret (sliceGetString (rh_Revisions hist) (int j))"
    if j: "j < length (rh_Sources hist)" "?P (rh_Sources hist ! j)"
      and uniq: "j = i \<or> (\<forall>k < length (rh_Sources hist). ?P (rh_Sources hist ! k) \<longrightarrow> k = j)" for j
  proof (cases "i < length (rh_Sources hist) \<and> ?P (rh_Sources hist ! i)")
    case True
    with uniq have "j = i" by auto
    with True show ?thesis by (simp add: read)
  next
    case False
    with j have "i \<noteq> j" by blast
    with uniq have "\<not> ?P (rh_Sources hist ! k)" if "k < j" for k
      using that j(1) less_trans [of k j] less_irrefl by blast
    with j have "find_index ?P (rh_Sources hist) = Some j" by (intro find_index_eqI)
    with False show ?thesis by (auto simp: read)
  qed
  moreover have "getRevisionsFromHistoryMS a h (int i) = Ret []"
    if "\<forall>k < length (rh_Sources hist). \<not> ?P (rh_Sources hist ! k)"
    using that none [OF that] by (auto simp: read)
  ultimately show ?thesis unfolding conv by blast
qed

definition reordered_app :: Application where
  "reordered_app = (syncing_app [zero_ApplicationSource\<lparr>src_RepoURL := ''b''\<rparr>, zero_ApplicationSource\<lparr>src_RepoURL := ''a''\<rparr>] [''r1'', ''r2''])
     \<lparr>app_Status := zero_ApplicationStatus\<lparr>status_History := [\<lparr>rh_Revision = [], rh_DeployedAt = 0, rh_ID = 0,
        rh_Source = zero_ApplicationSource, rh_DeployStartedAt = None,
        rh_Sources = [zero_ApplicationSource\<lparr>src_RepoURL := ''a''\<rparr>, zero_ApplicationSource\<lparr>src_RepoURL := ''b''\<rparr>],
        rh_Revisions = [''h1'', ''h2''], rh_InitiatedBy = \<lparr>oi_Username = [], oi_Automated = False\<rparr>\<rparr>]\<rparr>\<rparr>"

theorem history_lookup_follows_source_witness:
  "getRevisionsFromHistoryMS reordered_app 0 0 = Ret ''h2''"
proof -
  let ?hist = "status_History (app_Status reordered_app) ! nat 0"
  let ?src = "spec_Sources (app_Spec reordered_app) ! 0"
  have len: "length (rh_Sources ?hist) = 2" and rev: "rh_Revisions ?hist = [''h1'', ''h2'']"
    and m: "isMatchingHistoryEntry (rh_Sources ?hist ! 1) ?src" "\<not> isMatchingHistoryEntry (rh_Sources ?hist ! 0) ?src"
    by (simp_all add: reordered_app_def sample_defs isMatchingHistoryEntry_def)
  have uniq: "\<forall>k < length (rh_Sources ?hist). isMatchingHistoryEntry (rh_Sources ?hist ! k) ?src \<longrightarrow> k = 1"
    using m len by (auto simp: less_2_cases_iff)
  have "getRevisionsFromHistoryMS reordered_app 0 (int 0) =
      Ret (if 1 < length (rh_Revisions ?hist) then rh_Revisions ?hist ! 1 else [])"
    by (rule history_lookup_follows_source [THEN conjunct1, rule_format, OF _ _ _ refl refl, of 0 reordered_app 0 1])
      (use m len uniq in \<open>auto simp: reordered_app_def sample_defs\<close>)
  then show ?thesis unfolding rev by simp
qed

end
