(* ===== verification/Controller.thy ===== *)
theory Controller
  imports WorkerPool EventHandler MRPService
begin

text \<open>
  The controller, \<open>mrp_controller/controller/controller.go\<close>: it subscribes to the application
  informer with a filter, puts the applications of the events that pass it into the queue, and lets the
  worker pool reconcile them. The broadcaster's handlers act on the queue.
\<close>

section \<open>Operations\<close>

record monorepoController =
  mc_appBroadcaster :: "KeyedAppQueue appEventHandler"
  mc_eventTimeout :: int
  mc_appQueue :: KeyedAppQueue
  mc_numWorkers :: int

text \<open>An error of \<open>AddEventHandler\<close> is only logged.\<close>

definition NewMonorepoController :: "int \<Rightarrow> int \<Rightarrow> monorepoController" where
  "NewMonorepoController eventTimeout numWorkers =
     \<lparr>mc_appBroadcaster = NewAppEventHandler, mc_eventTimeout = eventTimeout,
      mc_appQueue = SetLengthGauge NewKeyedAppQueue, mc_numWorkers = numWorkers\<rparr>"

text \<open>The handler of the worker pool; the deadline of its context is part of the environment.\<close>

definition calculateIfPermitted :: "'w mrp_env \<Rightarrow> Application \<Rightarrow> 'w mrp_state \<Rightarrow> 'w mrp_state go" where
  "calculateIfPermitted env a st = go_bind (ChangeRevision env a st) (\<lambda>(err, st'). Ret st')"

definition enqueueFunc :: "ApplicationWatchEvent \<Rightarrow> KeyedAppQueue \<Rightarrow> go_error option \<times> KeyedAppQueue" where
  "enqueueFunc event kq = (None, Enqueue (ev_Application event) kq)"

definition filterFunc :: "ApplicationWatchEvent \<Rightarrow> bool" where
  "filterFunc event =
     (if ev_Type event = watch_Bookmark \<or> ev_Type event = watch_Deleted then False
      else case app_Annotations (ev_Application event) AnnotationKeyManifestGeneratePaths of
        None \<Rightarrow> False
      | Some val \<Rightarrow> if val = [] then False else True)"

text \<open>
  \<open>Run\<close> until it waits for its context: the subscription, its address for \<open>unsubscribe\<close>, and the
  worker pool. Afterwards the deferred function ends the subscription and stops the pool.
\<close>

definition Run :: "monorepoController \<Rightarrow> ((nat \<times> monorepoController) \<times> WorkerPool) go" where
  "Run c =
     (let (addr, b) = Subscribe enqueueFunc [filterFunc] (mc_appBroadcaster c)
      in go_bind (NewWorkerPool (mc_appQueue c) (mc_numWorkers c)) (\<lambda>wp. Ret ((addr, c\<lparr>mc_appBroadcaster := b\<rparr>), wp)))"

definition Run_done :: "nat \<Rightarrow> monorepoController \<Rightarrow> WorkerPool \<Rightarrow> monorepoController \<times> WorkerPool" where
  "Run_done addr c wp = (c\<lparr>mc_appBroadcaster := unsubscribe addr (mc_appBroadcaster c)\<rparr>, Stop wp)"

section \<open>From informer events to workers\<close>

datatype informer_call = CallAdd informer_obj bool | CallUpdate informer_obj informer_obj | CallDelete informer_obj

fun informer :: "KeyedAppQueue appEventHandler \<Rightarrow> informer_call \<Rightarrow> KeyedAppQueue \<Rightarrow> KeyedAppQueue go" where
  "informer b (CallAdd obj isInInitialList) kq = OnAdd b obj isInInitialList kq"
| "informer b (CallUpdate oldObj newObj) kq = OnUpdate b oldObj newObj kq"
| "informer b (CallDelete obj) kq = OnDelete b obj kq"

datatype ctl_op = Informer informer_call | Take | Finish string

datatype ctl_event = Seen ApplicationWatchEvent | Taken string Application | FinishedKey string

definition obj_events :: "string \<Rightarrow> informer_obj \<Rightarrow> ctl_event list" where
  "obj_events ty obj = (case obj of ApplicationPtr (Some app) \<Rightarrow> [Seen \<lparr>ev_Type = ty, ev_Application = app\<rparr>] | _ \<Rightarrow> [])"

fun seen :: "informer_call \<Rightarrow> ctl_event list" where
  "seen (CallAdd obj isInInitialList) = obj_events watch_Added obj"
| "seen (CallUpdate oldObj newObj) = obj_events watch_Modified newObj"
| "seen (CallDelete obj) = obj_events watch_Deleted obj"

text \<open>
  The queue's life: informer callbacks, the dispatcher taking an item, a worker finishing one, in any order,
  with what each of them did, oldest first.
\<close>

fun ctl_run :: "KeyedAppQueue appEventHandler \<Rightarrow> ctl_op list \<Rightarrow> KeyedAppQueue \<Rightarrow> (ctl_event list \<times> KeyedAppQueue) go" where
  "ctl_run b [] kq = Ret ([], kq)"
| "ctl_run b (Informer call # ops) kq = go_bind (informer b call kq) (\<lambda>kq1.
     go_bind (ctl_run b ops kq1) (\<lambda>(evs, kq'). Ret (seen call @ evs, kq')))"
| "ctl_run b (Take # ops) kq = (case dequeue_now kq of
     None \<Rightarrow> ctl_run b ops kq
   | Some ((k, a), kq1) \<Rightarrow> go_bind (ctl_run b ops kq1) (\<lambda>(evs, kq'). Ret (Taken k a # evs, kq')))"
| "ctl_run b (Finish k # ops) kq =
     go_bind (ctl_run b ops (Done k kq)) (\<lambda>(evs, kq'). Ret (FinishedKey k # evs, kq'))"

text \<open>The events the controller should act on: no deletion, no bookmark, and refresh paths are given.\<close>

definition relevant :: "ApplicationWatchEvent \<Rightarrow> bool" where
  "relevant ev \<longleftrightarrow> ev_Type ev \<notin> {watch_Deleted, watch_Bookmark} \<and>
     (\<exists>val. app_Annotations (ev_Application ev) AnnotationKeyManifestGeneratePaths = Some val \<and> val \<noteq> [])"

lemma filterFunc_relevant: "filterFunc ev \<longleftrightarrow> relevant ev"
  by (auto simp: filterFunc_def relevant_def split: option.splits)

text \<open>The newest manifest of a key in a relevant event that was not taken since.\<close>

fun wanted_after :: "ctl_event list \<Rightarrow> string \<Rightarrow> Application option \<Rightarrow> Application option" where
  "wanted_after [] k v = v"
| "wanted_after (Seen ev # evs) k v =
     wanted_after evs k (if relevant ev \<and> app_key (ev_Application ev) = k then Some (ev_Application ev) else v)"
| "wanted_after (Taken k' a # evs) k v = wanted_after evs k (if k' = k then None else v)"
| "wanted_after (FinishedKey k' # evs) k v = wanted_after evs k v"

definition running_broadcaster :: "KeyedAppQueue appEventHandler" where
  "running_broadcaster = snd (Subscribe enqueueFunc [filterFunc] NewAppEventHandler)"

lemma addrs_ok_New [simp]: "addrs_ok NewAppEventHandler"
  by (simp add: addrs_ok_def NewAppEventHandler_def)

lemma notify_running: "notify running_broadcaster ev kq = (if relevant ev then Enqueue (ev_Application ev) kq else kq)"
  using broadcaster.deliver_subscribe [of NewAppEventHandler enqueueFunc "[filterFunc]" ev kq]
  by (simp add: running_broadcaster_def enqueueFunc_def filterFunc_relevant) (simp add: notify_def NewAppEventHandler_def)

lemma informer_running:
  assumes "informer running_broadcaster call kq = Ret kq1" "queue_inv kq"
  shows "queue_inv kq1 \<and> queue_latest kq1 k = wanted_after (seen call) k (queue_latest kq k) \<and>
    (\<forall>k' a. Taken k' a \<notin> set (seen call))"
proof -
  have obj: "queue_inv kq1 \<and> queue_latest kq1 k = wanted_after (obj_events ty obj) k (queue_latest kq k) \<and>
      (\<forall>k' a. Taken k' a \<notin> set (obj_events ty obj))"
    if "notify_obj ty running_broadcaster obj kq = Ret kq1" for ty obj
    using that assms(2) kaq.latest_enqueue [OF assms(2)]
    by (auto simp: notify_obj_def obj_events_def notify_running split: informer_obj.splits option.splits)
  show ?thesis using assms(1) obj by (cases call) (auto simp: OnAdd_def OnUpdate_def OnDelete_def)
qed

lemma wanted_after_append: "wanted_after (xs @ ys) k v = wanted_after ys k (wanted_after xs k v)"
  by (induction xs k v rule: wanted_after.induct) simp_all

lemma ctl_run_latest:
  "queue_inv kq \<Longrightarrow> ctl_run running_broadcaster ops kq = Ret (evs, kq') \<Longrightarrow>
   queue_inv kq' \<and> queue_latest kq' k = wanted_after evs k (queue_latest kq k)"
proof (induction ops arbitrary: kq evs)
  case (Cons op ops)
  show ?case
  proof (cases op)
    case (Informer call)
    with Cons.prems obtain kq1 evs1 where i: "informer running_broadcaster call kq = Ret kq1"
      "ctl_run running_broadcaster ops kq1 = Ret (evs1, kq')" "evs = seen call @ evs1"
      by auto
    with Cons.IH [OF _ i(2)] informer_running [OF i(1) Cons.prems(1), of k] show ?thesis by (simp add: wanted_after_append)
  next
    case Take
    show ?thesis
    proof (cases "dequeue_now kq")
      case None
      with Take Cons show ?thesis by simp
    next
      case (Some r)
      obtain k' a kq1 where r: "r = ((k', a), kq1)" by (metis prod.exhaust)
      note d = kaq.dequeue_Some [OF Cons.prems(1) Some [unfolded r]] kaq.inv_dequeue [OF Cons.prems(1) Some [unfolded r]]
      from Cons.prems(2) Some r Take obtain evs1 where "ctl_run running_broadcaster ops kq1 = Ret (evs1, kq')" "evs = Taken k' a # evs1"
        by auto
      with Cons.IH [of kq1 evs1] d show ?thesis by (auto simp: eq_commute)
    qed
  next
    case (Finish k')
    with Cons.prems(2) obtain evs1 where "ctl_run running_broadcaster ops (Done k' kq) = Ret (evs1, kq')" "evs = FinishedKey k' # evs1"
      by auto
    with Cons.IH [of "Done k' kq" evs1] Cons.prems(1) kaq.latest_finish [OF Cons.prems(1)] show ?thesis by auto
  qed
qed simp

lemma append_before:
  "xs @ x # ys = zs @ ws \<Longrightarrow> x \<notin> set zs \<Longrightarrow> \<exists>xs'. xs = zs @ xs' \<and> ws = xs' @ x # ys"
proof (induction zs arbitrary: xs)
  case (Cons z zs)
  then show ?case by (cases xs) auto
qed simp

lemma ctl_run_taken:
  "queue_inv kq \<Longrightarrow> ctl_run running_broadcaster ops kq = Ret (pre @ Taken k a # post, kq') \<Longrightarrow>
   wanted_after pre k (queue_latest kq k) = Some a"
proof (induction ops arbitrary: kq pre)
  case (Cons op ops)
  show ?case
  proof (cases op)
    case (Informer call)
    with Cons.prems obtain kq1 evs1 where i: "informer running_broadcaster call kq = Ret kq1"
      "ctl_run running_broadcaster ops kq1 = Ret (evs1, kq')" "pre @ Taken k a # post = seen call @ evs1"
      by auto
    note inf = informer_running [OF i(1) Cons.prems(1), of k]
    obtain pre1 where p: "pre = seen call @ pre1" "evs1 = pre1 @ Taken k a # post"
      using append_before [OF i(3)] inf by blast
    from Cons.IH [of kq1 pre1] inf i(2) p show ?thesis by (simp add: wanted_after_append)
  next
    case Take
    show ?thesis
    proof (cases "dequeue_now kq")
      case None
      with Take Cons show ?thesis by simp
    next
      case (Some r)
      obtain k' b kq1 where r: "r = ((k', b), kq1)" by (metis prod.exhaust)
      note d = kaq.dequeue_Some [OF Cons.prems(1) Some [unfolded r]] kaq.inv_dequeue [OF Cons.prems(1) Some [unfolded r]]
      from Cons.prems(2) Some r Take obtain evs1 where e: "ctl_run running_broadcaster ops kq1 = Ret (evs1, kq')"
        "pre @ Taken k a # post = Taken k' b # evs1" by auto
      show ?thesis
      proof (cases pre)
        case Nil
        with e(2) d show ?thesis by simp
      next
        case (Cons x pre1)
        with e Cons.IH [of kq1 pre1] d show ?thesis by (auto simp: eq_commute)
      qed
    qed
  next
    case (Finish k')
    with Cons.prems(2) obtain evs1 where e: "ctl_run running_broadcaster ops (Done k' kq) = Ret (evs1, kq')"
      "pre @ Taken k a # post = FinishedKey k' # evs1" by auto
    then obtain pre1 where "pre = FinishedKey k' # pre1" "evs1 = pre1 @ Taken k a # post" by (cases pre) auto
    with Cons.IH [of "Done k' kq" pre1] e(1) Cons.prems(1) kaq.latest_finish [OF Cons.prems(1)] show ?thesis by auto
  qed
qed simp


text \<open>
  An event decides what is wanted for its key when it is relevant and, after it, no other
  event of the key is and the key was not taken.
\<close>

definition decides :: "ApplicationWatchEvent \<Rightarrow> ctl_event list \<Rightarrow> bool" where
  "decides ev later \<longleftrightarrow> relevant ev \<and>
     (\<forall>ev'. Seen ev' \<in> set later \<and> relevant ev' \<longrightarrow> app_key (ev_Application ev') \<noteq> app_key (ev_Application ev)) \<and>
     (\<forall>a. Taken (app_key (ev_Application ev)) a \<notin> set later)"

definition hits :: "string \<Rightarrow> ctl_event \<Rightarrow> bool" where
  "hits k x = (case x of Seen ev \<Rightarrow> relevant ev \<and> app_key (ev_Application ev) = k | Taken k' a \<Rightarrow> k' = k | FinishedKey k' \<Rightarrow> False)"

lemma hits_simps [simp]: "hits k (Seen ev) \<longleftrightarrow> relevant ev \<and> app_key (ev_Application ev) = k" "hits k (Taken k' a) \<longleftrightarrow> k' = k"
  "\<not> hits k (FinishedKey k')"
  by (simp_all add: hits_def)

lemma decides_snoc: "decides ev (post @ [x]) \<longleftrightarrow> decides ev post \<and> \<not> hits (app_key (ev_Application ev)) x"
  by (cases x) (auto simp: decides_def)

lemma wanted_after_decides:
  "wanted_after evs k None = Some a \<longleftrightarrow>
     (\<exists>pre ev post. evs = pre @ Seen ev # post \<and> ev_Application ev = a \<and> app_key a = k \<and> decides ev post)"
proof (induction evs rule: rev_induct)
  case (snoc x evs)
  have last_case: "(\<exists>pre ev post. evs @ [x] = pre @ Seen ev # post \<and> Q ev post) \<longleftrightarrow>
      (\<exists>ev. x = Seen ev \<and> Q ev []) \<or> (\<exists>pre ev post. evs = pre @ Seen ev # post \<and> Q ev (post @ [x]))" for Q
  proof
    assume "\<exists>pre ev post. evs @ [x] = pre @ Seen ev # post \<and> Q ev post"
    then obtain pre ev post where e: "evs @ [x] = pre @ Seen ev # post" "Q ev post" by blast
    show "(\<exists>ev. x = Seen ev \<and> Q ev []) \<or> (\<exists>pre ev post. evs = pre @ Seen ev # post \<and> Q ev (post @ [x]))"
    proof (cases post rule: rev_exhaust)
      case Nil
      with e show ?thesis by auto
    next
      case (snoc post' y)
      with e have "evs = pre @ Seen ev # post'" "y = x" by auto
      with e(2) snoc show ?thesis by blast
    qed
  next
    assume "(\<exists>ev. x = Seen ev \<and> Q ev []) \<or> (\<exists>pre ev post. evs = pre @ Seen ev # post \<and> Q ev (post @ [x]))"
    then show "\<exists>pre ev post. evs @ [x] = pre @ Seen ev # post \<and> Q ev post"
    proof
      assume "\<exists>ev. x = Seen ev \<and> Q ev []"
      then show ?thesis by blast
    next
      assume "\<exists>pre ev post. evs = pre @ Seen ev # post \<and> Q ev (post @ [x])"
      then obtain pre ev post where "evs = pre @ Seen ev # post" "Q ev (post @ [x])" by blast
      then show ?thesis by (intro exI [of _ pre] exI [of _ ev] exI [of _ "post @ [x]"]) simp
    qed
  qed
  have "(\<exists>pre ev post. evs = pre @ Seen ev # post \<and> ev_Application ev = a \<and> app_key a = k \<and> decides ev (post @ [x])) \<longleftrightarrow>
      \<not> hits k x \<and> wanted_after evs k None = Some a"
    unfolding snoc.IH decides_snoc by blast
  then show ?case unfolding last_case wanted_after_append by (cases x) (auto simp: decides_def)
qed simp

section \<open>Properties\<close>

text \<open>
  (C3) The controller acts on the newest manifest of every application it should act on, and on nothing else:
  after \<open>Run\<close> has subscribed, whatever the order of informer callbacks, hand-outs and finished
  work, a worker that is handed an application gets the manifest of the last event of that
  application that is no deletion or bookmark and has refresh paths, seen since the application
  was last handed out; and every such event not yet handed out is held by the queue.
\<close>

theorem controller_acts_on_newest_manifest:
  assumes "Run (NewMonorepoController eventTimeout numWorkers) = Ret ((addr, c), wp)"
    and "ctl_run (mc_appBroadcaster c) ops (wp_queue wp) = Ret (evs, kq)"
  shows "(\<forall>pre k a post. evs = pre @ Taken k a # post \<longrightarrow>
      (\<exists>pre1 ev pre2. pre = pre1 @ Seen ev # pre2 \<and> ev_Application ev = a \<and> app_key a = k \<and> decides ev pre2)) \<and>
    (\<forall>pre ev post. evs = pre @ Seen ev # post \<and> decides ev post \<longrightarrow>
      queue_latest kq (app_key (ev_Application ev)) = Some (ev_Application ev))"
proof -
  have b: "mc_appBroadcaster c = running_broadcaster" and q: "wp_queue wp = SetLengthGauge NewKeyedAppQueue"
    using assms(1) by (auto simp: Run_def NewMonorepoController_def running_broadcaster_def NewWorkerPool_def split: prod.splits if_splits)
  have inv: "queue_inv (wp_queue wp)" and empty: "queue_latest (wp_queue wp) = Map.empty"
    by (auto simp: q) (simp add: queue_latest_def SetLengthGauge_def NewKeyedAppQueue_def)
  have "\<exists>pre1 ev pre2. pre = pre1 @ Seen ev # pre2 \<and> ev_Application ev = a \<and> app_key a = k \<and> decides ev pre2"
    if "evs = pre @ Taken k a # post" for pre k a post
    using ctl_run_taken [OF inv, of ops pre k a post kq] assms(2) b that by (simp add: empty wanted_after_decides)
  moreover have "queue_latest kq (app_key (ev_Application ev)) = Some (ev_Application ev)"
    if "evs = pre @ Seen ev # post" "decides ev post" for pre ev post
  proof -
    have "wanted_after evs (app_key (ev_Application ev)) None = Some (ev_Application ev)"
      unfolding wanted_after_decides using that by blast
    then show ?thesis using ctl_run_latest [OF inv, of ops evs kq] assms(2) b by (simp add: empty)
  qed
  ultimately show ?thesis by blast
qed


text \<open>An application with refresh paths.\<close>

definition paths_app :: "string \<Rightarrow> Application" where
  "paths_app rv = zero_Application\<lparr>app_ObjectMeta := zero_ObjectMeta\<lparr>om_Namespace := ''argocd'', om_Name := ''web'', om_ResourceVersion := rv,
     om_Annotations := [AnnotationKeyManifestGeneratePaths \<mapsto> ''.'']\<rparr>\<rparr>"

lemma paths_app_wanted: "relevant \<lparr>ev_Type = watch_Modified, ev_Application = paths_app rv\<rparr>"
  by (simp add: relevant_def paths_app_def watch_defs)

theorem controller_acts_on_newest_manifest_witness:
  "\<exists>kq. queue_latest kq ''argocd/web'' = Some (paths_app ''2'')"
proof -
  let ?call = "\<lambda>rv. Informer (CallUpdate OtherObject (ApplicationPtr (Some (paths_app rv))))"
  let ?ev = "\<lambda>rv. \<lparr>ev_Type = watch_Modified, ev_Application = paths_app rv\<rparr>"
  obtain addr c wp where r: "Run (NewMonorepoController 30 2) = Ret ((addr, c), wp)"
    by (simp add: Run_def NewMonorepoController_def NewWorkerPool_def Subscribe_def Let_def)
  have "\<exists>kq. ctl_run (mc_appBroadcaster c) [?call ''1'', ?call ''2''] (wp_queue wp) = Ret ([Seen (?ev ''1''), Seen (?ev ''2'')], kq)"
    by (simp add: OnUpdate_def notify_obj_def obj_events_def)
  then obtain kq where k: "ctl_run (mc_appBroadcaster c) [?call ''1'', ?call ''2''] (wp_queue wp) = Ret ([Seen (?ev ''1'')] @ Seen (?ev ''2'') # [], kq)"
    by auto
  have "decides (?ev ''2'') []" by (simp add: decides_def paths_app_wanted)
  then have "queue_latest kq (app_key (paths_app ''2'')) = Some (paths_app ''2'')"
    using controller_acts_on_newest_manifest [OF r k, THEN conjunct2, rule_format, of "[Seen (?ev ''1'')]" "?ev ''2''" "[]"] by simp
  moreover have "app_key (paths_app ''2'') = ''argocd/web''" by (simp add: app_key_def paths_app_def)
  ultimately show ?thesis by auto
qed

text \<open>
  Stopping the controller ends its subscription: after the deferred function of \<open>Run\<close> the broadcaster
  notifies exactly the subscribers it had before, so no later event reaches the queue, and the
  worker pool is cancelled; \<open>Run\<close> itself panics exactly for a negative number of workers, and
  with none the pool can never accept an item.
\<close>

theorem run_ends_cleanly:
  assumes "addrs_ok (mc_appBroadcaster c)"
  shows "(Run c = Ret ((addr, c'), wp) \<longrightarrow>
      notify (mc_appBroadcaster (fst (Run_done addr c' wp))) = notify (mc_appBroadcaster c) \<and> wp_cancelled (snd (Run_done addr c' wp)) \<and>
      (mc_numWorkers c = 0 \<longrightarrow> wp_cap wp = 0 \<and> wp_workers wp = [])) \<and>
    ((\<exists>p. Run c = Panic p) \<longleftrightarrow> mc_numWorkers c < 0)"
proof -
  obtain t b where s: "Subscribe enqueueFunc [filterFunc] (mc_appBroadcaster c) = (t, b)" by (rule prod.exhaust)
  have "notify (unsubscribe t b) = notify (mc_appBroadcaster c)" by (rule broadcaster.deliver_cancel [OF assms s])
  then show ?thesis by (auto simp: Run_def s Run_done_def Stop_def NewWorkerPool_def split: if_splits)
qed

theorem run_ends_cleanly_witness:
  "\<exists>p. Run (NewMonorepoController 30 (- 1)) = Panic p"
  using run_ends_cleanly [of "NewMonorepoController 30 (- 1)"] by (simp add: NewMonorepoController_def)

end
