(* ===== verification/AppPath.thy ===== *)
theory AppPath
  imports MRPService "HOL-Library.Sublist"
begin

text \<open>
  Refresh paths and path security: \<open>util/app/path/path.go\<close> (which changed files concern an
  application), \<open>util/security/path_traversal.go\<close> (is a file below a directory) and
  \<open>util/io/path/resolved.go\<close> (resolution of files named by an application).  The file system is a
  parameter: what \<open>os.Stat\<close> and \<open>os.Readlink\<close> answer.
\<close>

section \<open>Cleaned absolute paths\<close>

text \<open>The components of an absolute path after lexical cleaning.\<close>

definition abs_comps :: "string \<Rightarrow> string list" where
  "abs_comps p = clean_comps True [] (strings_Split (CHR ''/'') p)"

definition is_name :: "string \<Rightarrow> bool" where
  "is_name c \<longleftrightarrow> c \<noteq> [] \<and> c \<noteq> ''.'' \<and> c \<noteq> ''..'' \<and> CHR ''/'' \<notin> set c"

definition abs_path :: "string list \<Rightarrow> string" where
  "abs_path cs = ''/'' @ strings_Join cs ''/''"

lemma clean_comps_names:
  "\<forall>c \<in> set out. is_name c \<Longrightarrow> \<forall>c \<in> set cs. CHR ''/'' \<notin> set c \<Longrightarrow>
   \<forall>c \<in> set (clean_comps True out cs). is_name c"
proof (induction cs arbitrary: out)
  case (Cons c cs)
  from Cons.prems(2) have cs: "\<forall>c \<in> set cs. CHR ''/'' \<notin> set c" by simp
  from Cons.prems(2) consider (skip) "c = [] \<or> c = ''.''" | (up) "c = ''..''" | (name) "is_name c"
    by (auto simp: is_name_def)
  then show ?case
  proof cases
    case skip
    with Cons.IH [OF Cons.prems(1) cs] show ?thesis by auto
  next
    case up
    have "out = t # ts \<Longrightarrow> t \<noteq> ''..''" for t ts using Cons.prems(1) by (auto simp: is_name_def)
    with up Cons.IH [OF _ cs, of "tl out"] Cons.prems(1) show ?thesis by (cases out) auto
  next
    case name
    then have "clean_comps True out (c # cs) = clean_comps True (c # out) cs" by (simp add: is_name_def)
    moreover have "\<forall>d \<in> set (c # out). is_name d" using name Cons.prems(1) by simp
    ultimately show ?thesis using Cons.IH [OF _ cs, of "c # out"] by metis
  qed
qed simp

lemma abs_comps_names: "c \<in> set (abs_comps p) \<Longrightarrow> is_name c"
  using clean_comps_names [of "[]" "strings_Split (CHR ''/'') p"] Split_no_sep by (auto simp: abs_comps_def)

lemma Clean_abs: "filepath_IsAbs p \<Longrightarrow> filepath_Clean p = abs_path (abs_comps p)"
  by (auto simp: filepath_Clean_def abs_comps_def abs_path_def filepath_IsAbs_def Let_def)

lemma IsAbs_abs_path [simp]: "filepath_IsAbs (abs_path cs)"
  by (simp add: filepath_IsAbs_def abs_path_def)

lemma clean_names: "\<forall>c \<in> set cs. is_name c \<Longrightarrow> clean_comps True out cs = rev out @ cs"
  by (induction cs arbitrary: out) (auto simp: is_name_def)

lemma Split_abs_path:
  assumes "\<forall>c \<in> set cs. is_name c" "cs \<noteq> []"
  shows "strings_Split (CHR ''/'') (abs_path cs) = [] # cs"
  using assms Split_Join [of cs "CHR ''/''"] by (simp add: abs_path_def is_name_def)

lemma abs_comps_abs_path [simp]:
  assumes "\<forall>c \<in> set cs. is_name c"
  shows "abs_comps (abs_path cs) = cs"
proof (cases "cs = []")
  case False
  with assms show ?thesis by (simp add: abs_comps_def Split_abs_path clean_names)
qed (simp add: abs_comps_def abs_path_def)

text \<open>Cleaning twice is cleaning once.\<close>

lemma abs_comps_Clean [simp]: "filepath_IsAbs p \<Longrightarrow> abs_comps (filepath_Clean p) = abs_comps p"
  using abs_comps_names by (simp add: Clean_abs)

lemma abs_path_inj:
  "\<forall>c \<in> set xs. is_name c \<Longrightarrow> \<forall>c \<in> set ys. is_name c \<Longrightarrow> abs_path xs = abs_path ys \<longleftrightarrow> xs = ys"
  by (metis abs_comps_abs_path)

text \<open>A directory with its trailing separator determines its components, prefix by prefix.\<close>

lemma HasPrefix_append_same [simp]: "strings_HasPrefix (x @ s) (x @ p) \<longleftrightarrow> strings_HasPrefix s p"
  by (induction x) auto

lemma terminated_names_split:
  assumes "x @ CHR ''/'' # s = y @ CHR ''/'' # t" "CHR ''/'' \<notin> set x" "CHR ''/'' \<notin> set y"
  shows "x = y \<and> s = t"
  using assms by (metis Cut_found prod.inject)

lemma Join_sep: "cs \<noteq> [] \<Longrightarrow> strings_Join cs ''/'' @ ''/'' = concat (map (\<lambda>c. c @ ''/'') cs)"
  by (induction cs "''/''" rule: strings_Join.induct) auto

lemma prefix_terminated:
  assumes "\<forall>c \<in> set xs. CHR ''/'' \<notin> set c" "\<forall>c \<in> set ys. CHR ''/'' \<notin> set c"
  shows "strings_HasPrefix (concat (map (\<lambda>c. c @ ''/'') ys)) (concat (map (\<lambda>c. c @ ''/'') xs)) \<longleftrightarrow> prefix xs ys"
  using assms
proof (induction xs arbitrary: ys)
  case (Cons x xs)
  show ?case
  proof (cases ys)
    case Nil
    then show ?thesis by (cases x) auto
  next
    case (Cons y ys')
    show ?thesis
    proof (cases "x = y")
      case True
      with Cons Cons.IH [of ys'] Cons.prems show ?thesis by simp
    next
      case False
      have "\<not> strings_HasPrefix (concat (map (\<lambda>c. c @ ''/'') ys)) (concat (map (\<lambda>c. c @ ''/'') (x # xs)))"
      proof
        assume "strings_HasPrefix (concat (map (\<lambda>c. c @ ''/'') ys)) (concat (map (\<lambda>c. c @ ''/'') (x # xs)))"
        then obtain r where "y @ CHR ''/'' # concat (map (\<lambda>c. c @ ''/'') ys') =
            x @ CHR ''/'' # (concat (map (\<lambda>c. c @ ''/'') xs) @ r)"
          by (auto simp: HasPrefix_iff local.Cons)
        from terminated_names_split [OF this] Cons.prems local.Cons False show False by auto
      qed
      with False local.Cons show ?thesis by simp
    qed
  qed
qed simp

section \<open>Directory containment\<close>

definition parsePath :: "string \<Rightarrow> string \<times> string" where
  "parsePath path =
     (let directory = filepath_Dir path in
      if directory = path then (directory, []) else (directory, filepath_Base path))"

definition isRequestedDirUnderCurrentRoot :: "string \<Rightarrow> string \<Rightarrow> bool go" where
  "isRequestedDirUnderCurrentRoot currentRoot requestedPath =
     (if currentRoot = ''/'' then Ret True
      else if currentRoot = requestedPath then Ret True
      else
        go_bind (slice_index requestedPath (int (length requestedPath) - 1)) (\<lambda>r.
        go_bind (slice_index currentRoot (int (length currentRoot) - 1)) (\<lambda>c.
          Ret (strings_HasPrefix (if r \<noteq> CHR ''/'' then requestedPath @ ''/'' else requestedPath)
                 (if c \<noteq> CHR ''/'' then currentRoot @ ''/'' else currentRoot)))))"

definition outside_root_error :: "string \<Rightarrow> string \<Rightarrow> go_error" where
  "outside_root_error requestedPath currentRoot =
     ErrorString (''requested path '' @ requestedPath @ '' should be on or under current directory '' @ currentRoot)"

definition EnforceToCurrentRoot :: "string \<Rightarrow> string \<Rightarrow> string result go" where
  "EnforceToCurrentRoot root requestedPath =
     (let currentRoot = filepath_Clean root; (requestedDir, requestedFile) = parsePath requestedPath in
      go_bind (isRequestedDirUnderCurrentRoot currentRoot requestedDir) (\<lambda>under.
        Ret (if under then Inr (requestedDir @ ''/'' @ requestedFile)
             else Inl (outside_root_error requestedPath currentRoot))))"

lemma last_abs_path:
  assumes "\<forall>c \<in> set cs. is_name c"
  shows "last (abs_path cs) = CHR ''/'' \<longleftrightarrow> cs = []"
proof (cases cs rule: rev_cases)
  case (snoc ds d)
  have "d \<noteq> []" "CHR ''/'' \<notin> set d" using assms snoc by (auto simp: is_name_def)
  moreover have "last (strings_Join (ds @ [d]) ''/'') = last d" if "d \<noteq> []" for ds
    using that by (induction ds "''/''" rule: strings_Join.induct) (auto simp: strings_Join_Cons)
  moreover have "strings_Join (ds @ [d]) ''/'' \<noteq> []" using \<open>d \<noteq> []\<close>
    by (cases ds) (auto simp: strings_Join_Cons)
  ultimately show ?thesis using snoc by (auto simp: abs_path_def) (metis last_in_set)
qed (simp add: abs_path_def)

lemma slice_index_last: "s \<noteq> [] \<Longrightarrow> slice_index s (int (length s) - 1) = Ret (last s)"
  by (cases s rule: rev_cases) (auto simp: slice_index_def nth_append)

text \<open>On cleaned absolute paths the string comparison is the prefix order on components.\<close>

lemma isRequestedDirUnderCurrentRoot_prefix:
  assumes "\<forall>c \<in> set xs. is_name c" "\<forall>c \<in> set ys. is_name c"
  shows "isRequestedDirUnderCurrentRoot (abs_path xs) (abs_path ys) = Ret (prefix xs ys)"
proof -
  have ne: "abs_path cs \<noteq> []" for cs by (simp add: abs_path_def)
  show ?thesis
  proof (cases "xs = [] \<or> xs = ys")
    case True
    then show ?thesis
    proof
      assume "xs = []"
      then show ?thesis by (simp add: isRequestedDirUnderCurrentRoot_def abs_path_def)
    qed (simp add: isRequestedDirUnderCurrentRoot_def)
  next
    case False
    then have x: "xs \<noteq> []" "xs \<noteq> ys" by auto
    have root: "abs_path xs \<noteq> ''/''" using x(1) abs_path_inj [of xs "[]"] assms(1) by (simp add: abs_path_def)
    have neq: "abs_path xs \<noteq> abs_path ys" using x(2) abs_path_inj assms by blast
    have t: "abs_path cs @ ''/'' = ''/'' @ concat (map (\<lambda>c. c @ ''/'') cs)" if "cs \<noteq> []" for cs
      unfolding abs_path_def append_assoc Join_sep [OF that] ..
    have slash: "\<forall>c \<in> set xs. CHR ''/'' \<notin> set c" "\<forall>c \<in> set ys. CHR ''/'' \<notin> set c"
      using assms by (auto simp: is_name_def)
    have "isRequestedDirUnderCurrentRoot (abs_path xs) (abs_path ys) =
      Ret (strings_HasPrefix (if ys \<noteq> [] then abs_path ys @ ''/'' else abs_path ys) (abs_path xs @ ''/''))"
      using root neq x(1) ne
      by (simp add: isRequestedDirUnderCurrentRoot_def slice_index_last last_abs_path assms)
    also have "\<dots> = Ret (prefix xs ys)"
    proof (cases "ys = []")
      case True
      have "xs = z # zs \<Longrightarrow> z \<noteq> []" for z zs using assms(1) by (auto simp: is_name_def)
      with True x(1) show ?thesis by (cases xs; cases "hd xs") (auto simp: t, simp add: abs_path_def)
    next
      case False
      with x(1) prefix_terminated [OF slash] show ?thesis by (simp add: t)
    qed
    finally show ?thesis .
  qed
qed

lemma filepath_Split_abs: "filepath_IsAbs p \<Longrightarrow> filepath_IsAbs (fst (filepath_Split p))"
proof -
  assume "filepath_IsAbs p"
  then obtain q where p: "p = CHR ''/'' # q" by (cases p) (auto simp: filepath_IsAbs_def)
  have "length (takeWhile (\<lambda>c. c \<noteq> CHR ''/'') (rev q @ ''/'')) \<le> length q"
    using length_takeWhile_le [of _ "rev q"] by (simp add: takeWhile_append)
  then show ?thesis by (cases "length p - length (takeWhile (\<lambda>c. c \<noteq> CHR ''/'') (rev p))")
    (auto simp: p filepath_Split_def filepath_IsAbs_def)
qed

lemma filepath_Dir_abs:
  assumes "filepath_IsAbs p"
  shows "filepath_Dir p = abs_path (abs_comps (filepath_Dir p))" "filepath_IsAbs (filepath_Dir p)"
  unfolding filepath_Dir_def using filepath_Split_abs [OF assms] by (simp_all add: Clean_abs abs_comps_names)

lemma EnforceToCurrentRoot_contains:
  assumes "filepath_IsAbs root" "filepath_IsAbs path"
  shows "\<exists>r. EnforceToCurrentRoot root path = Ret r \<and>
    (\<not> isErr r \<longleftrightarrow> prefix (abs_comps root) (abs_comps (filepath_Dir path)))"
proof -
  have "isRequestedDirUnderCurrentRoot (filepath_Clean root) (filepath_Dir path) =
      Ret (prefix (abs_comps root) (abs_comps (filepath_Dir path)))"
    unfolding Clean_abs [OF assms(1)]
    by (subst filepath_Dir_abs(1) [OF assms(2)], rule isRequestedDirUnderCurrentRoot_prefix)
      (auto dest: abs_comps_names)
  moreover have "fst (parsePath path) = filepath_Dir path" by (simp add: parsePath_def Let_def)
  ultimately show ?thesis by (cases "parsePath path") (simp add: EnforceToCurrentRoot_def Let_def)
qed

text \<open>
  (C26) \<open>EnforceToCurrentRoot\<close> decides containment: for absolute paths it never panics, and it
  succeeds exactly when the cleaned components of the root are a prefix of the cleaned
  components of the requested file's directory, whatever \<open>.\<close>, \<open>..\<close> and repeated
  separators the two paths contain.
\<close>

theorem EnforceToCurrentRoot_containment:
  assumes "filepath_IsAbs root" "filepath_IsAbs path"
  shows "\<exists>r. EnforceToCurrentRoot root path = Ret r \<and>
    (\<not> isErr r \<longleftrightarrow> prefix (abs_comps root) (abs_comps (filepath_Dir path)))"
  using EnforceToCurrentRoot_contains [OF assms] .

theorem EnforceToCurrentRoot_containment_witness:
  "\<exists>r. EnforceToCurrentRoot ''/a/../b'' ''/b2/x'' = Ret r \<and> isErr r"
proof -
  have "\<not> prefix (abs_comps ''/a/../b'') (abs_comps (filepath_Dir ''/b2/x''))"
    by (simp add: abs_comps_def filepath_Dir_def filepath_Split_def filepath_Clean_def filepath_IsAbs_def Let_def)
  with EnforceToCurrentRoot_containment [of "''/a/../b''" "''/b2/x''"] show ?thesis
    by (auto simp: filepath_IsAbs_def)
qed

section \<open>Refresh paths\<close>

definition ensureAbsPath :: "string \<Rightarrow> string" where
  "ensureAbsPath input = (if \<not> filepath_IsAbs input then ''/'' @ input else input)"

definition GetAppRefreshPaths :: "Application \<Rightarrow> string list" where
  "GetAppRefreshPaths app =
     (case app_Annotations app AnnotationKeyManifestGeneratePaths of
        None \<Rightarrow> []
      | Some val \<Rightarrow>
          if val = [] then []
          else concat (map (\<lambda>item.
             if item = [] then []
             else if filepath_IsAbs item then [drop 1 item]
             else map (\<lambda>source. filepath_Clean (filepath_Join [src_Path source, item])) (GetSources (app_Spec app)))
            (strings_Split (CHR '';'') val)))"

text \<open>One comparison of a changed file with a refresh path, and the loop that stops at the first hit.\<close>

definition refresh_path_hit :: "string \<Rightarrow> string \<Rightarrow> bool go" where
  "refresh_path_hit f item =
     (if f = item then Ret True
      else go_bind (EnforceToCurrentRoot item f) (\<lambda>r.
        Ret (if \<not> isErr r then True else filepath_Match item f = Some True)))"

fun go_any :: "('a \<Rightarrow> bool go) \<Rightarrow> 'a list \<Rightarrow> bool go" where
  "go_any P [] = Ret False"
| "go_any P (x # xs) = go_bind (P x) (\<lambda>b. if b then Ret True else go_any P xs)"

definition AppFilesHaveChanged :: "string list \<Rightarrow> string list \<Rightarrow> bool go" where
  "AppFilesHaveChanged refreshPaths changedFiles =
     (if changedFiles = [] then Ret True
      else if refreshPaths = [] then Ret True
      else go_any (\<lambda>f. go_any (\<lambda>item. refresh_path_hit (ensureAbsPath f) (ensureAbsPath item)) refreshPaths) changedFiles)"

lemma go_any_Ret: "(\<And>x. x \<in> set xs \<Longrightarrow> P x = Ret (Q x)) \<Longrightarrow> go_any P xs = Ret (\<exists>x \<in> set xs. Q x)"
  by (induction xs) auto

lemma IsAbs_ensureAbsPath [simp]: "filepath_IsAbs (ensureAbsPath p)"
  by (simp add: ensureAbsPath_def filepath_IsAbs_def)

text \<open>The file \<open>f\<close> concerns the refresh path \<open>item\<close>: same name, inside the directory, or a pattern match.\<close>

definition concerns :: "string \<Rightarrow> string \<Rightarrow> bool" where
  "concerns item f \<longleftrightarrow> ensureAbsPath f = ensureAbsPath item \<or>
     prefix (abs_comps (ensureAbsPath item)) (abs_comps (filepath_Dir (ensureAbsPath f))) \<or>
     filepath_Match (ensureAbsPath item) (ensureAbsPath f) = Some True"

lemma refresh_path_hit_concerns: "refresh_path_hit (ensureAbsPath f) (ensureAbsPath item) = Ret (concerns item f)"
proof -
  let ?i = "ensureAbsPath item" and ?f = "ensureAbsPath f"
  from EnforceToCurrentRoot_contains [of ?i ?f] obtain r where
    "EnforceToCurrentRoot ?i ?f = Ret r" "(\<not> isErr r) = prefix (abs_comps ?i) (abs_comps (filepath_Dir ?f))"
    by auto
  then show ?thesis by (auto simp: refresh_path_hit_def concerns_def)
qed

lemma AppFilesHaveChanged_nonempty:
  assumes "changedFiles \<noteq> []" "refreshPaths \<noteq> []"
  shows "AppFilesHaveChanged refreshPaths changedFiles = Ret (\<exists>f \<in> set changedFiles. \<exists>item \<in> set refreshPaths. concerns item f)"
proof -
  have "go_any (\<lambda>item. refresh_path_hit (ensureAbsPath f) (ensureAbsPath item)) refreshPaths =
      Ret (\<exists>item \<in> set refreshPaths. concerns item f)" for f
    by (rule go_any_Ret) (rule refresh_path_hit_concerns)
  then have "go_any (\<lambda>f. go_any (\<lambda>item. refresh_path_hit (ensureAbsPath f) (ensureAbsPath item)) refreshPaths) changedFiles =
      Ret (\<exists>f \<in> set changedFiles. \<exists>item \<in> set refreshPaths. concerns item f)"
    by (rule go_any_Ret)
  with assms show ?thesis by (simp add: AppFilesHaveChanged_def)
qed

text \<open>
  (C27) \<open>AppFilesHaveChanged\<close> never panics and answers true exactly when one of the lists is empty
  or some changed file concerns some refresh path: the two are the same path, the file lies
  in the directory or below it, component by component, or the path is a shell pattern that
  matches the file.
\<close>

theorem AppFilesHaveChanged_spec:
  "AppFilesHaveChanged refreshPaths changedFiles =
     Ret (changedFiles = [] \<or> refreshPaths = [] \<or>
       (\<exists>f \<in> set changedFiles. \<exists>item \<in> set refreshPaths. concerns item f))"
  by (cases "changedFiles = [] \<or> refreshPaths = []")
    (auto simp: AppFilesHaveChanged_nonempty, simp_all add: AppFilesHaveChanged_def)

text \<open>
  The controller asks for the same paths as Argo CD's own refresh logic: the refresh paths of
  an application are the union, over its sources, of the paths \<open>GetSourceRefreshPaths\<close> sends to
  the repository server, and for an application with one source the two lists are equal.
\<close>

theorem source_refresh_paths_cover_app:
  assumes "GetSources (app_Spec app) \<noteq> []"
  shows "set (GetAppRefreshPaths app) =
      (\<Union>s \<in> set (GetSources (app_Spec app)). set (GetSourceRefreshPaths app (src_Path s))) \<and>
    (length (GetSources (app_Spec app)) = 1 \<longrightarrow>
      GetAppRefreshPaths app = GetSourceRefreshPaths app (src_Path (hd (GetSources (app_Spec app)))))"
proof
  show "set (GetAppRefreshPaths app) =
      (\<Union>s \<in> set (GetSources (app_Spec app)). set (GetSourceRefreshPaths app (src_Path s)))"
  proof (cases "app_Annotations app AnnotationKeyManifestGeneratePaths")
    case None
    then show ?thesis by (simp add: GetAppRefreshPaths_def GetSourceRefreshPaths_def)
  next
    case (Some val)
    let ?srcs = "GetSources (app_Spec app)" and ?items = "strings_Split (CHR '';'') val"
    let ?one = "\<lambda>path item. if item = [] then [] else if filepath_IsAbs item then [drop 1 item]
      else [filepath_Clean (filepath_Join [path, item])]"
    let ?all = "\<lambda>item. if item = [] then [] else if filepath_IsAbs item then [drop 1 item]
      else map (\<lambda>s. filepath_Clean (filepath_Join [src_Path s, item])) ?srcs"
    have one: "set (GetSourceRefreshPaths app path) = (if val = [] then {} else (\<Union>item \<in> set ?items. set (?one path item)))" for path
      by (cases "val = []") (simp_all only: GetSourceRefreshPaths_def Some option.case if_True if_False
          set_concat set_map image_image list.set refl)
    have all: "set (GetAppRefreshPaths app) = (if val = [] then {} else (\<Union>item \<in> set ?items. set (?all item)))"
      by (cases "val = []") (simp_all only: GetAppRefreshPaths_def Some option.case if_True if_False
          set_concat set_map image_image list.set refl)
    have each: "set (?all item) = (\<Union>s \<in> set ?srcs. set (?one (src_Path s) item))" for item
    proof -
      consider "item = []" | "item \<noteq> []" "filepath_IsAbs item" | "item \<noteq> []" "\<not> filepath_IsAbs item" by blast
      then show ?thesis using assms by cases (simp_all add: image_Union UNION_singleton_eq_range)
    qed
    show ?thesis
    proof (cases "val = []")
      case True
      then show ?thesis unfolding one all by simp
    next
      case False
      have "set (GetAppRefreshPaths app) = (\<Union>item \<in> set ?items. \<Union>s \<in> set ?srcs. set (?one (src_Path s) item))"
        unfolding all if_not_P [OF False] by (rule SUP_cong [OF refl]) (rule each)
      also have "\<dots> = (\<Union>s \<in> set ?srcs. \<Union>item \<in> set ?items. set (?one (src_Path s) item))" by (rule SUP_commute)
      finally show ?thesis unfolding one if_not_P [OF False] .
    qed
  qed
  show "length (GetSources (app_Spec app)) = 1 \<longrightarrow>
      GetAppRefreshPaths app = GetSourceRefreshPaths app (src_Path (hd (GetSources (app_Spec app))))"
  proof
    assume "length (GetSources (app_Spec app)) = 1"
    then obtain s where s: "GetSources (app_Spec app) = [s]" by (auto simp: length_Suc_conv)
    show "GetAppRefreshPaths app = GetSourceRefreshPaths app (src_Path (hd (GetSources (app_Spec app))))"
      unfolding GetAppRefreshPaths_def GetSourceRefreshPaths_def s list.map list.sel(1) ..
  qed
qed

theorem source_refresh_paths_cover_app_witness:
  "GetAppRefreshPaths web_app = GetSourceRefreshPaths web_app ''web''"
proof -
  have "GetSources (app_Spec web_app) = [zero_ApplicationSource\<lparr>src_RepoURL := ''https://git.example/mono'', src_Path := ''web''\<rparr>]"
    by (simp add: GetSources_def HasMultipleSources_def sample_defs)
  with source_refresh_paths_cover_app [of web_app] show ?thesis by simp
qed

section \<open>Application paths and symbolic links\<close>

text \<open>The file system as the code sees it: \<open>os.Stat\<close>, \<open>os.Readlink\<close> and the entries \<open>filepath.Walk\<close> visits.\<close>

datatype stat_result = StatNotExist | StatError go_error | StatInfo bool

datatype readlink_result = LinkTarget string | NotALink | ReadlinkError go_error

datatype walk_visit = VisitNotExist string | VisitError string go_error | VisitEntry string bool

definition Path :: "(string \<Rightarrow> stat_result) \<Rightarrow> string \<Rightarrow> string \<Rightarrow> string result" where
  "Path stat root path =
     (if filepath_IsAbs path then Inl (ErrorString (path @ '': app path is absolute''))
      else
        let appPath = filepath_Join [root, path] in
        if \<not> strings_HasPrefix appPath (filepath_Clean root) then Inl (ErrorString (path @ '': app path outside root''))
        else case stat appPath of
          StatNotExist \<Rightarrow> Inl (ErrorString (path @ '': app path does not exist''))
        | StatError err \<Rightarrow> Inl err
        | StatInfo isDir \<Rightarrow>
            if \<not> isDir then Inl (ErrorString (path @ '': app path is not a directory'')) else Inr appPath)"

text \<open>
  \<open>filepath.Rel\<close> for two absolute paths, which never fails; \<open>filepath.Abs\<close> with the answer of
  \<open>os.Getwd\<close>.
\<close>

fun strip_common :: "string list \<Rightarrow> string list \<Rightarrow> string list \<times> string list" where
  "strip_common (x # xs) (y # ys) = (if x = y then strip_common xs ys else (x # xs, y # ys))"
| "strip_common xs ys = (xs, ys)"

definition filepath_Rel :: "string \<Rightarrow> string \<Rightarrow> string" where
  "filepath_Rel base targ =
     (let (b, t) = strip_common (abs_comps base) (abs_comps targ) in
      if b = [] \<and> t = [] then ''.'' else strings_Join (replicate (length b) ''..'' @ t) ''/'')"

definition filepath_Abs :: "string result \<Rightarrow> string \<Rightarrow> string result" where
  "filepath_Abs wd path =
     (if filepath_IsAbs path then Inr (filepath_Clean path)
      else case wd of Inl err \<Rightarrow> Inl err | Inr d \<Rightarrow> Inr (filepath_Join [d, path]))"

datatype symlink_error = OutOfBoundsSymlinkError string | WalkError go_error

fun check_target_parts :: "string \<Rightarrow> string \<Rightarrow> string \<Rightarrow> string list \<Rightarrow> symlink_error option" where
  "check_target_parts absBasePath linkRelPath currentDir [] = None"
| "check_target_parts absBasePath linkRelPath currentDir (part # parts) =
     (let newDir = filepath_Join [currentDir, part]; rel = filepath_Rel absBasePath newDir in
      if rel = ''..'' \<or> strings_HasPrefix rel ''../'' then Some (OutOfBoundsSymlinkError linkRelPath)
      else check_target_parts absBasePath linkRelPath newDir parts)"

definition check_visit :: "(string \<Rightarrow> readlink_result) \<Rightarrow> string \<Rightarrow> walk_visit \<Rightarrow> symlink_error option" where
  "check_visit readlink absBasePath v = (case v of
     VisitNotExist path \<Rightarrow> None
   | VisitError path err \<Rightarrow> Some (WalkError (Wrapped (''failed to walk for symlinks in '' @ absBasePath) err))
   | VisitEntry path isSymlink \<Rightarrow>
       if \<not> isSymlink then None
       else case readlink path of
         ReadlinkError err \<Rightarrow> Some (WalkError (Wrapped (''failed to read link '' @ path) err))
       | NotALink \<Rightarrow> Some (WalkError (ErrorString (''failed to read link '' @ path)))
       | LinkTarget linkTarget \<Rightarrow>
           let linkRelPath = filepath_Rel absBasePath path in
           if filepath_IsAbs linkTarget then Some (OutOfBoundsSymlinkError linkRelPath)
           else check_target_parts absBasePath linkRelPath (filepath_Dir path) (strings_Split (CHR ''/'') linkTarget))"

fun walk_visits :: "(walk_visit \<Rightarrow> symlink_error option) \<Rightarrow> walk_visit list \<Rightarrow> symlink_error option" where
  "walk_visits f [] = None"
| "walk_visits f (v # vs) = (case f v of None \<Rightarrow> walk_visits f vs | Some e \<Rightarrow> Some e)"

definition CheckOutOfBoundsSymlinks :: "string result \<Rightarrow> (string \<Rightarrow> readlink_result) \<Rightarrow> (string \<Rightarrow> walk_visit list) \<Rightarrow> string
    \<Rightarrow> symlink_error option" where
  "CheckOutOfBoundsSymlinks wd readlink walk basePath =
     (case filepath_Abs wd basePath of
        Inl err \<Rightarrow> Some (WalkError (Wrapped ''failed to get absolute path'' err))
      | Inr absBasePath \<Rightarrow> walk_visits (check_visit readlink absBasePath) (walk absBasePath))"

section \<open>Resolving files of an application\<close>

text \<open>The nesting bound \<open>maxDepth\<close> is the recursion argument; the only caller passes 10.\<close>

fun resolveSymbolicLinkRecursive :: "(string \<Rightarrow> readlink_result) \<Rightarrow> string \<Rightarrow> nat \<Rightarrow> string result" where
  "resolveSymbolicLinkRecursive readlink path 0 = (case readlink path of
     NotALink \<Rightarrow> Inr path
   | ReadlinkError err \<Rightarrow> Inl err
   | LinkTarget resolved \<Rightarrow> Inl (ErrorString ''maximum nesting level reached''))"
| "resolveSymbolicLinkRecursive readlink path (Suc maxDepth) = (case readlink path of
     NotALink \<Rightarrow> Inr path
   | ReadlinkError err \<Rightarrow> Inl err
   | LinkTarget resolved \<Rightarrow>
       resolveSymbolicLinkRecursive readlink
         (if \<not> strings_HasPrefix resolved ''/'' then filepath_Join [filepath_Dir path, resolved] else resolved) maxDepth)"

definition resolveFailure :: "string \<Rightarrow> go_error \<Rightarrow> go_error" where
  "resolveFailure path err = ErrorString ''internal error: failed to resolve path. Check logs for more details''"

definition check_root :: "string \<Rightarrow> string \<Rightarrow> string \<Rightarrow> bool \<Rightarrow> string result" where
  "check_root absRepoPath path fileOrDirectory allowResolveToRoot =
     (let requiredRootPath = (if \<not> strings_HasSuffix absRepoPath ''/'' then absRepoPath @ ''/'' else absRepoPath) in
      if path @ ''/'' = requiredRootPath then
        (if \<not> allowResolveToRoot
         then Inl (resolveFailure path (ErrorString ''path resolved to repository root, which is not allowed''))
         else Inr path)
      else if \<not> strings_HasPrefix path requiredRootPath
      then Inl (ErrorString (''file '' @ [CHR 0x27] @ fileOrDirectory @ [CHR 0x27] @ '' resolved to outside repository root''))
      else Inr path)"

definition resolveFileOrDirectory :: "string result \<Rightarrow> (string \<Rightarrow> readlink_result) \<Rightarrow> string \<Rightarrow> string \<Rightarrow> string \<Rightarrow> bool
    \<Rightarrow> string result" where
  "resolveFileOrDirectory wd readlink appPath repoRoot fileOrDirectory allowResolveToRoot =
     (case filepath_Abs wd repoRoot of
        Inl err \<Rightarrow> Inl (resolveFailure repoRoot err)
      | Inr absRepoPath \<Rightarrow>
          case (if \<not> filepath_IsAbs fileOrDirectory then
                  (case filepath_Abs wd appPath of
                     Inl err \<Rightarrow> Inl err
                   | Inr absWorkDir \<Rightarrow> Inr (filepath_Join [absWorkDir, fileOrDirectory]))
                else Inr (filepath_Join [absRepoPath, fileOrDirectory])) of
            Inl err \<Rightarrow> Inl (resolveFailure repoRoot err)
          | Inr path \<Rightarrow>
              case resolveSymbolicLinkRecursive readlink path 10 of
                Inl err \<Rightarrow> Inl (resolveFailure repoRoot err)
              | Inr delinkedPath \<Rightarrow>
                  case filepath_Abs wd delinkedPath of
                    Inl err \<Rightarrow> Inl (resolveFailure repoRoot err)
                  | Inr path' \<Rightarrow> check_root absRepoPath path' fileOrDirectory allowResolveToRoot)"

definition ResolveFileOrDirectoryPath :: "string result \<Rightarrow> (string \<Rightarrow> readlink_result) \<Rightarrow> string \<Rightarrow> string \<Rightarrow> string
    \<Rightarrow> string result" where
  "ResolveFileOrDirectoryPath wd readlink appPath repoRoot dir =
     resolveFileOrDirectory wd readlink appPath repoRoot dir True"

lemma strip_common_split:
  "strip_common xs ys = (b, t) \<Longrightarrow> (\<exists>c. xs = c @ b \<and> ys = c @ t) \<and> (b = [] \<or> t = [] \<or> hd b \<noteq> hd t)"
proof (induction xs ys rule: strip_common.induct)
  case (1 x xs y ys)
  then show ?case by (cases "x = y") (auto intro: exI [of _ "x # _"])
qed auto

lemma strip_common_prefix: "strip_common xs ys = (b, t) \<Longrightarrow> prefix xs ys \<longleftrightarrow> b = []"
  by (drule strip_common_split) (cases b; cases t; auto)

lemma name_not_up:
  assumes "is_name n" "s = [] \<or> hd s = CHR ''/''"
  shows "\<not> strings_HasPrefix (n @ s) ''../''" "n @ s \<noteq> ''..''"
proof -
  from assms(1) obtain c cs where n: "n = c # cs" by (cases n) (auto simp: is_name_def)
  show "\<not> strings_HasPrefix (n @ s) ''../''" "n @ s \<noteq> ''..''"
    using assms n by (cases cs; cases "tl cs"; cases s; auto simp: is_name_def)+
qed

lemma filepath_Rel_escapes:
  assumes "\<forall>c \<in> set (abs_comps targ). is_name c"
  shows "filepath_Rel base targ = ''..'' \<or> strings_HasPrefix (filepath_Rel base targ) ''../'' \<longleftrightarrow>
    \<not> prefix (abs_comps base) (abs_comps targ)"
proof -
  obtain b t where bt: "strip_common (abs_comps base) (abs_comps targ) = (b, t)" by (rule prod.exhaust)
  from strip_common_split [OF bt] assms have t: "\<forall>c \<in> set t. is_name c" by auto
  show ?thesis
  proof (cases b)
    case Nil
    have "\<not> (strings_Join t ''/'' = ''..'' \<or> strings_HasPrefix (strings_Join t ''/'') ''../'')"
    proof (cases t)
      case (Cons n ns)
      with t name_not_up [of n "case ns of [] \<Rightarrow> [] | _ \<Rightarrow> ''/'' @ strings_Join ns ''/''"] show ?thesis
        by (cases ns) auto
    qed simp
    with Nil strip_common_prefix [OF bt] show ?thesis by (simp add: filepath_Rel_def bt)
  next
    case (Cons x xs)
    then have "filepath_Rel base targ = ''..'' \<or> strings_HasPrefix (filepath_Rel base targ) ''../''"
      by (cases "replicate (length xs) ''..'' @ t") (auto simp: filepath_Rel_def bt)
    with Cons strip_common_prefix [OF bt] show ?thesis by simp
  qed
qed

lemma Join_abs: "filepath_IsAbs d \<Longrightarrow> filepath_Join [d, part] = abs_path (abs_comps (d @ ''/'' @ part))"
  by (cases d) (auto simp: Clean_abs filepath_IsAbs_def)

lemma check_target_parts_confines:
  assumes "check_target_parts base rel dir parts = None" "filepath_IsAbs dir" "k < length parts"
  shows "prefix (abs_comps base) (abs_comps (foldl (\<lambda>d p. filepath_Join [d, p]) dir (take (Suc k) parts)))"
  using assms
proof (induction parts arbitrary: dir k)
  case (Cons part parts)
  let ?new = "filepath_Join [dir, part]"
  have abs: "filepath_IsAbs ?new" using Cons.prems(2) by (simp only: Join_abs IsAbs_abs_path)
  from Cons.prems(1) have rest: "check_target_parts base rel ?new parts = None"
    and "\<not> (filepath_Rel base ?new = ''..'' \<or> strings_HasPrefix (filepath_Rel base ?new) ''../'')"
    unfolding check_target_parts.simps Let_def by (metis option.distinct(1))+
  then have here: "prefix (abs_comps base) (abs_comps ?new)"
    using filepath_Rel_escapes [of ?new base] abs_comps_names by blast
  show ?case
  proof (cases k)
    case 0
    with here show ?thesis by (simp del: filepath_Join.simps)
  next
    case (Suc j)
    with Cons.IH [OF rest abs, of j] Cons.prems(3) show ?thesis by (simp del: filepath_Join.simps)
  qed
qed simp

lemma walk_visits_None: "walk_visits f vs = None \<Longrightarrow> v \<in> set vs \<Longrightarrow> f v = None"
  by (induction vs) (auto split: option.splits)

text \<open>
  The symbolic link check confines links: when it passes, every link it visited has a
  relative target, and following the target one component at a time from the link's
  directory never leaves the base directory, not even at an intermediate step.
\<close>

theorem symlink_check_confines:
  assumes "CheckOutOfBoundsSymlinks wd readlink walk basePath = None" "filepath_Abs wd basePath = Inr base"
    and "VisitEntry path True \<in> set (walk base)" "filepath_IsAbs path" "readlink path = LinkTarget target"
  shows "\<not> filepath_IsAbs target \<and>
    (\<forall>k < length (strings_Split (CHR ''/'') target). prefix (abs_comps base)
      (abs_comps (foldl (\<lambda>d p. filepath_Join [d, p]) (filepath_Dir path) (take (Suc k) (strings_Split (CHR ''/'') target)))))"
proof -
  from assms(1,2) have "walk_visits (check_visit readlink base) (walk base) = None"
    by (simp add: CheckOutOfBoundsSymlinks_def)
  from walk_visits_None [OF this assms(3)] assms(5) have "\<not> filepath_IsAbs target"
    "check_target_parts base (filepath_Rel base path) (filepath_Dir path) (strings_Split (CHR ''/'') target) = None"
    by (auto simp: check_visit_def Let_def split: if_splits)
  with check_target_parts_confines [OF _ filepath_Dir_abs(2) [OF assms(4)]] show ?thesis by blast
qed

theorem symlink_check_confines_witness:
  "prefix (abs_comps ''/r'') (abs_comps (foldl (\<lambda>d p. filepath_Join [d, p]) (filepath_Dir ''/r/a/l'') [''..'', ''b'']))"
proof -
  let ?link = "\<lambda>p. LinkTarget ''../b''" and ?walk = "\<lambda>b. [VisitEntry ''/r/a/l'' True]"
  have "CheckOutOfBoundsSymlinks (Inr ''/'') ?link ?walk ''/r'' = None"
    by (simp add: CheckOutOfBoundsSymlinks_def filepath_Abs_def check_visit_def filepath_IsAbs_def filepath_Clean_def
        filepath_Dir_def filepath_Split_def filepath_Rel_def abs_comps_def Let_def)
  from symlink_check_confines [OF this, of "''/r''" "''/r/a/l''" "''../b''"]
  have "\<forall>k < 2. prefix (abs_comps ''/r'') (abs_comps (foldl (\<lambda>d p. filepath_Join [d, p]) (filepath_Dir ''/r/a/l'')
      (take (Suc k) [''..'', ''b''])))"
    by (simp add: filepath_Abs_def filepath_IsAbs_def filepath_Clean_def numeral_2_eq_2 Let_def del: filepath_Join.simps)
  from this [rule_format, of 1] show ?thesis by (simp del: filepath_Join.simps)
qed

lemma HasPrefix_appendI: "strings_HasPrefix s p \<Longrightarrow> strings_HasPrefix (s @ t) p"
  by (auto simp: HasPrefix_iff)

lemma HasSuffix_slash: "s \<noteq> [] \<Longrightarrow> strings_HasSuffix s ''/'' \<longleftrightarrow> last s = CHR ''/''"
  by (cases s rule: rev_cases) (simp_all add: strings_HasSuffix_def)

lemma terminated_prefix:
  assumes "\<forall>c \<in> set xs. is_name c" "\<forall>c \<in> set ys. is_name c" "xs \<noteq> []" "strings_HasPrefix (abs_path ys) (abs_path xs @ ''/'')"
  shows "prefix xs ys"
proof -
  have slash: "\<forall>c \<in> set xs. CHR ''/'' \<notin> set c" "\<forall>c \<in> set ys. CHR ''/'' \<notin> set c"
    using assms(1,2) by (auto simp: is_name_def)
  have t: "abs_path cs @ ''/'' = ''/'' @ concat (map (\<lambda>c. c @ ''/'') cs)" if "cs \<noteq> []" for cs
    unfolding abs_path_def append_assoc Join_sep [OF that] ..
  have "ys \<noteq> []"
  proof
    assume "ys = []"
    with assms(4) obtain r where "abs_path xs @ ''/'' @ r = ''/''" by (auto simp: HasPrefix_iff abs_path_def)
    then show False by (cases xs; cases "hd xs"; auto simp: abs_path_def)
  qed
  with HasPrefix_appendI [OF assms(4), of "''/''"] prefix_terminated [OF slash] assms(3) show ?thesis by (simp add: t)
qed

lemma check_root_confines:
  assumes "check_root (abs_path xs) (abs_path ys) f allow = Inr p"
    "\<forall>c \<in> set xs. is_name c" "\<forall>c \<in> set ys. is_name c"
  shows "p = abs_path ys \<and> prefix xs ys \<and> (xs \<noteq> [] \<and> \<not> allow \<longrightarrow> xs \<noteq> ys)"
proof -
  have p: "p = abs_path ys" using assms(1) by (auto simp: check_root_def Let_def split: if_splits)
  show ?thesis
  proof (cases "xs = []")
    case False
    then have "strings_HasSuffix (abs_path xs) ''/'' = False"
      using last_abs_path [OF assms(2)] HasSuffix_slash [of "abs_path xs"] by (simp add: abs_path_def)
    with assms(1) have "(ys = xs \<and> allow) \<or> (ys \<noteq> xs \<and> strings_HasPrefix (abs_path ys) (abs_path xs @ ''/''))"
      using abs_path_inj [OF assms(3,2)] by (auto simp: check_root_def Let_def split: if_splits)
    with terminated_prefix [OF assms(2,3) False] p show ?thesis by auto
  qed (simp add: p)
qed

lemma filepath_Abs_abs:
  assumes "filepath_Abs wd path = Inr q" "\<forall>d. wd = Inr d \<longrightarrow> filepath_IsAbs d"
  shows "q = abs_path (abs_comps q)"
proof (cases "filepath_IsAbs path")
  case True
  with assms(1) have "q = abs_path (abs_comps path)" by (simp add: filepath_Abs_def Clean_abs)
  then show ?thesis using abs_comps_names by simp
next
  case False
  with assms obtain d where "filepath_IsAbs d" "q = filepath_Join [d, path]"
    by (auto simp: filepath_Abs_def simp del: filepath_Join.simps split: sum.splits)
  then have "q = abs_path (abs_comps (d @ ''/'' @ path))" by (simp only: Join_abs)
  then show ?thesis using abs_comps_names by simp
qed

text \<open>
  (C28) A resolved file lies inside the repository: whatever the file system's links say, a path
  that \<open>resolveFileOrDirectory\<close> returns is absolute and clean and below the repository root
  component by component; unless resolving to the root is allowed, it is not the root
  itself, except that the root directory of the file system as repository root is let through.
\<close>

theorem resolved_path_is_inside_root:
  assumes "resolveFileOrDirectory wd readlink appPath repoRoot file allow = Inr p"
    and "filepath_Abs wd repoRoot = Inr root" "\<forall>d. wd = Inr d \<longrightarrow> filepath_IsAbs d"
  shows "p = abs_path (abs_comps p) \<and> prefix (abs_comps root) (abs_comps p) \<and>
    (abs_comps root \<noteq> [] \<and> \<not> allow \<longrightarrow> abs_comps p \<noteq> abs_comps root)"
proof -
  from assms(1,2) obtain q q' where q: "filepath_Abs wd q = Inr q'" and c: "check_root root q' file allow = Inr p"
    by (auto simp: resolveFileOrDirectory_def simp del: filepath_Join.simps split: sum.splits)
  have q': "q' = abs_path (abs_comps q')" by (rule filepath_Abs_abs [OF q assms(3)])
  have root: "root = abs_path (abs_comps root)" by (rule filepath_Abs_abs [OF assms(2,3)])
  have names: "\<forall>c \<in> set (abs_comps s). is_name c" for s using abs_comps_names by blast
  from c have "check_root (abs_path (abs_comps root)) (abs_path (abs_comps q')) file allow = Inr p"
    using root q' by simp
  from check_root_confines [OF this names names] q' show ?thesis by auto
qed

definition no_links :: "string \<Rightarrow> readlink_result" where
  "no_links p = NotALink"

theorem resolved_path_is_inside_root_witness:
  "prefix (abs_comps ''/repo'') (abs_comps ''/repo/app/values.yaml'')"
proof -
  have "resolveFileOrDirectory (Inr ''/'') no_links ''/repo/app'' ''/repo'' ''values.yaml'' False = Inr ''/repo/app/values.yaml''"
    by (simp add: resolveFileOrDirectory_def filepath_Abs_def filepath_IsAbs_def filepath_Clean_def no_links_def
        check_root_def strings_HasSuffix_def numeral_eq_Suc Let_def)
  from resolved_path_is_inside_root [OF this, of "''/repo''"] show ?thesis
    by (simp add: filepath_Abs_def filepath_IsAbs_def filepath_Clean_def Let_def)
qed

lemma Split_append: "strings_Split c (a @ c # b) = strings_Split c a @ strings_Split c b"
  by (induction a) (auto split: list.split)

lemma clean_names_append:
  "\<forall>c \<in> set cs. is_name c \<Longrightarrow> clean_comps True out (cs @ rest) = clean_comps True (rev cs @ out) rest"
  by (induction cs arbitrary: out) (auto simp: is_name_def)

lemma Join_snoc_append: "strings_Join (cs @ [d @ e]) sep = strings_Join (cs @ [d]) sep @ e"
  by (induction cs sep rule: strings_Join.induct) (auto simp: strings_Join_Cons)

text \<open>
  The root check of \<open>Path\<close> compares strings without a separator: for a root directory \<open>d\<close> the
  relative path \<open>../\<close> followed by any longer name that starts with \<open>d\<close> is accepted, although
  the directory it names is a sibling of the root and not below it.
\<close>

theorem app_path_accepts_sibling:
  assumes "\<forall>c \<in> set (cs @ [d]). is_name c" "is_name (d @ e)" "e \<noteq> []"
    and "stat (abs_path (cs @ [d @ e])) = StatInfo True"
  shows "Path stat (abs_path (cs @ [d])) (''../'' @ d @ e) = Inr (abs_path (cs @ [d @ e])) \<and>
    \<not> prefix (cs @ [d]) (cs @ [d @ e])"
proof -
  have "abs_path (cs @ [d]) @ ''/'' @ ''../'' @ d @ e = abs_path (cs @ [d]) @ CHR ''/'' # (''..'' @ CHR ''/'' # (d @ e))"
    by simp
  then have "strings_Split (CHR ''/'') (abs_path (cs @ [d]) @ ''/'' @ ''../'' @ d @ e) = [] # (cs @ [d]) @ [''..'', d @ e]"
    using assms(2) Split_abs_path [OF assms(1)] by (simp only: Split_append) (simp add: Split_single is_name_def)
  then have "abs_comps (abs_path (cs @ [d]) @ ''/'' @ ''../'' @ d @ e) = clean_comps True [] ((cs @ [d]) @ [''..'', d @ e])"
    by (simp add: abs_comps_def)
  also have "\<dots> = cs @ [d @ e]"
    using assms(1,2) by (simp only: clean_names_append) (auto simp: is_name_def)
  finally have j: "filepath_Join [abs_path (cs @ [d]), ''../'' @ d @ e] = abs_path (cs @ [d @ e])"
    by (simp only: Join_abs IsAbs_abs_path)
  have root: "filepath_Clean (abs_path (cs @ [d])) = abs_path (cs @ [d])" using assms(1) by (simp add: Clean_abs)
  have "strings_HasPrefix (abs_path (cs @ [d @ e])) (abs_path (cs @ [d]))"
    by (auto simp: HasPrefix_iff abs_path_def Join_snoc_append)
  then have "Path stat (abs_path (cs @ [d])) (''../'' @ d @ e) = Inr (abs_path (cs @ [d @ e]))"
    unfolding Path_def j root Let_def using assms(4) by (simp add: filepath_IsAbs_def)
  with assms(3) show ?thesis by simp
qed

theorem app_path_accepts_sibling_witness:
  "Path (\<lambda>p. StatInfo True) ''/repo'' ''../repo2'' = Inr ''/repo2''"
  using app_path_accepts_sibling [of "[]" "''repo''" "''2''" "\<lambda>p. StatInfo True"]
  by (simp add: abs_path_def is_name_def)

section \<open>Files named by git\<close>

lemma filepath_Dir_abs_path:
  assumes "\<forall>c \<in> set cs. is_name c" "cs \<noteq> []"
  shows "abs_comps (filepath_Dir (abs_path cs)) = butlast cs"
proof -
  obtain ds d where cs: "cs = ds @ [d]" using assms(2) by (cases cs rule: rev_cases) auto
  then have d: "CHR ''/'' \<notin> set d" "\<forall>c \<in> set ds. is_name c" using assms(1) by (auto simp: is_name_def)
  obtain pre where pre: "abs_path cs = pre @ CHR ''/'' # d" "abs_comps (pre @ ''/'') = ds"
  proof (cases "ds = []")
    case True
    then show thesis by (intro that [of "[]"]) (simp_all add: cs abs_path_def abs_comps_def)
  next
    case False
    then have "strings_Join (ds @ [d]) ''/'' = strings_Join ds ''/'' @ CHR ''/'' # d"
      by (induction ds "''/''" rule: strings_Join.induct) (auto simp: strings_Join_Cons)
    moreover have "abs_comps (abs_path ds @ ''/'') = ds"
      using d(2) False by (simp add: abs_comps_def Split_append Split_abs_path clean_names_append)
    ultimately show thesis by (intro that [of "abs_path ds"]) (simp_all add: cs abs_path_def)
  qed
  have "fst (filepath_Split (abs_path cs)) = pre @ ''/''"
    using d(1) by (simp add: filepath_Split_def pre(1) takeWhile_append Let_def)
  moreover from pre(1) have "filepath_IsAbs (pre @ ''/'')" by (cases pre) (auto simp: abs_path_def filepath_IsAbs_def)
  ultimately show ?thesis unfolding filepath_Dir_def using pre(2) cs by simp
qed

text \<open>
  A changed file as git prints it, a list of names joined by separators, concerns a refresh path
  exactly when it has the path's name, lies strictly below it, or matches it as a pattern.
\<close>

lemma concerns_git_file:
  assumes "\<forall>c \<in> set cs. is_name c" "cs \<noteq> []"
  shows "concerns item (strings_Join cs ''/'') \<longleftrightarrow> abs_path cs = ensureAbsPath item \<or>
    strict_prefix (abs_comps (ensureAbsPath item)) cs \<or> filepath_Match (ensureAbsPath item) (abs_path cs) = Some True"
proof -
  obtain n ns where n: "cs = n # ns" "is_name n" using assms by (cases cs) auto
  then have "\<not> filepath_IsAbs (strings_Join cs ''/'')"
    by (cases ns; cases n) (auto simp: filepath_IsAbs_def is_name_def)
  then have abs: "ensureAbsPath (strings_Join cs ''/'') = abs_path cs" by (simp add: ensureAbsPath_def abs_path_def)
  have "prefix xs (butlast cs) \<longleftrightarrow> strict_prefix xs cs" for xs
    using assms(2) by (cases cs rule: rev_cases) (auto simp: strict_prefix_def prefix_snoc)
  then show ?thesis unfolding concerns_def abs filepath_Dir_abs_path [OF assms] by auto
qed

end
