(* ===== verification/GitURL.thy ===== *)
theory GitURL
  imports GoStrconv
begin

text \<open>
  Commit ids and repository URLs, \<open>util/git/git.go\<close>: what a commit id is, the kinds of URLs and the
  normalisation by which URLs of one repository are recognised.
\<close>

section \<open>Commit ids and kinds of URLs\<close>

definition hex_digit :: "char \<Rightarrow> bool" where
  "hex_digit c \<longleftrightarrow> (48 \<le> byte c \<and> byte c \<le> 57) \<or> (65 \<le> byte c \<and> byte c \<le> 70) \<or> (97 \<le> byte c \<and> byte c \<le> 102)"

definition IsCommitSHA :: "string \<Rightarrow> bool" where
  "IsCommitSHA sha \<longleftrightarrow> length sha = 40 \<and> list_all hex_digit sha"

definition IsTruncatedCommitSHA :: "string \<Rightarrow> bool" where
  "IsTruncatedCommitSHA sha \<longleftrightarrow> length sha \<ge> 7 \<and> list_all hex_digit sha"

definition ensurePrefix :: "string \<Rightarrow> string \<Rightarrow> string" where
  "ensurePrefix s p = (if \<not> strings_HasPrefix s p then p @ s else s)"

definition IsHTTPSURL :: "string \<Rightarrow> bool" where
  "IsHTTPSURL url = strings_HasPrefix url ''https://''"

definition IsHTTPURL :: "string \<Rightarrow> bool" where
  "IsHTTPURL url = strings_HasPrefix url ''http://''"

section \<open>Repository URLs\<close>

text \<open>
  \<open>^(ssh://)?([^/:]*?)@[^@]+$\<close>: after the optional scheme, what precedes the last at sign
  has neither slash nor colon, and something follows it.
\<close>

fun split_last_at :: "string \<Rightarrow> (string \<times> string) option" where
  "split_last_at [] = None"
| "split_last_at (c # s) = (case split_last_at s of
     Some (user, host) \<Rightarrow> Some (c # user, host)
   | None \<Rightarrow> if c = CHR ''@'' then Some ([], s) else None)"

definition IsSSHURL :: "string \<Rightarrow> bool \<times> string" where
  "IsSSHURL url = (case split_last_at (strings_TrimPrefix url ''ssh://'') of
     Some (user, host) \<Rightarrow>
       if host \<noteq> [] \<and> CHR ''/'' \<notin> set user \<and> CHR '':'' \<notin> set user then (True, user) else (False, [])
   | None \<Rightarrow> (False, []))"

fun replace_first_colon :: "string \<Rightarrow> string" where
  "replace_first_colon [] = []"
| "replace_first_colon (c # s) = (if c = CHR '':'' then CHR ''/'' # s else c # replace_first_colon s)"

text \<open>\<open>url_String\<close> is \<open>url.Parse\<close> followed by \<open>String\<close>, \<open>None\<close> when the URL does not parse.\<close>

definition NormalizeGitURL :: "(string \<Rightarrow> string option) \<Rightarrow> string \<Rightarrow> string" where
  "NormalizeGitURL url_String repo0 =
     (let repo1 = map ascii_lower (strings_TrimSpace repo0);
          repo2 = (if fst (IsSSHURL repo1) \<and> \<not> strings_HasPrefix repo1 ''ssh://''
                   then ensurePrefix (replace_first_colon repo1) ''ssh://'' else repo1);
          repo3 = strings_TrimSuffix repo2 ''.git''
      in case url_String repo3 of
           None \<Rightarrow> []
         | Some normalized \<Rightarrow> strings_TrimPrefix normalized ''ssh://'')"

definition NormalizeGitURLAllowInvalid :: "(string \<Rightarrow> string option) \<Rightarrow> string \<Rightarrow> string" where
  "NormalizeGitURLAllowInvalid url_String repo =
     (let normalized = NormalizeGitURL url_String repo in if normalized = [] then repo else normalized)"

definition SameURL :: "(string \<Rightarrow> string option) \<Rightarrow> string \<Rightarrow> string \<Rightarrow> bool" where
  "SameURL url_String leftRepo rightRepo =
     (let normalLeft = NormalizeGitURLAllowInvalid url_String leftRepo;
          normalRight = NormalizeGitURLAllowInvalid url_String rightRepo
      in normalLeft \<noteq> [] \<and> normalRight \<noteq> [] \<and> normalLeft = normalRight)"

end
