(* ===== verification/GitClient.thy ===== *)
theory GitClient
  imports AppPath GitURL
begin

text \<open>
  The git client of the repository server: \<open>util/git/mrp_client.go\<close> (listing revisions and the
  files of a revision, with their caches), \<open>util/git/client.go\<close> (fetching, checking out,
  resolving a revision, running git), \<open>util/git/git.go\<close> (commit ids and URL kinds),
  \<open>util/versions/tags.go\<close> (semantic version constraints) and \<open>util/proxy/proxy.go\<close> (proxy variables).

  The git process, the credential helpers, the caches and the remote are the functions of
  \<open>git_env\<close>, which act on a world \<open>'w\<close>; the semantic version library is the record \<open>semver\<close>.
\<close>

section \<open>Semantic versions (versions/tags.go)\<close>

text \<open>
  The semantic version library: parsing a version (with whether the error is
  \<open>ErrInvalidSemVer\<close>) and a constraint, the text a version was parsed from, and the order.
\<close>

record 'v semver =
  sv_NewVersion :: "string \<Rightarrow> go_error \<times> bool + 'v"
  sv_Original :: "'v \<Rightarrow> string"
  sv_NewConstraint :: "string \<Rightarrow> go_error + ('v \<Rightarrow> bool)"
  sv_GreaterThan :: "'v \<Rightarrow> 'v \<Rightarrow> bool"

text \<open>The loop over the tags; the accumulator is \<open>maxVersion\<close>.\<close>

fun max_version_loop :: "'v semver \<Rightarrow> ('v \<Rightarrow> bool) \<Rightarrow> string list \<Rightarrow> 'v option \<Rightarrow> 'v option result" where
  "max_version_loop lib check [] maxV = Inr maxV"
| "max_version_loop lib check (tag # tags) maxV = (case sv_NewVersion lib tag of
     Inl (err, invalid) \<Rightarrow>
       if invalid then max_version_loop lib check tags maxV
       else Inl (Wrapped ''invalid semver version in tags'' err)
   | Inr v \<Rightarrow>
       max_version_loop lib check tags
         (if check v then
            (case maxV of
               None \<Rightarrow> Some v
             | Some m \<Rightarrow> if sv_GreaterThan lib v m then Some v else Some m)
          else maxV))"

definition MaxVersion :: "'v semver \<Rightarrow> string \<Rightarrow> string list \<Rightarrow> string result" where
  "MaxVersion lib revision tags = (case sv_NewVersion lib revision of
     Inr v \<Rightarrow> Inr (sv_Original lib v)
   | Inl _ \<Rightarrow>
       (case sv_NewConstraint lib revision of
          Inl err \<Rightarrow>
            if \<exists>tag \<in> set tags. tag = revision then Inr revision
            else Inl (Wrapped ''failed to determine semver constraint'' err)
        | Inr check \<Rightarrow>
            (case max_version_loop lib check tags None of
               Inl err \<Rightarrow> Inl err
             | Inr None \<Rightarrow> Inl (ErrorString (''version matching constraint not found in '' @ decimal (length tags) @ '' tags''))
             | Inr (Some m) \<Rightarrow> Inr (sv_Original lib m))))"

section \<open>Proxy variables (proxy.go)\<close>

definition is_proxy_var :: "string \<Rightarrow> bool" where
  "is_proxy_var e \<longleftrightarrow>
     (let p = map ascii_lower e in
      strings_HasPrefix p ''http_proxy'' \<or> strings_HasPrefix p ''https_proxy'' \<or> strings_HasPrefix p ''no_proxy'')"

definition UpsertEnv :: "string list \<Rightarrow> string \<Rightarrow> string \<Rightarrow> string list" where
  "UpsertEnv env proxy noProxy =
     (if proxy = [] then env
      else filter (\<lambda>e. \<not> is_proxy_var e) env @
        [''http_proxy='' @ proxy, ''https_proxy='' @ proxy, ''no_proxy='' @ noProxy])"

section \<open>The client and its environment\<close>

datatype ref_value = HashReference string | SymbolicReference string

record git_ref =
  ref_Name :: string
  ref_Short :: string
  ref_IsTag :: bool
  ref_Value :: ref_value

text \<open>An event handler returns the function to call when the operation is done.\<close>

record 'w EventHandlers =
  eh_OnLsRemote :: "(string \<Rightarrow> 'w \<Rightarrow> 'w \<times> ('w \<Rightarrow> 'w)) option"
  eh_OnFetch :: "(string \<Rightarrow> 'w \<Rightarrow> 'w \<times> ('w \<Rightarrow> 'w)) option"
  eh_OnPush :: "(string \<Rightarrow> 'w \<Rightarrow> 'w \<times> ('w \<Rightarrow> 'w)) option"
  eh_OnDiffTree :: "(string \<Rightarrow> 'w \<Rightarrow> 'w \<times> (bool \<Rightarrow> bool \<Rightarrow> 'w \<Rightarrow> 'w)) option"
  eh_OnRevList :: "(string \<Rightarrow> 'w \<Rightarrow> 'w \<times> (bool \<Rightarrow> bool \<Rightarrow> 'w \<Rightarrow> 'w)) option"

record 'w listRevisionsCache =
  GetListRevisions :: "string \<Rightarrow> string \<Rightarrow> string \<Rightarrow> 'w \<Rightarrow> string list result \<times> 'w"
  SetListRevisions :: "string \<Rightarrow> string \<Rightarrow> string \<Rightarrow> string list \<Rightarrow> 'w \<Rightarrow> go_error option \<times> 'w"

record 'w diffTreeCache =
  GetDiffTree :: "string \<Rightarrow> string \<Rightarrow> 'w \<Rightarrow> string list result \<times> 'w"
  SetDiffTree :: "string \<Rightarrow> string \<Rightarrow> string list \<Rightarrow> 'w \<Rightarrow> go_error option \<times> 'w"

record 'w gitRefCache =
  SetGitReferences :: "string \<Rightarrow> git_ref list \<Rightarrow> 'w \<Rightarrow> go_error option \<times> 'w"
  GetOrLockGitReferences :: "string \<Rightarrow> string \<Rightarrow> 'w \<Rightarrow> (string \<times> git_ref list \<times> go_error option) \<times> 'w"
  UnlockGitReferences :: "string \<Rightarrow> string \<Rightarrow> 'w \<Rightarrow> go_error option \<times> 'w"

record 'w nativeGitClient =
  gc_handlers :: "'w EventHandlers"
  gc_repoURL :: string
  gc_root :: string
  gc_insecure :: bool
  gc_enableLfs :: bool
  gc_gitRefCache :: "'w gitRefCache option"
  gc_loadRefFromCache :: bool
  gc_listRevisionsCache :: "'w listRevisionsCache option"
  gc_useListRevisionsCache :: bool
  gc_diffTreeCache :: "'w diffTreeCache option"
  gc_useDiffTreeCache :: bool
  gc_proxy :: string
  gc_noProxy :: string

type_synonym 'w ClientOpts = "'w nativeGitClient \<Rightarrow> 'w nativeGitClient"

definition WithCache :: "'w gitRefCache \<Rightarrow> bool \<Rightarrow> 'w ClientOpts" where
  "WithCache cache loadRefFromCache c = c\<lparr>gc_gitRefCache := Some cache, gc_loadRefFromCache := loadRefFromCache\<rparr>"

definition WithListRevisionsCache :: "'w listRevisionsCache \<Rightarrow> 'w ClientOpts" where
  "WithListRevisionsCache cache c = c\<lparr>gc_listRevisionsCache := Some cache, gc_useListRevisionsCache := True\<rparr>"

definition WithDiffTreeCache :: "'w diffTreeCache \<Rightarrow> 'w ClientOpts" where
  "WithDiffTreeCache cache c = c\<lparr>gc_diffTreeCache := Some cache, gc_useDiffTreeCache := True\<rparr>"

definition WithEventHandlers :: "'w EventHandlers \<Rightarrow> 'w ClientOpts" where
  "WithEventHandlers handlers c = c\<lparr>gc_handlers := handlers\<rparr>"

definition NewClientExt :: "string \<Rightarrow> string \<Rightarrow> bool \<Rightarrow> bool \<Rightarrow> string \<Rightarrow> string \<Rightarrow> 'w ClientOpts list \<Rightarrow> 'w nativeGitClient" where
  "NewClientExt rawRepoURL root insecure enableLfs proxy noProxy opts =
     foldl (\<lambda>c opt. opt c)
       \<lparr>gc_handlers = \<lparr>eh_OnLsRemote = None, eh_OnFetch = None, eh_OnPush = None, eh_OnDiffTree = None, eh_OnRevList = None\<rparr>,
        gc_repoURL = rawRepoURL, gc_root = root, gc_insecure = insecure, gc_enableLfs = enableLfs,
        gc_gitRefCache = None, gc_loadRefFromCache = False, gc_listRevisionsCache = None, gc_useListRevisionsCache = False,
        gc_diffTreeCache = None, gc_useDiffTreeCache = False, gc_proxy = proxy, gc_noProxy = noProxy\<rparr> opts"

text \<open>
  \<open>ge_exec\<close> runs a program with its arguments, working directory and environment and returns its
  output and an optional error; \<open>ge_Environ\<close> asks the credentials for environment variables;
  \<open>ge_certPath\<close> is the custom certificate bundle of the repository's host, if its URL parses
  and there is one; \<open>ge_openRepo\<close> to \<open>ge_createRemote\<close> are the calls into go-git and the file
  system that prepare the local repository.
\<close>

datatype open_result = RepoOpened | RepoNotExists | RepoOpenError go_error

record 'w git_env =
  ge_exec :: "string \<Rightarrow> string list \<Rightarrow> string \<Rightarrow> string list \<Rightarrow> 'w \<Rightarrow> (string \<times> go_error option) \<times> 'w"
  ge_osEnviron :: "string list"
  ge_certPath :: "string \<Rightarrow> string option"
  ge_Environ :: "'w \<Rightarrow> string list result \<times> 'w"
  ge_closeCreds :: "'w \<Rightarrow> 'w"
  ge_hasGitmodules :: "string \<Rightarrow> 'w \<Rightarrow> bool"
  ge_openRepo :: "string \<Rightarrow> 'w \<Rightarrow> open_result"
  ge_removeAll :: "string \<Rightarrow> 'w \<Rightarrow> go_error option \<times> 'w"
  ge_mkdirAll :: "string \<Rightarrow> 'w \<Rightarrow> go_error option \<times> 'w"
  ge_plainInit :: "string \<Rightarrow> 'w \<Rightarrow> go_error option \<times> 'w"
  ge_createRemote :: "string \<Rightarrow> 'w \<Rightarrow> go_error option \<times> 'w"
  ge_newUUID :: "'w \<Rightarrow> string result \<times> 'w"
  ge_initMemory :: "'w \<Rightarrow> go_error option \<times> 'w"
  ge_newAuth :: "string \<Rightarrow> 'w \<Rightarrow> go_error option \<times> 'w"
  ge_listRemote :: "string \<Rightarrow> 'w \<Rightarrow> git_ref list result \<times> 'w"

section \<open>Running git\<close>

definition runCmdOutput :: "'w git_env \<Rightarrow> 'w nativeGitClient \<Rightarrow> string \<Rightarrow> string list \<Rightarrow> string list \<Rightarrow> 'w
    \<Rightarrow> (string \<times> go_error option) \<times> 'w" where
  "runCmdOutput env m prog args cmdEnv w =
     (let e1 = ge_osEnviron env @ cmdEnv @ [''HOME=/dev/null'', ''GIT_LFS_SKIP_SMUDGE=1'', ''GIT_TERMINAL_PROMPT=false''];
          e2 = (if IsHTTPSURL (gc_repoURL m) then
                  (if gc_insecure m then e1 @ [''GIT_SSL_NO_VERIFY=true'']
                   else case ge_certPath env (gc_repoURL m) of
                     Some caPath \<Rightarrow> if caPath \<noteq> [] then e1 @ [''GIT_SSL_CAINFO='' @ caPath] else e1
                   | None \<Rightarrow> e1)
                else e1)
      in ge_exec env prog args (gc_root m) (UpsertEnv e2 (gc_proxy m) (gc_noProxy m)) w)"

definition runCmd :: "'w git_env \<Rightarrow> 'w nativeGitClient \<Rightarrow> string list \<Rightarrow> 'w \<Rightarrow> (string \<times> go_error option) \<times> 'w" where
  "runCmd env m args w = runCmdOutput env m ''git'' args [] w"

definition forceBasicAuthHeaderEnv :: string where "forceBasicAuthHeaderEnv = ''ARGOCD_GIT_AUTH_HEADER''"
definition bearerAuthHeaderEnv :: string where "bearerAuthHeaderEnv = ''ARGOCD_GIT_BEARER_AUTH_HEADER''"

text \<open>The header options a credential environment asks for, put in front of the arguments.\<close>

fun auth_args :: "string list \<Rightarrow> string list \<Rightarrow> string list" where
  "auth_args [] args = args"
| "auth_args (e # es) args = auth_args es
     (if strings_HasPrefix e (forceBasicAuthHeaderEnv @ ''='')
      then [''--config-env'', ''http.extraHeader='' @ forceBasicAuthHeaderEnv] @ args
      else if strings_HasPrefix e (bearerAuthHeaderEnv @ ''='')
      then [''--config-env'', ''http.extraHeader='' @ bearerAuthHeaderEnv] @ args
      else args)"

definition runCredentialedCmd :: "'w git_env \<Rightarrow> 'w nativeGitClient \<Rightarrow> string list \<Rightarrow> 'w \<Rightarrow> go_error option \<times> 'w" where
  "runCredentialedCmd env m args w =
     (let (r, w1) = ge_Environ env w in
      case r of
        Inl err \<Rightarrow> (Some err, w1)
      | Inr environ \<Rightarrow>
          let ((out, err), w2) = runCmdOutput env m ''git'' (auth_args environ args) environ w1
          in (err, ge_closeCreds env w2))"

section \<open>Local repository\<close>

definition git_Init :: "'w git_env \<Rightarrow> 'w nativeGitClient \<Rightarrow> 'w \<Rightarrow> go_error option \<times> 'w" where
  "git_Init env m w = (case ge_openRepo env (gc_root m) w of
     RepoOpened \<Rightarrow> (None, w)
   | RepoOpenError err \<Rightarrow> (Some err, w)
   | RepoNotExists \<Rightarrow>
       let (e1, w1) = ge_removeAll env (gc_root m) w in
       case e1 of
         Some err \<Rightarrow> (Some (Wrapped (''unable to clean repo at '' @ gc_root m) err), w1)
       | None \<Rightarrow>
           let (e2, w2) = ge_mkdirAll env (gc_root m) w1 in
           case e2 of
             Some err \<Rightarrow> (Some err, w2)
           | None \<Rightarrow>
               let (e3, w3) = ge_plainInit env (gc_root m) w2 in
               case e3 of
                 Some err \<Rightarrow> (Some err, w3)
               | None \<Rightarrow> ge_createRemote env (gc_repoURL m) w3)"

definition fetch_cmd :: "'w git_env \<Rightarrow> 'w nativeGitClient \<Rightarrow> string \<Rightarrow> 'w \<Rightarrow> go_error option \<times> 'w" where
  "fetch_cmd env m revision w =
     (if revision \<noteq> [] then runCredentialedCmd env m [''fetch'', ''origin'', revision, ''--tags'', ''--force'', ''--prune''] w
      else runCredentialedCmd env m [''fetch'', ''origin'', ''--tags'', ''--force'', ''--prune''] w)"

definition IsRevisionPresent :: "'w git_env \<Rightarrow> 'w nativeGitClient \<Rightarrow> string \<Rightarrow> 'w \<Rightarrow> bool \<times> 'w" where
  "IsRevisionPresent env m revision w =
     (if revision = [] then (False, w)
      else let ((out, err), w1) = runCmdOutput env m ''git'' [''cat-file'', ''-t'', revision] [] w
           in (out = ''commit'' \<and> err = None, w1))"

definition LsLargeFiles :: "'w git_env \<Rightarrow> 'w nativeGitClient \<Rightarrow> 'w \<Rightarrow> string list result \<times> 'w" where
  "LsLargeFiles env m w =
     (let ((out, err), w1) = runCmd env m [''lfs'', ''ls-files'', ''-n''] w in
      case err of Some e \<Rightarrow> (Inl e, w1) | None \<Rightarrow> (Inr (strings_Split (CHR 0x0A) out), w1))"

text \<open>Inside the LFS block \<open>err\<close> is shadowed: a failure to list large files does not fail the fetch.\<close>

definition git_Fetch :: "'w git_env \<Rightarrow> 'w nativeGitClient \<Rightarrow> string \<Rightarrow> 'w \<Rightarrow> go_error option \<times> 'w" where
  "git_Fetch env m revision w =
     (let (w0, finish) = (case eh_OnFetch (gc_handlers m) of None \<Rightarrow> (w, id) | Some h \<Rightarrow> h (gc_repoURL m) w);
          (err, w1) = fetch_cmd env m revision w0;
          (res, w2) =
            (if err = None \<and> gc_enableLfs m then
               let (files, w2) = LsLargeFiles env m w1 in
               case files of
                 Inl e \<Rightarrow> (err, w2)
               | Inr largeFiles \<Rightarrow>
                   if length largeFiles > 0 then
                     let (e, w3) = runCredentialedCmd env m [''lfs'', ''fetch'', ''--all''] w2
                     in case e of Some er \<Rightarrow> (Some er, w3) | None \<Rightarrow> (err, w3)
                   else (err, w2)
             else (err, w1))
      in (res, finish w2))"

definition Submodule :: "'w git_env \<Rightarrow> 'w nativeGitClient \<Rightarrow> 'w \<Rightarrow> go_error option \<times> 'w" where
  "Submodule env m w =
     (let (err, w1) = runCredentialedCmd env m [''submodule'', ''sync'', ''--recursive''] w in
      case err of
        Some e \<Rightarrow> (Some e, w1)
      | None \<Rightarrow> runCredentialedCmd env m [''submodule'', ''update'', ''--init'', ''--recursive''] w1)"

definition checkout_lfs :: "'w git_env \<Rightarrow> 'w nativeGitClient \<Rightarrow> 'w \<Rightarrow> (string \<times> go_error) option \<times> 'w" where
  "checkout_lfs env m w =
     (if gc_enableLfs m then
        let (files, w1) = LsLargeFiles env m w in
        case files of
          Inl err \<Rightarrow> (Some ([], Wrapped ''failed to list LFS files'' err), w1)
        | Inr largeFiles \<Rightarrow>
            if length largeFiles > 0 then
              let ((out, err), w2) = runCmd env m [''lfs'', ''checkout''] w1 in
              case err of
                Some e \<Rightarrow> (Some (out, Wrapped ''failed to checkout LFS files'' e), w2)
              | None \<Rightarrow> (None, w2)
            else (None, w1)
      else (None, w))"

definition checkout_submodules :: "'w git_env \<Rightarrow> 'w nativeGitClient \<Rightarrow> bool \<Rightarrow> 'w \<Rightarrow> (string \<times> go_error) option \<times> 'w" where
  "checkout_submodules env m submoduleEnabled w =
     (if ge_hasGitmodules env (gc_root m) w \<and> submoduleEnabled then
        let (err, w1) = Submodule env m w in
        case err of
          Some e \<Rightarrow> (Some ([], Wrapped ''failed to update submodules'' e), w1)
        | None \<Rightarrow> (None, w1)
      else (None, w))"

definition Checkout :: "'w git_env \<Rightarrow> 'w nativeGitClient \<Rightarrow> string \<Rightarrow> bool \<Rightarrow> 'w \<Rightarrow> (string \<times> go_error option) \<times> 'w" where
  "Checkout env m revision0 submoduleEnabled w =
     (let revision = (if revision0 = [] \<or> revision0 = ''HEAD'' then ''origin/HEAD'' else revision0);
          ((out, err), w1) = runCmd env m [''checkout'', ''--force'', revision] w
      in case err of
           Some e \<Rightarrow> ((out, Some (Wrapped (''failed to checkout '' @ revision) e)), w1)
         | None \<Rightarrow>
             let (r2, w2) = checkout_lfs env m w1 in
             case r2 of
               Some (out, e) \<Rightarrow> ((out, Some e), w2)
             | None \<Rightarrow>
                 let (r3, w3) = checkout_submodules env m submoduleEnabled w2 in
                 case r3 of
                   Some (out, e) \<Rightarrow> ((out, Some e), w3)
                 | None \<Rightarrow>
                     let ((out, err), w4) = runCmd env m [''clean'', ''-ffdx''] w3 in
                     case err of
                       Some e \<Rightarrow> ((out, Some (Wrapped ''failed to clean'' e)), w4)
                     | None \<Rightarrow> (([], None), w4))"

section \<open>Resolving a revision\<close>

text \<open>The part of \<open>getRefs\<close> that asks the remote.\<close>

definition remote_refs :: "'w git_env \<Rightarrow> 'w nativeGitClient \<Rightarrow> 'w \<Rightarrow> git_ref list result \<times> 'w" where
  "remote_refs env m w =
     (let (e1, w1) = ge_initMemory env w in
      case e1 of
        Some err \<Rightarrow> (Inl err, w1)
      | None \<Rightarrow>
          let (e2, w2) = ge_createRemote env (gc_repoURL m) w1 in
          case e2 of
            Some err \<Rightarrow> (Inl err, w2)
          | None \<Rightarrow>
              let (e3, w3) = ge_newAuth env (gc_repoURL m) w2 in
              case e3 of
                Some err \<Rightarrow> (Inl err, w3)
              | None \<Rightarrow> ge_listRemote env (gc_repoURL m) w3)"

text \<open>
  The rest of \<open>getRefs\<close> once it is known that the remote has to be asked; \<open>locked\<close> says whether
  the deferred unlock was registered.
\<close>

definition getRefs_remote :: "'w git_env \<Rightarrow> 'w nativeGitClient \<Rightarrow> string \<Rightarrow> bool \<Rightarrow> 'w \<Rightarrow> git_ref list result \<times> 'w" where
  "getRefs_remote env m myLockId locked w =
     (let (w1, finish) = (case eh_OnLsRemote (gc_handlers m) of None \<Rightarrow> (w, id) | Some h \<Rightarrow> h (gc_repoURL m) w);
          (res, w2) = remote_refs env m w1;
          (needsUnlock, w3) =
            (case (res, gc_gitRefCache m) of
               (Inr refs, Some cache) \<Rightarrow>
                 let (err, w3) = SetGitReferences cache (gc_repoURL m) refs w2 in (err \<noteq> None, w3)
             | _ \<Rightarrow> (True, w2));
          w4 = finish w3;
          w5 = (case gc_gitRefCache m of
                  Some cache \<Rightarrow> if locked \<and> needsUnlock then snd (UnlockGitReferences cache (gc_repoURL m) myLockId w4) else w4
                | None \<Rightarrow> w4)
      in (res, w5))"

definition getRefs :: "'w git_env \<Rightarrow> 'w nativeGitClient \<Rightarrow> 'w \<Rightarrow> git_ref list result \<times> 'w" where
  "getRefs env m w =
     (let (uuid, w1) = ge_newUUID env w;
          myLockId = (case uuid of Inl err \<Rightarrow> [] | Inr s \<Rightarrow> s)
      in case gc_gitRefCache m of
           Some cache \<Rightarrow>
             if gc_loadRefFromCache m then
               let ((foundLockId, res, err), w2) = GetOrLockGitReferences cache (gc_repoURL m) myLockId w1 in
               if myLockId \<noteq> foundLockId then (case err of None \<Rightarrow> (Inr res, w2) | Some e \<Rightarrow> (Inl e, w2))
               else getRefs_remote env m myLockId True w2
             else getRefs_remote env m myLockId False w1
         | None \<Rightarrow> getRefs_remote env m myLockId False w1)"

definition getGitTags :: "git_ref list \<Rightarrow> string list" where
  "getGitTags refs = map ref_Short (filter ref_IsTag refs)"

text \<open>
  The loop over the references: the hash of the first matching hash reference, or the map of
  hashes and the target of the last matching symbolic reference.
\<close>

fun resolve_loop :: "string \<Rightarrow> git_ref list \<Rightarrow> (string \<rightharpoonup> string) \<Rightarrow> string \<Rightarrow> string + (string \<rightharpoonup> string) \<times> string" where
  "resolve_loop revision [] refToHash refToResolve = Inr (refToHash, refToResolve)"
| "resolve_loop revision (ref # refs) refToHash refToResolve =
     (let hit = (ref_Short ref = revision \<or> ref_Name ref = revision) in
      case ref_Value ref of
        HashReference hash \<Rightarrow>
          if hit then Inl hash else resolve_loop revision refs (refToHash(ref_Name ref \<mapsto> hash)) refToResolve
      | SymbolicReference target \<Rightarrow>
          resolve_loop revision refs refToHash (if hit then target else refToResolve))"

definition resolve_refs :: "string \<Rightarrow> git_ref list \<Rightarrow> string result" where
  "resolve_refs revision refs = (case resolve_loop revision refs Map.empty [] of
     Inl hash \<Rightarrow> Inr hash
   | Inr (refToHash, refToResolve) \<Rightarrow>
       (case (if refToResolve \<noteq> [] then refToHash refToResolve else None) of
          Some hash \<Rightarrow> Inr hash
        | None \<Rightarrow>
            if IsTruncatedCommitSHA revision then Inr revision
            else Inl (ErrorString (''unable to resolve '' @ [CHR 0x27] @ revision @ [CHR 0x27] @ '' to a commit SHA''))))"

definition lsRemote :: "'w git_env \<Rightarrow> 'v semver \<Rightarrow> 'w nativeGitClient \<Rightarrow> string \<Rightarrow> 'w \<Rightarrow> string result \<times> 'w" where
  "lsRemote env lib m revision w =
     (if IsCommitSHA revision then (Inr revision, w)
      else
        let (refs, w1) = getRefs env m w in
        case refs of
          Inl err \<Rightarrow> (Inl (Wrapped ''failed to list refs'' err), w1)
        | Inr rs \<Rightarrow>
            let rev1 = (if revision = [] then ''HEAD'' else revision);
                rev2 = (case MaxVersion lib rev1 (getGitTags rs) of Inr maxV \<Rightarrow> maxV | Inl _ \<Rightarrow> rev1)
            in (resolve_refs rev2 rs, w1))"

text \<open>The attempts that are left are the recursion argument; waiting between attempts is not modelled.\<close>

fun LsRemote_loop :: "'w git_env \<Rightarrow> 'v semver \<Rightarrow> 'w nativeGitClient \<Rightarrow> string \<Rightarrow> nat \<Rightarrow> string result \<Rightarrow> 'w \<Rightarrow> string result \<times> 'w" where
  "LsRemote_loop env lib m revision 0 res w = (res, w)"
| "LsRemote_loop env lib m revision (Suc n) res w =
     (let (r, w1) = lsRemote env lib m revision w in
      case r of Inr sha \<Rightarrow> (Inr sha, w1) | Inl err \<Rightarrow> LsRemote_loop env lib m revision n (Inl err) w1)"

definition LsRemote :: "nat \<Rightarrow> 'w git_env \<Rightarrow> 'v semver \<Rightarrow> 'w nativeGitClient \<Rightarrow> string \<Rightarrow> 'w \<Rightarrow> string result \<times> 'w" where
  "LsRemote maxAttemptsCount env lib m revision w = LsRemote_loop env lib m revision maxAttemptsCount (Inr []) w"

section \<open>Revisions and files\<close>

definition CommitSHA :: "'w git_env \<Rightarrow> 'w nativeGitClient \<Rightarrow> 'w \<Rightarrow> string result \<times> 'w" where
  "CommitSHA env m w =
     (let ((out, err), w1) = runCmd env m [''rev-parse'', ''HEAD''] w in
      case err of Some e \<Rightarrow> (Inl e, w1) | None \<Rightarrow> (Inr (strings_TrimSpace out), w1))"

definition IsAnnotatedTag :: "'w git_env \<Rightarrow> 'w nativeGitClient \<Rightarrow> string \<Rightarrow> 'w \<Rightarrow> bool \<times> 'w" where
  "IsAnnotatedTag env m revision w =
     (let ((out, err), w1) = runCmdOutput env m ''git'' [''describe'', ''--exact-match'', revision] [] w
      in (out \<noteq> [] \<and> err = None, w1))"

definition invalid_revision_error :: go_error where
  "invalid_revision_error = ErrorString ''invalid revision provided, must be SHA''"

definition ChangedFiles :: "'w git_env \<Rightarrow> 'w nativeGitClient \<Rightarrow> string \<Rightarrow> string \<Rightarrow> 'w \<Rightarrow> string list result \<times> 'w" where
  "ChangedFiles env m revision targetRevision w =
     (if revision = targetRevision then (Inr [], w)
      else if \<not> IsCommitSHA revision \<or> \<not> IsCommitSHA targetRevision then (Inl invalid_revision_error, w)
      else
        let ((out, err), w1) = runCmd env m [''diff'', ''--name-only'', revision @ ''..'' @ targetRevision] w in
        case err of
          Some e \<Rightarrow> (Inl (Wrapped (''failed to diff '' @ revision @ ''..'' @ targetRevision) e), w1)
        | None \<Rightarrow> (Inr (if out = [] then [] else strings_Split (CHR 0x0A) out), w1))"

text \<open>The part of \<open>ListRevisions\<close> inside its event handler: the result and whether it was cached.\<close>

definition list_revisions :: "'w git_env \<Rightarrow> 'w nativeGitClient \<Rightarrow> string \<Rightarrow> string \<Rightarrow> 'w \<Rightarrow> (string list result \<times> bool) \<times> 'w" where
  "list_revisions env m revision targetRevision w =
     (if revision = targetRevision then ((Inr [revision], False), w)
      else
        let cache = (if gc_useListRevisionsCache m then gc_listRevisionsCache m else None);
            (found, w1) = (case cache of
               None \<Rightarrow> (None, w)
             | Some c \<Rightarrow>
                 let (r, w1) = GetListRevisions c (gc_repoURL m) revision targetRevision w in
                 (case r of Inr revisions \<Rightarrow> Some revisions | Inl _ \<Rightarrow> None, w1))
        in case found of
             Some revisions \<Rightarrow> ((Inr revisions, True), w1)
           | None \<Rightarrow>
               let ((out, err), w2) = runCmd env m [''rev-list'', ''--ancestry-path'', revision @ ''..'' @ targetRevision] w1 in
               case err of
                 Some e \<Rightarrow> ((Inl e, False), w2)
               | None \<Rightarrow>
                   let revisions = (if out = [] then [] else strings_Split (CHR 0x0A) out);
                       w3 = (case cache of
                         Some c \<Rightarrow> if length revisions > 0
                           then snd (SetListRevisions c (gc_repoURL m) revision targetRevision revisions w2) else w2
                       | None \<Rightarrow> w2)
                   in ((Inr revisions, False), w3))"

definition ListRevisions :: "'w git_env \<Rightarrow> 'w nativeGitClient \<Rightarrow> string \<Rightarrow> string \<Rightarrow> 'w \<Rightarrow> string list result \<times> 'w" where
  "ListRevisions env m revision targetRevision w =
     (if revision = [] then (Inr [targetRevision], w)
      else if \<not> IsCommitSHA revision \<or> \<not> IsCommitSHA targetRevision then (Inl invalid_revision_error, w)
      else
        let (w0, done) = (case eh_OnRevList (gc_handlers m) of None \<Rightarrow> (w, \<lambda>c s. id) | Some h \<Rightarrow> h (gc_repoURL m) w);
            ((res, cached), w1) = list_revisions env m revision targetRevision w0
        in (res, done cached (\<not> isErr res) w1))"

definition diff_tree :: "'w git_env \<Rightarrow> 'w nativeGitClient \<Rightarrow> string \<Rightarrow> 'w \<Rightarrow> (string list result \<times> bool) \<times> 'w" where
  "diff_tree env m targetRevision w =
     (let cache = (if gc_useDiffTreeCache m then gc_diffTreeCache m else None);
          (found, w1) = (case cache of
             None \<Rightarrow> (None, w)
           | Some c \<Rightarrow>
               let (r, w1) = GetDiffTree c (gc_repoURL m) targetRevision w in
               (case r of Inr files \<Rightarrow> Some files | Inl _ \<Rightarrow> None, w1))
      in case found of
           Some files \<Rightarrow> ((Inr files, True), w1)
         | None \<Rightarrow>
             let ((out, err), w2) = runCmd env m [''diff-tree'', ''--no-commit-id'', ''--name-only'', ''-r'', targetRevision] w1 in
             case err of
               Some e \<Rightarrow> ((Inl (Wrapped (''failed to diff '' @ targetRevision) e), False), w2)
             | None \<Rightarrow>
                 if out = [] then ((Inr [], False), w2)
                 else
                   let files = strings_Split (CHR 0x0A) out;
                       w3 = (case cache of
                         Some c \<Rightarrow> if length files > 0 then snd (SetDiffTree c (gc_repoURL m) targetRevision files w2) else w2
                       | None \<Rightarrow> w2)
                   in ((Inr files, False), w3))"

definition DiffTree :: "'w git_env \<Rightarrow> 'w nativeGitClient \<Rightarrow> string \<Rightarrow> 'w \<Rightarrow> string list result \<times> 'w" where
  "DiffTree env m targetRevision w =
     (if \<not> IsCommitSHA targetRevision then (Inl invalid_revision_error, w)
      else
        let (w0, done) = (case eh_OnDiffTree (gc_handlers m) of None \<Rightarrow> (w, \<lambda>c s. id) | Some h \<Rightarrow> h (gc_repoURL m) w);
            ((res, cached), w1) = diff_tree env m targetRevision w0
        in (res, done cached (\<not> isErr res) w1))"

section \<open>Writing\<close>

definition git_config :: "'w git_env \<Rightarrow> 'w nativeGitClient \<Rightarrow> string list \<Rightarrow> 'w \<Rightarrow> (string \<times> go_error option) \<times> 'w" where
  "git_config env m args w =
     (let ((out, err), w1) = runCmd env m (''config'' # args) w in
      case err of Some e \<Rightarrow> ((out, Some (Wrapped ''failed to run git config'' e)), w1) | None \<Rightarrow> ((out, None), w1))"

definition SetAuthor :: "'w git_env \<Rightarrow> 'w nativeGitClient \<Rightarrow> string \<Rightarrow> string \<Rightarrow> 'w \<Rightarrow> (string \<times> go_error option) \<times> 'w" where
  "SetAuthor env m name email w =
     (let ((out1, err1), w1) = (if name \<noteq> [] then git_config env m [''--local'', ''user.name'', name] w else (([], None), w)) in
      case err1 of
        Some e \<Rightarrow> ((out1, Some e), w1)
      | None \<Rightarrow>
          let ((out2, err2), w2) = (if email \<noteq> [] then git_config env m [''--local'', ''user.email'', email] w1 else (([], None), w1)) in
          case err2 of Some e \<Rightarrow> ((out2, Some e), w2) | None \<Rightarrow> (([], None), w2))"

definition no_such_ref :: "go_error \<Rightarrow> bool" where
  "no_such_ref err = strings_Contains (error_Error err) ''did not match any file(s) known to git''"

definition CheckoutOrOrphan :: "'w git_env \<Rightarrow> 'w nativeGitClient \<Rightarrow> string \<Rightarrow> bool \<Rightarrow> 'w \<Rightarrow> (string \<times> go_error option) \<times> 'w" where
  "CheckoutOrOrphan env m branch submoduleEnabled w =
     (let ((out, err), w1) = Checkout env m branch submoduleEnabled w in
      case err of
        None \<Rightarrow> (([], None), w1)
      | Some e \<Rightarrow>
          if \<not> no_such_ref e then ((out, Some (Wrapped ''failed to checkout branch'' e)), w1)
          else
            let ((out, err), w2) = runCmd env m [''switch'', ''--orphan'', branch] w1 in
            case err of
              Some e \<Rightarrow> ((out, Some (Wrapped ''failed to create orphan branch'' e)), w2)
            | None \<Rightarrow>
                let ((out, err), w3) = runCmd env m [''commit'', ''--allow-empty'', ''-m'', ''Initial commit''] w2 in
                case err of
                  Some e \<Rightarrow> ((out, Some (Wrapped ''failed to commit initial commit'' e)), w3)
                | None \<Rightarrow>
                    let (err, w4) = runCredentialedCmd env m [''push'', ''origin'', branch] w3 in
                    case err of
                      Some e \<Rightarrow> (([], Some (Wrapped ''failed to push to branch'' e)), w4)
                    | None \<Rightarrow> (([], None), w4))"

definition CheckoutOrNew :: "'w git_env \<Rightarrow> 'w nativeGitClient \<Rightarrow> string \<Rightarrow> string \<Rightarrow> bool \<Rightarrow> 'w \<Rightarrow> (string \<times> go_error option) \<times> 'w" where
  "CheckoutOrNew env m branch base submoduleEnabled w =
     (let ((out, err), w1) = Checkout env m branch submoduleEnabled w in
      case err of
        None \<Rightarrow> (([], None), w1)
      | Some e \<Rightarrow>
          if \<not> no_such_ref e then ((out, Some (Wrapped ''failed to checkout branch'' e)), w1)
          else
            let ((out, err), w2) = Checkout env m base submoduleEnabled w1 in
            case err of
              Some e \<Rightarrow> ((out, Some (Wrapped ''failed to checkout sync branch'' e)), w2)
            | None \<Rightarrow>
                let ((out, err), w3) = runCmd env m [''checkout'', ''-b'', branch] w2 in
                case err of
                  Some e \<Rightarrow> ((out, Some (Wrapped ''failed to create branch'' e)), w3)
                | None \<Rightarrow> (([], None), w3))"

definition RemoveContents :: "'w git_env \<Rightarrow> 'w nativeGitClient \<Rightarrow> 'w \<Rightarrow> (string \<times> go_error option) \<times> 'w" where
  "RemoveContents env m w =
     (let ((out, err), w1) = runCmd env m [''rm'', ''-r'', ''--ignore-unmatch'', ''.''] w in
      case err of Some e \<Rightarrow> ((out, Some (Wrapped ''failed to clear repo contents'' e)), w1) | None \<Rightarrow> (([], None), w1))"

definition CommitAndPush :: "'w git_env \<Rightarrow> 'w nativeGitClient \<Rightarrow> string \<Rightarrow> string \<Rightarrow> 'w \<Rightarrow> (string \<times> go_error option) \<times> 'w" where
  "CommitAndPush env m branch message w =
     (let ((out, err), w1) = runCmd env m [''add'', ''.''] w in
      case err of
        Some e \<Rightarrow> ((out, Some (Wrapped ''failed to add files'' e)), w1)
      | None \<Rightarrow>
          let ((out, err), w2) = runCmd env m [''commit'', ''-m'', message] w1 in
          case err of
            Some e \<Rightarrow>
              if strings_Contains out ''nothing to commit, working tree clean'' then ((out, None), w2)
              else ((out, Some (Wrapped ''failed to commit'' e)), w2)
          | None \<Rightarrow>
              let (w3, finish) = (case eh_OnPush (gc_handlers m) of None \<Rightarrow> (w2, id) | Some h \<Rightarrow> h (gc_repoURL m) w2);
                  (err, w4) = runCredentialedCmd env m [''push'', ''origin'', branch] w3
              in case err of
                   Some e \<Rightarrow> (([], Some (Wrapped ''failed to push'' e)), finish w4)
                 | None \<Rightarrow> (([], None), finish w4))"

section \<open>Properties\<close>

definition ref_hit :: "string \<Rightarrow> git_ref \<Rightarrow> bool" where
  "ref_hit revision ref \<longleftrightarrow> ref_Short ref = revision \<or> ref_Name ref = revision"

text \<open>The hashes of the hash references and the targets of the symbolic references of a list, in order.\<close>

definition hashes_of :: "git_ref list \<Rightarrow> string list" where
  "hashes_of refs = concat (map (\<lambda>r. case ref_Value r of HashReference s \<Rightarrow> [s] | SymbolicReference t \<Rightarrow> []) refs)"

definition targets_of :: "git_ref list \<Rightarrow> string list" where
  "targets_of refs = concat (map (\<lambda>r. case ref_Value r of HashReference s \<Rightarrow> [] | SymbolicReference t \<Rightarrow> [t]) refs)"

lemma of_refs [simp]: "hashes_of [] = []" "targets_of [] = []"
  "hashes_of (r # refs) = (case ref_Value r of HashReference s \<Rightarrow> s # hashes_of refs | SymbolicReference t \<Rightarrow> hashes_of refs)"
  "targets_of (r # refs) = (case ref_Value r of HashReference s \<Rightarrow> targets_of refs | SymbolicReference t \<Rightarrow> t # targets_of refs)"
  by (simp_all add: hashes_of_def targets_of_def split: ref_value.split)

definition listed_hashes :: "git_ref list \<Rightarrow> (string \<rightharpoonup> string) \<Rightarrow> (string \<rightharpoonup> string)" where
  "listed_hashes refs h = (\<lambda>n. let hs = hashes_of (filter (\<lambda>r. ref_Name r = n) refs) in if hs = [] then h n else Some (last hs))"

lemma listed_hashes_Cons:
  "listed_hashes (r # refs) h = listed_hashes refs (case ref_Value r of HashReference s \<Rightarrow> h(ref_Name r \<mapsto> s) | SymbolicReference t \<Rightarrow> h)"
  by (rule ext) (simp add: listed_hashes_def Let_def split: ref_value.split)

lemma resolve_loop_spec:
  "resolve_loop revision refs h t =
     (let hits = filter (ref_hit revision) refs
      in if hashes_of hits \<noteq> [] then Inl (hd (hashes_of hits))
         else Inr (listed_hashes refs h, if targets_of hits = [] then t else last (targets_of hits)))"
proof (induction refs arbitrary: h t)
  case Nil
  show ?case by (simp add: listed_hashes_def)
next
  case (Cons r refs)
  show ?case
  proof (cases "ref_Value r")
    case (HashReference s)
    then have 1: "resolve_loop revision (r # refs) h t =
        (if ref_hit revision r then Inl s else resolve_loop revision refs (h(ref_Name r \<mapsto> s)) t)"
      by (simp add: ref_hit_def Let_def)
    show ?thesis unfolding 1 Cons.IH using HashReference by (simp add: listed_hashes_Cons Let_def)
  next
    case (SymbolicReference x)
    then have 1: "resolve_loop revision (r # refs) h t = resolve_loop revision refs h (if ref_hit revision r then x else t)"
      by (simp add: ref_hit_def Let_def)
    show ?thesis unfolding 1 Cons.IH using SymbolicReference by (simp add: listed_hashes_Cons Let_def)
  qed
qed

text \<open>
  (C30) Resolving a name against the remote's references: the first hash reference with that short
  or full name decides; without one, the last symbolic reference with that name, such as \<open>HEAD\<close>, is resolved to the hash
  listed (last) for its target; when there is none, or its target is empty or not listed with a hash, the name itself is the result if it is
  a truncated commit id, and otherwise the error says that it cannot be resolved.
\<close>

theorem resolve_refs_spec:
  "resolve_refs revision refs =
     (let hits = filter (ref_hit revision) refs; target = last (targets_of hits); listed = hashes_of (filter (\<lambda>r. ref_Name r = target) refs)
      in if hashes_of hits \<noteq> [] then Inr (hd (hashes_of hits))
         else if targets_of hits \<noteq> [] \<and> target \<noteq> [] \<and> listed \<noteq> [] then Inr (last listed)
         else if IsTruncatedCommitSHA revision then Inr revision
         else Inl (ErrorString (''unable to resolve '' @ [CHR 0x27] @ revision @ [CHR 0x27] @ '' to a commit SHA'')))"
  by (simp add: resolve_refs_def resolve_loop_spec listed_hashes_def Let_def)

definition sample_refs :: "git_ref list" where
  "sample_refs =
     [\<lparr>ref_Name = ''HEAD'', ref_Short = ''HEAD'', ref_IsTag = False, ref_Value = SymbolicReference ''refs/heads/main''\<rparr>,
      \<lparr>ref_Name = ''refs/heads/main'', ref_Short = ''main'', ref_IsTag = False, ref_Value = HashReference ''a1''\<rparr>]"

theorem resolve_refs_spec_witness: "resolve_refs ''main'' sample_refs = Inr ''a1'' \<and> resolve_refs ''HEAD'' sample_refs = Inr ''a1''"
  using resolve_refs_spec [of "''main''" sample_refs] resolve_refs_spec [of "''HEAD''" sample_refs]
  by (simp add: sample_refs_def ref_hit_def Let_def)

text \<open>The version order: irreflexive, and what is not greater is transitive, as in a total preorder.\<close>

definition version_order :: "('v \<Rightarrow> 'v \<Rightarrow> bool) \<Rightarrow> bool" where
  "version_order gt \<longleftrightarrow> (\<forall>a. \<not> gt a a) \<and> (\<forall>a b c. \<not> gt a b \<longrightarrow> \<not> gt b c \<longrightarrow> \<not> gt a c) \<and> (\<forall>a b. gt a b \<longrightarrow> \<not> gt b a)"

lemma max_version_loop_maximal:
  assumes "version_order (sv_GreaterThan lib)" "max_version_loop lib check tags acc = Inr res"
    and "\<forall>m. acc = Some m \<longrightarrow> check m"
  shows "(res = None \<longleftrightarrow> acc = None \<and> (\<forall>tag \<in> set tags. \<forall>v. sv_NewVersion lib tag = Inr v \<longrightarrow> \<not> check v)) \<and>
    (\<forall>m. res = Some m \<longrightarrow> check m \<and> (acc = Some m \<or> (\<exists>tag \<in> set tags. sv_NewVersion lib tag = Inr m)) \<and>
      (\<forall>a. acc = Some a \<longrightarrow> \<not> sv_GreaterThan lib a m) \<and>
      (\<forall>tag \<in> set tags. \<forall>v. sv_NewVersion lib tag = Inr v \<longrightarrow> check v \<longrightarrow> \<not> sv_GreaterThan lib v m))"
  using assms(2,3)
proof (induction tags arbitrary: acc)
  case Nil
  have "\<not> sv_GreaterThan lib a a" for a using assms(1) unfolding version_order_def by blast
  with Nil show ?case by auto
next
  case (Cons tag tags)
  show ?case
  proof (cases "sv_NewVersion lib tag")
    case (Inl p)
    obtain err invalid where p: "p = (err, invalid)" by (rule prod.exhaust)
    with Inl Cons.prems(1) have "max_version_loop lib check tags acc = Inr res" by (simp split: if_splits)
    from Cons.IH [OF this Cons.prems(2)] Inl show ?thesis by simp
  next
    case (Inr v)
    define acc' where "acc' = (if check v then
            (case acc of None \<Rightarrow> Some v | Some m \<Rightarrow> if sv_GreaterThan lib v m then Some v else Some m) else acc)"
    have loop: "max_version_loop lib check tags acc' = Inr res" using Cons.prems(1) Inr by (simp add: acc'_def)
    have ok: "\<forall>m. acc' = Some m \<longrightarrow> check m" using Cons.prems(2) by (auto simp: acc'_def split: option.splits)
    note IH = Cons.IH [OF loop ok]
    have gt: "\<And>a. \<not> sv_GreaterThan lib a a" "\<And>a b c. \<not> sv_GreaterThan lib a b \<Longrightarrow> \<not> sv_GreaterThan lib b c \<Longrightarrow> \<not> sv_GreaterThan lib a c"
      "\<And>a b. sv_GreaterThan lib a b \<Longrightarrow> \<not> sv_GreaterThan lib b a"
      using assms(1) unfolding version_order_def by blast+
    have none: "acc' = None \<longleftrightarrow> acc = None \<and> \<not> check v" by (auto simp: acc'_def split: option.splits)
    have origin: "acc' = Some m \<Longrightarrow> acc = Some m \<or> m = v" for m by (auto simp: acc'_def split: option.splits if_splits)
    have above: "acc = Some a \<Longrightarrow> \<exists>m. acc' = Some m \<and> \<not> sv_GreaterThan lib a m" for a
      by (cases "check v"; cases "sv_GreaterThan lib v a") (simp_all add: acc'_def gt(1,3))
    have above_v: "check v \<Longrightarrow> \<exists>m. acc' = Some m \<and> \<not> sv_GreaterThan lib v m"
      by (cases acc) (simp_all add: acc'_def gt(1))
    show ?thesis
    proof (intro conjI allI impI)
      show "res = None \<longleftrightarrow> acc = None \<and> (\<forall>t \<in> set (tag # tags). \<forall>v. sv_NewVersion lib t = Inr v \<longrightarrow> \<not> check v)"
        using IH none Inr by auto
      fix m assume m: "res = Some m"
      show "check m" using IH m by blast
      show "acc = Some m \<or> (\<exists>t \<in> set (tag # tags). sv_NewVersion lib t = Inr m)" using IH m origin Inr by auto
      show "\<not> sv_GreaterThan lib a m" if "acc = Some a" for a
        using above [OF that] IH m gt(2) by blast
      show "\<forall>t \<in> set (tag # tags). \<forall>v. sv_NewVersion lib t = Inr v \<longrightarrow> check v \<longrightarrow> \<not> sv_GreaterThan lib v m"
        using above_v IH m gt(2) Inr by auto
    qed
  qed
qed

text \<open>
  A version constraint resolves to the greatest tag that satisfies it: when the revision is a
  constraint and every tag parses or is skipped as no version, \<open>MaxVersion\<close> returns the text of
  a tag's version that satisfies the constraint and that no satisfying tag exceeds, and it
  fails exactly when no tag satisfies the constraint.
\<close>

theorem MaxVersion_greatest:
  assumes "version_order (sv_GreaterThan lib)" "sv_NewVersion lib revision = Inl e" "sv_NewConstraint lib revision = Inr check"
    and "\<forall>tag \<in> set tags. \<forall>err. sv_NewVersion lib tag \<noteq> Inl (err, False)"
  shows "(isErr (MaxVersion lib revision tags) \<longleftrightarrow> (\<forall>tag \<in> set tags. \<forall>v. sv_NewVersion lib tag = Inr v \<longrightarrow> \<not> check v)) \<and>
    (\<forall>s. MaxVersion lib revision tags = Inr s \<longrightarrow>
      (\<exists>tag \<in> set tags. \<exists>m. sv_NewVersion lib tag = Inr m \<and> check m \<and> s = sv_Original lib m \<and>
        (\<forall>t \<in> set tags. \<forall>v. sv_NewVersion lib t = Inr v \<longrightarrow> check v \<longrightarrow> \<not> sv_GreaterThan lib v m)))"
proof -
  have "\<exists>res. max_version_loop lib check tags acc = Inr res" for acc
    using assms(4)
  proof (induction tags arbitrary: acc)
    case (Cons tag tags)
    then show ?case by (cases "sv_NewVersion lib tag") (auto split: prod.splits)
  qed simp
  then obtain res where res: "max_version_loop lib check tags None = Inr res" by blast
  note max = max_version_loop_maximal [OF assms(1) res]
  show ?thesis
  proof (cases res)
    case None
    with max assms(2,3) res show ?thesis by (simp add: MaxVersion_def)
  next
    case (Some m)
    then have "MaxVersion lib revision tags = Inr (sv_Original lib m)" by (simp add: MaxVersion_def assms(2,3) res)
    with max Some show ?thesis by auto
  qed
qed

text \<open>Versions as numbers written in unary, for a concrete instance.\<close>

definition unary_semver :: "nat semver" where
  "unary_semver = \<lparr>sv_NewVersion = (\<lambda>s. if list_all (\<lambda>c. c = CHR ''i'') s then Inr (length s) else Inl (ErrorString s, True)),
     sv_Original = (\<lambda>n. replicate n (CHR ''i'')), sv_NewConstraint = (\<lambda>s. Inr (\<lambda>n. n < length s)), sv_GreaterThan = (>)\<rparr>"

theorem MaxVersion_greatest_witness:
  "\<not> isErr (MaxVersion unary_semver ''<iii'' [''i'', ''x'', ''iii'', ''ii''])"
proof -
  have "isErr (MaxVersion unary_semver ''<iii'' [''i'', ''x'', ''iii'', ''ii'']) \<longleftrightarrow>
     (\<forall>tag \<in> set [''i'', ''x'', ''iii'', ''ii'']. \<forall>v. sv_NewVersion unary_semver tag = Inr v \<longrightarrow> \<not> v < 4)"
    by (rule MaxVersion_greatest [THEN conjunct1]) (auto simp: version_order_def unary_semver_def)
  then show ?thesis by (simp add: unary_semver_def)
qed

text \<open>
  (C29) Only commit ids reach git: when a revision is not a full commit id, listing revisions,
  listing the files of a revision and comparing two different revisions fail without
  running a command, touching a cache or counting a request; and a commit id never reads
  as an option of the command it is passed to.
\<close>

theorem only_commit_ids_reach_git:
  "(revision \<noteq> [] \<and> \<not> (IsCommitSHA revision \<and> IsCommitSHA target) \<longrightarrow>
      ListRevisions env m revision target w = (Inl invalid_revision_error, w) \<and>
      (revision \<noteq> target \<longrightarrow> ChangedFiles env m revision target w = (Inl invalid_revision_error, w))) \<and>
   (\<not> IsCommitSHA target \<longrightarrow> DiffTree env m target w = (Inl invalid_revision_error, w)) \<and>
   (IsCommitSHA target \<longrightarrow> target \<noteq> [] \<and> hd target \<noteq> CHR ''-'')"
proof -
  have "target \<noteq> [] \<and> hd target \<noteq> CHR ''-''" if "IsCommitSHA target"
    using that by (cases target) (auto simp: IsCommitSHA_def hex_digit_def)
  then show ?thesis by (auto simp: ListRevisions_def ChangedFiles_def DiffTree_def)
qed

definition silent_env :: "(string list \<Rightarrow> string \<times> go_error option) \<Rightarrow> string list list git_env" where
  "silent_env git = \<lparr>ge_exec = (\<lambda>prog args dir vars w. (git args, w @ [args])), ge_osEnviron = [], ge_certPath = (\<lambda>u. None),
     ge_Environ = (\<lambda>w. (Inr [], w)), ge_closeCreds = (\<lambda>w. w), ge_hasGitmodules = (\<lambda>r w. False),
     ge_openRepo = (\<lambda>r w. RepoOpened), ge_removeAll = (\<lambda>r w. (None, w)), ge_mkdirAll = (\<lambda>r w. (None, w)),
     ge_plainInit = (\<lambda>r w. (None, w)), ge_createRemote = (\<lambda>u w. (None, w)), ge_newUUID = (\<lambda>w. (Inr ''id'', w)),
     ge_initMemory = (\<lambda>w. (None, w)), ge_newAuth = (\<lambda>u w. (None, w)), ge_listRemote = (\<lambda>u w. (Inr sample_refs, w))\<rparr>"

definition sample_client :: "'w nativeGitClient" where
  "sample_client = NewClientExt ''https://git.example/mono'' ''/tmp/r'' False True [] [] []"

theorem only_commit_ids_reach_git_witness:
  "DiffTree (silent_env (\<lambda>args. ([], None))) sample_client ''--output=/etc/passwd'' [] = (Inl invalid_revision_error, [])"
  using only_commit_ids_reach_git [of "[]" "''--output=/etc/passwd''" "silent_env (\<lambda>args. ([], None))" sample_client "[]"]
  by (simp add: IsCommitSHA_def)

text \<open>
  The LFS guards of \<open>Fetch\<close> and \<open>Checkout\<close> never skip anything: \<open>strings.Split\<close> of the empty
  output of \<open>git lfs ls-files\<close> is a list with one empty name, so the list of large files is never
  empty and the LFS command runs in a repository without large files too.
\<close>

theorem lfs_guard_never_skips:
  "LsLargeFiles env m w = (Inr files, w') \<Longrightarrow> files \<noteq> [] \<and>
   (gc_enableLfs m \<longrightarrow>
     checkout_lfs env m w =
       (let ((out, err), v) = runCmd env m [''lfs'', ''checkout''] w' in
        (case err of Some e \<Rightarrow> Some (out, Wrapped ''failed to checkout LFS files'' e) | None \<Rightarrow> None, v)))"
proof -
  assume l: "LsLargeFiles env m w = (Inr files, w')"
  then have "files \<noteq> []" by (auto simp: LsLargeFiles_def split: prod.splits option.splits)
  with l show ?thesis by (auto simp: checkout_lfs_def split: prod.splits option.splits)
qed

theorem lfs_guard_never_skips_witness:
  "snd (checkout_lfs (silent_env (\<lambda>args. ([], None))) sample_client []) = [[''lfs'', ''ls-files'', ''-n''], [''lfs'', ''checkout'']]"
proof -
  let ?env = "silent_env (\<lambda>args. ([], None))" and ?m = "sample_client :: string list list nativeGitClient"
  have run: "runCmd ?env ?m args w = (([], None), w @ [args])" for args w
    by (simp add: runCmd_def runCmdOutput_def silent_env_def Let_def)
  have "LsLargeFiles ?env ?m [] = (Inr [[]], [[''lfs'', ''ls-files'', ''-n'']])" by (simp add: LsLargeFiles_def run)
  moreover have "gc_enableLfs ?m" by (simp add: sample_client_def NewClientExt_def)
  ultimately show ?thesis using lfs_guard_never_skips [of ?env ?m "[]"] by (simp add: run)
qed

end
