(* ===== verification/RepoCache.thy ===== *)
theory RepoCache
  imports GitClient
begin

text \<open>
  The caches of the repository server: the cache clients of \<open>util/cache/inmemory.go\<close> and
  \<open>util/cache/twolevelclient.go\<close>, the keyed store of \<open>util/cache/cache.go\<close>, and the typed entries of
  \<open>reposerver/cache/cache.go\<close> (revision lists, changed files, git references and their lock).

  A lookup is made at a type, that of the object the caller hands to \<open>Get\<close>; what a client keeps need not say which type it was stored at.
  Expiry of entries is left to the environment: a theorem about a lookup never assumes that
  an entry is still there.
\<close>

section \<open>Cache clients\<close>

datatype cache_value = StringList "string list" | PairList "(string \<times> string) list" | Encoded string

datatype value_type = Strings | Pairs | Bytes

fun type_of :: "cache_value \<Rightarrow> value_type" where
  "type_of (StringList xs) = Strings"
| "type_of (PairList ps) = Pairs"
| "type_of (Encoded s) = Bytes"

lemma type_of_iff [simp]: "type_of v = Strings \<longleftrightarrow> (\<exists>xs. v = StringList xs)" "type_of v = Pairs \<longleftrightarrow> (\<exists>ps. v = PairList ps)"
  by (cases v; simp)+

record CacheActionOpts =
  cao_Delete :: bool
  cao_DisableOverwrite :: bool
  cao_Expiration :: int

record Item =
  it_Key :: string
  it_Object :: cache_value
  it_Opts :: CacheActionOpts

record 'w CacheClient =
  cc_Set :: "Item \<Rightarrow> 'w \<Rightarrow> go_error option \<times> 'w"
  cc_Rename :: "string \<Rightarrow> string \<Rightarrow> int \<Rightarrow> 'w \<Rightarrow> go_error option \<times> 'w"
  cc_Get :: "value_type \<Rightarrow> string \<Rightarrow> 'w \<Rightarrow> cache_value result \<times> 'w"
  cc_Delete :: "string \<Rightarrow> 'w \<Rightarrow> go_error option \<times> 'w"

definition zero_CacheActionOpts :: CacheActionOpts where
  "zero_CacheActionOpts = \<lparr>cao_Delete = False, cao_DisableOverwrite = False, cao_Expiration = 0\<rparr>"

definition CacheLockedValue :: string where "CacheLockedValue = ''locked''"
definition CacheVersion :: string where "CacheVersion = ''1.8.3''"

subsection \<open>The in-memory cache\<close>

type_synonym InMemoryCache = "string \<rightharpoonup> cache_value"

definition InMemory_Set :: "Item \<Rightarrow> InMemoryCache \<Rightarrow> go_error option \<times> InMemoryCache" where
  "InMemory_Set item i =
     (if cao_DisableOverwrite (it_Opts item)
      then (None, if i (it_Key item) = None then i(it_Key item \<mapsto> it_Object item) else i)
      else (None, i(it_Key item \<mapsto> it_Object item)))"

definition InMemory_Rename :: "string \<Rightarrow> string \<Rightarrow> int \<Rightarrow> InMemoryCache \<Rightarrow> go_error option \<times> InMemoryCache" where
  "InMemory_Rename oldKey newKey expiration i = (case i oldKey of
     None \<Rightarrow> (Some ErrCacheMiss, i)
   | Some buf \<Rightarrow> (None, (i(newKey \<mapsto> buf))(oldKey := None)))"

definition InMemory_HasSame :: "string \<Rightarrow> cache_value \<Rightarrow> InMemoryCache \<Rightarrow> bool" where
  "InMemory_HasSame key obj i = (case i key of None \<Rightarrow> False | Some buf \<Rightarrow> buf = obj)"

text \<open>\<open>encoding/gob\<close> sends the type with the value and does not decode it at another one.\<close>

definition decode_error :: go_error where "decode_error = ErrorString ''gob: type mismatch''"

definition InMemory_Get :: "value_type \<Rightarrow> string \<Rightarrow> InMemoryCache \<Rightarrow> cache_value result \<times> InMemoryCache" where
  "InMemory_Get ty key i = (case i key of
     None \<Rightarrow> (Inl ErrCacheMiss, i)
   | Some buf \<Rightarrow> (if type_of buf = ty then Inr buf else Inl decode_error, i))"

definition InMemory_Delete :: "string \<Rightarrow> InMemoryCache \<Rightarrow> go_error option \<times> InMemoryCache" where
  "InMemory_Delete key i = (None, i(key := None))"

definition InMemory_Flush :: "InMemoryCache \<Rightarrow> InMemoryCache" where
  "InMemory_Flush i = Map.empty"

definition inMemoryClient :: "InMemoryCache CacheClient" where
  "inMemoryClient = \<lparr>cc_Set = InMemory_Set, cc_Rename = InMemory_Rename, cc_Get = InMemory_Get, cc_Delete = InMemory_Delete\<rparr>"

subsection \<open>The two-level cache\<close>

definition twoLevel_Rename :: "'w CacheClient \<Rightarrow> string \<Rightarrow> string \<Rightarrow> int \<Rightarrow> InMemoryCache \<times> 'w \<Rightarrow> go_error option \<times> InMemoryCache \<times> 'w" where
  "twoLevel_Rename ext oldKey newKey expiration c =
     (let (i, w) = c; (e, i') = InMemory_Rename oldKey newKey expiration i; (err, w') = cc_Rename ext oldKey newKey expiration w
      in (err, (i', w')))"

definition twoLevel_Set :: "'w CacheClient \<Rightarrow> Item \<Rightarrow> InMemoryCache \<times> 'w \<Rightarrow> go_error option \<times> InMemoryCache \<times> 'w" where
  "twoLevel_Set ext item c =
     (let (i, w) = c in
      if InMemory_HasSame (it_Key item) (it_Object item) i then (None, c)
      else let (e, i') = InMemory_Set item i; (err, w') = cc_Set ext item w in (err, (i', w')))"

definition twoLevel_Get :: "'w CacheClient \<Rightarrow> value_type \<Rightarrow> string \<Rightarrow> InMemoryCache \<times> 'w \<Rightarrow> cache_value result \<times> InMemoryCache \<times> 'w" where
  "twoLevel_Get ext ty key c =
     (let (i, w) = c; (r, i1) = InMemory_Get ty key i in
      case r of
        Inr obj \<Rightarrow> (Inr obj, (i1, w))
      | Inl _ \<Rightarrow>
          let (r', w') = cc_Get ext ty key w in
          case r' of
            Inr obj \<Rightarrow> (Inr obj, (snd (InMemory_Set \<lparr>it_Key = key, it_Object = obj, it_Opts = zero_CacheActionOpts\<rparr> i1), w'))
          | Inl err \<Rightarrow> (Inl err, (i1, w')))"

definition twoLevel_Delete :: "'w CacheClient \<Rightarrow> string \<Rightarrow> InMemoryCache \<times> 'w \<Rightarrow> go_error option \<times> InMemoryCache \<times> 'w" where
  "twoLevel_Delete ext key c =
     (let (i, w) = c; (e, i') = InMemory_Delete key i in
      case e of
        Some err \<Rightarrow> (Some err, (i', w))
      | None \<Rightarrow> let (err, w') = cc_Delete ext key w in (err, (i', w')))"

definition twoLevelClient :: "'w CacheClient \<Rightarrow> (InMemoryCache \<times> 'w) CacheClient" where
  "twoLevelClient ext = \<lparr>cc_Set = twoLevel_Set ext, cc_Rename = twoLevel_Rename ext, cc_Get = twoLevel_Get ext,
     cc_Delete = twoLevel_Delete ext\<rparr>"

section \<open>Keyed items\<close>

definition generateFullKey :: "string \<Rightarrow> string" where
  "generateFullKey key = key @ ''|'' @ CacheVersion"

definition RenameItem :: "'w CacheClient \<Rightarrow> string \<Rightarrow> string \<Rightarrow> int \<Rightarrow> 'w \<Rightarrow> go_error option \<times> 'w" where
  "RenameItem cl oldKey newKey expiration w = cc_Rename cl (oldKey @ ''|'' @ CacheVersion) (newKey @ ''|'' @ CacheVersion) expiration w"

definition SetItem :: "'w CacheClient \<Rightarrow> string \<Rightarrow> cache_value option \<Rightarrow> CacheActionOpts option \<Rightarrow> 'w \<Rightarrow> go_error option \<times> 'w" where
  "SetItem cl key item opts w = (case item of
     None \<Rightarrow> (Some (ErrorString ''cannot set nil item in cache''), w)
   | Some obj \<Rightarrow>
       let op = (case opts of None \<Rightarrow> zero_CacheActionOpts | Some op \<Rightarrow> op); fullKey = generateFullKey key in
       if cao_Delete op then cc_Delete cl fullKey w
       else cc_Set cl \<lparr>it_Key = fullKey, it_Object = obj, it_Opts = op\<rparr> w)"

definition GetItem :: "'w CacheClient \<Rightarrow> value_type \<Rightarrow> string \<Rightarrow> 'w \<Rightarrow> cache_value result \<times> 'w" where
  "GetItem cl ty key w = cc_Get cl ty (generateFullKey key) w"

text \<open>The object behind the pointer of the caller.\<close>

fun decode_strings :: "cache_value \<Rightarrow> string list result" where
  "decode_strings (StringList xs) = Inr xs"
| "decode_strings _ = Inl decode_error"

fun decode_pairs :: "cache_value \<Rightarrow> (string \<times> string) list result" where
  "decode_pairs (PairList xs) = Inr xs"
| "decode_pairs _ = Inl decode_error"

definition result_bind :: "'a result \<Rightarrow> ('a \<Rightarrow> 'b result) \<Rightarrow> 'b result" where
  "result_bind r f = (case r of Inl e \<Rightarrow> Inl e | Inr x \<Rightarrow> f x)"

definition GetStrings :: "'w CacheClient \<Rightarrow> string \<Rightarrow> 'w \<Rightarrow> string list result \<times> 'w" where
  "GetStrings cl key w = (let (r, w') = GetItem cl Strings key w in (result_bind r decode_strings, w'))"

section \<open>Entries of the repository server\<close>

record 'w repo_Cache =
  ca_cache :: "'w CacheClient"
  ca_repoCacheExpiration :: int
  ca_revisionCacheExpiration :: int
  ca_revisionCacheLockTimeout :: int

definition NewCache :: "'w CacheClient \<Rightarrow> int \<Rightarrow> int \<Rightarrow> int \<Rightarrow> 'w repo_Cache" where
  "NewCache cache repoCacheExpiration revisionCacheExpiration revisionCacheLockTimeout =
     \<lparr>ca_cache = cache, ca_repoCacheExpiration = repoCacheExpiration, ca_revisionCacheExpiration = revisionCacheExpiration,
      ca_revisionCacheLockTimeout = revisionCacheLockTimeout\<rparr>"

definition expires :: "int \<Rightarrow> CacheActionOpts option" where
  "expires d = Some (zero_CacheActionOpts\<lparr>cao_Expiration := d\<rparr>)"

definition listRevisionsKey :: "string \<Rightarrow> string \<Rightarrow> string \<Rightarrow> string" where
  "listRevisionsKey repoURL previousRevision targetRevision =
     ''listrevisions|'' @ repoURL @ ''|'' @ previousRevision @ ''|'' @ targetRevision"

definition Cache_GetListRevisions :: "'w repo_Cache \<Rightarrow> string \<Rightarrow> string \<Rightarrow> string \<Rightarrow> 'w \<Rightarrow> string list result \<times> 'w" where
  "Cache_GetListRevisions c repoURL previousRevision targetRevision w =
     GetStrings (ca_cache c) (listRevisionsKey repoURL previousRevision targetRevision) w"

definition Cache_SetListRevisions :: "'w repo_Cache \<Rightarrow> string \<Rightarrow> string \<Rightarrow> string \<Rightarrow> string list \<Rightarrow> 'w \<Rightarrow> go_error option \<times> 'w" where
  "Cache_SetListRevisions c repoURL previousRevision targetRevision revisions w =
     SetItem (ca_cache c) (listRevisionsKey repoURL previousRevision targetRevision) (Some (StringList revisions))
       (expires (ca_revisionCacheExpiration c)) w"

definition diffTreeKey :: "string \<Rightarrow> string \<Rightarrow> string" where
  "diffTreeKey repoURL revision = ''difftree|'' @ repoURL @ ''|'' @ revision"

definition Cache_GetDiffTree :: "'w repo_Cache \<Rightarrow> string \<Rightarrow> string \<Rightarrow> 'w \<Rightarrow> string list result \<times> 'w" where
  "Cache_GetDiffTree c repoURL revision w = GetStrings (ca_cache c) (diffTreeKey repoURL revision) w"

definition Cache_SetDiffTree :: "'w repo_Cache \<Rightarrow> string \<Rightarrow> string \<Rightarrow> string list \<Rightarrow> 'w \<Rightarrow> go_error option \<times> 'w" where
  "Cache_SetDiffTree c repoURL revision revisions w =
     SetItem (ca_cache c) (diffTreeKey repoURL revision) (Some (StringList revisions)) (expires (ca_revisionCacheExpiration c)) w"

definition gitDirectoriesKey :: "string \<Rightarrow> string \<Rightarrow> string" where
  "gitDirectoriesKey repoURL revision = ''gitdirs|'' @ repoURL @ ''|'' @ revision"

definition SetGitDirectories :: "'w repo_Cache \<Rightarrow> string \<Rightarrow> string \<Rightarrow> string list \<Rightarrow> 'w \<Rightarrow> go_error option \<times> 'w" where
  "SetGitDirectories c repoURL revision directories w =
     SetItem (ca_cache c) (gitDirectoriesKey repoURL revision) (Some (StringList directories)) (expires (ca_repoCacheExpiration c)) w"

definition GetGitDirectories :: "'w repo_Cache \<Rightarrow> string \<Rightarrow> string \<Rightarrow> 'w \<Rightarrow> string list result \<times> 'w" where
  "GetGitDirectories c repoURL revision w = GetStrings (ca_cache c) (gitDirectoriesKey repoURL revision) w"

text \<open>The caches as the git client sees them.\<close>

definition repo_listRevisionsCache :: "'w repo_Cache \<Rightarrow> 'w listRevisionsCache" where
  "repo_listRevisionsCache c = \<lparr>GetListRevisions = Cache_GetListRevisions c, SetListRevisions = Cache_SetListRevisions c\<rparr>"

definition repo_diffTreeCache :: "'w repo_Cache \<Rightarrow> 'w diffTreeCache" where
  "repo_diffTreeCache c = \<lparr>GetDiffTree = Cache_GetDiffTree c, SetDiffTree = Cache_SetDiffTree c\<rparr>"

section \<open>Git references and their lock\<close>

text \<open>
  go-git writes a reference as a pair of strings and reads it back; the two functions are
  parameters.
\<close>

record ref_codec =
  rc_Strings :: "git_ref \<Rightarrow> string \<times> string"
  rc_FromStrings :: "string \<times> string \<Rightarrow> git_ref"

definition gitRefsKey :: "string \<Rightarrow> string" where
  "gitRefsKey repo = ''git-refs|'' @ repo"

text \<open>With no references the Go slice \<open>input\<close> is nil inside a non-nil interface: an empty list is stored.\<close>

definition Cache_SetGitReferences :: "ref_codec \<Rightarrow> 'w repo_Cache \<Rightarrow> string \<Rightarrow> git_ref list \<Rightarrow> 'w \<Rightarrow> go_error option \<times> 'w" where
  "Cache_SetGitReferences codec c repo references w =
     SetItem (ca_cache c) (gitRefsKey repo) (Some (PairList (map (rc_Strings codec) references)))
       (expires (ca_revisionCacheExpiration c)) w"

definition GitRefCacheItemToReferences :: "ref_codec \<Rightarrow> (string \<times> string) list \<Rightarrow> git_ref list" where
  "GitRefCacheItemToReferences codec cacheItem = map (rc_FromStrings codec) (filter (\<lambda>p. fst p \<noteq> [] \<or> snd p \<noteq> []) cacheItem)"

text \<open>The result is the found lock id, the references written through the pointer (if any), and the error.\<close>

definition GetGitReferences :: "ref_codec \<Rightarrow> 'w repo_Cache \<Rightarrow> string \<Rightarrow> 'w \<Rightarrow> (string \<times> git_ref list option \<times> go_error option) \<times> 'w" where
  "GetGitReferences codec c repo w =
     (let (r, w') = GetItem (ca_cache c) Pairs (gitRefsKey repo) w in
      (case result_bind r decode_pairs of
         Inl err \<Rightarrow> if \<not> errors_Is err ErrCacheMiss then ([], None, Some err) else ([], None, None)
       | Inr [] \<Rightarrow> ([], None, None)
       | Inr (p # ps) \<Rightarrow>
           if fst p \<noteq> CacheLockedValue then ([], Some (GitRefCacheItemToReferences codec (p # ps)), None)
           else (snd p, None, None), w'))"

definition TryLockGitRefCache :: "ref_codec \<Rightarrow> 'w repo_Cache \<Rightarrow> string \<Rightarrow> string \<Rightarrow> 'w \<Rightarrow> (string \<times> git_ref list option \<times> go_error option) \<times> 'w" where
  "TryLockGitRefCache codec c repo lockId w =
     (let (err, w1) = SetItem (ca_cache c) (gitRefsKey repo) (Some (PairList [(CacheLockedValue, lockId)]))
            (Some \<lparr>cao_Delete = False, cao_DisableOverwrite = True, cao_Expiration = ca_revisionCacheLockTimeout c\<rparr>) w
      in GetGitReferences codec c repo w1)"

text \<open>
  The waiting loop: \<open>rounds\<close> is the number of times the deadline had not passed when the loop
  condition was evaluated, \<open>sleep\<close> what happens in the shared world during one pause, and
  \<open>refs\<close> the references behind the caller's pointer.
\<close>

definition found_enough :: "string \<Rightarrow> string \<times> git_ref list option \<times> go_error option \<Rightarrow> git_ref list \<Rightarrow> bool" where
  "found_enough lockId r refs = (case r of (foundLockId, new, err) \<Rightarrow>
     foundLockId = lockId \<or> err \<noteq> None \<or> (case new of Some rs \<Rightarrow> rs | None \<Rightarrow> refs) \<noteq> [])"

fun lock_rounds :: "ref_codec \<Rightarrow> ('w \<Rightarrow> 'w) \<Rightarrow> 'w repo_Cache \<Rightarrow> string \<Rightarrow> string \<Rightarrow> nat \<Rightarrow> git_ref list \<Rightarrow> 'w
    \<Rightarrow> (string \<times> git_ref list \<times> go_error option) \<times> 'w" where
  "lock_rounds codec sleep c repo lockId 0 refs w = ((lockId, refs, None), w)"
| "lock_rounds codec sleep c repo lockId (Suc n) refs w =
     (let (r1, w1) = GetGitReferences codec c repo w;
          refs1 = (case fst (snd r1) of Some rs \<Rightarrow> rs | None \<Rightarrow> refs)
      in if found_enough lockId r1 refs then ((fst r1, refs1, snd (snd r1)), w1)
         else
           let (r2, w2) = TryLockGitRefCache codec c repo lockId w1;
               refs2 = (case fst (snd r2) of Some rs \<Rightarrow> rs | None \<Rightarrow> refs1)
           in if found_enough lockId r2 refs1 then ((fst r2, refs2, snd (snd r2)), w2)
              else lock_rounds codec sleep c repo lockId n refs2 (sleep w2))"

definition Cache_GetOrLockGitReferences :: "ref_codec \<Rightarrow> ('w \<Rightarrow> 'w) \<Rightarrow> nat \<Rightarrow> 'w repo_Cache \<Rightarrow> string \<Rightarrow> string \<Rightarrow> 'w
    \<Rightarrow> (string \<times> git_ref list \<times> go_error option) \<times> 'w" where
  "Cache_GetOrLockGitReferences codec sleep rounds c repo lockId w =
     (if ca_revisionCacheLockTimeout c \<le> 0 then ((lockId, [], None), w)
      else lock_rounds codec sleep c repo lockId rounds [] w)"

definition Cache_UnlockGitReferences :: "'w repo_Cache \<Rightarrow> string \<Rightarrow> string \<Rightarrow> 'w \<Rightarrow> go_error option \<times> 'w" where
  "Cache_UnlockGitReferences c repo lockId w =
     (let (r, w1) = GetItem (ca_cache c) Pairs (gitRefsKey repo) w in
      case result_bind r decode_pairs of
        Inl err \<Rightarrow> (Some err, w1)
      | Inr [] \<Rightarrow> (None, w1)
      | Inr (p # ps) \<Rightarrow>
          if fst p = CacheLockedValue \<and> snd p = lockId
          then SetItem (ca_cache c) (gitRefsKey repo) (Some (PairList (p # ps)))
                 (Some (zero_CacheActionOpts\<lparr>cao_Delete := True\<rparr>)) w1
          else (None, w1))"

definition repo_gitRefCache :: "ref_codec \<Rightarrow> ('w \<Rightarrow> 'w) \<Rightarrow> nat \<Rightarrow> 'w repo_Cache \<Rightarrow> 'w gitRefCache" where
  "repo_gitRefCache codec sleep rounds c = \<lparr>SetGitReferences = Cache_SetGitReferences codec c,
     GetOrLockGitReferences = Cache_GetOrLockGitReferences codec sleep rounds c,
     UnlockGitReferences = Cache_UnlockGitReferences c\<rparr>"

section \<open>Keys\<close>

lemma append_eq_same_length:
  "length b = length d \<Longrightarrow> a @ b = c @ d \<longleftrightarrow> a = c \<and> b = d"
  by auto

lemma listRevisionsKey_eq:
  assumes "IsCommitSHA p" "IsCommitSHA t" "IsCommitSHA p'" "IsCommitSHA t'"
  shows "listRevisionsKey u p t = listRevisionsKey u' p' t' \<longleftrightarrow> u = u' \<and> p = p' \<and> t = t'"
proof
  assume "listRevisionsKey u p t = listRevisionsKey u' p' t'"
  then have "(u @ ''|'') @ p @ ''|'' @ t = (u' @ ''|'') @ p' @ ''|'' @ t'" by (simp add: listRevisionsKey_def)
  with assms have "u @ ''|'' = u' @ ''|'' \<and> p @ ''|'' @ t = p' @ ''|'' @ t'"
    by (subst (asm) append_eq_same_length) (simp_all add: IsCommitSHA_def)
  with assms show "u = u' \<and> p = p' \<and> t = t'" by (auto simp: IsCommitSHA_def)
qed simp

lemma diffTreeKey_eq:
  assumes "IsCommitSHA r" "IsCommitSHA r'"
  shows "diffTreeKey u r = diffTreeKey u' r' \<longleftrightarrow> u = u' \<and> r = r'"
proof
  assume "diffTreeKey u r = diffTreeKey u' r'"
  then have "(u @ ''|'') @ r = (u' @ ''|'') @ r'" by (simp add: diffTreeKey_def)
  with assms show "u = u' \<and> r = r'" by (subst (asm) append_eq_same_length) (simp_all add: IsCommitSHA_def)
qed simp

lemma key_kinds_distinct:
  "listRevisionsKey u p t \<noteq> diffTreeKey u' r" "diffTreeKey u' r \<noteq> listRevisionsKey u p t"
  "listRevisionsKey u p t \<noteq> gitRefsKey u'" "gitRefsKey u' \<noteq> listRevisionsKey u p t"
  "diffTreeKey u r \<noteq> gitRefsKey u'" "gitRefsKey u' \<noteq> diffTreeKey u r"
  "gitDirectoriesKey u r \<noteq> gitRefsKey u'" "gitDirectoriesKey u r \<noteq> listRevisionsKey u' p t" "gitDirectoriesKey u r \<noteq> diffTreeKey u' r'"
  by (simp_all add: listRevisionsKey_def diffTreeKey_def gitRefsKey_def gitDirectoriesKey_def)

lemma generateFullKey_eq [simp]: "generateFullKey k = generateFullKey k' \<longleftrightarrow> k = k'"
  by (simp add: generateFullKey_def)

text \<open>
  Cache keys do not collide: for commit ids the key of a revision list determines the
  repository and both revisions, the key of a file list the repository and the revision,
  and keys of different kinds are never equal, so an entry is only ever decoded at the
  type it was stored with.
\<close>

theorem cache_keys_do_not_collide:
  "(IsCommitSHA p \<and> IsCommitSHA t \<and> IsCommitSHA p' \<and> IsCommitSHA t' \<and>
      generateFullKey (listRevisionsKey u p t) = generateFullKey (listRevisionsKey u' p' t') \<longrightarrow> u = u' \<and> p = p' \<and> t = t') \<and>
   (IsCommitSHA r \<and> IsCommitSHA r' \<and> generateFullKey (diffTreeKey u r) = generateFullKey (diffTreeKey u' r') \<longrightarrow> u = u' \<and> r = r') \<and>
   (generateFullKey (gitRefsKey u) = generateFullKey (gitRefsKey u') \<longrightarrow> u = u') \<and>
   generateFullKey (listRevisionsKey u p t) \<noteq> generateFullKey (diffTreeKey u' r) \<and>
   generateFullKey (listRevisionsKey u p t) \<noteq> generateFullKey (gitRefsKey u') \<and>
   generateFullKey (diffTreeKey u r) \<noteq> generateFullKey (gitRefsKey u') \<and>
   generateFullKey (gitDirectoriesKey u r) \<noteq> generateFullKey (gitRefsKey u')"
  by (auto simp: key_kinds_distinct listRevisionsKey_eq diffTreeKey_eq) (simp add: gitRefsKey_def)

theorem cache_keys_do_not_collide_witness:
  "generateFullKey (diffTreeKey ''https://git/x'' (replicate 40 (CHR ''a''))) \<noteq>
   generateFullKey (diffTreeKey ''https://git/y'' (replicate 40 (CHR ''a'')))"
  using cache_keys_do_not_collide [of "[]" "[]" "[]" "[]" "''https://git/x''" "''https://git/y''" "replicate 40 (CHR ''a'')" "replicate 40 (CHR ''a'')"]
  by (auto simp: IsCommitSHA_def hex_digit_def list_all_iff)


section \<open>What a cache client promises\<close>

text \<open>
  A client never makes up a value: what it returns for a key, and what it may return later,
  was already held for that key, was just stored under it, or was moved to it. Losing
  entries is always allowed. A client may keep its entries in a form that does not say their type, and in which not every value survives:
  \<open>plain\<close> are the values that do, and the promise about storing is made for reading at the type that was stored.
\<close>

definition stored_as :: "(cache_value \<Rightarrow> bool) \<Rightarrow> cache_value \<Rightarrow> cache_value \<Rightarrow> bool" where
  "stored_as plain obj v \<longleftrightarrow> (plain obj \<and> type_of v = type_of obj \<longrightarrow> v = obj)"

locale cache_client =
  fixes cl :: "'w CacheClient" and holds :: "'w \<Rightarrow> string \<Rightarrow> cache_value \<Rightarrow> bool" and plain :: "cache_value \<Rightarrow> bool"
  assumes get_holds: "cc_Get cl ty k w = (Inr v, w') \<Longrightarrow> holds w k v"
    and get_keeps: "cc_Get cl ty k w = (r, w') \<Longrightarrow> holds w' k' v \<Longrightarrow> holds w k' v"
    and set_holds: "cc_Set cl item w = (e, w') \<Longrightarrow> holds w' k v \<Longrightarrow> holds w k v \<or> k = it_Key item \<and> stored_as plain (it_Object item) v"
    and rename_holds: "cc_Rename cl old new x w = (e, w') \<Longrightarrow> holds w' k v \<Longrightarrow> holds w k v \<or> k = new \<and> holds w old v"
    and delete_keeps: "cc_Delete cl k w = (e, w') \<Longrightarrow> holds w' k' v \<Longrightarrow> holds w k' v"
begin

lemma SetItem_holds:
  assumes "SetItem cl key item opts w = (e, w')" "holds w' k v"
  shows "holds w k v \<or> k = generateFullKey key \<and> (\<exists>obj. item = Some obj \<and> stored_as plain obj v)"
  using assms set_holds delete_keeps
  by (fastforce simp: SetItem_def Let_def split: option.splits if_splits)

lemma GetItem_holds:
  assumes "GetItem cl ty key w = (r, w')"
  shows "(\<forall>v. r = Inr v \<longrightarrow> holds w (generateFullKey key) v) \<and> (\<forall>k v. holds w' k v \<longrightarrow> holds w k v)"
  using assms get_holds get_keeps unfolding GetItem_def by blast

lemma GetStrings_holds:
  assumes "GetStrings cl key w = (r, w')"
  shows "(\<forall>xs. r = Inr xs \<longrightarrow> holds w (generateFullKey key) (StringList xs)) \<and> (\<forall>k v. holds w' k v \<longrightarrow> holds w k v)"
proof -
  obtain r0 where r0: "GetItem cl Strings key w = (r0, w')" and r: "r = result_bind r0 decode_strings"
    using assms by (auto simp: GetStrings_def split: prod.splits)
  have "r = Inr xs \<Longrightarrow> r0 = Inr (StringList xs)" for xs
    by (cases r0; cases "projr r0") (auto simp: r result_bind_def)
  with GetItem_holds [OF r0] show ?thesis by blast
qed

end

abbreviation any_value :: "cache_value \<Rightarrow> bool" where "any_value \<equiv> \<lambda>v. True"

interpretation mem: cache_client inMemoryClient "\<lambda>w k v. w k = Some v" any_value
  by unfold_locales
    (auto simp: stored_as_def inMemoryClient_def InMemory_Get_def InMemory_Set_def InMemory_Rename_def InMemory_Delete_def
      split: option.splits if_splits)

text \<open>The two-level client keeps the contract of the client behind it.\<close>

definition two_holds :: "('w \<Rightarrow> string \<Rightarrow> cache_value \<Rightarrow> bool) \<Rightarrow> InMemoryCache \<times> 'w \<Rightarrow> string \<Rightarrow> cache_value \<Rightarrow> bool" where
  "two_holds holds c k v \<longleftrightarrow> fst c k = Some v \<or> holds (snd c) k v"

context cache_client
begin

lemma twoLevel_Get_holds:
  assumes "twoLevel_Get cl ty k c = (r, c')"
  shows "(\<forall>v. r = Inr v \<longrightarrow> two_holds holds c k v) \<and> (\<forall>k' v. two_holds holds c' k' v \<longrightarrow> two_holds holds c k' v)"
proof -
  obtain i w where c: "c = (i, w)" by (rule prod.exhaust)
  obtain r1 w1 where g: "cc_Get cl ty k w = (r1, w1)" by (rule prod.exhaust)
  have "r1 = Inr v \<Longrightarrow> holds w k v" "holds w1 k' v \<Longrightarrow> holds w k' v" for k' v
    using get_holds [of ty k w v w1] get_keeps [OF g] g by auto
  with assms show ?thesis
    by (cases "i k"; cases r1)
      (auto simp: twoLevel_Get_def InMemory_Get_def InMemory_Set_def zero_CacheActionOpts_def two_holds_def c g split: if_splits)
qed

lemma twoLevel_Set_holds:
  assumes "twoLevel_Set cl item c = (e, c')" "two_holds holds c' k v"
  shows "two_holds holds c k v \<or> k = it_Key item \<and> stored_as plain (it_Object item) v"
proof -
  obtain i w where c: "c = (i, w)" by (rule prod.exhaust)
  obtain e1 w1 where g: "cc_Set cl item w = (e1, w1)" by (rule prod.exhaust)
  note set_holds [OF g, of k v]
  with assms show ?thesis
    by (auto simp: twoLevel_Set_def InMemory_Set_def two_holds_def stored_as_def c g split: if_splits)
qed

lemma twoLevel_Rename_holds:
  assumes "twoLevel_Rename cl old new x c = (e, c')" "two_holds holds c' k v"
  shows "two_holds holds c k v \<or> k = new \<and> two_holds holds c old v"
proof -
  obtain i w where c: "c = (i, w)" by (rule prod.exhaust)
  obtain e1 w1 where g: "cc_Rename cl old new x w = (e1, w1)" by (rule prod.exhaust)
  note rename_holds [OF g, of k v]
  with assms show ?thesis
    by (auto simp: twoLevel_Rename_def InMemory_Rename_def two_holds_def c g split: if_splits option.splits)
qed

lemma twoLevel_Delete_keeps:
  assumes "twoLevel_Delete cl k c = (e, c')" "two_holds holds c' k' v"
  shows "two_holds holds c k' v"
proof -
  obtain i w where c: "c = (i, w)" by (rule prod.exhaust)
  obtain e1 w1 where g: "cc_Delete cl k w = (e1, w1)" by (rule prod.exhaust)
  note delete_keeps [OF g, of k' v]
  with assms show ?thesis
    by (auto simp: twoLevel_Delete_def InMemory_Delete_def two_holds_def c g split: if_splits)
qed

end

locale two_level = ext: cache_client cl holds plain
  for cl :: "'w CacheClient" and holds :: "'w \<Rightarrow> string \<Rightarrow> cache_value \<Rightarrow> bool" and plain :: "cache_value \<Rightarrow> bool"

sublocale two_level \<subseteq> cache_client "twoLevelClient cl" "two_holds holds" plain
  by unfold_locales
    (auto simp: twoLevelClient_def
      dest: ext.twoLevel_Get_holds ext.twoLevel_Set_holds ext.twoLevel_Rename_holds ext.twoLevel_Delete_keeps)

interpretation mem2: two_level inMemoryClient "\<lambda>w k v. w k = Some v" any_value
  by unfold_locales


section \<open>Cached git queries\<close>

definition rev_list_args :: "string \<Rightarrow> string \<Rightarrow> string list" where
  "rev_list_args p t = [''rev-list'', ''--ancestry-path'', p @ ''..'' @ t]"

definition diff_tree_args :: "string \<Rightarrow> string list" where
  "diff_tree_args t = [''diff-tree'', ''--no-commit-id'', ''--name-only'', ''-r'', t]"

definition git_lines :: "string \<Rightarrow> string list" where
  "git_lines out = (if out = [] then [] else strings_Split (CHR 0x0A) out)"

text \<open>Queries whose answer is fixed by the commit ids in them, since commits are immutable.\<close>

definition immutable_query :: "string list \<Rightarrow> bool" where
  "immutable_query args \<longleftrightarrow> (\<exists>p t. IsCommitSHA p \<and> IsCommitSHA t \<and> args = rev_list_args p t) \<or>
     (\<exists>t. IsCommitSHA t \<and> args = diff_tree_args t)"

text \<open>
  What can be read as a list of strings under the key of a query is the answer git gives, whatever the repository: a commit id
  determines the commit.
\<close>

definition entry_ok :: "(string list \<Rightarrow> string) \<Rightarrow> string \<Rightarrow> cache_value \<Rightarrow> bool" where
  "entry_ok answer k v \<longleftrightarrow>
     (\<forall>xs. v = StringList xs \<longrightarrow>
       (\<forall>url p t. IsCommitSHA p \<and> IsCommitSHA t \<and> k = generateFullKey (listRevisionsKey url p t) \<longrightarrow>
          xs = git_lines (answer (rev_list_args p t))) \<and>
       (\<forall>url t. IsCommitSHA t \<and> k = generateFullKey (diffTreeKey url t) \<longrightarrow>
          xs = git_lines (answer (diff_tree_args t))))"

definition coherent :: "('w \<Rightarrow> string \<Rightarrow> cache_value \<Rightarrow> bool) \<Rightarrow> (string list \<Rightarrow> string) \<Rightarrow> 'w \<Rightarrow> bool" where
  "coherent holds answer w \<longleftrightarrow> (\<forall>k v. holds w k v \<longrightarrow> entry_ok answer k v)"

lemma entry_ok_revisions:
  "IsCommitSHA p \<Longrightarrow> IsCommitSHA t \<Longrightarrow>
   entry_ok answer (generateFullKey (listRevisionsKey url p t)) v \<longleftrightarrow> (\<forall>xs. v = StringList xs \<longrightarrow> xs = git_lines (answer (rev_list_args p t)))"
  by (auto simp: entry_ok_def listRevisionsKey_eq key_kinds_distinct)

lemma entry_ok_files:
  "IsCommitSHA t \<Longrightarrow>
   entry_ok answer (generateFullKey (diffTreeKey url t)) v \<longleftrightarrow> (\<forall>xs. v = StringList xs \<longrightarrow> xs = git_lines (answer (diff_tree_args t)))"
  by (auto simp: entry_ok_def diffTreeKey_eq key_kinds_distinct)

lemma entry_ok_refs: "entry_ok answer (generateFullKey (gitRefsKey u)) v"
  by (simp add: entry_ok_def key_kinds_distinct)

text \<open>A client of git over such caches; what git answers survives in the cache.\<close>

locale cached_git = cache_client cl holds plain
  for cl :: "'w CacheClient" and holds :: "'w \<Rightarrow> string \<Rightarrow> cache_value \<Rightarrow> bool" and plain :: "cache_value \<Rightarrow> bool" +
  fixes env :: "'w git_env" and answer :: "string list \<Rightarrow> string" and m :: "'w nativeGitClient" and c :: "'w repo_Cache"
  assumes uses_client: "ca_cache c = cl"
    and revisions_cache: "gc_listRevisionsCache m \<in> {None, Some (repo_listRevisionsCache c)}"
    and files_cache: "gc_diffTreeCache m \<in> {None, Some (repo_diffTreeCache c)}"
    and answers_plain: "immutable_query args \<Longrightarrow> plain (StringList (git_lines (answer args)))"
    and exec_answer: "ge_exec env prog args dir vars w = ((out, None), w') \<Longrightarrow> immutable_query args \<Longrightarrow> out = answer args"
    and exec_keeps: "ge_exec env prog args dir vars w = (r, w') \<Longrightarrow> coherent holds answer w \<Longrightarrow>
      coherent holds answer w'"
    and rev_handler_keeps: "eh_OnRevList (gc_handlers m) = Some h \<Longrightarrow> h u w = (w', fin) \<Longrightarrow> holds w' k v \<Longrightarrow> holds w k v"
    and rev_done_keeps: "eh_OnRevList (gc_handlers m) = Some h \<Longrightarrow> h u w = (w', fin) \<Longrightarrow> holds (fin x y w1) k v \<Longrightarrow> holds w1 k v"
    and diff_handler_keeps: "eh_OnDiffTree (gc_handlers m) = Some h \<Longrightarrow> h u w = (w', fin) \<Longrightarrow> holds w' k v \<Longrightarrow> holds w k v"
    and diff_done_keeps: "eh_OnDiffTree (gc_handlers m) = Some h \<Longrightarrow> h u w = (w', fin) \<Longrightarrow> holds (fin x y w1) k v \<Longrightarrow> holds w1 k v"
begin

abbreviation ok :: "'w \<Rightarrow> bool" where "ok w \<equiv> coherent holds answer w"

lemma runCmd_answer:
  assumes "runCmd env m args w = ((out, e), w')"
  shows "(e = None \<longrightarrow> immutable_query args \<longrightarrow> out = answer args) \<and> (ok w \<longrightarrow> ok w')"
  using assms exec_answer exec_keeps unfolding runCmd_def runCmdOutput_def Let_def by blast

lemma GetStrings_ok:
  assumes "GetStrings cl key w = (r, w')" "ok w"
  shows "ok w'" "r = Inr xs \<Longrightarrow> entry_ok answer (generateFullKey key) (StringList xs)"
  using GetStrings_holds [OF assms(1)] assms(2) unfolding coherent_def by blast+

lemma SetItem_ok:
  assumes "ok w" "entry_ok answer (generateFullKey key) (StringList xs)" "plain (StringList xs)"
  shows "ok (snd (SetItem cl key (Some (StringList xs)) opts w))"
proof -
  have "entry_ok answer (generateFullKey key) v" if "stored_as plain (StringList xs) v" for v
    using that assms(2,3) by (cases v) (auto simp: stored_as_def entry_ok_def)
  then show ?thesis
    using SetItem_holds [of key "Some (StringList xs)" opts w, OF prod.collapse [symmetric]] assms(1) unfolding coherent_def by blast
qed

lemma list_revisions_ok:
  assumes "ok w" "IsCommitSHA p" "IsCommitSHA t" "list_revisions env m p t w = ((res, cached), w')"
  shows "ok w'" "res = Inr xs \<Longrightarrow> xs = (if p = t then [p] else git_lines (answer (rev_list_args p t)))"
proof -
  have q: "immutable_query (rev_list_args p t)" using assms(2,3) by (auto simp: immutable_query_def)
  have "ok w' \<and> (res = Inr xs \<longrightarrow> xs = (if p = t then [p] else git_lines (answer (rev_list_args p t))))"
  proof (cases "p = t")
    case True
    with assms show ?thesis by (auto simp: list_revisions_def)
  next
    case False
    define cache where "cache = (if gc_useListRevisionsCache m then gc_listRevisionsCache m else None)"
    have cache: "cache = None \<or> cache = Some (repo_listRevisionsCache c)" using revisions_cache by (auto simp: cache_def)
    obtain found w1 where f: "(case cache of None \<Rightarrow> (None, w)
        | Some c \<Rightarrow> let (r, w1) = GetListRevisions c (gc_repoURL m) p t w in
            (case r of Inr revisions \<Rightarrow> Some revisions | Inl _ \<Rightarrow> None, w1)) = (found, w1)" by (rule prod.exhaust)
    have w1: "ok w1 \<and> (\<forall>ys. found = Some ys \<longrightarrow> ys = git_lines (answer (rev_list_args p t)))"
      using cache f GetStrings_ok [OF _ assms(1)] assms(1)
      by (fastforce simp: repo_listRevisionsCache_def Cache_GetListRevisions_def uses_client entry_ok_revisions assms(2,3)
          split: prod.splits sum.splits)
    obtain out e w2 where r: "runCmd env m (rev_list_args p t) w1 = ((out, e), w2)" by (metis prod.exhaust)
    note a = runCmd_answer [OF r]
    have set: "ok (snd (SetListRevisions (repo_listRevisionsCache c) (gc_repoURL m) p t (git_lines (answer (rev_list_args p t))) w2))"
      using a w1 by (simp add: repo_listRevisionsCache_def Cache_SetListRevisions_def uses_client SetItem_ok entry_ok_revisions assms(2,3) answers_plain [OF q])
    show ?thesis
    proof (cases found)
      case (Some ys)
      with assms(4) False f w1 show ?thesis by (auto simp: list_revisions_def cache_def [symmetric])
    next
      case None
      have "list_revisions env m p t w = (case e of
          Some er \<Rightarrow> ((Inl er, False), w2)
        | None \<Rightarrow> ((Inr (git_lines out), False), case cache of
              Some c \<Rightarrow> if length (git_lines out) > 0
                then snd (SetListRevisions c (gc_repoURL m) p t (git_lines out) w2) else w2
            | None \<Rightarrow> w2))"
        unfolding list_revisions_def cache_def [symmetric] Let_def [of cache] f rev_list_args_def [symmetric]
          git_lines_def [symmetric]
        by (cases e) (simp_all add: False None r Let_def)
      with assms(4) a w1 q set cache False show ?thesis by (cases e) (auto split: if_splits)
    qed
  qed
  then show "ok w'" "res = Inr xs \<Longrightarrow> xs = (if p = t then [p] else git_lines (answer (rev_list_args p t)))" by blast+
qed

end


context cached_git
begin

lemma diff_tree_ok:
  assumes "ok w" "IsCommitSHA t" "diff_tree env m t w = ((res, cached), w')"
  shows "ok w'" "res = Inr xs \<Longrightarrow> xs = git_lines (answer (diff_tree_args t))"
proof -
  have q: "immutable_query (diff_tree_args t)" using assms(2) by (auto simp: immutable_query_def)
  define cache where "cache = (if gc_useDiffTreeCache m then gc_diffTreeCache m else None)"
  have cache: "cache = None \<or> cache = Some (repo_diffTreeCache c)" using files_cache by (auto simp: cache_def)
  obtain found w1 where f: "(case cache of None \<Rightarrow> (None, w)
      | Some c \<Rightarrow> let (r, w1) = GetDiffTree c (gc_repoURL m) t w in
          (case r of Inr files \<Rightarrow> Some files | Inl _ \<Rightarrow> None, w1)) = (found, w1)" by (rule prod.exhaust)
  have w1: "ok w1 \<and> (\<forall>ys. found = Some ys \<longrightarrow> ys = git_lines (answer (diff_tree_args t)))"
    using cache f GetStrings_ok [OF _ assms(1)] assms(1)
    by (fastforce simp: repo_diffTreeCache_def Cache_GetDiffTree_def uses_client entry_ok_files assms(2)
        split: prod.splits sum.splits)
  obtain out e w2 where r: "runCmd env m (diff_tree_args t) w1 = ((out, e), w2)" by (metis prod.exhaust)
  note a = runCmd_answer [OF r]
  have set: "ok (snd (SetDiffTree (repo_diffTreeCache c) (gc_repoURL m) t (git_lines (answer (diff_tree_args t))) w2))"
    using a w1 by (simp add: repo_diffTreeCache_def Cache_SetDiffTree_def uses_client SetItem_ok entry_ok_files assms(2) answers_plain [OF q])
  have "ok w' \<and> (res = Inr xs \<longrightarrow> xs = git_lines (answer (diff_tree_args t)))"
  proof (cases found)
    case (Some ys)
    with assms(3) f w1 show ?thesis by (auto simp: diff_tree_def cache_def [symmetric])
  next
    case None
    have "diff_tree env m t w = (case e of
        Some er \<Rightarrow> ((Inl (Wrapped (''failed to diff '' @ t) er), False), w2)
      | None \<Rightarrow> ((Inr (git_lines out), False), case cache of
            Some c \<Rightarrow> if length (git_lines out) > 0 then snd (SetDiffTree c (gc_repoURL m) t (git_lines out) w2) else w2
          | None \<Rightarrow> w2))"
      unfolding diff_tree_def cache_def [symmetric] Let_def [of cache] f diff_tree_args_def [symmetric]
      by (cases e; cases out; cases cache) (simp_all add: None r Let_def git_lines_def)
    with assms(3) a w1 q set cache show ?thesis by (cases e) (auto split: if_splits)
  qed
  then show "ok w'" "res = Inr xs \<Longrightarrow> xs = git_lines (answer (diff_tree_args t))" by blast+
qed

lemma ListRevisions_ok:
  assumes "ok w" "ListRevisions env m p t w = (res, w')"
  shows "ok w'" "IsCommitSHA p \<Longrightarrow> res = Inr xs \<Longrightarrow> xs = (if p = t then [p] else git_lines (answer (rev_list_args p t)))"
proof -
  have "ok w' \<and> (IsCommitSHA p \<longrightarrow> res = Inr xs \<longrightarrow> xs = (if p = t then [p] else git_lines (answer (rev_list_args p t))))"
  proof (cases "p \<noteq> [] \<and> IsCommitSHA p \<and> IsCommitSHA t")
    case False
    moreover have "\<not> IsCommitSHA []" by (simp add: IsCommitSHA_def)
    ultimately show ?thesis using assms by (auto simp: ListRevisions_def split: if_splits)
  next
    case True
    obtain w0 fin where h: "(case eh_OnRevList (gc_handlers m) of None \<Rightarrow> (w, \<lambda>c s. id) | Some h \<Rightarrow> h (gc_repoURL m) w) = (w0, fin)"
      by (rule prod.exhaust)
    obtain r cached w1 where l: "list_revisions env m p t w0 = ((r, cached), w1)" by (metis prod.exhaust)
    have w0: "ok w0" using h assms(1) rev_handler_keeps unfolding coherent_def by (auto split: option.splits)
    have res: "res = r" "w' = fin cached (\<not> isErr r) w1" using assms(2) True by (auto simp: ListRevisions_def h l)
    have "ok (fin x y w1)" for x y
      using list_revisions_ok(1) [OF w0 _ _ l] True h rev_done_keeps unfolding coherent_def by (auto split: option.splits)
    then show ?thesis using list_revisions_ok(2) [OF w0 _ _ l] True by (simp add: res)
  qed
  then show "ok w'" "IsCommitSHA p \<Longrightarrow> res = Inr xs \<Longrightarrow> xs = (if p = t then [p] else git_lines (answer (rev_list_args p t)))"
    by blast+
qed

lemma DiffTree_ok:
  assumes "ok w" "DiffTree env m t w = (res, w')"
  shows "ok w'" "res = Inr xs \<Longrightarrow> xs = git_lines (answer (diff_tree_args t))"
proof -
  have "ok w' \<and> (res = Inr xs \<longrightarrow> xs = git_lines (answer (diff_tree_args t)))"
  proof (cases "IsCommitSHA t")
    case False
    with assms show ?thesis by (auto simp: DiffTree_def)
  next
    case True
    obtain w0 fin where h: "(case eh_OnDiffTree (gc_handlers m) of None \<Rightarrow> (w, \<lambda>c s. id) | Some h \<Rightarrow> h (gc_repoURL m) w) = (w0, fin)"
      by (rule prod.exhaust)
    obtain r cached w1 where l: "diff_tree env m t w0 = ((r, cached), w1)" by (metis prod.exhaust)
    have w0: "ok w0" using h assms(1) diff_handler_keeps unfolding coherent_def by (auto split: option.splits)
    have res: "res = r" "w' = fin cached (\<not> isErr r) w1" using assms(2) True by (auto simp: DiffTree_def h l)
    have "ok (fin x y w1)" for x y
      using diff_tree_ok(1) [OF w0 True l] h diff_done_keeps unfolding coherent_def by (auto split: option.splits)
    then show ?thesis using diff_tree_ok(2) [OF w0 True l] by (simp add: res)
  qed
  then show "ok w'" "res = Inr xs \<Longrightarrow> xs = git_lines (answer (diff_tree_args t))" by blast+
qed

end


text \<open>A sequence of queries, each in the world the previous one left.\<close>

datatype git_query = QListRevisions string string | QDiffTree string

fun ask :: "'w git_env \<Rightarrow> 'w nativeGitClient \<Rightarrow> git_query \<Rightarrow> 'w \<Rightarrow> string list result \<times> 'w" where
  "ask env m (QListRevisions p t) w = ListRevisions env m p t w"
| "ask env m (QDiffTree t) w = DiffTree env m t w"

fun ask_all :: "'w git_env \<Rightarrow> 'w nativeGitClient \<Rightarrow> git_query list \<Rightarrow> 'w \<Rightarrow> string list result list" where
  "ask_all env m [] w = []"
| "ask_all env m (q # qs) w = (let (r, w') = ask env m q w in r # ask_all env m qs w')"

text \<open>The result of a query that git does not refuse.\<close>

fun reference :: "(string list \<Rightarrow> string) \<Rightarrow> git_query \<Rightarrow> string list result" where
  "reference answer (QListRevisions p t) =
     (if p = [] then Inr [t] else if \<not> IsCommitSHA p \<or> \<not> IsCommitSHA t then Inl invalid_revision_error
      else Inr (if p = t then [p] else git_lines (answer (rev_list_args p t))))"
| "reference answer (QDiffTree t) =
     (if \<not> IsCommitSHA t then Inl invalid_revision_error else Inr (git_lines (answer (diff_tree_args t))))"

definition uncached :: "'w nativeGitClient \<Rightarrow> 'w nativeGitClient" where
  "uncached m = m\<lparr>gc_useListRevisionsCache := False, gc_useDiffTreeCache := False\<rparr>"

definition git_answers :: "'w git_env \<Rightarrow> 'w nativeGitClient \<Rightarrow> bool" where
  "git_answers env m \<longleftrightarrow> (\<forall>args w. immutable_query args \<longrightarrow> snd (fst (runCmd env m args w)) = None)"

context cached_git
begin

lemma ask_ok:
  assumes "ok w" "ask env m q w = (res, w')"
  shows "ok w'" "\<not> isErr res \<Longrightarrow> res = reference answer q"
proof -
  have "ok w' \<and> (\<not> isErr res \<longrightarrow> res = reference answer q)"
  proof (cases q)
    case (QListRevisions p t)
    with assms(2) have l: "ListRevisions env m p t w = (res, w')" by simp
    show ?thesis
    proof (cases "p \<noteq> [] \<and> IsCommitSHA p \<and> IsCommitSHA t")
      case True
      with ListRevisions_ok [OF assms(1) l] QListRevisions show ?thesis by (cases res) auto
    next
      case False
      with l QListRevisions assms(1) show ?thesis by (auto simp: ListRevisions_def split: if_splits)
    qed
  next
    case (QDiffTree t)
    with assms(2) have l: "DiffTree env m t w = (res, w')" by simp
    show ?thesis
    proof (cases "IsCommitSHA t")
      case True
      with DiffTree_ok [OF assms(1) l] QDiffTree show ?thesis by (cases res) auto
    next
      case False
      with l QDiffTree assms(1) show ?thesis by (auto simp: DiffTree_def)
    qed
  qed
  then show "ok w'" "\<not> isErr res \<Longrightarrow> res = reference answer q" by blast+
qed

lemma ask_answered:
  assumes "ok w" "git_answers env m"
  shows "fst (ask env m q w) = reference answer q"
proof -
  have run: "runCmd env m args w1 \<noteq> ((out, Some e), w2)" if "immutable_query args" for args w1 out e w2
    using assms(2) that unfolding git_answers_def by (metis fst_conv snd_conv option.distinct(1))
  have l: "list_revisions env m p t w1 \<noteq> ((Inl e, b), w2)" if "IsCommitSHA p" "IsCommitSHA t" for p t w1 e b w2
  proof -
    have "immutable_query (rev_list_args p t)" using that by (auto simp: immutable_query_def)
    note r = run [OF this]
    show ?thesis unfolding list_revisions_def rev_list_args_def [symmetric] Let_def by (simp split: prod.splits option.splits add: r)
  qed
  have d: "diff_tree env m t w1 \<noteq> ((Inl e, b), w2)" if "IsCommitSHA t" for t w1 e b w2
  proof -
    have "immutable_query (diff_tree_args t)" using that by (auto simp: immutable_query_def)
    note r = run [OF this]
    show ?thesis unfolding diff_tree_def diff_tree_args_def [symmetric] Let_def by (simp split: prod.splits option.splits add: r)
  qed
  show ?thesis
  proof (cases "isErr (fst (ask env m q w))")
    case False
    with ask_ok(2) [OF assms(1) prod.collapse [symmetric]] show ?thesis by blast
  next
    case True
    show ?thesis
    proof (cases q)
      case (QListRevisions p t)
      with True l [of p t] show ?thesis
        by (cases "IsCommitSHA p \<and> IsCommitSHA t") (auto simp: ListRevisions_def Let_def isErr_def split: prod.splits if_splits sum.splits)
    next
      case (QDiffTree t)
      with True d [of t] show ?thesis
        by (cases "IsCommitSHA t") (auto simp: DiffTree_def Let_def isErr_def split: prod.splits if_splits sum.splits)
    qed
  qed
qed

lemma ask_all_ok:
  "ok w \<Longrightarrow> list_all2 (\<lambda>r q. \<not> isErr r \<longrightarrow> r = reference answer q) (ask_all env m qs w) qs"
proof (induction qs arbitrary: w)
  case (Cons q qs)
  obtain r w' where "ask env m q w = (r, w')" by (rule prod.exhaust)
  with ask_ok [OF Cons.prems this] Cons.IH show ?case by simp
qed simp

lemma ask_all_answered:
  "ok w \<Longrightarrow> git_answers env m \<Longrightarrow> ask_all env m qs w = map (reference answer) qs"
proof (induction qs arbitrary: w)
  case (Cons q qs)
  obtain r w' where "ask env m q w = (r, w')" by (rule prod.exhaust)
  with ask_ok(1) [OF Cons.prems(1) this] ask_answered [OF Cons.prems, of q] Cons show ?case by simp
qed simp

end


lemma uncached_fields: "gc_handlers (uncached m) = gc_handlers m" "gc_listRevisionsCache (uncached m) = gc_listRevisionsCache m"
  "gc_diffTreeCache (uncached m) = gc_diffTreeCache m" "gc_repoURL (uncached m) = gc_repoURL m"
  by (simp_all add: uncached_def)

lemma cached_git_uncached:
  assumes "cached_git cl holds plain env answer m c"
  shows "cached_git cl holds plain env answer (uncached m) c"
  using assms unfolding cached_git_def cached_git_axioms_def uncached_fields .

lemma uncached_runCmd [simp]: "runCmd env (uncached m) args w = runCmd env m args w"
  by (cases "ge_certPath env (gc_repoURL m)"; simp add: uncached_def runCmd_def runCmdOutput_def Let_def)+

text \<open>A git whose answers depend on the arguments only, and a client with both caches in memory.\<close>

definition pure_env :: "(string list \<Rightarrow> string \<times> go_error option) \<Rightarrow> 'w git_env" where
  "pure_env git = \<lparr>ge_exec = (\<lambda>prog args dir vars w. (git args, w)), ge_osEnviron = [], ge_certPath = (\<lambda>u. None),
     ge_Environ = (\<lambda>w. (Inr [], w)), ge_closeCreds = (\<lambda>w. w), ge_hasGitmodules = (\<lambda>r w. False),
     ge_openRepo = (\<lambda>r w. RepoOpened), ge_removeAll = (\<lambda>r w. (None, w)), ge_mkdirAll = (\<lambda>r w. (None, w)),
     ge_plainInit = (\<lambda>r w. (None, w)), ge_createRemote = (\<lambda>u w. (None, w)), ge_newUUID = (\<lambda>w. (Inr ''id'', w)),
     ge_initMemory = (\<lambda>w. (None, w)), ge_newAuth = (\<lambda>u w. (None, w)), ge_listRemote = (\<lambda>u w. (Inr sample_refs, w))\<rparr>"

definition cached_client :: "string \<Rightarrow> 'w repo_Cache \<Rightarrow> 'w nativeGitClient" where
  "cached_client url c = NewClientExt url ''/tmp/r'' False True [] []
     [WithListRevisionsCache (repo_listRevisionsCache c), WithDiffTreeCache (repo_diffTreeCache c)]"

lemmas cached_client_defs = cached_client_def NewClientExt_def WithListRevisionsCache_def WithDiffTreeCache_def NewCache_def

interpretation memgit: cached_git inMemoryClient "\<lambda>w k v. w k = Some v" any_value "pure_env git" "fst \<circ> git"
    "cached_client url (NewCache inMemoryClient x y z)" "NewCache inMemoryClient x y z" for git url x y z
  by unfold_locales (auto simp: cached_client_defs pure_env_def)

interpretation mem2git: cached_git "twoLevelClient inMemoryClient" "two_holds (\<lambda>w k v. w k = Some v)" any_value "pure_env git" "fst \<circ> git"
    "cached_client url (NewCache (twoLevelClient inMemoryClient) x y z)" "NewCache (twoLevelClient inMemoryClient) x y z"
  for git url x y z
  by unfold_locales (auto simp: cached_client_defs pure_env_def)

text \<open>
  (C5) The caches of revision lists and file lists are transparent: over any cache client that makes
  no values up, from a coherent cache, every sequence of queries gives for each query either
  an error or the answer of git; and when git answers, the whole sequence of results equals
  the one of the same client with both caches turned off.
\<close>

theorem caches_are_transparent:
  assumes "cached_git cl holds plain env answer m c" "coherent holds answer w"
  shows "list_all2 (\<lambda>r q. \<not> isErr r \<longrightarrow> r = reference answer q) (ask_all env m qs w) qs \<and>
    (git_answers env m \<longrightarrow> ask_all env m qs w = ask_all env (uncached m) qs w)"
proof -
  have "git_answers env m \<longleftrightarrow> git_answers env (uncached m)" by (simp add: git_answers_def)
  then show ?thesis
    using cached_git.ask_all_ok [OF assms(1), of w qs] cached_git.ask_all_answered [OF assms(1), of w qs]
      cached_git.ask_all_answered [OF cached_git_uncached [OF assms(1)], of w qs] assms(2) by (simp add: uncached_fields)
qed

definition sha_a :: string where "sha_a = replicate 40 (CHR ''a'')"
definition sha_b :: string where "sha_b = replicate 40 (CHR ''b'')"

lemma sample_shas [simp]: "IsCommitSHA sha_a" "IsCommitSHA sha_b" "sha_a \<noteq> sha_b" "sha_b \<noteq> sha_a" "sha_a \<noteq> []"
proof -
  have "hd sha_a = CHR ''a''" "hd sha_b = CHR ''b''" by (simp_all add: sha_a_def sha_b_def)
  then show "sha_a \<noteq> sha_b" "sha_b \<noteq> sha_a" by force+
qed (simp_all add: sha_a_def sha_b_def IsCommitSHA_def hex_digit_def list_all_iff)

theorem caches_are_transparent_witness:
  "ask_all (pure_env (\<lambda>args. (''f.yaml'', None))) (cached_client ''u'' (NewCache inMemoryClient 1 1 1))
     [QDiffTree sha_a, QListRevisions sha_a sha_b, QDiffTree sha_a] Map.empty =
   ask_all (pure_env (\<lambda>args. (''f.yaml'', None))) (uncached (cached_client ''u'' (NewCache inMemoryClient 1 1 1)))
     [QDiffTree sha_a, QListRevisions sha_a sha_b, QDiffTree sha_a] Map.empty"
proof (rule caches_are_transparent [OF memgit.cached_git_axioms, THEN conjunct2, rule_format])
  show "coherent (\<lambda>w k v. w k = Some v) (fst \<circ> (\<lambda>args. (''f.yaml'', None))) Map.empty"
    by (simp add: coherent_def)
  show "git_answers (pure_env (\<lambda>args. (''f.yaml'', None))) (cached_client ''u'' (NewCache inMemoryClient 1 1 1))"
    by (simp add: git_answers_def runCmd_def runCmdOutput_def pure_env_def Let_def)
qed

section \<open>The lock on git references\<close>

text \<open>The id of the lock a cached entry is, if it is one.\<close>

fun lock_of :: "cache_value option \<Rightarrow> string option" where
  "lock_of (Some (PairList (p # ps))) = (if fst p = CacheLockedValue then Some (snd p) else None)"
| "lock_of _ = None"

text \<open>
  A client whose entries stay: \<open>view w ty key\<close> is what can be read at a type while no entry expires. A lookup changes nothing and
  finds what is there unless it fails, a conditional store does not overwrite, and a store either has no effect or makes
  a value that survives readable. Failures are allowed everywhere. A client with a local level is none of these, since its lookups do not
  see what others store.
\<close>

locale lock_client =
  fixes cl :: "'w CacheClient" and view :: "'w \<Rightarrow> value_type \<Rightarrow> string \<Rightarrow> cache_value option" and plain :: "cache_value \<Rightarrow> bool"
  assumes view_get: "cc_Get cl ty k w = (r, w') \<Longrightarrow> view w' = view w \<and> (\<forall>v. r = Inr v \<longrightarrow> view w ty k = Some v)"
    and view_found: "cc_Get cl ty k w = (Inl err, w') \<Longrightarrow> view w ty k = Some v \<Longrightarrow> \<not> errors_Is err ErrCacheMiss"
    and view_keep: "cc_Set cl item w = (e, w') \<Longrightarrow> cao_DisableOverwrite (it_Opts item) \<Longrightarrow> view w ty (it_Key item) \<noteq> None \<Longrightarrow> view w' = view w"
    and view_set: "cc_Set cl item w = (e, w') \<Longrightarrow> plain (it_Object item) \<Longrightarrow>
      view w' (type_of (it_Object item)) (it_Key item) \<in> {view w (type_of (it_Object item)) (it_Key item), Some (it_Object item)}"
    and view_set_done: "cc_Set cl item w = (None, w') \<Longrightarrow> \<not> cao_DisableOverwrite (it_Opts item) \<Longrightarrow> plain (it_Object item) \<Longrightarrow>
      view w' (type_of (it_Object item)) (it_Key item) = Some (it_Object item)"

definition mem_view :: "InMemoryCache \<Rightarrow> value_type \<Rightarrow> string \<Rightarrow> cache_value option" where
  "mem_view w ty k = (case w k of None \<Rightarrow> None | Some v \<Rightarrow> if type_of v = ty then Some v else None)"

interpretation mem_lock: lock_client inMemoryClient mem_view any_value
proof
  fix ty k w r w'
  assume "cc_Get inMemoryClient ty k w = (r, w')"
  then have g: "InMemory_Get ty k w = (r, w')" by (simp add: inMemoryClient_def)
  then show "mem_view w' = mem_view w \<and> (\<forall>v. r = Inr v \<longrightarrow> mem_view w ty k = Some v)"
    by (cases "w k") (auto simp: InMemory_Get_def mem_view_def split: if_splits)
next
  fix ty k w err w' v
  assume "cc_Get inMemoryClient ty k w = (Inl err, w')" "mem_view w ty k = Some v"
  then show "\<not> errors_Is err ErrCacheMiss"
    by (cases "w k") (auto simp: inMemoryClient_def InMemory_Get_def mem_view_def split: if_splits)
next
  fix item w e w' ty
  assume "cc_Set inMemoryClient item w = (e, w')" "cao_DisableOverwrite (it_Opts item)" "mem_view w ty (it_Key item) \<noteq> None"
  then show "mem_view w' = mem_view w"
    by (cases "w (it_Key item)") (auto simp: inMemoryClient_def InMemory_Set_def mem_view_def)
next
  fix item w e w'
  assume "cc_Set inMemoryClient item w = (e, w')"
  then have "w' (it_Key item) \<in> {w (it_Key item), Some (it_Object item)}"
    by (auto simp: inMemoryClient_def InMemory_Set_def split: if_splits)
  then show "mem_view w' (type_of (it_Object item)) (it_Key item) \<in>
      {mem_view w (type_of (it_Object item)) (it_Key item), Some (it_Object item)}"
    by (auto simp: mem_view_def)
next
  fix item w w'
  assume "cc_Set inMemoryClient item w = (None, w')" "\<not> cao_DisableOverwrite (it_Opts item)"
  then show "mem_view w' (type_of (it_Object item)) (it_Key item) = Some (it_Object item)"
    by (auto simp: inMemoryClient_def InMemory_Set_def mem_view_def)
qed

text \<open>
  Several repository servers working on the references of one repository through one cache: the cache, the calls of
  \<open>GetOrLockGitReferences\<close>, each with an id of its own, that were told they own the lock because they found it in the cache, and
  those that were told so because they had waited too long (at once when the timeout is zero). Both kinds may
  store references, those that satisfy \<open>stores\<close>; whoever likes may unlock.
\<close>

inductive lock_step :: "ref_codec \<Rightarrow> 'w repo_Cache \<Rightarrow> string \<Rightarrow> (git_ref list \<Rightarrow> bool) \<Rightarrow> 'w \<times> string set \<times> string set \<Rightarrow> 'w \<times> string set \<times> string set \<Rightarrow> bool"
  for codec c repo stores where
  look: "lockId \<noteq> [] \<Longrightarrow> lockId \<notin> late \<Longrightarrow> GetGitReferences codec c repo w = ((found, refs, err), w') \<Longrightarrow>
    lock_step codec c repo stores (w, own, late) (w', if found = lockId then insert lockId own else own, late)"
| try_lock: "lockId \<noteq> [] \<Longrightarrow> lockId \<notin> late \<Longrightarrow> TryLockGitRefCache codec c repo lockId w = ((found, refs, err), w') \<Longrightarrow>
    lock_step codec c repo stores (w, own, late) (w', if found = lockId then insert lockId own else own, late)"
| give_up: "lock_step codec c repo stores (w, own, late) (w, own, insert lockId late)"
| unlock: "Cache_UnlockGitReferences c repo lockId w = (err, w') \<Longrightarrow>
    lock_step codec c repo stores (w, own, late) (w', own - {lockId}, late)"
| publish: "lockId \<in> own \<union> late \<Longrightarrow> stores refs \<Longrightarrow> Cache_SetGitReferences codec c repo refs w = (err, w') \<Longrightarrow>
    lock_step codec c repo stores (w, own, late) (w', own - {lockId}, late)"

text \<open>A call of \<open>GetOrLockGitReferences\<close> is such a run, whatever others do in its pauses.\<close>

lemma lock_rounds_run:
  assumes sleep: "\<And>w own late. lockId \<notin> late \<Longrightarrow>
      \<exists>own' late'. (lock_step codec c repo stores)\<^sup>*\<^sup>* (w, own, late) (sleep w, own', late') \<and> lockId \<notin> late'"
    and "lockId \<noteq> []"
  shows "lockId \<notin> late \<Longrightarrow> lock_rounds codec sleep c repo lockId n refs w = ((found, refs', err), w') \<Longrightarrow>
    \<exists>own' late'. (lock_step codec c repo stores)\<^sup>*\<^sup>* (w, own, late) (w', own', late') \<and> (found = lockId \<longrightarrow> lockId \<in> own' \<union> late')"
proof (induction n arbitrary: refs w own late)
  case 0
  then show ?case using lock_step.give_up [of codec c repo stores w own late lockId] by fastforce
next
  case (Suc n)
  obtain f1 n1 e1 w1 where g: "GetGitReferences codec c repo w = ((f1, n1, e1), w1)" by (metis prod.exhaust)
  obtain f2 n2 e2 w2 where t: "TryLockGitRefCache codec c repo lockId w1 = ((f2, n2, e2), w2)" by (metis prod.exhaust)
  let ?own1 = "if f1 = lockId then insert lockId own else own"
  let ?own2 = "if f2 = lockId then insert lockId ?own1 else ?own1"
  note s1 = lock_step.look [OF assms(2) Suc.prems(1) g, of stores own]
  note s2 = lock_step.try_lock [OF assms(2) Suc.prems(1) t, of stores ?own1]
  have s12: "(lock_step codec c repo stores)\<^sup>*\<^sup>* (w, own, late) (w2, ?own2, late)" using s1 s2 by simp
  obtain own3 late3 where s3: "(lock_step codec c repo stores)\<^sup>*\<^sup>* (w2, ?own2, late) (sleep w2, own3, late3)" "lockId \<notin> late3"
    using sleep [OF Suc.prems(1)] by blast
  let ?refs1 = "case n1 of Some rs \<Rightarrow> rs | None \<Rightarrow> refs"
  consider (found) "found_enough lockId (f1, n1, e1) refs" "found = f1" "w' = w1"
    | (taken) "found_enough lockId (f2, n2, e2) ?refs1" "found = f2" "w' = w2"
    | (again) refs2 where "lock_rounds codec sleep c repo lockId n refs2 (sleep w2) = ((found, refs', err), w')"
    using Suc.prems(2) by (auto simp: g t Let_def split: if_splits)
  then show ?case
  proof cases
    case found
    have "(lock_step codec c repo stores)\<^sup>*\<^sup>* (w, own, late) (w1, ?own1, late)" using s1 by blast
    then show ?thesis using found by fastforce
  next
    case taken
    then show ?thesis using s12 by fastforce
  next
    case again
    from Suc.IH [OF s3(2) again, of own3] obtain own' late' where
      "(lock_step codec c repo stores)\<^sup>*\<^sup>* (sleep w2, own3, late3) (w', own', late')" "found = lockId \<longrightarrow> lockId \<in> own' \<union> late'" by blast
    then show ?thesis using rtranclp_trans [OF rtranclp_trans [OF s12 s3(1)]] by blast
  qed
qed

lemma get_or_lock_run:
  assumes "\<And>w own late. lockId \<notin> late \<Longrightarrow>
      \<exists>own' late'. (lock_step codec c repo stores)\<^sup>*\<^sup>* (w, own, late) (sleep w, own', late') \<and> lockId \<notin> late'"
    and "lockId \<noteq> []" "lockId \<notin> late"
    and "Cache_GetOrLockGitReferences codec sleep n c repo lockId w = ((found, refs, err), w')"
  shows "\<exists>own' late'. (lock_step codec c repo stores)\<^sup>*\<^sup>* (w, own, late) (w', own', late') \<and> (found = lockId \<longrightarrow> lockId \<in> own' \<union> late')"
proof (cases "ca_revisionCacheLockTimeout c \<le> 0")
  case True
  then show ?thesis using assms(4) lock_step.give_up [of codec c repo stores w own late lockId]
    by (fastforce simp: Cache_GetOrLockGitReferences_def)
next
  case False
  then show ?thesis using lock_rounds_run [OF assms(1-3)] assms(4) by (auto simp: Cache_GetOrLockGitReferences_def)
qed

context lock_client
begin

abbreviation entry :: "'w \<Rightarrow> string \<Rightarrow> cache_value option" where
  "entry w repo \<equiv> view w Pairs (generateFullKey (gitRefsKey repo))"

lemma GetGitReferences_view:
  assumes "GetGitReferences codec c repo w = ((found, refs, err), w')" "ca_cache c = cl"
  shows "view w' = view w" "found \<noteq> [] \<Longrightarrow> lock_of (entry w repo) = Some found"
proof -
  obtain r where g: "cc_Get cl Pairs (generateFullKey (gitRefsKey repo)) w = (r, w')"
    and f: "(case result_bind r decode_pairs of
         Inl err \<Rightarrow> if \<not> errors_Is err ErrCacheMiss then ([], None, Some err) else ([], None, None)
       | Inr [] \<Rightarrow> ([], None, None)
       | Inr (p # ps) \<Rightarrow>
           if fst p \<noteq> CacheLockedValue then ([], Some (GitRefCacheItemToReferences codec (p # ps)), None)
           else (snd p, None, None)) = (found, refs, err)"
    using assms by (auto simp: GetGitReferences_def GetItem_def split: prod.splits)
  note v = view_get [OF g]
  show "view w' = view w" using v by blast
  assume "found \<noteq> []"
  then obtain p ps where "r = Inr (PairList (p # ps))" "fst p = CacheLockedValue" "snd p = found"
    using f by (cases r; cases "projr r") (auto simp: result_bind_def split: if_splits list.splits)
  then show "lock_of (entry w repo) = Some found" using v by simp
qed

lemma TryLock_view:
  assumes "TryLockGitRefCache codec c repo lockId w = ((found, refs, err), w')" "ca_cache c = cl"
  shows "entry w repo \<noteq> None \<Longrightarrow> view w' = view w" "found \<noteq> [] \<Longrightarrow> lock_of (entry w' repo) = Some found"
proof -
  let ?item = "\<lparr>it_Key = generateFullKey (gitRefsKey repo), it_Object = PairList [(CacheLockedValue, lockId)],
    it_Opts = \<lparr>cao_Delete = False, cao_DisableOverwrite = True, cao_Expiration = ca_revisionCacheLockTimeout c\<rparr>\<rparr>"
  obtain e w1 where s: "cc_Set cl ?item w = (e, w1)" and g: "GetGitReferences codec c repo w1 = ((found, refs, err), w')"
    using assms by (auto simp: TryLockGitRefCache_def SetItem_def Let_def split: prod.splits)
  note G = GetGitReferences_view [OF g assms(2)]
  show "entry w repo \<noteq> None \<Longrightarrow> view w' = view w" using view_keep [OF s, of Pairs] G(1) by simp
  show "found \<noteq> [] \<Longrightarrow> lock_of (entry w' repo) = Some found" using G by simp
qed

lemma Unlock_view:
  assumes "Cache_UnlockGitReferences c repo lockId w = (err, w')" "ca_cache c = cl" "lock_of (entry w repo) \<noteq> Some lockId"
  shows "view w' = view w"
proof -
  obtain r w1 where g: "cc_Get cl Pairs (generateFullKey (gitRefsKey repo)) w = (r, w1)" by (rule prod.exhaust)
  note v = view_get [OF g]
  have "w' = w1" if "r = Inr (PairList (p # ps))" for p ps
    using assms that g v by (auto simp: Cache_UnlockGitReferences_def GetItem_def result_bind_def split: if_splits)
  moreover have "w' = w1" if "\<And>p ps. r \<noteq> Inr (PairList (p # ps))"
    using assms(1,2) that g by (cases r; cases "projr r") (auto simp: Cache_UnlockGitReferences_def GetItem_def result_bind_def split: list.splits)
  ultimately have "w' = w1" by blast
  then show ?thesis using v by blast
qed

definition one_owner :: "string \<Rightarrow> 'w \<times> string set \<times> string set \<Rightarrow> bool" where
  "one_owner repo s \<longleftrightarrow> (case s of (w, own, late) \<Rightarrow> \<forall>x \<in> own. own = {x} \<and> entry w repo \<noteq> None \<and>
     (lock_of (entry w repo) = Some x \<or> late \<noteq> {} \<and> lock_of (entry w repo) = None))"

lemma one_owner_granted:
  assumes "one_owner repo (w, own, late)" "own \<noteq> {} \<longrightarrow> view w' = view w" "found \<noteq> [] \<longrightarrow> lock_of (entry w' repo) = Some found" "lockId \<noteq> []"
  shows "one_owner repo (w', if found = lockId then insert lockId own else own, late)"
proof (cases "found = lockId")
  case True
  then have l: "lock_of (entry w' repo) = Some lockId" using assms(3,4) by simp
  then have "entry w' repo \<noteq> None" by (cases "entry w' repo") simp_all
  moreover have "own \<subseteq> {lockId}"
  proof
    fix x
    assume x: "x \<in> own"
    then have "lock_of (entry w repo) \<in> {Some x, None}" "view w' = view w" using assms(1,2) unfolding one_owner_def by auto
    then show "x \<in> {lockId}" using l by auto
  qed
  ultimately show ?thesis using l True by (auto simp: one_owner_def)
next
  case False
  then show ?thesis using assms(1,2) by (auto simp: one_owner_def)
qed

lemma one_owner_step:
  assumes "lock_step codec c repo stores s s'" "one_owner repo s" "ca_cache c = cl"
    and stores: "\<And>refs. stores refs \<Longrightarrow> plain (PairList (map (rc_Strings codec) refs)) \<and> lock_of (Some (PairList (map (rc_Strings codec) refs))) = None"
  shows "one_owner repo s'"
  using assms(1)
proof cases
  case (look lockId late w found refs err w' own)
  show ?thesis unfolding look(2)
    by (rule one_owner_granted) (use assms(2) look GetGitReferences_view [OF look(5) assms(3)] in auto)
next
  case (try_lock lockId late w found refs err w' own)
  have "own \<noteq> {} \<longrightarrow> entry w repo \<noteq> None" using assms(2) try_lock(1) by (auto simp: one_owner_def)
  then show ?thesis unfolding try_lock(2)
    by (intro one_owner_granted) (use assms(2) try_lock TryLock_view [OF try_lock(5) assms(3)] in auto)
next
  case (give_up w own late lockId)
  then show ?thesis using assms(2) by (auto simp: one_owner_def)
next
  case (unlock lockId w err w' own late)
  show ?thesis
  proof (cases "lock_of (entry w repo) = Some lockId")
    case True
    then have "own \<subseteq> {lockId}" using assms(2) unlock(1) by (force simp: one_owner_def)
    then have "own - {lockId} = {}" by blast
    then show ?thesis unfolding unlock(2) one_owner_def by auto
  next
    case False
    have "view w' = view w" by (rule Unlock_view [OF unlock(3) assms(3) False])
    then show ?thesis using assms(2) unlock(1,2) by (auto simp: one_owner_def)
  qed
next
  case (publish lockId own late refs w err w')
  let ?obj = "PairList (map (rc_Strings codec) refs)"
  have e: "entry w' repo \<in> {entry w repo, Some ?obj}"
    using publish(5) assms(3) stores [OF publish(4)] view_set [of "\<lparr>it_Key = generateFullKey (gitRefsKey repo), it_Object = ?obj,
        it_Opts = zero_CacheActionOpts\<lparr>cao_Expiration := ca_revisionCacheExpiration c\<rparr>\<rparr>" w err w']
    by (auto simp: Cache_SetGitReferences_def SetItem_def expires_def zero_CacheActionOpts_def Let_def)
  show ?thesis
  proof (cases "lockId \<in> own")
    case True
    then have "own - {lockId} = {}" using assms(2) publish(1) by (auto simp: one_owner_def)
    then show ?thesis unfolding publish(2) one_owner_def by auto
  next
    case False
    then have late: "late \<noteq> {}" "own - {lockId} = own" using publish(3) by auto
    have o: "one_owner repo (w, own, late)" using assms(2) publish(1) by simp
    have "lock_of (Some ?obj) = None" using stores [OF publish(4)] by blast
    with e have "entry w' repo = entry w repo \<or> entry w' repo \<noteq> None \<and> lock_of (entry w' repo) = None" by (metis insertE option.distinct(1) singletonD)
    then have "one_owner repo (w', own, late)"
    proof
      assume "entry w' repo = entry w repo"
      then show ?thesis using o unfolding one_owner_def prod.case by metis
    next
      assume "entry w' repo \<noteq> None \<and> lock_of (entry w' repo) = None"
      with o late(1) show ?thesis unfolding one_owner_def by blast
    qed
    then show ?thesis unfolding publish(2) late(2) .
  qed
qed

lemma one_owner_run:
  assumes "(lock_step codec c repo stores)\<^sup>*\<^sup>* (w0, {}, {}) s" "ca_cache c = cl"
    and "\<And>refs. stores refs \<Longrightarrow> plain (PairList (map (rc_Strings codec) refs)) \<and> lock_of (Some (PairList (map (rc_Strings codec) refs))) = None"
  shows "one_owner repo s"
  using assms(1)
proof (induction rule: rtranclp_induct)
  case base
  show ?case by (simp add: one_owner_def)
next
  case (step s s')
  show ?case by (rule one_owner_step [OF step.hyps(2) step.IH assms(2,3)])
qed

lemma stored_references_are_found:
  assumes "\<forall>r \<in> set refs. rc_FromStrings codec (rc_Strings codec r) = r \<and> fst (rc_Strings codec r) \<notin> {[], CacheLockedValue}"
    and "refs \<noteq> []" "lockId \<noteq> []" "plain (PairList (map (rc_Strings codec) refs))" "ca_cache c = cl" "0 < ca_revisionCacheLockTimeout c"
    and "Cache_SetGitReferences codec c repo refs w = (None, w')"
    and "Cache_GetOrLockGitReferences codec sleep (Suc n) c repo lockId w' = (res, w2)"
  shows "view w2 = view w' \<and> (res = ([], refs, None) \<or> (\<exists>err. \<not> errors_Is err ErrCacheMiss \<and> res = ([], [], Some err)))"
proof -
  let ?obj = "PairList (map (rc_Strings codec) refs)"
  have e: "entry w' repo = Some ?obj"
    using assms(7,5,4) view_set_done [of "\<lparr>it_Key = generateFullKey (gitRefsKey repo), it_Object = ?obj,
        it_Opts = zero_CacheActionOpts\<lparr>cao_Expiration := ca_revisionCacheExpiration c\<rparr>\<rparr>" w w']
    by (auto simp: Cache_SetGitReferences_def SetItem_def expires_def zero_CacheActionOpts_def Let_def)
  have nonempty: "filter (\<lambda>p. fst p \<noteq> [] \<or> snd p \<noteq> []) (map (rc_Strings codec) refs) = map (rc_Strings codec) refs"
    using assms(1) by (induction refs) auto
  have read: "GitRefCacheItemToReferences codec (map (rc_Strings codec) refs) = refs"
    unfolding GitRefCacheItemToReferences_def nonempty using assms(1) by (simp add: map_idI)
  obtain q qs where q: "refs = q # qs" using assms(2) by (cases refs) auto
  obtain r w3 where g: "cc_Get cl Pairs (generateFullKey (gitRefsKey repo)) w' = (r, w3)" by (rule prod.exhaust)
  note v = view_get [OF g]
  show ?thesis
  proof (cases r)
    case (Inl err)
    have "\<not> errors_Is err ErrCacheMiss" using view_found [OF g [unfolded Inl] e] .
    then have "GetGitReferences codec c repo w' = (([], None, Some err), w3)"
      using g Inl assms(5) by (simp add: GetGitReferences_def GetItem_def result_bind_def)
    then have "res = ([], [], Some err) \<and> w2 = w3"
      using assms(6,8) by (simp add: Cache_GetOrLockGitReferences_def found_enough_def)
    then show ?thesis using v \<open>\<not> errors_Is err ErrCacheMiss\<close> by blast
  next
    case (Inr x)
    then have "x = ?obj" using v e by simp
    then have "GetGitReferences codec c repo w' = (([], Some refs, None), w3)"
      using g Inr assms(1,5) read by (simp add: GetGitReferences_def GetItem_def result_bind_def q)
    then have "res = ([], refs, None) \<and> w2 = w3"
      using assms(2,6,8) by (simp add: Cache_GetOrLockGitReferences_def found_enough_def)
    then show ?thesis using v by blast
  qed
qed

end


text \<open>
  The strings of a reference as go-git writes and reads them: the name, and the hash or \<open>ref: \<close> and the name of the target.
\<close>

definition gogit_codec :: ref_codec where
  "gogit_codec = \<lparr>
     rc_Strings = (\<lambda>r. (ref_Name r, case ref_Value r of HashReference h \<Rightarrow> h | SymbolicReference t \<Rightarrow> ''ref: '' @ t)),
     rc_FromStrings = (\<lambda>(name, target). \<lparr>ref_Name = name,
       ref_Short = (if strings_HasPrefix name ''refs/heads/'' then drop 11 name else if strings_HasPrefix name ''refs/tags/'' then drop 10 name else name),
       ref_IsTag = strings_HasPrefix name ''refs/tags/'',
       ref_Value = (if strings_HasPrefix target ''ref: '' then SymbolicReference (drop 5 target) else HashReference target)\<rparr>)\<rparr>"


text \<open>
  Behind a two-level client the conditional store is decided by each server's own memory, which
  then answers its next lookup: two servers over one shared store both believe they own
  the lock.
\<close>

lemma two_level_lock_has_two_owners:
  assumes "w0 (generateFullKey (gitRefsKey repo)) = None" "0 < z" "a \<noteq> []" "b \<noteq> []"
    and c: "c = NewCache (twoLevelClient inMemoryClient) x y z"
    and r1: "TryLockGitRefCache codec c repo a (Map.empty, w0) = ((f1, refs1, e1), (i1, w1))"
    and r2: "TryLockGitRefCache codec c repo b (Map.empty, w1) = ((f2, refs2, e2), (i2, w2))"
  shows "f1 = a \<and> f2 = b"
  using r1 r2
  by (simp add: c TryLockGitRefCache_def GetGitReferences_def SetItem_def GetItem_def NewCache_def twoLevelClient_def
      twoLevel_Set_def twoLevel_Get_def InMemory_HasSame_def InMemory_Set_def InMemory_Get_def inMemoryClient_def
      result_bind_def Let_def split: if_splits prod.splits)


text \<open>A branch and the symbolic reference \<open>HEAD\<close>, with the strings of go-git.\<close>

definition head_refs :: "git_ref list" where
  "head_refs =
     [\<lparr>ref_Name = ''HEAD'', ref_Short = ''HEAD'', ref_IsTag = False, ref_Value = SymbolicReference ''refs/heads/main''\<rparr>,
      \<lparr>ref_Name = ''refs/heads/main'', ref_Short = ''main'', ref_IsTag = False, ref_Value = HashReference sha_a\<rparr>]"


definition plain_codec :: ref_codec where
  "plain_codec = \<lparr>rc_Strings = (\<lambda>r. (ref_Name r, ref_Short r)),
     rc_FromStrings = (\<lambda>p. \<lparr>ref_Name = fst p, ref_Short = snd p, ref_IsTag = False, ref_Value = HashReference []\<rparr>)\<rparr>"

end
