(* ===== verification/RepoLock.thy ===== *)
theory RepoLock
  imports Prelude
begin

text \<open>
  The lock on checked-out repositories, \<open>reposerver/repository/lock.go\<close>: operations on one
  directory may share it when they work on the same revision and both allow it; the first
  one checks the revision out, the last one closes it.

  The two mutexes make each critical section one step; a goroutine that waits on the condition
  variable is asleep until a broadcast. Processes \<open>'p\<close> are the goroutines inside \<open>Lock\<close> or
  between \<open>Lock\<close> and \<open>Close\<close>; the closer returned by \<open>init\<close> is a value \<open>'c\<close>.
\<close>

section \<open>Critical sections\<close>

record 'c repositoryState =
  rs_revision :: string
  rs_initCloser :: "'c option"
  rs_processCount :: int
  rs_allowConcurrent :: bool

record 'c repositoryLock =
  rl_stateByKey :: "string \<rightharpoonup> 'c repositoryState"

definition NewRepositoryLock :: "'c repositoryLock" where
  "NewRepositoryLock = \<lparr>rl_stateByKey = Map.empty\<rparr>"

definition zero_repositoryState :: "'c repositoryState" where
  "zero_repositoryState = \<lparr>rs_revision = [], rs_initCloser = None, rs_processCount = 0, rs_allowConcurrent = False\<rparr>"

text \<open>The section under \<open>r.lock\<close>: the state of the path, created when there is none.\<close>

definition lock_state :: "'c repositoryLock \<Rightarrow> string \<Rightarrow> 'c repositoryState" where
  "lock_state r path = (case rl_stateByKey r path of Some state \<Rightarrow> state | None \<Rightarrow> zero_repositoryState)"

definition lock_register :: "string \<Rightarrow> 'c repositoryLock \<Rightarrow> 'c repositoryLock" where
  "lock_register path r = (case rl_stateByKey r path of
     Some state \<Rightarrow> r
   | None \<Rightarrow> r\<lparr>rl_stateByKey := (rl_stateByKey r)(path \<mapsto> zero_repositoryState)\<rparr>)"

definition set_state :: "string \<Rightarrow> 'c repositoryState \<Rightarrow> 'c repositoryLock \<Rightarrow> 'c repositoryLock" where
  "set_state path state r = r\<lparr>rl_stateByKey := (rl_stateByKey r)(path \<mapsto> state)\<rparr>"

text \<open>
  One round of the loop in \<open>Lock\<close>: whether the lock is granted after initialising, granted by
  sharing, or has to be waited for; \<open>init\<close> is the result of the initialiser if it is called.
\<close>

datatype lock_outcome = Granted | InitFailed go_error | MustWait

definition lock_init_error :: "go_error \<Rightarrow> go_error" where
  "lock_init_error err = Wrapped ''failed to initialize repository resources'' err"

definition lock_needs_init :: "'c repositoryState \<Rightarrow> bool" where
  "lock_needs_init state \<longleftrightarrow> rs_revision state = []"

definition lock_round :: "string \<Rightarrow> bool \<Rightarrow> 'c result \<Rightarrow> 'c repositoryState \<Rightarrow> lock_outcome \<times> 'c repositoryState" where
  "lock_round revision allowConcurrent init state =
     (if lock_needs_init state then
        (case init of
           Inl err \<Rightarrow> (InitFailed (lock_init_error err), state)
         | Inr closer \<Rightarrow> (Granted, \<lparr>rs_revision = revision, rs_initCloser = Some closer, rs_processCount = 1,
             rs_allowConcurrent = allowConcurrent\<rparr>))
      else if rs_revision state = revision \<and> rs_allowConcurrent state \<and> allowConcurrent then
        (Granted, state\<lparr>rs_processCount := rs_processCount state + 1\<rparr>)
      else (MustWait, state))"

text \<open>The section of the closer: the closer of \<open>init\<close> to run and whether to broadcast.\<close>

definition lock_close :: "'c repositoryState \<Rightarrow> 'c option \<times> bool \<times> 'c repositoryState" where
  "lock_close state =
     (let state1 = state\<lparr>rs_processCount := rs_processCount state - 1\<rparr> in
      if rs_processCount state1 = 0
      then (rs_initCloser state1, True, state1\<lparr>rs_revision := []\<rparr>)
      else (None, False, state1))"

section \<open>Goroutines\<close>

datatype lock_pc = Idle | Trying string string bool | Sleeping string string bool | Holding string string bool | Notifying string

record ('p, 'c) lock_system =
  sys_lock :: "'c repositoryLock"
  sys_pc :: "'p \<Rightarrow> lock_pc"

definition goto :: "'p \<Rightarrow> lock_pc \<Rightarrow> 'c repositoryLock \<Rightarrow> ('p, 'c) lock_system \<Rightarrow> ('p, 'c) lock_system" where
  "goto p pc r s = s\<lparr>sys_lock := r, sys_pc := (sys_pc s)(p := pc)\<rparr>"

definition wake :: "string \<Rightarrow> lock_pc \<Rightarrow> lock_pc" where
  "wake path pc = (case pc of Sleeping d v a \<Rightarrow> if d = path then Trying d v a else pc | _ \<Rightarrow> pc)"

fun outcome_pc :: "string \<Rightarrow> string \<Rightarrow> bool \<Rightarrow> lock_outcome \<Rightarrow> lock_pc" where
  "outcome_pc path revision allow Granted = Holding path revision allow"
| "outcome_pc path revision allow (InitFailed err) = Idle"
| "outcome_pc path revision allow MustWait = Sleeping path revision allow"

text \<open>\<open>asks path revision\<close> says which directories and revisions callers lock; nothing is excluded when it is always true.\<close>

inductive lock_sys_step :: "(string \<Rightarrow> string \<Rightarrow> bool) \<Rightarrow> ('p, 'c) lock_system \<Rightarrow> ('p, 'c) lock_system \<Rightarrow> bool"
  for asks where
  enter: "sys_pc s p = Idle \<Longrightarrow> asks path revision \<Longrightarrow>
    lock_sys_step asks s (goto p (Trying path revision allow) (lock_register path (sys_lock s)) s)"
| round: "sys_pc s p = Trying path revision allow \<Longrightarrow>
    lock_round revision allow init (lock_state (sys_lock s) path) = (res, state') \<Longrightarrow>
    lock_sys_step asks s (goto p (outcome_pc path revision allow res) (set_state path state' (sys_lock s)) s)"
| close: "sys_pc s p = Holding path revision allow \<Longrightarrow>
    lock_close (lock_state (sys_lock s) path) = (closer, notify, state') \<Longrightarrow>
    lock_sys_step asks s (goto p (if notify then Notifying path else Idle) (set_state path state' (sys_lock s)) s)"
| broadcast: "sys_pc s p = Notifying path \<Longrightarrow>
    lock_sys_step asks s (s\<lparr>sys_pc := (\<lambda>q. wake path (sys_pc s q))(p := Idle)\<rparr>)"

definition lock_sys_init :: "('p, 'c) lock_system" where
  "lock_sys_init = \<lparr>sys_lock = NewRepositoryLock, sys_pc = (\<lambda>p. Idle)\<rparr>"

definition holders :: "string \<Rightarrow> ('p, 'c) lock_system \<Rightarrow> 'p set" where
  "holders path s = {p. \<exists>v a. sys_pc s p = Holding path v a}"

definition sleepers :: "string \<Rightarrow> ('p, 'c) lock_system \<Rightarrow> 'p set" where
  "sleepers path s = {p. \<exists>v a. sys_pc s p = Sleeping path v a}"

definition notifiers :: "string \<Rightarrow> ('p, 'c) lock_system \<Rightarrow> 'p set" where
  "notifiers path s = {p. sys_pc s p = Notifying path}"

definition requests :: "string \<Rightarrow> ('p, 'c) lock_system \<Rightarrow> string set" where
  "requests path s = {v. \<exists>p a. sys_pc s p = Trying path v a \<or> sys_pc s p = Sleeping path v a}"

text \<open>
  The invariant of one path: the process count is the number of holders, which all hold the
  revision of the state and, if there are several, all allow sharing; nobody holds an empty
  revision; somebody is going to wake a sleeper.
\<close>

definition path_inv :: "string \<Rightarrow> ('p, 'c) lock_system \<Rightarrow> bool" where
  "path_inv path s \<longleftrightarrow>
     (let state = lock_state (sys_lock s) path in
      finite (holders path s) \<and>
      (rs_revision state = [] \<longrightarrow> holders path s = {}) \<and>
      (rs_revision state \<noteq> [] \<longrightarrow> rs_processCount state = int (card (holders path s)) \<and> holders path s \<noteq> {}) \<and>
      (\<forall>p v a. sys_pc s p = Holding path v a \<longrightarrow> v = rs_revision state \<and> a = rs_allowConcurrent state) \<and>
      (\<not> rs_allowConcurrent state \<longrightarrow> card (holders path s) \<le> 1) \<and>
      [] \<notin> requests path s \<and>
      (sleepers path s \<noteq> {} \<longrightarrow> rs_revision state \<noteq> [] \<or> notifiers path s \<noteq> {}))"


lemma goto_simps [simp]: "sys_lock (goto p pc r s) = r" "sys_pc (goto p pc r s) = (sys_pc s)(p := pc)"
  by (simp_all add: goto_def)

lemma lock_state_set_state [simp]: "lock_state (set_state d st r) path = (if path = d then st else lock_state r path)"
  by (simp add: lock_state_def set_state_def)

lemma lock_state_register [simp]: "lock_state (lock_register d r) path = lock_state r path"
  by (simp add: lock_state_def lock_register_def split: option.split)

lemma holders_goto:
  "holders path (goto p pc r s) = (if \<exists>v a. pc = Holding path v a then insert p (holders path s) else holders path s - {p})"
  by (auto simp: holders_def)

lemma sleepers_goto:
  "sleepers path (goto p pc r s) = (if \<exists>v a. pc = Sleeping path v a then insert p (sleepers path s) else sleepers path s - {p})"
  by (auto simp: sleepers_def)

lemma notifiers_goto:
  "notifiers path (goto p pc r s) = (if pc = Notifying path then insert p (notifiers path s) else notifiers path s - {p})"
  by (auto simp: notifiers_def)

lemma requests_goto:
  "requests path (goto p pc r s) \<subseteq> requests path s \<union> {v. \<exists>a. pc = Trying path v a \<or> pc = Sleeping path v a}"
  by (auto simp: requests_def)

lemma no_empty_request:
  "[] \<notin> requests path s \<Longrightarrow> (\<And>a. pc \<noteq> Trying path [] a \<and> pc \<noteq> Sleeping path [] a) \<Longrightarrow> [] \<notin> requests path (goto p pc r s)"
  using requests_goto [of path p pc r s] by blast

lemmas goto_sets = holders_goto sleepers_goto notifiers_goto

lemma not_in_sets:
  "sys_pc s p = Idle \<Longrightarrow> p \<notin> holders path s \<and> p \<notin> sleepers path s \<and> p \<notin> notifiers path s"
  "sys_pc s p = Trying d v a \<Longrightarrow> p \<notin> holders path s \<and> p \<notin> sleepers path s \<and> p \<notin> notifiers path s"
  "sys_pc s p = Holding d v a \<Longrightarrow> p \<notin> sleepers path s \<and> p \<notin> notifiers path s"
  "sys_pc s p = Notifying d \<Longrightarrow> p \<notin> holders path s \<and> p \<notin> sleepers path s"
  by (simp_all add: holders_def sleepers_def notifiers_def)

lemma wake_simps [simp]:
  "wake path pc = Holding d v a \<longleftrightarrow> pc = Holding d v a" "wake path pc = Notifying d \<longleftrightarrow> pc = Notifying d"
  "wake path pc = Sleeping d v a \<longleftrightarrow> pc = Sleeping d v a \<and> d \<noteq> path"
  "wake path pc = Trying d v a \<longleftrightarrow> pc = Trying d v a \<or> pc = Sleeping d v a \<and> d = path"
  by (auto simp: wake_def split: lock_pc.splits)

definition on_path :: "string \<Rightarrow> lock_pc \<Rightarrow> bool" where
  "on_path path pc = (case pc of Idle \<Rightarrow> False | Trying d v a \<Rightarrow> d = path | Sleeping d v a \<Rightarrow> d = path
     | Holding d v a \<Rightarrow> d = path | Notifying d \<Rightarrow> d = path)"

lemma on_path_simps [simp]: "\<not> on_path path Idle" "on_path path (Trying d v a) = (d = path)" "on_path path (Sleeping d v a) = (d = path)"
  "on_path path (Holding d v a) = (d = path)" "on_path path (Notifying d) = (d = path)"
  by (simp_all add: on_path_def)

text \<open>A path's invariant depends only on its state and on the goroutines that are at that path.\<close>

lemma path_inv_other:
  assumes "path_inv path s" "\<not> on_path path (sys_pc s p)" "\<not> on_path path pc" "lock_state r path = lock_state (sys_lock s) path"
  shows "path_inv path (goto p pc r s)"
proof -
  have pc: "sys_pc (goto p pc r s) q = x \<longleftrightarrow> sys_pc s q = x" if "on_path path x" for q x
    using assms(2,3) that by auto
  have h: "holders path (goto p pc r s) = holders path s" "sleepers path (goto p pc r s) = sleepers path s"
    "notifiers path (goto p pc r s) = notifiers path s" "requests path (goto p pc r s) = requests path s"
    unfolding holders_def sleepers_def notifiers_def requests_def by (simp_all only: pc on_path_simps)
  have "\<forall>q v a. sys_pc (goto p pc r s) q = Holding path v a \<longleftrightarrow> sys_pc s q = Holding path v a" by (simp only: pc on_path_simps) blast
  then show ?thesis using assms(1) unfolding path_inv_def Let_def h goto_simps(1) assms(4) by blast
qed

lemma path_inv_init: "path_inv path lock_sys_init"
  by (simp add: path_inv_def lock_sys_init_def holders_def sleepers_def requests_def lock_state_def NewRepositoryLock_def zero_repositoryState_def)

lemma path_inv_enter:
  assumes "path_inv path s" "sys_pc s p = Idle" "d = path \<longrightarrow> revision \<noteq> []"
  shows "path_inv path (goto p (Trying d revision allow) (lock_register d (sys_lock s)) s)"
  using assms not_in_sets(1) [OF assms(2), of path] unfolding path_inv_def Let_def by (auto simp: goto_sets no_empty_request)

lemma path_inv_round:
  assumes inv: "path_inv path s" and p: "sys_pc s p = Trying path revision allow"
    and round: "lock_round revision allow init (lock_state (sys_lock s) path) = (res, state')"
  shows "path_inv path (goto p (outcome_pc path revision allow res) (set_state path state' (sys_lock s)) s)"
proof -
  note np = not_in_sets(2) [OF p, of path]
  have rev: "revision \<noteq> []" using inv p by (auto simp: path_inv_def Let_def requests_def)
  show ?thesis
  proof (cases res)
    case (InitFailed e)
    then have "state' = lock_state (sys_lock s) path"
      using round by (auto simp: lock_round_def split: if_splits sum.splits)
    with InitFailed inv p np show ?thesis unfolding path_inv_def Let_def by (auto simp: goto_sets no_empty_request split: if_splits)
  next
    case MustWait
    then have "state' = lock_state (sys_lock s) path" "rs_revision state' \<noteq> []"
      using round by (auto simp: lock_round_def lock_needs_init_def split: if_splits sum.splits)
    with MustWait inv p np rev show ?thesis unfolding path_inv_def Let_def by (auto simp: goto_sets no_empty_request split: if_splits)
  next
    case Granted
    show ?thesis
    proof (cases "rs_revision (lock_state (sys_lock s) path) = []")
      case True
      then obtain closer where "state' = \<lparr>rs_revision = revision, rs_initCloser = Some closer, rs_processCount = 1,
             rs_allowConcurrent = allow\<rparr>"
        using round Granted by (auto simp: lock_round_def lock_needs_init_def split: sum.splits)
      moreover have "holders path s = {}" using True inv by (simp add: path_inv_def Let_def)
      moreover from this have "sys_pc s q \<noteq> Holding path v a" for q v a by (auto simp: holders_def)
      ultimately show ?thesis using Granted inv p rev unfolding path_inv_def Let_def by (auto simp: goto_sets no_empty_request)
    next
      case False
      then have "state' = (lock_state (sys_lock s) path)\<lparr>rs_processCount := rs_processCount (lock_state (sys_lock s) path) + 1\<rparr>"
        "rs_revision (lock_state (sys_lock s) path) = revision" "rs_allowConcurrent (lock_state (sys_lock s) path)" allow
        using round Granted by (auto simp: lock_round_def lock_needs_init_def split: if_splits)
      then show ?thesis using Granted inv p np rev unfolding path_inv_def Let_def by (auto simp: goto_sets no_empty_request)
    qed
  qed
qed

lemma path_inv_close:
  assumes inv: "path_inv path s" and p: "sys_pc s p = Holding path revision allow"
    and close: "lock_close (lock_state (sys_lock s) path) = (closer, notify, state')"
  shows "path_inv path (goto p (if notify then Notifying path else Idle) (set_state path state' (sys_lock s)) s)"
proof -
  let ?st = "lock_state (sys_lock s) path"
  have hp: "p \<in> holders path s" using p by (auto simp: holders_def)
  then have st: "rs_revision ?st \<noteq> []" "rs_processCount ?st = int (card (holders path s))" "finite (holders path s)"
    using inv by (auto simp: path_inv_def Let_def)
  show ?thesis
  proof (cases "card (holders path s) = 1")
    case True
    then have only: "holders path s = {p}" using hp by (auto simp: card_1_singleton_iff)
    then have others: "q \<noteq> p \<Longrightarrow> sys_pc s q \<noteq> Holding path v a" for q v a by (auto simp: holders_def)
    have "notify" "state' = ?st\<lparr>rs_processCount := 0, rs_revision := []\<rparr>"
      using close st True by (auto simp: lock_close_def Let_def)
    with inv p only others show ?thesis unfolding path_inv_def Let_def by (auto simp: goto_sets no_empty_request)
  next
    case False
    have c: "card (holders path s) = Suc (card (holders path s - {p}))" using hp st(3) by (rule card.remove [rotated])
    with False have "card (holders path s - {p}) \<noteq> 0" by simp
    then have more: "holders path s - {p} \<noteq> {}" "int (card (holders path s - {p})) = rs_processCount ?st - 1"
      using c st(2) by (force, simp)
    have "\<not> notify" "state' = ?st\<lparr>rs_processCount := rs_processCount ?st - 1\<rparr>"
      using close st False by (auto simp: lock_close_def Let_def)
    with inv not_in_sets(3) [OF p, of path] more st show ?thesis unfolding path_inv_def Let_def by (auto simp: goto_sets no_empty_request)
  qed
qed

lemma path_inv_broadcast:
  assumes inv: "path_inv path s" and p: "sys_pc s p = Notifying d"
  shows "path_inv path (s\<lparr>sys_pc := (\<lambda>q. wake d (sys_pc s q))(p := Idle)\<rparr>)"
proof -
  let ?s' = "s\<lparr>sys_pc := (\<lambda>q. wake d (sys_pc s q))(p := Idle)\<rparr>"
  have h: "holders path ?s' = holders path s" "sleepers path ?s' = (if d = path then {} else sleepers path s)"
    "d \<noteq> path \<Longrightarrow> notifiers path ?s' = notifiers path s"
    using p by (auto simp: holders_def sleepers_def notifiers_def)
  have "requests path ?s' \<subseteq> requests path s" by (auto simp: requests_def)
  with inv have "[] \<notin> requests path ?s'" by (auto simp: path_inv_def Let_def)
  moreover have "sys_pc ?s' q = Holding path v a \<longleftrightarrow> sys_pc s q = Holding path v a" for q v a using p by auto
  ultimately show ?thesis using inv h(3) unfolding path_inv_def Let_def h(1,2) by (auto split: if_splits)
qed


lemma path_inv_step:
  assumes "lock_sys_step asks s s'" "path_inv path s" "\<not> asks path []"
  shows "path_inv path s'"
  using assms(1)
proof cases
  case (enter p d revision allow)
  have "d = path \<longrightarrow> revision \<noteq> []" using enter(3) assms(3) by auto
  then show ?thesis unfolding enter(1) by (rule path_inv_enter [OF assms(2) enter(2)])
next
  case (round p d revision allow init res state')
  show ?thesis
  proof (cases "d = path")
    case True
    show ?thesis unfolding round(1) True by (rule path_inv_round) (use round True assms(2) in auto)
  next
    case False
    have "\<not> on_path path (outcome_pc d revision allow res)" using False by (cases res) auto
    with False round assms(2) show ?thesis by (simp add: path_inv_other)
  qed
next
  case (close p d revision allow closer notify state')
  show ?thesis
  proof (cases "d = path")
    case True
    show ?thesis unfolding close(1) True by (rule path_inv_close) (use close True assms(2) in auto)
  next
    case False
    with close assms(2) show ?thesis by (simp add: path_inv_other)
  qed
next
  case (broadcast p d)
  show ?thesis unfolding broadcast(1) by (rule path_inv_broadcast) (use broadcast assms(2) in auto)
qed

lemma path_inv_reachable:
  assumes "(lock_sys_step asks)\<^sup>*\<^sup>* lock_sys_init s" "\<not> asks path []"
  shows "path_inv path s"
  using assms(1)
proof (induction rule: rtranclp_induct)
  case (step s s')
  show ?case by (rule path_inv_step [OF step.hyps(2) step.IH assms(2)])
qed (rule path_inv_init)

section \<open>Properties\<close>

text \<open>
  A checked-out directory is used for one revision at a time: in every state that goroutines can reach of which none locks
  that directory for the empty revision, two goroutines that hold the lock of the directory hold it for the same
  revision, which is the one recorded, and if they are different both asked for shared use; the process count is
  the number of holders. (The empty revision marks a free directory, so that it locks nothing:
  \<open>empty_revision_locks_nothing\<close>.)
\<close>

theorem lock_holders_agree:
  assumes "(lock_sys_step asks)\<^sup>*\<^sup>* lock_sys_init s" "\<not> asks path []"
    and "sys_pc s p = Holding path v a" "sys_pc s q = Holding path u b"
  shows "v = u \<and> v = rs_revision (lock_state (sys_lock s) path) \<and> (p \<noteq> q \<longrightarrow> a \<and> b) \<and>
    rs_processCount (lock_state (sys_lock s) path) = int (card (holders path s))"
proof -
  note inv = path_inv_reachable [OF assms(1,2), unfolded path_inv_def Let_def]
  have h: "{p, q} \<subseteq> holders path s" using assms(3,4) by (auto simp: holders_def)
  have same: "v = rs_revision (lock_state (sys_lock s) path)" "a = rs_allowConcurrent (lock_state (sys_lock s) path)"
    "u = rs_revision (lock_state (sys_lock s) path)" "b = rs_allowConcurrent (lock_state (sys_lock s) path)"
    using inv assms(3,4) by blast+
  have "rs_allowConcurrent (lock_state (sys_lock s) path)" if "p \<noteq> q"
  proof (rule ccontr)
    assume "\<not> ?thesis"
    with inv have "card (holders path s) \<le> 1" by blast
    with card_mono [of "holders path s" "{p, q}"] h inv that show False by simp
  qed
  moreover have "rs_processCount (lock_state (sys_lock s) path) = int (card (holders path s))" using inv h by blast
  ultimately show ?thesis using same by blast
qed

text \<open>
  A directory held by one goroutine, which a second one shares (\<open>Granted\<close>) or for which it waits because it asks for another
  revision (\<open>MustWait\<close>).
\<close>

abbreviation some_asks :: "string \<Rightarrow> string \<Rightarrow> bool" where
  "some_asks \<equiv> \<lambda>path revision. revision = ''abc'' \<or> revision = ''def''"

lemma two_goroutines_reachable:
  assumes "some_asks ''/r'' v" "res = (if v = ''abc'' then Granted else MustWait)"
  shows "\<exists>s :: (nat, unit) lock_system. (lock_sys_step some_asks)\<^sup>*\<^sup>* lock_sys_init s \<and>
     sys_pc s = (\<lambda>p. Idle)(0 := Holding ''/r'' ''abc'' True, 1 := outcome_pc ''/r'' v True res)"
proof -
  let ?T = "Trying ''/r'' ''abc'' True"
  let ?s0 = "lock_sys_init :: (nat, unit) lock_system"
  let ?s1 = "goto 0 ?T (lock_register ''/r'' (sys_lock ?s0)) ?s0"
  let ?s2 = "goto 1 (Trying ''/r'' v True) (lock_register ''/r'' (sys_lock ?s1)) ?s1"
  let ?st1 = "\<lparr>rs_revision = ''abc'', rs_initCloser = Some (), rs_processCount = 1, rs_allowConcurrent = True\<rparr>"
  let ?s3 = "goto 0 (outcome_pc ''/r'' ''abc'' True Granted) (set_state ''/r'' ?st1 (sys_lock ?s2)) ?s2"
  let ?st2 = "if v = ''abc'' then ?st1\<lparr>rs_processCount := 2\<rparr> else ?st1"
  let ?s4 = "goto 1 (outcome_pc ''/r'' v True res) (set_state ''/r'' ?st2 (sys_lock ?s3)) ?s3"
  have z: "lock_state (sys_lock ?s2) ''/r'' = zero_repositoryState"
    by (simp add: lock_state_def lock_register_def lock_sys_init_def NewRepositoryLock_def)
  have "lock_sys_step some_asks ?s0 ?s1" by (rule lock_sys_step.enter) (simp_all add: lock_sys_init_def)
  moreover have "lock_sys_step some_asks ?s1 ?s2" by (rule lock_sys_step.enter) (use assms(1) in \<open>simp_all add: lock_sys_init_def\<close>)
  moreover have "lock_sys_step some_asks ?s2 ?s3"
    by (rule lock_sys_step.round [where init = "Inr ()"]) (simp, unfold z, simp add: lock_round_def lock_needs_init_def zero_repositoryState_def)
  moreover have "lock_sys_step some_asks ?s3 ?s4"
    by (rule lock_sys_step.round [where init = "Inr ()"]) (simp_all add: lock_round_def lock_needs_init_def assms(2))
  ultimately have "(lock_sys_step some_asks)\<^sup>*\<^sup>* lock_sys_init ?s4" by (meson rtranclp.rtrancl_into_rtrancl rtranclp.rtrancl_refl)
  moreover have "sys_pc ?s4 = (\<lambda>p. Idle)(0 := Holding ''/r'' ''abc'' True, 1 := outcome_pc ''/r'' v True res)"
    by (auto simp: lock_sys_init_def)
  ultimately show ?thesis by blast
qed

theorem lock_holders_agree_witness:
  "\<exists>s :: (nat, unit) lock_system. (lock_sys_step some_asks)\<^sup>*\<^sup>* lock_sys_init s \<and>
     rs_revision (lock_state (sys_lock s) ''/r'') = ''abc'' \<and> 0 \<in> holders ''/r'' s \<and> 1 \<in> holders ''/r'' s"
proof -
  obtain s :: "(nat, unit) lock_system" where s: "(lock_sys_step some_asks)\<^sup>*\<^sup>* lock_sys_init s"
    "sys_pc s 0 = Holding ''/r'' ''abc'' True" "sys_pc s 1 = Holding ''/r'' ''abc'' True"
    using two_goroutines_reachable [of "''abc''" Granted] by auto
  from lock_holders_agree [OF s(1) _ s(2,3)] s show ?thesis by (auto simp: holders_def intro!: exI [of _ s])
qed

text \<open>
  No wake-up is lost: in every state that goroutines can reach of which none locks the directory for the empty revision, while a
  goroutine sleeps on the directory, some other goroutine holds it or is about to broadcast, so when all
  holders have closed and all broadcasts are done nobody is left asleep; closing by the last
  holder always leads to a broadcast; and the broadcast wakes every sleeper.
\<close>

theorem sleepers_are_woken:
  assumes "(lock_sys_step asks)\<^sup>*\<^sup>* lock_sys_init s" "\<not> asks path []"
  shows "(sleepers path s \<noteq> {} \<longrightarrow> holders path s \<noteq> {} \<or> notifiers path s \<noteq> {}) \<and>
    (\<forall>p v a. sys_pc s p = Holding path v a \<and> holders path s = {p} \<longrightarrow>
       fst (snd (lock_close (lock_state (sys_lock s) path))) \<and> (\<exists>s'. lock_sys_step asks s s' \<and> sys_pc s' p = Notifying path)) \<and>
    (\<forall>p. sys_pc s p = Notifying path \<longrightarrow> (\<exists>s'. lock_sys_step asks s s' \<and> sleepers path s' = {}))"
proof (intro conjI impI allI; (elim conjE)?)
  note inv = path_inv_reachable [OF assms, unfolded path_inv_def Let_def]
  show "sleepers path s \<noteq> {} \<Longrightarrow> holders path s \<noteq> {} \<or> notifiers path s \<noteq> {}" using inv by blast
  fix p v a
  assume h: "sys_pc s p = Holding path v a" "holders path s = {p}"
  have "rs_processCount (lock_state (sys_lock s) path) = 1" using inv h by fastforce
  then have n: "fst (snd (lock_close (lock_state (sys_lock s) path)))" by (simp add: lock_close_def)
  then show "fst (snd (lock_close (lock_state (sys_lock s) path)))" .
  obtain closer state' where "lock_close (lock_state (sys_lock s) path) = (closer, True, state')"
    using n by (metis prod.collapse)
  from lock_sys_step.close [OF h(1) this] show "\<exists>s'. lock_sys_step asks s s' \<and> sys_pc s' p = Notifying path"
    by (intro exI conjI) (assumption, simp)
next
  fix p
  assume "sys_pc s p = Notifying path"
  from lock_sys_step.broadcast [OF this] show "\<exists>s'. lock_sys_step asks s s' \<and> sleepers path s' = {}"
    by (intro exI conjI) (auto simp: sleepers_def split: if_splits)
qed

theorem sleepers_are_woken_witness:
  "\<exists>s s' :: (nat, unit) lock_system. (lock_sys_step some_asks)\<^sup>*\<^sup>* lock_sys_init s \<and> sleepers ''/r'' s = {1} \<and> holders ''/r'' s = {0} \<and>
     lock_sys_step some_asks s s' \<and> sys_pc s' 0 = Notifying ''/r''"
proof -
  obtain s :: "(nat, unit) lock_system" where s: "(lock_sys_step some_asks)\<^sup>*\<^sup>* lock_sys_init s"
    "sys_pc s = (\<lambda>p. Idle)(0 := Holding ''/r'' ''abc'' True, 1 := Sleeping ''/r'' ''def'' True)"
    using two_goroutines_reachable [of "''def''" MustWait] by auto
  have sets: "sleepers ''/r'' s = {1}" "holders ''/r'' s = {0}" by (auto simp: sleepers_def holders_def s(2))
  have "\<exists>s'. lock_sys_step some_asks s s' \<and> sys_pc s' 0 = Notifying ''/r''"
    using sleepers_are_woken [OF s(1), of "''/r''"] sets s(2) by auto
  with s(1) sets show ?thesis by blast
qed

text \<open>
  An empty revision locks nothing: the state of a path locked for the empty revision still
  reads as free, so a request for another revision is granted at once, its initialiser runs
  in the directory in use, and the count of the first holder is overwritten.
\<close>

theorem empty_revision_locks_nothing:
  "lock_round [] allow (Inr c1) state = (Granted, state1) \<Longrightarrow> rs_revision state = [] \<Longrightarrow>
   lock_round revision allow' (Inr c2) state1 =
     (Granted, \<lparr>rs_revision = revision, rs_initCloser = Some c2, rs_processCount = 1, rs_allowConcurrent = allow'\<rparr>)"
  by (auto simp: lock_round_def lock_needs_init_def)

theorem empty_revision_locks_nothing_witness:
  "fst (lock_round ''abc'' False (Inr (2 :: nat)) (snd (lock_round [] False (Inr 1) zero_repositoryState))) = Granted"
  using empty_revision_locks_nothing [of False "1 :: nat" zero_repositoryState _ "''abc''" False 2]
  by (simp add: lock_round_def lock_needs_init_def zero_repositoryState_def)

end
