(* ===== verification/GitInvariant.thy ===== *)
theory GitInvariant
  imports GitClient
begin

text \<open>
  What the operations of the git client leave alone: a property of the world that every call out of
  the process, every event handler and every cache operation keeps is kept by each operation
  of the client. The repository server uses it for the coherence of the caches and for the
  parts of its own state that git never touches.
\<close>

locale client_keeps =
  fixes I :: "'w \<Rightarrow> bool" and env :: "'w git_env" and m :: "'w nativeGitClient"
  assumes exec: "ge_exec env prog args dir vars w = (r, w') \<Longrightarrow> I w \<Longrightarrow> I w'"
    and Environ: "ge_Environ env w = (e, w') \<Longrightarrow> I w \<Longrightarrow> I w'"
    and closeCreds: "I w \<Longrightarrow> I (ge_closeCreds env w)"
    and removeAll: "ge_removeAll env x w = (e1, w') \<Longrightarrow> I w \<Longrightarrow> I w'"
    and mkdirAll: "ge_mkdirAll env x w = (e1, w') \<Longrightarrow> I w \<Longrightarrow> I w'"
    and plainInit: "ge_plainInit env x w = (e1, w') \<Longrightarrow> I w \<Longrightarrow> I w'"
    and createRemote: "ge_createRemote env x w = (e1, w') \<Longrightarrow> I w \<Longrightarrow> I w'"
    and newUUID: "ge_newUUID env w = (e2, w') \<Longrightarrow> I w \<Longrightarrow> I w'"
    and initMemory: "ge_initMemory env w = (e1, w') \<Longrightarrow> I w \<Longrightarrow> I w'"
    and newAuth: "ge_newAuth env x w = (e1, w') \<Longrightarrow> I w \<Longrightarrow> I w'"
    and listRemote: "ge_listRemote env x w = (e3, w') \<Longrightarrow> I w \<Longrightarrow> I w'"
    and fetch_handler: "eh_OnFetch (gc_handlers m) = Some h \<Longrightarrow> h u w = (w', fin) \<Longrightarrow> I w \<Longrightarrow> I w'"
    and fetch_done: "eh_OnFetch (gc_handlers m) = Some h \<Longrightarrow> h u w = (w', fin) \<Longrightarrow> I w1 \<Longrightarrow> I (fin w1)"
    and lsremote_handler: "eh_OnLsRemote (gc_handlers m) = Some h \<Longrightarrow> h u w = (w', fin) \<Longrightarrow> I w \<Longrightarrow> I w'"
    and lsremote_done: "eh_OnLsRemote (gc_handlers m) = Some h \<Longrightarrow> h u w = (w', fin) \<Longrightarrow> I w1 \<Longrightarrow> I (fin w1)"
    and refs_set: "gc_gitRefCache m = Some c1 \<Longrightarrow> SetGitReferences c1 u refs w = (e1, w') \<Longrightarrow> I w \<Longrightarrow> I w'"
    and refs_get: "gc_gitRefCache m = Some c1 \<Longrightarrow> GetOrLockGitReferences c1 u lockId w = (e4, w') \<Longrightarrow> I w \<Longrightarrow> I w'"
    and refs_unlock: "gc_gitRefCache m = Some c1 \<Longrightarrow> UnlockGitReferences c1 u lockId w = (e1, w') \<Longrightarrow> I w \<Longrightarrow> I w'"
begin

lemma runCmdOutput_keeps: "runCmdOutput env m prog args vars w = (r, w') \<Longrightarrow> I w \<Longrightarrow> I w'"
  unfolding runCmdOutput_def Let_def by (rule exec)

lemma runCmd_keeps: "runCmd env m args w = (r, w') \<Longrightarrow> I w \<Longrightarrow> I w'"
  unfolding runCmd_def by (rule runCmdOutput_keeps)

lemma runCredentialedCmd_keeps: "runCredentialedCmd env m args w = (r, w') \<Longrightarrow> I w \<Longrightarrow> I w'"
  unfolding runCredentialedCmd_def
  by (auto simp: Let_def split: prod.splits sum.splits dest: Environ runCmdOutput_keeps intro: closeCreds)

lemma fetch_cmd_keeps: "fetch_cmd env m revision w = (r, w') \<Longrightarrow> I w \<Longrightarrow> I w'"
  unfolding fetch_cmd_def by (auto split: if_splits dest: runCredentialedCmd_keeps)

lemma git_Init_keeps: "git_Init env m w = (r, w') \<Longrightarrow> I w \<Longrightarrow> I w'"
  unfolding git_Init_def
  by (auto simp: Let_def split: prod.splits option.splits open_result.splits dest: removeAll mkdirAll plainInit createRemote)

lemma IsRevisionPresent_keeps: "IsRevisionPresent env m revision w = (r, w') \<Longrightarrow> I w \<Longrightarrow> I w'"
  unfolding IsRevisionPresent_def by (auto split: if_splits prod.splits dest: runCmdOutput_keeps)

lemma LsLargeFiles_keeps: "LsLargeFiles env m w = (r, w') \<Longrightarrow> I w \<Longrightarrow> I w'"
  unfolding LsLargeFiles_def by (auto split: prod.splits option.splits dest: runCmd_keeps)

lemma Submodule_keeps: "Submodule env m w = (r, w') \<Longrightarrow> I w \<Longrightarrow> I w'"
  unfolding Submodule_def by (auto split: prod.splits option.splits dest: runCredentialedCmd_keeps)

lemma checkout_lfs_keeps: "checkout_lfs env m w = (r, w') \<Longrightarrow> I w \<Longrightarrow> I w'"
  unfolding checkout_lfs_def
  by (auto split: prod.splits option.splits sum.splits if_splits dest: LsLargeFiles_keeps runCmd_keeps)

lemma checkout_submodules_keeps: "checkout_submodules env m sub w = (r, w') \<Longrightarrow> I w \<Longrightarrow> I w'"
  unfolding checkout_submodules_def by (auto split: prod.splits option.splits if_splits dest: Submodule_keeps)

lemma Checkout_keeps: "Checkout env m revision sub w = (r, w') \<Longrightarrow> I w \<Longrightarrow> I w'"
  unfolding Checkout_def Let_def
  by (auto split: prod.splits option.splits dest!: runCmd_keeps checkout_lfs_keeps checkout_submodules_keeps)

lemma git_Fetch_keeps:
  assumes "git_Fetch env m revision w = (r, w')" "I w"
  shows "I w'"
proof -
  obtain w0 fin where h: "(case eh_OnFetch (gc_handlers m) of None \<Rightarrow> (w, id) | Some h \<Rightarrow> h (gc_repoURL m) w) = (w0, fin)"
    by (rule prod.exhaust)
  have w0: "I w0" and fin: "\<And>v. I v \<Longrightarrow> I (fin v)"
    using h assms(2) fetch_handler fetch_done by (auto split: option.splits)
  from assms(1) h show ?thesis unfolding git_Fetch_def Let_def
    by (auto split: prod.splits option.splits sum.splits if_splits intro!: fin
        dest!: fetch_cmd_keeps [OF _ w0] dest: LsLargeFiles_keeps runCredentialedCmd_keeps)
qed

lemma remote_refs_keeps: "remote_refs env m w = (r, w') \<Longrightarrow> I w \<Longrightarrow> I w'"
  unfolding remote_refs_def
  by (auto split: prod.splits option.splits dest: initMemory createRemote newAuth listRemote)

lemma getRefs_remote_keeps:
  assumes "getRefs_remote env m lockId locked w = (r, w')" "I w"
  shows "I w'"
proof -
  obtain w1 fin where h: "(case eh_OnLsRemote (gc_handlers m) of None \<Rightarrow> (w, id) | Some h \<Rightarrow> h (gc_repoURL m) w) = (w1, fin)"
    by (rule prod.exhaust)
  have w1: "I w1" and fin: "\<And>v. I v \<Longrightarrow> I (fin v)"
    using h assms(2) lsremote_handler lsremote_done by (auto split: option.splits)
  obtain res w2 where r: "remote_refs env m w1 = (res, w2)" by (rule prod.exhaust)
  have w2: "I w2" using remote_refs_keeps [OF r w1] .
  have set: "I (snd (SetGitReferences c1 u refs v))" "I (snd (UnlockGitReferences c1 u lockId v))"
    if "gc_gitRefCache m = Some c1" "I v" for c1 u refs v
    using refs_set [OF that(1) prod.collapse [symmetric] that(2)] refs_unlock [OF that(1) prod.collapse [symmetric] that(2)] by blast+
  obtain b w3 where s: "(case (res, gc_gitRefCache m) of
      (Inr refs, Some cache) \<Rightarrow> let (err, w3) = SetGitReferences cache (gc_repoURL m) refs w2 in (err \<noteq> None, w3)
    | _ \<Rightarrow> (True, w2)) = (b, w3)" by (rule prod.exhaust)
  have "I w3" using s w2 by (auto split: sum.splits option.splits prod.splits dest: refs_set)
  then show ?thesis using assms(1) h r s fin set(2)
    unfolding getRefs_remote_def Let_def by (auto split: option.splits if_splits)
qed

lemma getRefs_keeps: "getRefs env m w = (r, w') \<Longrightarrow> I w \<Longrightarrow> I w'"
  unfolding getRefs_def Let_def
  by (auto split: prod.splits option.splits if_splits dest: newUUID refs_get getRefs_remote_keeps)

lemma lsRemote_keeps: "lsRemote env lib m revision w = (r, w') \<Longrightarrow> I w \<Longrightarrow> I w'"
  unfolding lsRemote_def Let_def by (auto split: prod.splits sum.splits if_splits dest: getRefs_keeps)

lemma LsRemote_loop_keeps: "LsRemote_loop env lib m revision n r0 w = (r, w') \<Longrightarrow> I w \<Longrightarrow> I w'"
  by (induction n arbitrary: r0 w) (auto split: prod.splits sum.splits dest: lsRemote_keeps)

lemma LsRemote_keeps: "LsRemote n env lib m revision w = (r, w') \<Longrightarrow> I w \<Longrightarrow> I w'"
  unfolding LsRemote_def by (rule LsRemote_loop_keeps)

end

text \<open>The queries also store their answers.\<close>

locale query_keeps = client_keeps +
  assumes rev_handler: "eh_OnRevList (gc_handlers m) = Some h2 \<Longrightarrow> h2 u w = (w', fin2) \<Longrightarrow> I w \<Longrightarrow> I w'"
    and rev_done: "eh_OnRevList (gc_handlers m) = Some h2 \<Longrightarrow> h2 u w = (w', fin2) \<Longrightarrow> I w1 \<Longrightarrow> I (fin2 b1 b2 w1)"
    and diff_handler: "eh_OnDiffTree (gc_handlers m) = Some h2 \<Longrightarrow> h2 u w = (w', fin2) \<Longrightarrow> I w \<Longrightarrow> I w'"
    and diff_done: "eh_OnDiffTree (gc_handlers m) = Some h2 \<Longrightarrow> h2 u w = (w', fin2) \<Longrightarrow> I w1 \<Longrightarrow> I (fin2 b1 b2 w1)"
    and revs_get: "gc_listRevisionsCache m = Some c2 \<Longrightarrow> GetListRevisions c2 u p t w = (e5, w') \<Longrightarrow> I w \<Longrightarrow> I w'"
    and revs_set: "gc_listRevisionsCache m = Some c2 \<Longrightarrow> SetListRevisions c2 u p t xs w = (e1, w') \<Longrightarrow> I w \<Longrightarrow> I w'"
    and files_get: "gc_diffTreeCache m = Some c3 \<Longrightarrow> GetDiffTree c3 u t w = (e5, w') \<Longrightarrow> I w \<Longrightarrow> I w'"
    and files_set: "gc_diffTreeCache m = Some c3 \<Longrightarrow> SetDiffTree c3 u t xs w = (e1, w') \<Longrightarrow> I w \<Longrightarrow> I w'"
begin

lemma list_revisions_keeps: "list_revisions env m p t w = (r, w') \<Longrightarrow> I w \<Longrightarrow> I w'"
  using revs_set [OF _ prod.collapse [symmetric]]
  unfolding list_revisions_def Let_def
  by (auto split: prod.splits sum.splits option.splits if_splits dest: revs_get runCmd_keeps)

lemma diff_tree_keeps: "diff_tree env m t w = (r, w') \<Longrightarrow> I w \<Longrightarrow> I w'"
  using files_set [OF _ prod.collapse [symmetric]]
  unfolding diff_tree_def Let_def
  by (auto split: prod.splits sum.splits option.splits if_splits dest: files_get runCmd_keeps)

lemma ListRevisions_keeps: "ListRevisions env m p t w = (r, w') \<Longrightarrow> I w \<Longrightarrow> I w'"
  unfolding ListRevisions_def Let_def
  by (auto split: prod.splits if_splits option.splits dest: list_revisions_keeps rev_handler intro: rev_done)

lemma DiffTree_keeps: "DiffTree env m t w = (r, w') \<Longrightarrow> I w \<Longrightarrow> I w'"
  unfolding DiffTree_def Let_def
  by (auto split: prod.splits if_splits option.splits dest: diff_tree_keeps diff_handler intro: diff_done)

end

end
