(* ===== verification/RepoService.thy ===== *)
theory RepoService
  imports RepoCache RepoLock GitInvariant MRPService
begin

text \<open>
  The repository server: the directories of the local clones (\<open>util/io/paths.go\<close>), the URL
  normalisation that keys them (\<open>util/git/git.go\<close>), the metrics of git operations
  (\<open>reposerver/metrics/githandlers.go\<close>), checking a revision out
  (\<open>reposerver/repository/repository.go\<close>) and the request the controller makes, \<open>GetChangeRevision\<close>
  (\<open>reposerver/repository/mrp_repository.go\<close>).
\<close>

section \<open>Clients and tests of repositories\<close>

text \<open>The client with a directory derived from the URL, and the test of a repository that uses it.\<close>

definition ErrInvalidRepoURL :: go_error where
  "ErrInvalidRepoURL = ErrorString ''repo URL is invalid''"

definition NewClient :: "(string \<Rightarrow> string option) \<Rightarrow> string \<Rightarrow> string \<Rightarrow> bool \<Rightarrow> bool \<Rightarrow> string \<Rightarrow> string \<Rightarrow> 'w ClientOpts list \<Rightarrow> 'w nativeGitClient result" where
  "NewClient url_String TempDir rawRepoURL insecure enableLfs proxy noProxy opts =
     (let normalizedGitURL = NormalizeGitURL url_String rawRepoURL;
          quoted = [CHR 0x22] @ rawRepoURL @ [CHR 0x22];
          root = filepath_Join [TempDir, map (\<lambda>c. if c = CHR ''/'' \<or> c = CHR '':'' then CHR ''_'' else c) normalizedGitURL]
      in if normalizedGitURL = [] then Inl (Wrapped (''repository '' @ quoted @ '' cannot be initialized'') ErrInvalidRepoURL)
         else if root = TempDir then
           Inl (ErrorString (''repository '' @ quoted @ '' cannot be initialized, because its root would be system temp at '' @ root))
         else Inr (NewClientExt rawRepoURL root insecure enableLfs proxy noProxy opts))"

definition TestRepo :: "nat \<Rightarrow> 'w git_env \<Rightarrow> 'v semver \<Rightarrow> (string \<Rightarrow> string option) \<Rightarrow> string \<Rightarrow> string \<Rightarrow> bool \<Rightarrow> bool \<Rightarrow> string \<Rightarrow> string \<Rightarrow> 'w
    \<Rightarrow> go_error option \<times> 'w" where
  "TestRepo maxAttemptsCount env lib url_String TempDir repo insecure enableLfs proxy noProxy w =
     (case NewClient url_String TempDir repo insecure enableLfs proxy noProxy [] of
        Inl err \<Rightarrow> (Some (Wrapped ''unable to initialize git client'' err), w)
      | Inr client \<Rightarrow>
          let (res, w1) = LsRemote maxAttemptsCount env lib client ''HEAD'' w in
          case res of
            Inl err \<Rightarrow> (Some (Wrapped ''unable to ls-remote HEAD on repository'' err), w1)
          | Inr sha \<Rightarrow> (None, w1))"

text \<open>The check of the directory does not see a URL that leads above the temporary directory.\<close>

lemma NewClient_above_TempDir:
  "\<exists>client. NewClient Some ''/tmp'' ''..'' False False [] [] [] = Inr (client :: 'w nativeGitClient) \<and> gc_root client = ''/''"
proof -
  have "NormalizeGitURL Some ''..'' = ''..''" by code_simp
  moreover have "filepath_Join [''/tmp'', ''..''] = ''/''" by code_simp
  ultimately show ?thesis by (simp add: NewClient_def NewClientExt_def Let_def del: filepath_Join.simps)
qed

section \<open>Directories of the clones\<close>

record RandomizedTempPaths =
  rtp_root :: string
  rtp_paths :: "string \<rightharpoonup> string"

definition NewRandomizedTempPaths :: "string \<Rightarrow> RandomizedTempPaths" where
  "NewRandomizedTempPaths root = \<lparr>rtp_root = root, rtp_paths = Map.empty\<rparr>"

definition paths_Add :: "string \<Rightarrow> string \<Rightarrow> RandomizedTempPaths \<Rightarrow> RandomizedTempPaths" where
  "paths_Add key value p = p\<lparr>rtp_paths := (rtp_paths p)(key \<mapsto> value)\<rparr>"

text \<open>\<open>uuid\<close> is the result of \<open>uuid.NewRandom\<close> if it is called.\<close>

definition GetPath :: "string result \<Rightarrow> string \<Rightarrow> RandomizedTempPaths \<Rightarrow> string result \<times> RandomizedTempPaths" where
  "GetPath uuid key p = (case rtp_paths p key of
     Some val \<Rightarrow> (Inr val, p)
   | None \<Rightarrow>
       (case uuid of
          Inl err \<Rightarrow> (Inl err, p)
        | Inr uniqueId \<Rightarrow>
            let repoPath = filepath_Join [rtp_root p, uniqueId]
            in (Inr repoPath, p\<lparr>rtp_paths := (rtp_paths p)(key \<mapsto> repoPath)\<rparr>)))"

definition GetPathIfExists :: "string \<Rightarrow> RandomizedTempPaths \<Rightarrow> string" where
  "GetPathIfExists key p = (case rtp_paths p key of Some val \<Rightarrow> val | None \<Rightarrow> [])"

definition GetPaths :: "RandomizedTempPaths \<Rightarrow> string \<rightharpoonup> string" where
  "GetPaths p = rtp_paths p"

section \<open>The server and its world\<close>

record RepoServerInitConstants =
  ric_OCIMediaTypes :: "string list"
  ric_ParallelismLimit :: int
  ric_PauseGenerationAfterFailedGenerationAttempts :: int
  ric_PauseGenerationOnFailureForMinutes :: int
  ric_PauseGenerationOnFailureForRequests :: int
  ric_SubmoduleEnabled :: bool
  ric_MaxCombinedDirectoryManifestsSize :: int
  ric_CMPTarExcludedGlobs :: "string list"
  ric_AllowOutOfBoundsSymlinks :: bool
  ric_StreamedManifestMaxExtractedSize :: int
  ric_StreamedManifestMaxTarSize :: int
  ric_HelmManifestMaxExtractedSize :: int
  ric_HelmRegistryMaxIndexSize :: int
  ric_OCIManifestMaxExtractedSize :: int
  ric_DisableOCIManifestMaxExtractedSize :: bool
  ric_DisableHelmManifestMaxExtractedSize :: bool
  ric_IncludeHiddenDirectories :: bool
  ric_CMPUseManifestGeneratePaths :: bool
  ric_UseCache :: bool
  ric_UseListRevisionsCache :: bool
  ric_UseDiffTreeCache :: bool

text \<open>
  What a request sees: the process state of the server (the paths, the lock, the metrics and the
  slots taken of the ls-remote semaphore) and the world outside it \<open>'g\<close> (file system,
  remotes, cache store). The closer that a checkout returns removes the permissions of a directory
  and is represented by its path.
\<close>

record 'g repo_world =
  rw_gitRepoPaths :: RandomizedTempPaths
  rw_repoLock :: "string repositoryLock"
  rw_metrics :: RepoMetricsServer
  rw_lsRemoteSlots :: int
  rw_ext :: 'g

text \<open>Calls out of the process act on the outside world only.\<close>

definition lift :: "('g \<Rightarrow> 'a \<times> 'g) \<Rightarrow> 'g repo_world \<Rightarrow> 'a \<times> 'g repo_world" where
  "lift f w = (let (r, g) = f (rw_ext w) in (r, w\<lparr>rw_ext := g\<rparr>))"

definition lift_env :: "'g git_env \<Rightarrow> 'g repo_world git_env" where
  "lift_env e = \<lparr>ge_exec = (\<lambda>prog args dir vars. lift (ge_exec e prog args dir vars)), ge_osEnviron = ge_osEnviron e,
     ge_certPath = ge_certPath e, ge_Environ = lift (ge_Environ e), ge_closeCreds = (\<lambda>w. w\<lparr>rw_ext := ge_closeCreds e (rw_ext w)\<rparr>),
     ge_hasGitmodules = (\<lambda>r w. ge_hasGitmodules e r (rw_ext w)), ge_openRepo = (\<lambda>r w. ge_openRepo e r (rw_ext w)),
     ge_removeAll = (\<lambda>r. lift (ge_removeAll e r)), ge_mkdirAll = (\<lambda>r. lift (ge_mkdirAll e r)),
     ge_plainInit = (\<lambda>r. lift (ge_plainInit e r)), ge_createRemote = (\<lambda>u. lift (ge_createRemote e u)),
     ge_newUUID = lift (ge_newUUID e), ge_initMemory = lift (ge_initMemory e), ge_newAuth = (\<lambda>u. lift (ge_newAuth e u)),
     ge_listRemote = (\<lambda>u. lift (ge_listRemote e u))\<rparr>"

definition lift_client :: "'g CacheClient \<Rightarrow> 'g repo_world CacheClient" where
  "lift_client cl = \<lparr>cc_Set = (\<lambda>item. lift (cc_Set cl item)), cc_Rename = (\<lambda>a b x. lift (cc_Rename cl a b x)),
     cc_Get = (\<lambda>ty k. lift (cc_Get cl ty k)), cc_Delete = (\<lambda>k. lift (cc_Delete cl k))\<rparr>"

definition lift_cache :: "'g repo_Cache \<Rightarrow> 'g repo_world repo_Cache" where
  "lift_cache c = \<lparr>ca_cache = lift_client (ca_cache c), ca_repoCacheExpiration = ca_repoCacheExpiration c,
     ca_revisionCacheExpiration = ca_revisionCacheExpiration c, ca_revisionCacheLockTimeout = ca_revisionCacheLockTimeout c\<rparr>"

text \<open>
  The server's constants and collaborators: the cache, go-git's codec of references, the semantic
  version library, \<open>net/url\<close>, the process-wide settings of the git client, and the calls to the
  file system: \<open>sv_readDir\<close> lists names with whether they are directories, and \<open>sv_remoteURL\<close>
  is the first URL of the first remote of the git repository in a directory, if it has one.
  \<open>sv_sleep\<close> and \<open>sv_rounds\<close> are the pauses of the lock on references.
\<close>

datatype stat_result = StatOk | StatNotExist | StatError go_error

record ('g, 'v) Service =
  sv_rootDir :: string
  sv_initConstants :: RepoServerInitConstants
  sv_cache :: "'g repo_Cache"
  sv_git :: "'g git_env"
  sv_semver :: "'v semver"
  sv_codec :: ref_codec
  sv_sleep :: "'g \<Rightarrow> 'g"
  sv_rounds :: nat
  sv_url_String :: "string \<Rightarrow> string option"
  sv_maxAttemptsCount :: nat
  sv_lsRemoteParallelismLimit :: int
  sv_stat :: "string \<Rightarrow> 'g \<Rightarrow> stat_result"
  sv_chmod :: "string \<Rightarrow> nat \<Rightarrow> 'g \<Rightarrow> go_error option \<times> 'g"
  sv_mkdirAll :: "string \<Rightarrow> nat \<Rightarrow> 'g \<Rightarrow> go_error option \<times> 'g"
  sv_readDir :: "string \<Rightarrow> 'g \<Rightarrow> (string \<times> bool) list result"
  sv_remoteURL :: "string \<Rightarrow> 'g \<Rightarrow> string option"

definition new_world :: "string \<Rightarrow> 'g \<Rightarrow> 'g repo_world" where
  "new_world rootDir g = \<lparr>rw_gitRepoPaths = NewRandomizedTempPaths rootDir, rw_repoLock = NewRepositoryLock,
     rw_metrics = NewRepoMetricsServer, rw_lsRemoteSlots = 0, rw_ext = g\<rparr>"

section \<open>Metrics of git operations\<close>

definition count_request :: "string \<Rightarrow> string \<Rightarrow> bool \<Rightarrow> bool \<Rightarrow> 'g repo_world \<Rightarrow> 'g repo_world" where
  "count_request repo requestType cached success w =
     w\<lparr>rw_metrics := ObserveGitRequestDuration repo requestType cached success
        (IncGitRequest repo requestType cached success (rw_metrics w))\<rparr>"

text \<open>
  A request that finds all slots of the semaphore taken waits for another one to release its slot;
  the slots count the requests that have one.
\<close>

definition NewGitClientEventHandlers :: "int \<Rightarrow> 'g repo_world EventHandlers" where
  "NewGitClientEventHandlers lsRemoteParallelismLimit = \<lparr>
     eh_OnLsRemote = Some (\<lambda>repo w.
       (if lsRemoteParallelismLimit > 0 then w\<lparr>rw_lsRemoteSlots := rw_lsRemoteSlots w + 1\<rparr> else w,
        \<lambda>w. count_request repo ''ls-remote'' False True
          (if lsRemoteParallelismLimit > 0 then w\<lparr>rw_lsRemoteSlots := rw_lsRemoteSlots w - 1\<rparr> else w))),
     eh_OnFetch = Some (\<lambda>repo w. (w, count_request repo ''fetch'' False True)),
     eh_OnPush = None,
     eh_OnDiffTree = Some (\<lambda>repo w. (w, count_request repo ''diff-tree'')),
     eh_OnRevList = Some (\<lambda>repo w. (w, count_request repo ''rev-list''))\<rparr>"


section \<open>Clients\<close>

definition newClient :: "('g, 'v) Service \<Rightarrow> Repository \<Rightarrow> 'g repo_world ClientOpts list \<Rightarrow> 'g repo_world
    \<Rightarrow> 'g repo_world nativeGitClient result \<times> 'g repo_world" where
  "newClient s repo opts w =
     (let key = NormalizeGitURL (sv_url_String s) (repo_Repo repo);
          (uuid, w1) = (if rtp_paths (rw_gitRepoPaths w) key = None then lift (ge_newUUID (sv_git s)) w else (Inr [], w));
          (res, paths) = GetPath uuid key (rw_gitRepoPaths w1);
          w2 = w1\<lparr>rw_gitRepoPaths := paths\<rparr>
      in case res of
           Inl err \<Rightarrow> (Inl err, w2)
         | Inr repoPath \<Rightarrow>
             (Inr (NewClientExt (repo_Repo repo) repoPath (IsInsecure repo) (repo_EnableLFS repo) (repo_Proxy repo) (repo_NoProxy repo)
                (opts @ [WithEventHandlers (NewGitClientEventHandlers (sv_lsRemoteParallelismLimit s))])), w2))"

definition newClientResolveRevision :: "('g, 'v) Service \<Rightarrow> Repository \<Rightarrow> string \<Rightarrow> 'g repo_world ClientOpts list \<Rightarrow> 'g repo_world
    \<Rightarrow> ('g repo_world nativeGitClient \<times> string) result \<times> 'g repo_world" where
  "newClientResolveRevision s repo revision opts w =
     (let (res, w1) = newClient s repo opts w in
      case res of
        Inl err \<Rightarrow> (Inl err, w1)
      | Inr gitClient \<Rightarrow>
          let (r, w2) = LsRemote (sv_maxAttemptsCount s) (lift_env (sv_git s)) (sv_semver s) gitClient revision w1 in
          case r of
            Inl err \<Rightarrow> (Inl err, w2\<lparr>rw_metrics := IncGitLsRemoteFail (gc_root gitClient) revision (rw_metrics w2)\<rparr>)
          | Inr commitSHA \<Rightarrow> (Inr (gitClient, commitSHA), w2))"

section \<open>Checking a revision out\<close>

text \<open>Mode 448 is octal 700. Failures to change permissions are only logged.\<close>

definition directoryPermissionInitializer :: "('g, 'v) Service \<Rightarrow> string \<Rightarrow> 'g repo_world \<Rightarrow> 'g repo_world" where
  "directoryPermissionInitializer s rootPath w =
     (if sv_stat s rootPath (rw_ext w) = StatOk then snd (lift (sv_chmod s rootPath 448) w) else w)"

definition remove_permissions :: "('g, 'v) Service \<Rightarrow> string \<Rightarrow> 'g repo_world \<Rightarrow> 'g repo_world" where
  "remove_permissions s rootPath w = snd (lift (sv_chmod s rootPath 0) w)"

text \<open>Restoring the paths of the clones on disk when the server starts; mode 192 is octal 300.\<close>

definition restore_path :: "('g, 'v) Service \<Rightarrow> 'g repo_world \<Rightarrow> string \<times> bool \<Rightarrow> 'g repo_world" where
  "restore_path s w entry =
     (if \<not> snd entry then w
      else
        let fullPath = filepath_Join [sv_rootDir s, fst entry];
            w1 = directoryPermissionInitializer s fullPath w;
            w2 = (case sv_remoteURL s fullPath (rw_ext w1) of
                    Some url \<Rightarrow> w1\<lparr>rw_gitRepoPaths := paths_Add (NormalizeGitURL (sv_url_String s) url) fullPath (rw_gitRepoPaths w1)\<rparr>
                  | None \<Rightarrow> w1)
        in remove_permissions s fullPath w2)"

definition Service_Init :: "('g, 'v) Service \<Rightarrow> 'g repo_world \<Rightarrow> go_error option \<times> 'g repo_world" where
  "Service_Init s w = (case sv_stat s (sv_rootDir s) (rw_ext w) of
     StatNotExist \<Rightarrow> lift (sv_mkdirAll s (sv_rootDir s) 192) w
   | StatError err \<Rightarrow> (None, w)
   | StatOk \<Rightarrow>
       let (e1, w1) = lift (sv_chmod s (sv_rootDir s) 448) w in
       case e1 of
         Some err \<Rightarrow> (None, w1)
       | None \<Rightarrow>
           (case sv_readDir s (sv_rootDir s) (rw_ext w1) of
              Inl err \<Rightarrow> (None, w1)
            | Inr dirEntries \<Rightarrow> lift (sv_chmod s (sv_rootDir s) 192) (foldl (restore_path s) w1 dirEntries)))"

definition checkoutRevision :: "'w git_env \<Rightarrow> 'w nativeGitClient \<Rightarrow> string \<Rightarrow> bool \<Rightarrow> 'w \<Rightarrow> go_error option \<times> 'w" where
  "checkoutRevision env gitClient revision submoduleEnabled w =
     (let (e1, w1) = git_Init env gitClient w in
      case e1 of
        Some err \<Rightarrow> (Some (StatusError Internal (''Failed to initialize git repo: '' @ error_Error err)), w1)
      | None \<Rightarrow>
          let (revisionPresent, w2) = IsRevisionPresent env gitClient revision w1;
              (e2, w3) = (if \<not> revisionPresent then git_Fetch env gitClient [] w2 else (None, w2))
          in case e2 of
               Some err \<Rightarrow> (Some (StatusError Internal (''Failed to fetch default: '' @ error_Error err)), w3)
             | None \<Rightarrow>
                 let ((out, e3), w4) = Checkout env gitClient revision submoduleEnabled w3 in
                 case e3 of
                   None \<Rightarrow> (None, w4)
                 | Some err \<Rightarrow>
                     let (e4, w5) = git_Fetch env gitClient revision w4 in
                     case e4 of
                       Some err \<Rightarrow> (Some (StatusError Internal (''Failed to checkout revision '' @ revision @ '': '' @ error_Error err)), w5)
                     | None \<Rightarrow>
                         let ((out, e5), w6) = Checkout env gitClient ''FETCH_HEAD'' submoduleEnabled w5 in
                         case e5 of
                           Some err \<Rightarrow> (Some (StatusError Internal (''Failed to checkout FETCH_HEAD: '' @ error_Error err)), w6)
                         | None \<Rightarrow> (None, w6))"

definition Service_checkoutRevision :: "('g, 'v) Service \<Rightarrow> 'g repo_world nativeGitClient \<Rightarrow> string \<Rightarrow> bool \<Rightarrow> 'g repo_world
    \<Rightarrow> string result \<times> 'g repo_world" where
  "Service_checkoutRevision s gitClient revision submoduleEnabled w =
     (let w1 = directoryPermissionInitializer s (gc_root gitClient) w;
          (err, w2) = checkoutRevision (lift_env (sv_git s)) gitClient revision submoduleEnabled w1
      in case err of
           Some e \<Rightarrow> (Inl e, w2\<lparr>rw_metrics := IncGitFetchFail (gc_root gitClient) revision (rw_metrics w2)\<rparr>)
         | None \<Rightarrow> (Inr (gc_root gitClient), w2))"

text \<open>
  \<open>Lock\<close> on the server's lock: \<open>None\<close> while the request has to wait for other requests. Closing
  runs the closer of the initialiser when the last holder leaves.
\<close>

definition repoLock_Lock :: "string \<Rightarrow> string \<Rightarrow> bool \<Rightarrow> ('g repo_world \<Rightarrow> string result \<times> 'g repo_world) \<Rightarrow> 'g repo_world
    \<Rightarrow> (go_error option \<times> 'g repo_world) option" where
  "repoLock_Lock path revision allowConcurrent init w =
     (let w0 = w\<lparr>rw_repoLock := lock_register path (rw_repoLock w)\<rparr>;
          state = lock_state (rw_repoLock w0) path;
          (closer, w1) = (if lock_needs_init state then init w0 else (Inr [], w0));
          (outcome, state') = lock_round revision allowConcurrent closer state;
          w2 = w1\<lparr>rw_repoLock := set_state path state' (rw_repoLock w1)\<rparr>
      in case outcome of
           Granted \<Rightarrow> Some (None, w2)
         | InitFailed err \<Rightarrow> Some (Some err, w2)
         | MustWait \<Rightarrow> None)"

definition repoLock_Close :: "('g, 'v) Service \<Rightarrow> string \<Rightarrow> 'g repo_world \<Rightarrow> 'g repo_world" where
  "repoLock_Close s path w =
     (let (closer, notify, state') = lock_close (lock_state (rw_repoLock w) path);
          w1 = w\<lparr>rw_repoLock := set_state path state' (rw_repoLock w)\<rparr>
      in case closer of Some dir \<Rightarrow> remove_permissions s dir w1 | None \<Rightarrow> w1)"

section \<open>GetChangeRevision\<close>

text \<open>The loop over the revisions, newest first.\<close>

fun find_change :: "('g, 'v) Service \<Rightarrow> 'g repo_world nativeGitClient \<Rightarrow> string \<Rightarrow> string \<Rightarrow> string \<Rightarrow> string list \<Rightarrow> string list
    \<Rightarrow> 'g repo_world \<Rightarrow> (string result \<times> 'g repo_world) go" where
  "find_change s gitClient repo app namespace refreshPaths [] w = Ret (Inr [], w)"
| "find_change s gitClient repo app namespace refreshPaths (r # rs) w =
     (let (res, w1) = DiffTree (lift_env (sv_git s)) gitClient r w in
      case res of
        Inl err \<Rightarrow>
          Ret (Inl (StatusError Internal (''Difftree for revision '' @ r @ '' returned error: '' @ error_Error err)),
           w1\<lparr>rw_metrics := IncDiffTreeFail repo app namespace (rw_metrics w1)\<rparr>)
      | Inr files \<Rightarrow>
          if length files = 0 then find_change s gitClient repo app namespace refreshPaths rs w1
          else go_bind (AppFilesHaveChanged refreshPaths files) (\<lambda>changedFiles.
            if changedFiles then Ret (Inr r, w1)
            else find_change s gitClient repo app namespace refreshPaths rs w1))"

text \<open>What happens while the lock is held.\<close>

definition change_in_range :: "('g, 'v) Service \<Rightarrow> 'g repo_world nativeGitClient \<Rightarrow> ChangeRevisionRequest \<Rightarrow> string \<Rightarrow> string
    \<Rightarrow> 'g repo_world \<Rightarrow> (string result \<times> 'g repo_world) go" where
  "change_in_range s gitClient request repo revision w =
     (let (res, w1) = ListRevisions (lift_env (sv_git s)) gitClient (crr_PreviousRevision request) revision w in
      case res of
        Inl err \<Rightarrow>
          Ret (Inl (StatusError Internal (''failed to get revisions '' @ crr_PreviousRevision request @ ''..'' @ revision @ '': '' @ error_Error err)),
           w1\<lparr>rw_metrics := IncRevListFail repo (crr_AppName request) (crr_Namespace request) (rw_metrics w1)\<rparr>)
      | Inr revisions \<Rightarrow>
          if length revisions = 0 then Ret (Inr revision, w1)
          else find_change s gitClient repo (crr_AppName request) (crr_Namespace request) (crr_Paths request) revisions w1)"

definition client_opts :: "('g, 'v) Service \<Rightarrow> 'g repo_world ClientOpts list" where
  "client_opts s =
     (if ric_UseCache (sv_initConstants s)
      then [WithCache (repo_gitRefCache (sv_codec s) (\<lambda>w. w\<lparr>rw_ext := sv_sleep s (rw_ext w)\<rparr>) (sv_rounds s) (lift_cache (sv_cache s))) True]
      else []) @
     (if ric_UseListRevisionsCache (sv_initConstants s) then [WithListRevisionsCache (repo_listRevisionsCache (lift_cache (sv_cache s)))] else []) @
     (if ric_UseDiffTreeCache (sv_initConstants s) then [WithDiffTreeCache (repo_diffTreeCache (lift_cache (sv_cache s)))] else [])"

text \<open>The body after the checks of the arguments, without the deferred metrics of the request.\<close>

definition change_revision :: "('g, 'v) Service \<Rightarrow> Repository \<Rightarrow> ChangeRevisionRequest \<Rightarrow> 'g repo_world
    \<Rightarrow> (string result \<times> 'g repo_world) go option" where
  "change_revision s repo request w =
     (let (res, w1) = newClientResolveRevision s repo (crr_CurrentRevision request) (client_opts s) w in
      case res of
        Inl err \<Rightarrow> Some (Ret (Inl (StatusError Internal (''unable to resolve git revision : '' @ error_Error err)), w1))
      | Inr (gitClient, revision) \<Rightarrow>
          if crr_PreviousRevision request = [] then Some (Ret (Inr (crr_CurrentRevision request), w1))
          else
            let w2 = w1\<lparr>rw_metrics := IncPendingRepoRequest (repo_Repo repo) (rw_metrics w1)\<rparr> in
            case repoLock_Lock (gc_root gitClient) revision True (Service_checkoutRevision s gitClient revision False) w2 of
              None \<Rightarrow> None
            | Some (Some err, w3) \<Rightarrow>
                Some (Ret (Inl (StatusError Internal (''unable to checkout git repo '' @ repo_Repo repo @ '' with revision '' @ revision @ '': '' @ error_Error err)),
                      w3\<lparr>rw_metrics := DecPendingRepoRequest (repo_Repo repo) (rw_metrics w3)\<rparr>))
            | Some (None, w3) \<Rightarrow>
                Some (go_bind (change_in_range s gitClient request (repo_Repo repo) revision w3) (\<lambda>(r, w4).
                  let w5 = repoLock_Close s (gc_root gitClient) w4
                  in Ret (r, w5\<lparr>rw_metrics := DecPendingRepoRequest (repo_Repo repo) (rw_metrics w5)\<rparr>))))"

text \<open>The deferred function of the request reads the URL of the repository, also when it is nil.\<close>

definition record_request :: "string \<Rightarrow> ChangeRevisionRequest \<Rightarrow> string result \<times> 'g repo_world \<Rightarrow> string result \<times> 'g repo_world" where
  "record_request repo request p = (case p of (r, w) \<Rightarrow>
     (r, w\<lparr>rw_metrics := IncGetChangeRevisionRequest repo (isErr r) (crr_AppName request) (crr_Namespace request)
            (ObserveGetChangeRevisionRequestDuration repo (crr_AppName request) (crr_Namespace request) (rw_metrics w))\<rparr>))"

definition GetChangeRevision :: "('g, 'v) Service \<Rightarrow> ChangeRevisionRequest \<Rightarrow> 'g repo_world \<Rightarrow> (string result \<times> 'g repo_world) go option" where
  "GetChangeRevision s request w = (case crr_Repo request of
     None \<Rightarrow> Some (Panic NilDereference)
   | Some repo \<Rightarrow> map_option (\<lambda>res. go_bind res (\<lambda>p. Ret (record_request (repo_Repo repo) request p)))
       (if length (crr_Paths request) = 0 then Some (Ret (Inl (StatusError InvalidArgument ''must pass a refresh path''), w))
        else change_revision s repo request w))"


section \<open>What git operations leave alone\<close>

text \<open>The client a request works with.\<close>

definition request_client :: "('g, 'v) Service \<Rightarrow> Repository \<Rightarrow> string \<Rightarrow> 'g repo_world nativeGitClient" where
  "request_client s repo root = NewClientExt (repo_Repo repo) root (IsInsecure repo) (repo_EnableLFS repo) (repo_Proxy repo) (repo_NoProxy repo)
     (client_opts s @ [WithEventHandlers (NewGitClientEventHandlers (sv_lsRemoteParallelismLimit s))])"

lemmas client_defs = request_client_def client_opts_def NewClientExt_def WithCache_def WithListRevisionsCache_def
  WithDiffTreeCache_def WithEventHandlers_def

lemma request_client_fields:
  "gc_root (request_client s repo root) = root" "gc_repoURL (request_client s repo root) = repo_Repo repo"
  "gc_handlers (request_client s repo root) = NewGitClientEventHandlers (sv_lsRemoteParallelismLimit s)"
  "gc_listRevisionsCache (request_client s repo root) \<in> {None, Some (repo_listRevisionsCache (lift_cache (sv_cache s)))}"
  "gc_diffTreeCache (request_client s repo root) \<in> {None, Some (repo_diffTreeCache (lift_cache (sv_cache s)))}"
  "gc_gitRefCache (request_client s repo root) \<in>
     {None, Some (repo_gitRefCache (sv_codec s) (\<lambda>w. w\<lparr>rw_ext := sv_sleep s (rw_ext w)\<rparr>) (sv_rounds s) (lift_cache (sv_cache s)))}"
  by (auto simp: client_defs)

text \<open>
  A property of the process state that does not look at the outside world, the counters of git
  requests or the semaphore.
\<close>

definition frame :: "(RandomizedTempPaths \<Rightarrow> string repositoryLock \<Rightarrow> metric_vec \<Rightarrow> metric_vec \<Rightarrow> bool) \<Rightarrow> 'g repo_world \<Rightarrow> bool" where
  "frame P w \<longleftrightarrow> P (rw_gitRepoPaths w) (rw_repoLock w) (rm_repoPendingRequestsGauge (rw_metrics w))
     (rm_getChangeRevisionRequestCounter (rw_metrics w))"

lemma frame_ext [simp]: "frame P (w\<lparr>rw_ext := g\<rparr>) = frame P w" "frame P (w\<lparr>rw_lsRemoteSlots := n\<rparr>) = frame P w"
  by (simp_all add: frame_def)

lemma frame_count [simp]: "frame P (count_request repo ty cached success w) = frame P w"
  by (simp add: frame_def count_request_def ObserveGitRequestDuration_def IncGitRequest_def)

lemma frame_lift: "lift f w = (r, w') \<Longrightarrow> frame P w' = frame P w"
  by (auto simp: lift_def split: prod.splits)

lemma frame_lift_client:
  "cc_Set (lift_client cl) item w = (e, w') \<Longrightarrow> frame P w' = frame P w" "cc_Get (lift_client cl) ty k w = (r, w') \<Longrightarrow> frame P w' = frame P w"
  "cc_Delete (lift_client cl) k w = (e, w') \<Longrightarrow> frame P w' = frame P w"
  by (auto simp: lift_client_def frame_lift)

text \<open>Properties that the client of a cache keeps are kept by the typed operations on it.\<close>

locale cache_keeps =
  fixes I :: "'w \<Rightarrow> bool" and c :: "'w repo_Cache" and url :: string
  assumes item_set: "cc_Set (ca_cache c) \<lparr>it_Key = generateFullKey (gitRefsKey url), it_Object = v, it_Opts = opts\<rparr> w = (e, w') \<Longrightarrow> I w \<Longrightarrow> I w'"
    and item_get: "cc_Get (ca_cache c) ty k w = (r, w') \<Longrightarrow> I w \<Longrightarrow> I w'"
    and item_delete: "cc_Delete (ca_cache c) k w = (e, w') \<Longrightarrow> I w \<Longrightarrow> I w'"
begin

lemma SetItem_keeps: "SetItem (ca_cache c) (gitRefsKey url) item opts w = (e, w') \<Longrightarrow> I w \<Longrightarrow> I w'"
  by (auto simp: SetItem_def Let_def split: option.splits if_splits dest: item_set item_delete)

lemma GetItem_keeps: "GetItem (ca_cache c) ty key w = (r, w') \<Longrightarrow> I w \<Longrightarrow> I w'"
  unfolding GetItem_def by (rule item_get)

lemma SetGitReferences_keeps: "Cache_SetGitReferences codec c url refs w = (e, w') \<Longrightarrow> I w \<Longrightarrow> I w'"
  unfolding Cache_SetGitReferences_def by (rule SetItem_keeps)

lemma GetGitReferences_keeps: "GetGitReferences codec c url w = (r, w') \<Longrightarrow> I w \<Longrightarrow> I w'"
  by (auto simp: GetGitReferences_def split: prod.splits dest: GetItem_keeps)

lemma TryLock_keeps: "TryLockGitRefCache codec c url lockId w = (r, w') \<Longrightarrow> I w \<Longrightarrow> I w'"
  by (auto simp: TryLockGitRefCache_def split: prod.splits dest: SetItem_keeps GetGitReferences_keeps)

lemma lock_rounds_keeps:
  assumes "\<And>w. I w \<Longrightarrow> I (sleep w)"
  shows "lock_rounds codec sleep c url lockId n refs w = (r, w') \<Longrightarrow> I w \<Longrightarrow> I w'"
proof (induction n arbitrary: refs w)
  case (Suc n)
  obtain r1 w1 where g: "GetGitReferences codec c url w = (r1, w1)" by (rule prod.exhaust)
  obtain r2 w2 where t: "TryLockGitRefCache codec c url lockId w1 = (r2, w2)" by (rule prod.exhaust)
  have "I w1" using GetGitReferences_keeps [OF g Suc.prems(2)] .
  moreover from this have "I w2" by (rule TryLock_keeps [OF t])
  ultimately show ?case using Suc.IH Suc.prems(1) assms by (auto simp: g t Let_def split: if_splits)
qed simp

lemma GetOrLock_keeps:
  "(\<And>w. I w \<Longrightarrow> I (sleep w)) \<Longrightarrow> Cache_GetOrLockGitReferences codec sleep rounds c url lockId w = (r, w') \<Longrightarrow> I w \<Longrightarrow> I w'"
  unfolding Cache_GetOrLockGitReferences_def using lock_rounds_keeps [of sleep] by (auto split: if_splits)

lemma Unlock_keeps: "Cache_UnlockGitReferences c url lockId w = (e, w') \<Longrightarrow> I w \<Longrightarrow> I w'"
  by (auto simp: Cache_UnlockGitReferences_def split: prod.splits sum.splits list.splits if_splits dest: GetItem_keeps SetItem_keeps)

lemma GetStrings_keeps: "GetStrings (ca_cache c) key w = (r, w') \<Longrightarrow> I w \<Longrightarrow> I w'"
  by (auto simp: GetStrings_def split: prod.splits dest: GetItem_keeps)

end

interpretation frame_cache: cache_keeps "frame P" "lift_cache c" url for P c url
  by unfold_locales (auto simp: lift_cache_def frame_lift_client)


lemma frame_SetItem: "SetItem (ca_cache (lift_cache c)) key item opts w = (e, w') \<Longrightarrow> frame P w' = frame P w"
  by (auto simp: SetItem_def lift_cache_def Let_def split: option.splits if_splits dest: frame_lift_client)

lemma frame_closeCreds [simp]: "frame P (ge_closeCreds (lift_env e) w) = frame P w"
  by (simp add: lift_env_def)

lemma lift_env_lift:
  "ge_exec (lift_env e) prog args dir vars = lift (ge_exec e prog args dir vars)" "ge_Environ (lift_env e) = lift (ge_Environ e)"
  "ge_removeAll (lift_env e) x = lift (ge_removeAll e x)" "ge_mkdirAll (lift_env e) x = lift (ge_mkdirAll e x)"
  "ge_plainInit (lift_env e) x = lift (ge_plainInit e x)" "ge_createRemote (lift_env e) x = lift (ge_createRemote e x)"
  "ge_newUUID (lift_env e) = lift (ge_newUUID e)" "ge_initMemory (lift_env e) = lift (ge_initMemory e)"
  "ge_newAuth (lift_env e) x = lift (ge_newAuth e x)" "ge_listRemote (lift_env e) x = lift (ge_listRemote e x)"
  by (simp_all add: lift_env_def)

lemma request_caches:
  "gc_listRevisionsCache (request_client s repo root) = Some c2 \<Longrightarrow> c2 = repo_listRevisionsCache (lift_cache (sv_cache s))"
  "gc_diffTreeCache (request_client s repo root) = Some c3 \<Longrightarrow> c3 = repo_diffTreeCache (lift_cache (sv_cache s))"
  "gc_gitRefCache (request_client s repo root) = Some c1 \<Longrightarrow>
     c1 = repo_gitRefCache (sv_codec s) (\<lambda>w. w\<lparr>rw_ext := sv_sleep s (rw_ext w)\<rparr>) (sv_rounds s) (lift_cache (sv_cache s))"
  using request_client_fields(4-6) [of s repo root] by auto

lemma frame_refs:
  assumes "gc_gitRefCache (request_client s repo root) = Some c1"
  shows "SetGitReferences c1 u refs w = (e1, w') \<Longrightarrow> frame P w \<Longrightarrow> frame P w'"
    "GetOrLockGitReferences c1 u lockId w = (e4, w') \<Longrightarrow> frame P w \<Longrightarrow> frame P w'"
    "UnlockGitReferences c1 u lockId w = (e1, w') \<Longrightarrow> frame P w \<Longrightarrow> frame P w'"
  using request_caches(3) [OF assms] frame_cache.SetGitReferences_keeps frame_cache.Unlock_keeps
    frame_cache.GetOrLock_keeps [where sleep = "\<lambda>w. w\<lparr>rw_ext := sv_sleep s (rw_ext w)\<rparr>"]
  by (auto simp: repo_gitRefCache_def)

lemma frame_revs:
  assumes "gc_listRevisionsCache (request_client s repo root) = Some c2"
  shows "GetListRevisions c2 u p t w = (e5, w') \<Longrightarrow> frame P w \<Longrightarrow> frame P w'"
    "SetListRevisions c2 u p t xs w = (e1, w') \<Longrightarrow> frame P w \<Longrightarrow> frame P w'"
  using request_caches(1) [OF assms] frame_cache.GetStrings_keeps
  by (auto simp: repo_listRevisionsCache_def Cache_GetListRevisions_def Cache_SetListRevisions_def frame_SetItem)

lemma frame_files:
  assumes "gc_diffTreeCache (request_client s repo root) = Some c3"
  shows "GetDiffTree c3 u t w = (e5, w') \<Longrightarrow> frame P w \<Longrightarrow> frame P w'"
    "SetDiffTree c3 u t xs w = (e1, w') \<Longrightarrow> frame P w \<Longrightarrow> frame P w'"
  using request_caches(2) [OF assms] frame_cache.GetStrings_keeps
  by (auto simp: repo_diffTreeCache_def Cache_GetDiffTree_def Cache_SetDiffTree_def frame_SetItem)

interpretation frame_git: query_keeps "frame P" "lift_env e" "request_client s repo root" for P e s repo root
  by (unfold_locales; (rule frame_refs frame_revs frame_files; assumption)?)
    (auto simp: lift_env_lift request_client_fields(3) NewGitClientEventHandlers_def dest: frame_lift)


section \<open>Coherent caches behind a server\<close>

text \<open>
  The outside world of a server: git answers queries about commits with what the commits are, which survive in the cache, the
  cache client makes no values up, and nothing else puts a wrong answer into the cache: neither
  the commands the server runs, nor another server while this one waits.
\<close>

locale coherent_server = cache_client "ca_cache (sv_cache s)" holds plain
  for s :: "('g, 'v) Service" and holds :: "'g \<Rightarrow> string \<Rightarrow> cache_value \<Rightarrow> bool" and plain :: "cache_value \<Rightarrow> bool" +
  fixes answer :: "string list \<Rightarrow> string"
  assumes answers_survive: "immutable_query args \<Longrightarrow> plain (StringList (git_lines (answer args)))"
    and git_answer: "ge_exec (sv_git s) prog args dir vars g = ((out, None), g') \<Longrightarrow> immutable_query args \<Longrightarrow> out = answer args"
    and git_exec: "ge_exec (sv_git s) prog args dir vars g = (r, g') \<Longrightarrow> coherent holds answer g \<Longrightarrow> coherent holds answer g'"
    and git_Environ: "ge_Environ (sv_git s) g = (e, g') \<Longrightarrow> coherent holds answer g \<Longrightarrow> coherent holds answer g'"
    and git_closeCreds: "coherent holds answer g \<Longrightarrow> coherent holds answer (ge_closeCreds (sv_git s) g)"
    and git_removeAll: "ge_removeAll (sv_git s) x g = (e1, g') \<Longrightarrow> coherent holds answer g \<Longrightarrow> coherent holds answer g'"
    and git_mkdirAll: "ge_mkdirAll (sv_git s) x g = (e1, g') \<Longrightarrow> coherent holds answer g \<Longrightarrow> coherent holds answer g'"
    and git_plainInit: "ge_plainInit (sv_git s) x g = (e1, g') \<Longrightarrow> coherent holds answer g \<Longrightarrow> coherent holds answer g'"
    and git_createRemote: "ge_createRemote (sv_git s) x g = (e1, g') \<Longrightarrow> coherent holds answer g \<Longrightarrow> coherent holds answer g'"
    and git_newUUID: "ge_newUUID (sv_git s) g = (e2, g') \<Longrightarrow> coherent holds answer g \<Longrightarrow> coherent holds answer g'"
    and git_initMemory: "ge_initMemory (sv_git s) g = (e1, g') \<Longrightarrow> coherent holds answer g \<Longrightarrow> coherent holds answer g'"
    and git_newAuth: "ge_newAuth (sv_git s) x g = (e1, g') \<Longrightarrow> coherent holds answer g \<Longrightarrow> coherent holds answer g'"
    and git_listRemote: "ge_listRemote (sv_git s) x g = (e3, g') \<Longrightarrow> coherent holds answer g \<Longrightarrow> coherent holds answer g'"
    and fs_chmod: "sv_chmod s x mode g = (e1, g') \<Longrightarrow> coherent holds answer g \<Longrightarrow> coherent holds answer g'"
    and others_coherent: "coherent holds answer g \<Longrightarrow> coherent holds answer (sv_sleep s g)"
begin

abbreviation good :: "'g repo_world \<Rightarrow> bool" where
  "good \<equiv> coherent (\<lambda>w. holds (rw_ext w)) answer"

lemma good_ext: "good w \<longleftrightarrow> coherent holds answer (rw_ext w)"
  by (simp add: coherent_def)

lemma lift_good:
  "lift f w = (r, w') \<Longrightarrow> good w \<Longrightarrow> (\<And>r g'. f (rw_ext w) = (r, g') \<Longrightarrow> coherent holds answer (rw_ext w) \<Longrightarrow> coherent holds answer g') \<Longrightarrow> good w'"
  by (auto simp: lift_def good_ext split: prod.splits)

lemma good_metrics [simp]: "good (w\<lparr>rw_metrics := x\<rparr>) = good w" "good (w\<lparr>rw_lsRemoteSlots := n\<rparr>) = good w"
  "good (w\<lparr>rw_repoLock := l\<rparr>) = good w" "good (w\<lparr>rw_gitRepoPaths := p\<rparr>) = good w" "good (count_request u ty b1 b2 w) = good w"
  by (simp_all add: coherent_def count_request_def)

lemma lifted_client: "cache_client (ca_cache (lift_cache (sv_cache s))) (\<lambda>w. holds (rw_ext w)) plain"
  by unfold_locales
    (auto simp: lift_cache_def lift_client_def lift_def split: prod.splits dest: get_holds get_keeps set_holds rename_holds delete_keeps)

end

sublocale coherent_server \<subseteq> server: cache_client "ca_cache (lift_cache (sv_cache s))" "\<lambda>w. holds (rw_ext w)" plain
  by (rule lifted_client)

sublocale coherent_server \<subseteq> refs: cache_keeps good "lift_cache (sv_cache s)" url for url
proof unfold_locales
  fix v opts w e w'
  assume "cc_Set (ca_cache (lift_cache (sv_cache s))) \<lparr>it_Key = generateFullKey (gitRefsKey url), it_Object = v, it_Opts = opts\<rparr> w = (e, w')" "good w"
  then show "good w'" using server.set_holds entry_ok_refs unfolding coherent_def by fastforce
next
  fix ty k w r w'
  assume "cc_Get (ca_cache (lift_cache (sv_cache s))) ty k w = (r, w')" "good w"
  then show "good w'" using server.get_keeps unfolding coherent_def by blast
next
  fix k w r w'
  assume "cc_Delete (ca_cache (lift_cache (sv_cache s))) k w = (r, w')" "good w"
  then show "good w'" using server.delete_keeps unfolding coherent_def by blast
qed

sublocale coherent_server \<subseteq> git: cached_git "ca_cache (lift_cache (sv_cache s))" "\<lambda>w. holds (rw_ext w)" plain "lift_env (sv_git s)" answer
  "request_client s repo root" "lift_cache (sv_cache s)" for repo root
  using request_client_fields(4,5) [of s repo root]
  by unfold_locales
    (auto simp: lift_env_lift request_client_fields(2,3) NewGitClientEventHandlers_def count_request_def good_ext lift_def
      split: prod.splits if_splits intro: answers_survive dest: git_answer git_exec)


context coherent_server
begin

lemma good_refs:
  assumes "gc_gitRefCache (request_client s repo root) = Some c1"
  shows "SetGitReferences c1 u refs w = (e1, w') \<Longrightarrow> good w \<Longrightarrow> good w'"
    "GetOrLockGitReferences c1 u lockId w = (e4, w') \<Longrightarrow> good w \<Longrightarrow> good w'"
    "UnlockGitReferences c1 u lockId w = (e1, w') \<Longrightarrow> good w \<Longrightarrow> good w'"
proof -
  have sleep: "good w \<Longrightarrow> good (w\<lparr>rw_ext := sv_sleep s (rw_ext w)\<rparr>)" for w using others_coherent by (simp add: good_ext)
  note c1 = request_caches(3) [OF assms] repo_gitRefCache_def gitRefCache.simps
  show "SetGitReferences c1 u refs w = (e1, w') \<Longrightarrow> good w \<Longrightarrow> good w'"
    unfolding c1 by (rule refs.SetGitReferences_keeps)
  show "GetOrLockGitReferences c1 u lockId w = (e4, w') \<Longrightarrow> good w \<Longrightarrow> good w'"
    unfolding c1 by (rule refs.GetOrLock_keeps [OF sleep])
  show "UnlockGitReferences c1 u lockId w = (e1, w') \<Longrightarrow> good w \<Longrightarrow> good w'"
    unfolding c1 by (rule refs.Unlock_keeps)
qed

lemma lifted_good:
  "ge_exec (lift_env (sv_git s)) prog args dir vars w = (r, w') \<Longrightarrow> good w \<Longrightarrow> good w'"
  "ge_Environ (lift_env (sv_git s)) w = (e, w') \<Longrightarrow> good w \<Longrightarrow> good w'"
  "good w \<Longrightarrow> good (ge_closeCreds (lift_env (sv_git s)) w)"
  "ge_removeAll (lift_env (sv_git s)) x w = (e1, w') \<Longrightarrow> good w \<Longrightarrow> good w'"
  "ge_mkdirAll (lift_env (sv_git s)) x w = (e1, w') \<Longrightarrow> good w \<Longrightarrow> good w'"
  "ge_plainInit (lift_env (sv_git s)) x w = (e1, w') \<Longrightarrow> good w \<Longrightarrow> good w'"
  "ge_createRemote (lift_env (sv_git s)) x w = (e1, w') \<Longrightarrow> good w \<Longrightarrow> good w'"
  "ge_newUUID (lift_env (sv_git s)) w = (e2, w') \<Longrightarrow> good w \<Longrightarrow> good w'"
  "ge_initMemory (lift_env (sv_git s)) w = (e1, w') \<Longrightarrow> good w \<Longrightarrow> good w'"
  "ge_newAuth (lift_env (sv_git s)) x w = (e1, w') \<Longrightarrow> good w \<Longrightarrow> good w'"
  "ge_listRemote (lift_env (sv_git s)) x w = (e3, w') \<Longrightarrow> good w \<Longrightarrow> good w'"
  unfolding lift_env_lift
  by - ((erule (1) lift_good, erule (1) git_exec git_Environ git_removeAll git_mkdirAll git_plainInit git_createRemote git_newUUID
      git_initMemory git_newAuth git_listRemote) | simp add: good_ext lift_env_def git_closeCreds)+

end


sublocale coherent_server \<subseteq> keeps: client_keeps good "lift_env (sv_git s)" "request_client s repo root" for repo root
  by (unfold_locales; (rule lifted_good good_refs; assumption)?)
    (auto simp: request_client_fields(3) NewGitClientEventHandlers_def)

section \<open>What a request answers\<close>

text \<open>
  The answer a request should give, in terms of the commits: the newest revision of the range that
  touches a refresh path, the empty revision when none does, and the current revision when
  the range is empty.
\<close>

definition touches :: "(string list \<Rightarrow> string) \<Rightarrow> string list \<Rightarrow> string \<Rightarrow> bool" where
  "touches answer paths r \<longleftrightarrow> (\<exists>f \<in> set (git_lines (answer (diff_tree_args r))). \<exists>item \<in> set paths. concerns item f)"

definition commits_between :: "(string list \<Rightarrow> string) \<Rightarrow> string \<Rightarrow> string \<Rightarrow> string list" where
  "commits_between answer p t = (if p = t then [p] else git_lines (answer (rev_list_args p t)))"

definition change_spec :: "(string list \<Rightarrow> string) \<Rightarrow> string list \<Rightarrow> string \<Rightarrow> string \<Rightarrow> string" where
  "change_spec answer paths p t =
     (if commits_between answer p t = [] then t
      else case List.find (touches answer paths) (commits_between answer p t) of Some r \<Rightarrow> r | None \<Rightarrow> [])"

lemma ListRevisions_commits:
  "ListRevisions env m p t w = (Inr revs, w') \<Longrightarrow> p \<noteq> [] \<Longrightarrow> IsCommitSHA p \<and> IsCommitSHA t"
  by (auto simp: ListRevisions_def split: if_splits)

text \<open>
  When an answer to a request is right. Without a previous revision it is the current revision as
  given; otherwise it is the change revision of a range of commits that ends with the commit the
  current revision stands for.
\<close>

definition right_answer :: "(string list \<Rightarrow> string) \<Rightarrow> string list \<Rightarrow> string \<Rightarrow> string \<Rightarrow> string \<Rightarrow> bool" where
  "right_answer answer paths previous current x \<longleftrightarrow> paths \<noteq> [] \<and>
     (if previous = [] then x = current
      else IsCommitSHA previous \<and> (\<exists>revision. IsCommitSHA revision \<and> (IsCommitSHA current \<longrightarrow> revision = current) \<and>
        x = change_spec answer paths previous revision))"

context coherent_server
begin

lemma find_change_spec:
  assumes "good w" "paths \<noteq> []"
  shows "\<exists>res w'. find_change s (request_client s repo root) u app ns paths revs w = Ret (res, w') \<and> good w' \<and>
    (\<forall>r. res = Inr r \<longrightarrow> r = (case List.find (touches answer paths) revs of Some r \<Rightarrow> r | None \<Rightarrow> []))"
  using assms(1)
proof (induction revs arbitrary: w)
  case (Cons r revs)
  obtain res w1 where d: "DiffTree (lift_env (sv_git s)) (request_client s repo root) r w = (res, w1)" by (rule prod.exhaust)
  have w1: "good w1" using git.DiffTree_ok(1) [OF _ d] Cons.prems by (simp add: request_client_fields(2))
  show ?case
  proof (cases res)
    case (Inl e)
    with w1 d show ?thesis by simp
  next
    case (Inr files)
    then have files: "files = git_lines (answer (diff_tree_args r))"
      using git.DiffTree_ok(2) [OF _ d] Cons.prems by (simp add: request_client_fields(2))
    show ?thesis
    proof (cases "files = []")
      case True
      then have "\<not> touches answer paths r" using files by (simp add: touches_def)
      with True Inr d Cons.IH [OF w1] show ?thesis by simp
    next
      case False
      have "AppFilesHaveChanged paths files = Ret (touches answer paths r)"
        using AppFilesHaveChanged_nonempty [OF False assms(2)] files by (simp add: touches_def)
      with False Inr d Cons.IH [OF w1] w1 show ?thesis by (cases "touches answer paths r") simp_all
    qed
  qed
qed simp

lemma change_in_range_spec:
  assumes "good w" "crr_Paths request \<noteq> []" "crr_PreviousRevision request \<noteq> []"
  shows "\<exists>res w'. change_in_range s (request_client s repo root) request u revision w = Ret (res, w') \<and> good w' \<and>
    (\<forall>r. res = Inr r \<longrightarrow> IsCommitSHA (crr_PreviousRevision request) \<and> IsCommitSHA revision \<and>
      r = change_spec answer (crr_Paths request) (crr_PreviousRevision request) revision)"
proof -
  let ?p = "crr_PreviousRevision request"
  obtain res w1 where l: "ListRevisions (lift_env (sv_git s)) (request_client s repo root) ?p revision w = (res, w1)" by (rule prod.exhaust)
  have w1: "good w1" using git.ListRevisions_ok(1) [OF _ l] assms(1) by (simp add: request_client_fields(2))
  show ?thesis
  proof (cases res)
    case (Inl e)
    with w1 l show ?thesis by (simp add: change_in_range_def)
  next
    case (Inr revs)
    then have sha: "IsCommitSHA ?p" "IsCommitSHA revision" using ListRevisions_commits [OF l [unfolded Inr] assms(3)] by simp_all
    from Inr have revs: "revs = commits_between answer ?p revision"
      using git.ListRevisions_ok(2) [OF _ l sha(1)] assms(1) by (simp add: commits_between_def)
    show ?thesis using find_change_spec [OF w1 assms(2), of repo root u "crr_AppName request" "crr_Namespace request" revs]
      by (cases "revs = []") (auto simp: change_in_range_def l Inr change_spec_def revs w1 sha)
  qed
qed

end


context client_keeps
begin

lemma checkoutRevision_keeps: "checkoutRevision env m revision sub w = (r, w') \<Longrightarrow> I w \<Longrightarrow> I w'"
  unfolding checkoutRevision_def Let_def
  by (auto split: prod.splits option.splits if_splits dest!: git_Init_keeps IsRevisionPresent_keeps git_Fetch_keeps Checkout_keeps)

end

lemma newClient_client:
  assumes "newClient s repo (client_opts s) w = (Inr m, w')"
  shows "\<exists>root. m = request_client s repo root"
  using assms by (auto simp: newClient_def request_client_def Let_def split: prod.splits sum.splits)

lemma LsRemote_commit:
  assumes "LsRemote n env lib m revision w = (Inr sha, w')" "IsCommitSHA revision" "0 < n"
  shows "sha = revision"
  using assms by (cases n) (auto simp: LsRemote_def lsRemote_def)

context coherent_server
begin

lemma newClient_good: "newClient s repo opts w = (r, w') \<Longrightarrow> good w \<Longrightarrow> good w'"
  using lift_good [of "ge_newUUID (sv_git s)" w, OF _ _ git_newUUID]
  by (auto simp: newClient_def Let_def split: prod.splits sum.splits if_splits)

lemma chmod_good: "good w \<Longrightarrow> good (snd (lift (sv_chmod s x mode) w))"
  using lift_good [of "sv_chmod s x mode" w, OF prod.collapse [symmetric] _ fs_chmod] .

lemma resolve_good:
  assumes "newClientResolveRevision s repo revision (client_opts s) w = (r, w')" "good w"
  shows "good w'" "r = Inr (m, sha) \<Longrightarrow> (\<exists>root. m = request_client s repo root) \<and>
    (IsCommitSHA revision \<longrightarrow> 0 < sv_maxAttemptsCount s \<longrightarrow> sha = revision)"
proof -
  obtain c w1 where n: "newClient s repo (client_opts s) w = (c, w1)" by (rule prod.exhaust)
  have w1: "good w1" using newClient_good [OF n assms(2)] .
  have "good w' \<and> (r = Inr (m, sha) \<longrightarrow> (\<exists>root. m = request_client s repo root) \<and>
    (IsCommitSHA revision \<longrightarrow> 0 < sv_maxAttemptsCount s \<longrightarrow> sha = revision))"
  proof (cases c)
    case (Inl e)
    with assms(1) n w1 show ?thesis by (auto simp: newClientResolveRevision_def)
  next
    case (Inr m0)
    with newClient_client n obtain root where m0: "m0 = request_client s repo root" by blast
    obtain x w2 where l: "LsRemote (sv_maxAttemptsCount s) (lift_env (sv_git s)) (sv_semver s) m0 revision w1 = (x, w2)" by (rule prod.exhaust)
    have w2: "good w2" using keeps.LsRemote_keeps [OF l [unfolded m0] w1] .
    show ?thesis using assms(1) n Inr l w2 LsRemote_commit [of _ _ _ _ _ w1 sha w2] m0
      by (auto simp: newClientResolveRevision_def split: sum.splits)
  qed
  then show "good w'" "r = Inr (m, sha) \<Longrightarrow> (\<exists>root. m = request_client s repo root) \<and>
    (IsCommitSHA revision \<longrightarrow> 0 < sv_maxAttemptsCount s \<longrightarrow> sha = revision)" by blast+
qed

lemma Lock_good:
  assumes "repoLock_Lock path revision allow (Service_checkoutRevision s (request_client s repo root) revision sub) w = Some (e, w')" "good w"
  shows "good w'"
proof -
  have init: "good v'" if "Service_checkoutRevision s (request_client s repo root) revision sub v = (x, v')" "good v" for v x v'
    using that keeps.checkoutRevision_keeps chmod_good
    by (auto simp: Service_checkoutRevision_def directoryPermissionInitializer_def Let_def split: prod.splits option.splits if_splits)
  show ?thesis using assms
    by (auto simp: repoLock_Lock_def Let_def split: prod.splits if_splits lock_outcome.splits dest!: init)
qed

lemma Close_good: "good w \<Longrightarrow> good (repoLock_Close s path w)"
  by (auto simp: repoLock_Close_def remove_permissions_def Let_def split: prod.splits option.splits intro!: chmod_good)

end


context coherent_server
begin

lemma change_revision_spec:
  assumes "good w" "crr_Paths request \<noteq> []" "0 < sv_maxAttemptsCount s" "change_revision s repo request w = Some res"
  shows "\<exists>r w'. res = Ret (r, w') \<and> good w' \<and> (\<forall>x. r = Inr x \<longrightarrow> right_answer answer (crr_Paths request) (crr_PreviousRevision request) (crr_CurrentRevision request) x)"
proof -
  note c = assms(4)
  obtain x w1 where n: "newClientResolveRevision s repo (crr_CurrentRevision request) (client_opts s) w = (x, w1)" by (rule prod.exhaust)
  have w1: "good w1" using resolve_good(1) [OF n assms(1)] .
  show ?thesis
  proof (cases x)
    case (Inl e)
    then show ?thesis using c w1 by (auto simp: change_revision_def n)
  next
    case (Inr y)
    obtain m revision where y: "y = (m, revision)" by (rule prod.exhaust)
    obtain root where m: "m = request_client s repo root" and cur: "IsCommitSHA (crr_CurrentRevision request) \<longrightarrow>
        revision = crr_CurrentRevision request"
      using resolve_good(2) [OF n assms(1)] Inr y assms(3) by blast
    show ?thesis
    proof (cases "crr_PreviousRevision request = []")
      case True
      then show ?thesis using c w1 Inr y assms(2) by (auto simp: change_revision_def n right_answer_def)
    next
    case p: False
    let ?w2 = "w1\<lparr>rw_metrics := IncPendingRepoRequest (repo_Repo repo) (rw_metrics w1)\<rparr>"
    obtain e w3 where l: "repoLock_Lock root revision True (Service_checkoutRevision s m revision False) ?w2 = Some (e, w3)"
      using c n Inr y p m by (auto simp: change_revision_def request_client_fields(1) split: option.splits)
    have w3: "good w3" using Lock_good [OF l [unfolded m]] w1 by simp
    show ?thesis
    proof (cases e)
      case (Some err)
      then show ?thesis using c n Inr y p l w3 by (auto simp: change_revision_def m request_client_fields(1))
    next
      case None
      obtain r w4 where i: "change_in_range s (request_client s repo root) request (repo_Repo repo) revision w3 = Ret (r, w4)" "good w4"
        "\<forall>x. r = Inr x \<longrightarrow> IsCommitSHA (crr_PreviousRevision request) \<and> IsCommitSHA revision \<and>
          x = change_spec answer (crr_Paths request) (crr_PreviousRevision request) revision"
        using change_in_range_spec [OF w3 assms(2) p, of repo root "repo_Repo repo" revision] by blast
      have g: "good (repoLock_Close s root w4)" using i(2) by (rule Close_good)
      have "\<exists>w'. res = Ret (r, w') \<and> good w'" using c n Inr y p l None i(1) g
        by (auto simp: change_revision_def m request_client_fields(1) Let_def)
      moreover have "\<forall>x. r = Inr x \<longrightarrow> right_answer answer (crr_Paths request) (crr_PreviousRevision request) (crr_CurrentRevision request) x"
        using i(3) cur p assms(2) unfolding right_answer_def by metis
      ultimately show ?thesis by (elim exE conjE, intro exI conjI)
    qed
    qed
  qed
qed

lemma GetChangeRevision_spec:
  assumes "good w" "crr_Repo request = Some repo" "0 < sv_maxAttemptsCount s" "GetChangeRevision s request w = Some res"
  shows "\<exists>r w'. res = Ret (r, w') \<and> good w' \<and> (\<forall>x. r = Inr x \<longrightarrow> right_answer answer (crr_Paths request) (crr_PreviousRevision request) (crr_CurrentRevision request) x)"
proof (cases "crr_Paths request = []")
  case True
  then show ?thesis using assms by (auto simp: GetChangeRevision_def record_request_def)
next
  case False
  then obtain res0 where c: "change_revision s repo request w = Some res0" and
    res: "res = go_bind res0 (\<lambda>p. Ret (record_request (repo_Repo repo) request p))"
    using assms(2,4) by (auto simp: GetChangeRevision_def)
  from change_revision_spec [OF assms(1) False assms(3) c] obtain r w' where
    r: "res0 = Ret (r, w')" "good w'" "\<forall>x. r = Inr x \<longrightarrow> right_answer answer (crr_Paths request) (crr_PreviousRevision request) (crr_CurrentRevision request) x" by (elim exE conjE)
  then show ?thesis by (intro exI conjI, simp add: res record_request_def) simp_all
qed

end

text \<open>A server whose outside world is an in-memory cache and a git with fixed answers.\<close>

definition zero_constants :: RepoServerInitConstants where
  "zero_constants = \<lparr>ric_OCIMediaTypes = [], ric_ParallelismLimit = 0, ric_PauseGenerationAfterFailedGenerationAttempts = 0,
     ric_PauseGenerationOnFailureForMinutes = 0, ric_PauseGenerationOnFailureForRequests = 0, ric_SubmoduleEnabled = False,
     ric_MaxCombinedDirectoryManifestsSize = 0, ric_CMPTarExcludedGlobs = [], ric_AllowOutOfBoundsSymlinks = False,
     ric_StreamedManifestMaxExtractedSize = 0, ric_StreamedManifestMaxTarSize = 0, ric_HelmManifestMaxExtractedSize = 0,
     ric_HelmRegistryMaxIndexSize = 0, ric_OCIManifestMaxExtractedSize = 0, ric_DisableOCIManifestMaxExtractedSize = False,
     ric_DisableHelmManifestMaxExtractedSize = False, ric_IncludeHiddenDirectories = False, ric_CMPUseManifestGeneratePaths = False,
     ric_UseCache = True, ric_UseListRevisionsCache = True, ric_UseDiffTreeCache = True\<rparr>"

definition memory_service :: "(string list \<Rightarrow> string \<times> go_error option) \<Rightarrow> (InMemoryCache, nat) Service" where
  "memory_service git = \<lparr>sv_rootDir = ''/tmp/_argocd-repo'', sv_initConstants = zero_constants, sv_cache = NewCache inMemoryClient 1 1 1,
     sv_git = pure_env git, sv_semver = unary_semver, sv_codec = plain_codec, sv_sleep = id, sv_rounds = 1,
     sv_url_String = Some, sv_maxAttemptsCount = 1, sv_lsRemoteParallelismLimit = 0,
     sv_stat = (\<lambda>d g. StatOk), sv_chmod = (\<lambda>d mode g. (None, g)), sv_mkdirAll = (\<lambda>d mode g. (None, g)),
     sv_readDir = (\<lambda>d g. Inr []), sv_remoteURL = (\<lambda>d g. None)\<rparr>"

interpretation mem_server: coherent_server "memory_service git" "\<lambda>g k v. g k = Some v" any_value "fst \<circ> git" for git
proof -
  have "cache_client (ca_cache (sv_cache (memory_service git))) (\<lambda>g k v. g k = Some v) any_value"
    using mem.cache_client_axioms by (simp add: memory_service_def NewCache_def)
  then show "coherent_server (memory_service git) (\<lambda>g k v. g k = Some v) any_value (fst \<circ> git)"
    by (rule coherent_server.intro) (unfold_locales, auto simp: memory_service_def pure_env_def)
qed


section \<open>What a request leaves behind\<close>

definition gauge :: "'g repo_world \<Rightarrow> metric_vec" where "gauge w = rm_repoPendingRequestsGauge (rw_metrics w)"
definition counter :: "'g repo_world \<Rightarrow> metric_vec" where "counter w = rm_getChangeRevisionRequestCounter (rw_metrics w)"

text \<open>The part of the process state that calls to git leave alone.\<close>

definition untouched :: "'g repo_world \<Rightarrow> 'g repo_world \<Rightarrow> bool" where
  "untouched w w' \<longleftrightarrow> rw_repoLock w' = rw_repoLock w \<and> gauge w' = gauge w \<and> counter w' = counter w"

lemma untouched_refl [simp]: "untouched w w"
  by (simp add: untouched_def)

lemma untouched_trans [trans]: "untouched w w1 \<Longrightarrow> untouched w1 w2 \<Longrightarrow> untouched w w2"
  by (simp add: untouched_def)

lemma untouched_frame:
  assumes "\<And>P. frame P w \<Longrightarrow> frame P w'"
  shows "untouched w w'"
  using assms [of "\<lambda>p l g c. l = rw_repoLock w \<and> g = gauge w \<and> c = counter w"]
  by (simp add: frame_def untouched_def gauge_def counter_def)

lemma untouched_lift: "lift f w = (r, w') \<Longrightarrow> untouched w w'"
  by (rule untouched_frame) (simp add: frame_lift)

lemma untouched_counts [simp]:
  "untouched w (w1\<lparr>rw_metrics := IncGitLsRemoteFail a b (rw_metrics w1)\<rparr>) = untouched w w1"
  "untouched w (w1\<lparr>rw_metrics := IncGitFetchFail a b (rw_metrics w1)\<rparr>) = untouched w w1"
  "untouched w (w1\<lparr>rw_metrics := IncDiffTreeFail a b c (rw_metrics w1)\<rparr>) = untouched w w1"
  "untouched w (w1\<lparr>rw_metrics := IncRevListFail a b c (rw_metrics w1)\<rparr>) = untouched w w1"
  "untouched w (w1\<lparr>rw_gitRepoPaths := p\<rparr>) = untouched w w1"
  by (simp_all add: untouched_def gauge_def counter_def IncGitLsRemoteFail_def IncGitFetchFail_def IncDiffTreeFail_def IncRevListFail_def)

lemma resolve_untouched:
  assumes "newClientResolveRevision s repo revision (client_opts s) w = (r, w')"
  shows "untouched w w'" "r = Inr (m, sha) \<Longrightarrow> \<exists>root. m = request_client s repo root"
proof -
  obtain c w1 where n: "newClient s repo (client_opts s) w = (c, w1)" by (rule prod.exhaust)
  have w1: "untouched w w1"
    using n by (auto simp: newClient_def Let_def split: prod.splits sum.splits if_splits dest: untouched_lift)
  have "untouched w w' \<and> (r = Inr (m, sha) \<longrightarrow> (\<exists>root. m = request_client s repo root))"
  proof (cases c)
    case (Inl e)
    with assms(1) n w1 show ?thesis by (auto simp: newClientResolveRevision_def)
  next
    case (Inr m0)
    with newClient_client n obtain root where m0: "m0 = request_client s repo root" by blast
    obtain x w2 where l: "LsRemote (sv_maxAttemptsCount s) (lift_env (sv_git s)) (sv_semver s) m0 revision w1 = (x, w2)" by (rule prod.exhaust)
    have "untouched w1 w2" by (rule untouched_frame) (rule frame_git.LsRemote_keeps [OF l [unfolded m0]])
    with w1 have "untouched w w2" by (rule untouched_trans)
    then show ?thesis using assms(1) n Inr l m0 by (auto simp: newClientResolveRevision_def split: sum.splits)
  qed
  then show "untouched w w'" "r = Inr (m, sha) \<Longrightarrow> \<exists>root. m = request_client s repo root" by blast+
qed

lemma checkout_untouched:
  assumes "Service_checkoutRevision s (request_client s repo root) revision sub w = (r, w')"
  shows "untouched w w'"
proof -
  let ?w1 = "directoryPermissionInitializer s root w"
  have w1: "untouched w ?w1"
    using untouched_lift [of "sv_chmod s root 448" w, OF prod.collapse [symmetric]] by (simp add: directoryPermissionInitializer_def)
  obtain e w2 where c: "checkoutRevision (lift_env (sv_git s)) (request_client s repo root) revision sub ?w1 = (e, w2)" by (rule prod.exhaust)
  have "untouched ?w1 w2" by (rule untouched_frame) (rule frame_git.checkoutRevision_keeps [OF c])
  with w1 have "untouched w w2" by (rule untouched_trans)
  with assms c show ?thesis by (auto simp: Service_checkoutRevision_def request_client_fields(1) split: option.splits)
qed

lemma find_change_untouched:
  "find_change s (request_client s repo root) u app ns paths revs w = Ret (r, w') \<Longrightarrow> untouched w w'"
proof (induction revs arbitrary: w)
  case (Cons x revs)
  obtain res w1 where d: "DiffTree (lift_env (sv_git s)) (request_client s repo root) x w = (res, w1)" by (rule prod.exhaust)
  have w1: "untouched w w1" by (rule untouched_frame) (rule frame_git.DiffTree_keeps [OF d])
  have "find_change s (request_client s repo root) u app ns paths revs w1 = Ret (r, w') \<Longrightarrow> untouched w w'"
    using Cons.IH [of w1] w1 untouched_trans by blast
  with Cons.prems d w1 show ?case by (auto split: sum.splits if_splits)
qed simp

lemma change_in_range_untouched:
  assumes "change_in_range s (request_client s repo root) request u revision w = Ret (r, w')"
  shows "untouched w w'"
proof -
  obtain res w1 where l: "ListRevisions (lift_env (sv_git s)) (request_client s repo root) (crr_PreviousRevision request) revision w = (res, w1)"
    by (rule prod.exhaust)
  have w1: "untouched w w1" by (rule untouched_frame) (rule frame_git.ListRevisions_keeps [OF l])
  with assms l show ?thesis
    by (auto simp: change_in_range_def split: sum.splits if_splits dest!: find_change_untouched intro: untouched_trans)
qed


text \<open>Two lock states that look the same to every other request.\<close>

definition same_locks :: "string repositoryLock \<Rightarrow> string repositoryLock \<Rightarrow> bool" where
  "same_locks l l' \<longleftrightarrow> (\<forall>path. rs_revision (lock_state l' path) = rs_revision (lock_state l path) \<and>
     (rs_revision (lock_state l path) \<noteq> [] \<longrightarrow> rs_processCount (lock_state l' path) = rs_processCount (lock_state l path)))"

definition counts_ok :: "string repositoryLock \<Rightarrow> bool" where
  "counts_ok l \<longleftrightarrow> (\<forall>path. rs_revision (lock_state l path) \<noteq> [] \<longrightarrow> 0 < rs_processCount (lock_state l path))"

lemma Lock_states:
  assumes "repoLock_Lock path revision True (Service_checkoutRevision s (request_client s repo root) revision sub) w = Some (e, w')"
  shows "gauge w' = gauge w \<and> counter w' = counter w \<and>
    (\<forall>d. d \<noteq> path \<longrightarrow> lock_state (rw_repoLock w') d = lock_state (rw_repoLock w) d) \<and>
    (case e of
       Some err \<Rightarrow> lock_state (rw_repoLock w') path = lock_state (rw_repoLock w) path
     | None \<Rightarrow> (if rs_revision (lock_state (rw_repoLock w) path) = [] then rs_processCount (lock_state (rw_repoLock w') path) = 1
         else lock_state (rw_repoLock w') path = (lock_state (rw_repoLock w) path)
           \<lparr>rs_processCount := rs_processCount (lock_state (rw_repoLock w) path) + 1\<rparr>))"
proof -
  let ?w0 = "w\<lparr>rw_repoLock := lock_register path (rw_repoLock w)\<rparr>"
  let ?st = "lock_state (rw_repoLock w) path"
  obtain x w1 where i: "(if lock_needs_init ?st then Service_checkoutRevision s (request_client s repo root) revision sub ?w0
      else (Inr [], ?w0)) = (x, w1)" by (rule prod.exhaust)
  obtain out st' where r: "lock_round revision True x ?st = (out, st')" by (rule prod.exhaust)
  have w1: "untouched ?w0 w1" using i by (auto split: if_splits dest: checkout_untouched)
  have w': "w' = w1\<lparr>rw_repoLock := set_state path st' (rw_repoLock w1)\<rparr>"
    "e = None \<and> out = Granted \<or> (\<exists>err. e = Some err \<and> out = InitFailed err)"
    using assms by (auto simp: repoLock_Lock_def i r Let_def split: lock_outcome.splits)
  have g: "gauge w' = gauge w" "counter w' = counter w" and l1: "rw_repoLock w1 = lock_register path (rw_repoLock w)"
    using w1 by (simp_all add: untouched_def gauge_def counter_def w')
  have l': "rw_repoLock w' = set_state path st' (lock_register path (rw_repoLock w))" by (simp add: w'(1) l1)
  show ?thesis using w'(2) r
    by (auto simp: g l' lock_round_def lock_needs_init_def split: if_splits sum.splits)
qed

lemma Close_states:
  "gauge (repoLock_Close s path w) = gauge w \<and> counter (repoLock_Close s path w) = counter w \<and>
   lock_state (rw_repoLock (repoLock_Close s path w)) d =
     (if d = path then snd (snd (lock_close (lock_state (rw_repoLock w) path))) else lock_state (rw_repoLock w) d)"
proof -
  obtain closer notify st' where c: "lock_close (lock_state (rw_repoLock w) path) = (closer, notify, st')" by (metis prod.exhaust)
  let ?w1 = "w\<lparr>rw_repoLock := set_state path st' (rw_repoLock w)\<rparr>"
  have "untouched ?w1 (repoLock_Close s path w)"
    using untouched_lift [of "sv_chmod s _ 0" ?w1, OF prod.collapse [symmetric]]
    by (auto simp: repoLock_Close_def c remove_permissions_def Let_def split: option.splits)
  then show ?thesis by (auto simp: untouched_def gauge_def counter_def c)
qed

lemma gauge_balanced:
  "gauge w3 = gauge (w\<lparr>rw_metrics := IncPendingRepoRequest u (rw_metrics w)\<rparr>) \<Longrightarrow>
   mv_value (gauge (w3\<lparr>rw_metrics := DecPendingRepoRequest u (rw_metrics w3)\<rparr>)) = mv_value (gauge w)"
  by (auto simp: gauge_def IncPendingRepoRequest_def DecPendingRepoRequest_def vec_add_def)

lemma change_revision_balanced:
  assumes "change_revision s repo request w = Some (Ret (r, w'))" "counts_ok (rw_repoLock w)"
  shows "mv_value (gauge w') = mv_value (gauge w) \<and> counter w' = counter w \<and> same_locks (rw_repoLock w) (rw_repoLock w')"
proof -
  obtain x w1 where n: "newClientResolveRevision s repo (crr_CurrentRevision request) (client_opts s) w = (x, w1)" by (rule prod.exhaust)
  note w1 = resolve_untouched(1) [OF n, unfolded untouched_def]
  show ?thesis
  proof (cases "\<exists>m revision. x = Inr (m, revision) \<and> crr_PreviousRevision request \<noteq> []")
    case False
    then have "w' = w1" using assms(1) by (auto simp: change_revision_def n split: sum.splits if_splits prod.splits)
    with w1 show ?thesis by (simp add: same_locks_def)
  next
    case True
    then obtain m revision where x: "x = Inr (m, revision)" and p: "crr_PreviousRevision request \<noteq> []" by blast
    obtain root where m: "m = request_client s repo root" using resolve_untouched(2) [OF n x] by blast
    let ?w2 = "w1\<lparr>rw_metrics := IncPendingRepoRequest (repo_Repo repo) (rw_metrics w1)\<rparr>"
    obtain e w3 where l: "repoLock_Lock root revision True (Service_checkoutRevision s m revision False) ?w2 = Some (e, w3)"
      using assms(1) n x p m by (auto simp: change_revision_def request_client_fields(1) split: option.splits)
    note L = Lock_states [OF l [unfolded m]]
    have c2: "counter ?w2 = counter w1" by (simp add: counter_def IncPendingRepoRequest_def)
    have cD: "counter (v\<lparr>rw_metrics := DecPendingRepoRequest u (rw_metrics v)\<rparr>) = counter v" for v :: "'a repo_world" and u
      by (simp add: counter_def DecPendingRepoRequest_def)
    show ?thesis
    proof (cases e)
      case (Some err)
      then have w': "w' = w3\<lparr>rw_metrics := DecPendingRepoRequest (repo_Repo repo) (rw_metrics w3)\<rparr>"
        using assms(1) n x p l by (auto simp: change_revision_def m request_client_fields(1))
      have "lock_state (rw_repoLock w3) d = lock_state (rw_repoLock w1) d" for d
        using L Some by (cases "d = root") auto
      with L w1 c2 cD gauge_balanced [of w3 _ w1] show ?thesis by (simp add: w' same_locks_def)
    next
      case None
      then obtain w4 where i: "change_in_range s m request (repo_Repo repo) revision w3 = Ret (r, w4)" and
        w': "w' = (repoLock_Close s root w4)\<lparr>rw_metrics := DecPendingRepoRequest (repo_Repo repo) (rw_metrics (repoLock_Close s root w4))\<rparr>"
        using assms(1) n x p l by (auto simp: change_revision_def m request_client_fields(1) Let_def)
      note w4 = change_in_range_untouched [OF i [unfolded m], unfolded untouched_def]
      have g5: "gauge (repoLock_Close s root w4) = gauge ?w2" "counter (repoLock_Close s root w4) = counter w"
        using Close_states [of s root w4] w4 L w1 c2 by simp_all
      have "rs_revision (lock_state (rw_repoLock w) root) \<noteq> [] \<longrightarrow> rs_processCount (lock_state (rw_repoLock w) root) \<noteq> 0"
        using assms(2) unfolding counts_ok_def by (metis less_irrefl)
      then have "same_locks (rw_repoLock w) (rw_repoLock (repoLock_Close s root w4))"
        unfolding same_locks_def using L None w1 w4 Close_states [of s root w4]
        by (auto simp: lock_close_def Let_def split: if_splits)
      with g5 cD gauge_balanced [of "repoLock_Close s root w4" _ w1] w1 show ?thesis by (simp add: w')
    qed
  qed
qed


section \<open>Properties\<close>

text \<open>
  (C2) \<open>GetChangeRevision\<close> computes the change revision the commits define: whatever is cached,
  whether or not the directory is already checked out, and whatever the metrics, a request that
  is granted the lock never panics, leaves the caches coherent, and if it succeeds its previous
  revision was a commit id and the answer is the newest commit between it and the resolved current
  revision that touches a refresh path (the empty revision if none does, the current one if there is
  no path between them); a current revision that is a commit id is used as it is. Without a
  previous revision the answer is the current revision.
\<close>

theorem get_change_revision_refines_commits:
  assumes "coherent_server s holds plain answer" "coherent holds answer (rw_ext w)"
    and "crr_Repo request = Some repo" "0 < sv_maxAttemptsCount s" "GetChangeRevision s request w = Some res"
  shows "\<exists>r w'. res = Ret (r, w') \<and> coherent holds answer (rw_ext w') \<and> (\<forall>x. r = Inr x \<longrightarrow> crr_Paths request \<noteq> [] \<and>
    (if crr_PreviousRevision request = [] then x = crr_CurrentRevision request
     else IsCommitSHA (crr_PreviousRevision request) \<and> (\<exists>revision. IsCommitSHA revision \<and>
       (IsCommitSHA (crr_CurrentRevision request) \<longrightarrow> revision = crr_CurrentRevision request) \<and>
       x = change_spec answer (crr_Paths request) (crr_PreviousRevision request) revision)))"
  using coherent_server.GetChangeRevision_spec [OF assms(1) _ assms(3-5)] assms(2) unfolding right_answer_def
  by (simp only: coherent_server.good_ext [OF assms(1)])

text \<open>
  (C13) A request leaves nothing behind: when \<open>GetChangeRevision\<close> returns, with a result or an error on
  any path, the gauge of pending requests is what it was, the lock of every directory is held
  for the same revision by as many requests as before, and exactly one request was counted, as failed
  iff an error was returned.
\<close>

theorem request_is_balanced:
  assumes "GetChangeRevision s request w = Some (Ret (r, w'))" "crr_Repo request = Some repo"
    and "counts_ok (rw_repoLock w)" "repo_metrics_ok (rw_metrics w)"
  shows "mv_value (gauge w') = mv_value (gauge w) \<and> same_locks (rw_repoLock w) (rw_repoLock w') \<and>
    mv_value (counter w') lv = mv_value (counter w) lv +
      (if lv = [repo_Repo repo, FormatBool (isErr r), crr_AppName request, crr_Namespace request] then 1 else 0)"
proof -
  have labels: "length (mv_labels (counter w)) = 4"
    using assms(4) by (simp add: repo_metrics_defs counter_def)
  obtain v where v: "record_request (repo_Repo repo) request (r, v) = (r, w')" and
    b: "mv_value (gauge v) = mv_value (gauge w) \<and> counter v = counter w \<and> same_locks (rw_repoLock w) (rw_repoLock v)"
  proof (cases "length (crr_Paths request) = 0")
    case True
    with assms(1,2) have e: "record_request (repo_Repo repo) request (Inl (StatusError InvalidArgument ''must pass a refresh path''), w) = (r, w')"
      by (auto simp: GetChangeRevision_def)
    then have "r = Inl (StatusError InvalidArgument ''must pass a refresh path'')" by (simp add: record_request_def)
    with e that [of w] show ?thesis by (simp add: same_locks_def)
  next
    case False
    with assms(1,2) obtain q where q: "change_revision s repo request w = Some (Ret q)" "record_request (repo_Repo repo) request q = (r, w')"
      by (auto simp: GetChangeRevision_def)
    then have "q = (r, snd q)" by (cases q) (auto simp: record_request_def)
    with change_revision_balanced [of s repo request w r "snd q"] assms(3) q that [of "snd q"] show ?thesis by auto
  qed
  have w': "w' = v\<lparr>rw_metrics := IncGetChangeRevisionRequest (repo_Repo repo) (isErr r) (crr_AppName request) (crr_Namespace request)
      (ObserveGetChangeRevisionRequestDuration (repo_Repo repo) (crr_AppName request) (crr_Namespace request) (rw_metrics v))\<rparr>"
    using v by (simp add: record_request_def)
  have "gauge w' = gauge v" "rw_repoLock w' = rw_repoLock v"
    "counter w' = vec_add [repo_Repo repo, FormatBool (isErr r), crr_AppName request, crr_Namespace request] 1 (counter v)"
    by (simp_all add: w' gauge_def counter_def repo_metrics_ops)
  with b labels show ?thesis by simp
qed

text \<open>
  Errors of the request itself: without refresh paths the answer is \<open>InvalidArgument\<close> and nothing but
  the request metrics changes; a request without a repository panics, because the deferred
  function that records the request reads the repository's URL before the check for nil
  can answer.
\<close>

theorem invalid_requests:
  "(crr_Repo request = None \<longrightarrow> GetChangeRevision s request w = Some (Panic NilDereference)) \<and>
   (crr_Repo request = Some repo \<and> crr_Paths request = [] \<longrightarrow>
      (\<exists>w'. GetChangeRevision s request w = Some (Ret (Inl (StatusError InvalidArgument ''must pass a refresh path''), w')) \<and>
        rw_ext w' = rw_ext w \<and> rw_repoLock w' = rw_repoLock w \<and> rw_gitRepoPaths w' = rw_gitRepoPaths w))"
  by (auto simp: GetChangeRevision_def record_request_def)


lemma blocked_by:
  assumes "GetChangeRevision s request w = None"
  shows "\<exists>repo m revision w1. crr_Repo request = Some repo \<and>
    newClientResolveRevision s repo (crr_CurrentRevision request) (client_opts s) w = (Inr (m, revision), w1) \<and>
    (let state = lock_state (rw_repoLock w) (gc_root m) in
     rs_revision state \<noteq> [] \<and> (rs_revision state \<noteq> revision \<or> \<not> rs_allowConcurrent state))"
proof -
  obtain repo where "crr_Repo request = Some repo" "change_revision s repo request w = None"
    using assms by (auto simp: GetChangeRevision_def split: option.splits if_splits)
  then obtain m revision w1 where repo: "crr_Repo request = Some repo"
    and n: "newClientResolveRevision s repo (crr_CurrentRevision request) (client_opts s) w = (Inr (m, revision), w1)"
    and l: "repoLock_Lock (gc_root m) revision True (Service_checkoutRevision s m revision False)
      (w1\<lparr>rw_metrics := IncPendingRepoRequest (repo_Repo repo) (rw_metrics w1)\<rparr>) = None"
    by (auto simp: change_revision_def Let_def split: prod.splits sum.splits if_splits option.splits)
  have "rw_repoLock w1 = rw_repoLock w" using resolve_untouched(1) [OF n] by (simp add: untouched_def)
  with l have "let state = lock_state (rw_repoLock w) (gc_root m) in
     rs_revision state \<noteq> [] \<and> (rs_revision state \<noteq> revision \<or> \<not> rs_allowConcurrent state)"
    by (auto simp: repoLock_Lock_def lock_round_def lock_needs_init_def Let_def split: prod.splits if_splits sum.splits lock_outcome.splits)
  with n repo show ?thesis by blast
qed

text \<open>No index is out of range while the commits are searched: a request with a repository does not panic.\<close>

lemma find_change_returns: "paths \<noteq> [] \<Longrightarrow> \<exists>p. find_change s m repo app ns paths revs w = Ret p"
proof (induction revs arbitrary: w)
  case (Cons r revs)
  obtain res w1 where d: "DiffTree (lift_env (sv_git s)) m r w = (res, w1)" by (rule prod.exhaust)
  show ?case
  proof (cases res)
    case (Inl e)
    then show ?thesis by (simp add: d)
  next
    case (Inr files)
    then show ?thesis using Cons.IH [OF Cons.prems, of w1] AppFilesHaveChanged_nonempty [of files paths] Cons.prems
      by (cases "files = []") (auto simp: d)
  qed
qed simp

lemma change_in_range_returns: "crr_Paths request \<noteq> [] \<Longrightarrow> \<exists>p. change_in_range s m request repo revision w = Ret p"
  using find_change_returns [of "crr_Paths request"]
  by (auto simp: change_in_range_def Let_def split: prod.splits sum.splits)

lemma change_revision_returns:
  assumes "crr_Paths request \<noteq> []" "change_revision s repo request w = Some res"
  shows "\<exists>p. res = Ret p"
proof -
  obtain x w1 where n: "newClientResolveRevision s repo (crr_CurrentRevision request) (client_opts s) w = (x, w1)" by (rule prod.exhaust)
  show ?thesis
  proof (cases x)
    case (Inl e)
    then show ?thesis using assms(2) by (auto simp: change_revision_def n)
  next
    case (Inr y)
    obtain m revision where y: "y = (m, revision)" by (rule prod.exhaust)
    show ?thesis
    proof (cases "crr_PreviousRevision request = []")
      case True
      then show ?thesis using assms(2) Inr y by (auto simp: change_revision_def n)
    next
      case p: False
      obtain e w3 where l: "repoLock_Lock (gc_root m) revision True (Service_checkoutRevision s m revision False)
          (w1\<lparr>rw_metrics := IncPendingRepoRequest (repo_Repo repo) (rw_metrics w1)\<rparr>) = Some (e, w3)"
        using assms(2) Inr y p by (auto simp: change_revision_def n split: option.splits)
      obtain r w4 where i: "change_in_range s m request (repo_Repo repo) revision w3 = Ret (r, w4)"
        using change_in_range_returns [OF assms(1), of s m "repo_Repo repo" revision w3] by auto
      show ?thesis using assms(2) Inr y p l i by (cases e) (auto simp: change_revision_def n Let_def)
    qed
  qed
qed

lemma request_returns:
  assumes "crr_Repo request = Some repo" "GetChangeRevision s request w = Some res"
  shows "\<exists>r w'. res = Ret (r, w')"
proof (cases "crr_Paths request = []")
  case True
  then show ?thesis using assms by (auto simp: GetChangeRevision_def record_request_def)
next
  case False
  obtain res0 where c: "change_revision s repo request w = Some res0" and
    res: "res = go_bind res0 (\<lambda>p. Ret (record_request (repo_Repo repo) request p))"
    using assms False by (auto simp: GetChangeRevision_def)
  have "\<exists>p. res0 = Ret p" by (rule change_revision_returns [OF False c])
  then show ?thesis by (auto simp: res record_request_def split: prod.splits)
qed

text \<open>
  (C32) A request for a repository waits only for other requests: it is not granted the lock at once only if the directory
  of its repository is held by another request for another revision or without sharing; otherwise it returns a response or an error
  and does not panic. In particular, on an idle server it returns. (A request without a repository panics, \<open>invalid_requests\<close>.)
\<close>

theorem request_waits_for_others_only:
  assumes "crr_Repo request = Some repo"
  shows "(GetChangeRevision s request w = None \<longrightarrow>
      (\<exists>m revision w1. newClientResolveRevision s repo (crr_CurrentRevision request) (client_opts s) w = (Inr (m, revision), w1) \<and>
        (let state = lock_state (rw_repoLock w) (gc_root m) in
         rs_revision state \<noteq> [] \<and> (rs_revision state \<noteq> revision \<or> \<not> rs_allowConcurrent state)))) \<and>
   (\<forall>res. GetChangeRevision s request w = Some res \<longrightarrow> (\<exists>r w'. res = Ret (r, w'))) \<and>
   ((\<forall>path. rs_revision (lock_state (rw_repoLock w) path) = []) \<longrightarrow> (\<exists>r w'. GetChangeRevision s request w = Some (Ret (r, w'))))"
proof (intro conjI impI allI)
  show "\<exists>m revision w1. newClientResolveRevision s repo (crr_CurrentRevision request) (client_opts s) w = (Inr (m, revision), w1) \<and>
        (let state = lock_state (rw_repoLock w) (gc_root m) in
         rs_revision state \<noteq> [] \<and> (rs_revision state \<noteq> revision \<or> \<not> rs_allowConcurrent state))"
    if "GetChangeRevision s request w = None"
    using blocked_by [OF that] unfolding assms option.inject by blast
  show "\<exists>r w'. res = Ret (r, w')" if "GetChangeRevision s request w = Some res" for res
    by (rule request_returns [OF assms that])
  assume "\<forall>path. rs_revision (lock_state (rw_repoLock w) path) = []"
  then have "GetChangeRevision s request w \<noteq> None" using blocked_by [of s request w] by (auto simp: Let_def)
  then show "\<exists>r w'. GetChangeRevision s request w = Some (Ret (r, w'))" using request_returns [OF assms, of s w] by auto
qed

definition sample_repo :: Repository where
  "sample_repo = zero_Repository\<lparr>repo_Repo := ''https://git.example/mono''\<rparr>"

definition sample_request :: ChangeRevisionRequest where
  "sample_request = \<lparr>crr_AppName = ''app'', crr_Namespace = ''argocd'', crr_CurrentRevision = sha_b, crr_PreviousRevision = sha_a,
     crr_Paths = [''apps/a''], crr_Repo = Some sample_repo\<rparr>"

definition sample_git :: "string list \<Rightarrow> string \<times> go_error option" where
  "sample_git args = (if args = rev_list_args sha_a sha_b then (sha_b, None)
     else if args = diff_tree_args sha_b then (''apps/a/x.yaml'', None) else (''commit'', None))"

definition sample_world :: "InMemoryCache repo_world" where
  "sample_world = new_world ''/tmp/_argocd-repo'' Map.empty"

lemma sample_world_idle: "rs_revision (lock_state (rw_repoLock sample_world) path) = []"
  by (simp add: sample_world_def new_world_def lock_state_def NewRepositoryLock_def zero_repositoryState_def)

theorem request_waits_for_others_only_witness:
  "\<exists>r w'. GetChangeRevision (memory_service sample_git) sample_request sample_world = Some (Ret (r, w'))"
  using request_waits_for_others_only [of sample_request sample_repo "memory_service sample_git" sample_world] sample_world_idle
  by (simp add: sample_request_def)

lemma sample_request_returns: "\<exists>res. GetChangeRevision (memory_service sample_git) sample_request sample_world = Some res"
  using blocked_by [of "memory_service sample_git" sample_request sample_world] sample_world_idle by (auto simp: Let_def)

definition sample_answer :: "string result option" where
  "sample_answer = (case GetChangeRevision (memory_service sample_git) sample_request sample_world of
     Some (Ret (r, w)) \<Rightarrow> Some r | _ \<Rightarrow> None)"

lemma sample_answer: "sample_answer = Some (Inr sha_b)"
  by code_simp

theorem get_change_revision_refines_commits_witness:
  "\<exists>w'. GetChangeRevision (memory_service sample_git) sample_request sample_world = Some (Ret (Inr sha_b, w')) \<and>
     sha_b = change_spec (fst \<circ> sample_git) [''apps/a''] sha_a sha_b"
proof -
  obtain res where g: "GetChangeRevision (memory_service sample_git) sample_request sample_world = Some res" using sample_request_returns by blast
  have "\<exists>r w'. res = Ret (r, w') \<and> coherent (\<lambda>g k v. g k = Some v) (fst \<circ> sample_git) (rw_ext w') \<and>
    (\<forall>x. r = Inr x \<longrightarrow> crr_Paths sample_request \<noteq> [] \<and>
    (if crr_PreviousRevision sample_request = [] then x = crr_CurrentRevision sample_request
     else IsCommitSHA (crr_PreviousRevision sample_request) \<and> (\<exists>revision. IsCommitSHA revision \<and>
       (IsCommitSHA (crr_CurrentRevision sample_request) \<longrightarrow> revision = crr_CurrentRevision sample_request) \<and>
       x = change_spec (fst \<circ> sample_git) (crr_Paths sample_request) (crr_PreviousRevision sample_request) revision)))"
    by (rule get_change_revision_refines_commits [OF mem_server.coherent_server_axioms _ _ _ g])
      (simp_all add: sample_request_def sample_world_def new_world_def coherent_def memory_service_def)
  with g sample_answer show ?thesis by (auto simp: sample_request_def sample_answer_def)
qed

theorem request_is_balanced_witness:
  "\<exists>r w'. GetChangeRevision (memory_service sample_git) (sample_request\<lparr>crr_Paths := []\<rparr>) sample_world = Some (Ret (r, w')) \<and>
     mv_value (gauge w') = mv_value (gauge sample_world)"
proof -
  obtain r w' where g: "GetChangeRevision (memory_service sample_git) (sample_request\<lparr>crr_Paths := []\<rparr>) sample_world = Some (Ret (r, w'))"
    by (simp add: GetChangeRevision_def sample_request_def record_request_def)
  have "repo_metrics_ok (rw_metrics sample_world)" by (simp add: sample_world_def new_world_def)
  with request_is_balanced [OF g, of sample_repo] sample_world_idle g show ?thesis
    by (auto simp: counts_ok_def sample_request_def)
qed

theorem invalid_requests_witness:
  "GetChangeRevision (memory_service sample_git) (sample_request\<lparr>crr_Repo := None\<rparr>) sample_world = Some (Panic NilDereference)"
  using invalid_requests [of "sample_request\<lparr>crr_Repo := None\<rparr>" "memory_service sample_git" sample_world] by simp


text \<open>
  (C34) Repositories share a clone exactly when their URLs normalise to the same location: the
  directory of a key is chosen once and returned ever after, and as long as fresh random
  ids give unused directories, two keys never get the same directory; so two clients work
  in the same directory iff their normalised URLs are equal.
\<close>

theorem clones_are_not_shared:
  assumes "inj_on (rtp_paths p) (dom (rtp_paths p))" "\<forall>uid. uuid = Inr uid \<longrightarrow> filepath_Join [rtp_root p, uid] \<notin> ran (rtp_paths p)"
    and "GetPath uuid key p = (Inr path, p')"
  shows "inj_on (rtp_paths p') (dom (rtp_paths p')) \<and> GetPath uuid' key p' = (Inr path, p') \<and>
    rtp_paths p' key = Some path \<and> rtp_paths p \<subseteq>\<^sub>m rtp_paths p' \<and>
    (\<forall>key' path'. GetPath uuid' key' p' = (Inr path', p') \<and> key' \<in> dom (rtp_paths p') \<longrightarrow> (path' = path \<longleftrightarrow> key' = key))"
proof (cases "rtp_paths p key")
  case (Some x)
  with assms show ?thesis by (auto simp: GetPath_def map_le_def dom_def inj_on_def split: option.splits)
next
  case None
  with assms(3) obtain uid where u: "uuid = Inr uid" "path = filepath_Join [rtp_root p, uid]"
    "p' = p\<lparr>rtp_paths := (rtp_paths p)(key \<mapsto> path)\<rparr>"
    by (auto simp: GetPath_def Let_def split: sum.splits simp del: filepath_Join.simps)
  with assms(2) have fresh: "path \<notin> ran (rtp_paths p)" by blast
  have inj: "inj_on (rtp_paths p') (dom (rtp_paths p'))"
    using assms(1) fresh by (auto simp: u(3) inj_on_def ran_def)
  have key: "rtp_paths p' key = Some path" by (simp add: u(3))
  have only: "rtp_paths p' k = Some path \<longleftrightarrow> k = key" for k using fresh by (auto simp: u(3) ran_def split: if_splits)
  have later: "path' = path \<longleftrightarrow> key' = key" if "GetPath uuid' key' p' = (Inr path', p')" "key' \<in> dom (rtp_paths p')" for key' path'
  proof -
    have "rtp_paths p' key' = Some path'" using that by (auto simp: GetPath_def)
    then show ?thesis using only [of key'] by auto
  qed
  have "rtp_paths p \<subseteq>\<^sub>m rtp_paths p'" using None by (auto simp: u(3) map_le_def)
  moreover have "GetPath uuid' key p' = (Inr path, p')" by (simp add: GetPath_def key)
  ultimately show ?thesis using inj key later by blast
qed

theorem clones_are_not_shared_witness:
  "\<exists>(p :: RandomizedTempPaths) path. rtp_paths p ''git.example/mono'' = Some path \<and> inj_on (rtp_paths p) (dom (rtp_paths p))"
proof -
  obtain path p where g: "GetPath (Inr ''u1'') ''git.example/mono'' (NewRandomizedTempPaths ''/tmp'') = (Inr path, p)"
    by (simp add: GetPath_def NewRandomizedTempPaths_def Let_def del: filepath_Join.simps)
  have "rtp_paths p ''git.example/mono'' = Some path \<and> inj_on (rtp_paths p) (dom (rtp_paths p))"
    using clones_are_not_shared [OF _ _ g] by (simp add: NewRandomizedTempPaths_def)
  then show ?thesis by blast
qed

end
