(* ===== verification/Secrets.thy ===== *)
theory Secrets
  imports GitURL RepoTypes "HOL-Library.Word"
begin

text \<open>
  Kubernetes secrets as the store of repositories: the settings manager's access to the cluster
  (\<open>util/settings/settings.go\<close>: informers, listers, resynchronisation), the helpers on single secrets
  (\<open>util/db/secrets.go\<close>, \<open>util/db/db.go\<close>), and the conversion between repositories, credential
  templates and secrets (\<open>util/db/repository_secrets.go\<close>).

  The client library is the record \<open>kube_env\<close>, whose functions act on the cluster and the informers,
  a world \<open>'k\<close>. A nil map of a secret is the empty map.
\<close>

unbundle bit_operations_syntax

section \<open>The cluster\<close>

record Secret =
  sec_Name :: string
  sec_Labels :: "string \<rightharpoonup> string"
  sec_Annotations :: "string \<rightharpoonup> string"
  sec_Data :: "string \<rightharpoonup> string"

text \<open>
  \<open>ke_runInformers\<close> starts the two informers of the settings manager and waits for their caches: it
  gives their handle and whether they synced. \<open>ke_secrets\<close> is the content of the cache of a secret
  informer, for the namespace of the program. \<open>ke_NotFound\<close> is the error of a lister for a name it
  does not have.
\<close>

record 'k kube_env =
  ke_runInformers :: "'k \<Rightarrow> (nat \<times> bool) \<times> 'k"
  ke_stopInformers :: "'k \<Rightarrow> 'k"
  ke_secrets :: "nat \<Rightarrow> 'k \<Rightarrow> Secret list"
  ke_NotFound :: "string \<Rightarrow> go_error"
  ke_IsNotFound :: "go_error \<Rightarrow> bool"
  ke_IsAlreadyExists :: "go_error \<Rightarrow> bool"
  ke_Create :: "Secret \<Rightarrow> 'k \<Rightarrow> Secret result \<times> 'k"
  ke_Update :: "Secret \<Rightarrow> 'k \<Rightarrow> Secret result \<times> 'k"
  ke_Delete :: "string \<Rightarrow> 'k \<Rightarrow> go_error option \<times> 'k"

section \<open>The settings manager\<close>

text \<open>
  The listers are handles of informers; nil is \<open>None\<close>. \<open>sm_initContextCancel\<close> says whether there are informers to
  cancel.
\<close>

record SettingsManager =
  sm_secrets :: "nat option"
  sm_secretsInformer :: "nat option"
  sm_configmaps :: "nat option"
  sm_initContextCancel :: bool

record 'k db_world =
  dw_mgr :: SettingsManager
  dw_kube :: 'k

definition NewSettingsManager :: SettingsManager where
  "NewSettingsManager = \<lparr>sm_secrets = None, sm_secretsInformer = None, sm_configmaps = None, sm_initContextCancel = False\<rparr>"

definition mgr_initialize :: "'k kube_env \<Rightarrow> 'k db_world \<Rightarrow> go_error option \<times> 'k db_world" where
  "mgr_initialize e w =
     (let ((informers, synced), k) = ke_runInformers e (dw_kube w) in
      if \<not> synced then (Some (ErrorString ''timed out waiting for settings cache to sync''), w\<lparr>dw_kube := k\<rparr>)
      else (None, w\<lparr>dw_kube := k, dw_mgr := (dw_mgr w)\<lparr>sm_secrets := Some informers, sm_secretsInformer := Some informers,
              sm_configmaps := Some informers\<rparr>\<rparr>))"

definition ensureSynced :: "'k kube_env \<Rightarrow> bool \<Rightarrow> 'k db_world \<Rightarrow> go_error option \<times> 'k db_world" where
  "ensureSynced e forceResync w =
     (if \<not> forceResync \<and> sm_secrets (dw_mgr w) \<noteq> None \<and> sm_configmaps (dw_mgr w) \<noteq> None then (None, w)
      else
        let w1 = (if sm_initContextCancel (dw_mgr w) then w\<lparr>dw_kube := ke_stopInformers e (dw_kube w)\<rparr> else w)
        in mgr_initialize e (w1\<lparr>dw_mgr := (dw_mgr w1)\<lparr>sm_initContextCancel := True\<rparr>\<rparr>))"

definition ResyncInformers :: "'k kube_env \<Rightarrow> 'k db_world \<Rightarrow> go_error option \<times> 'k db_world" where
  "ResyncInformers e w = ensureSynced e True w"

definition GetSecretsLister :: "'k kube_env \<Rightarrow> 'k db_world \<Rightarrow> nat option result \<times> 'k db_world" where
  "GetSecretsLister e w = (case ensureSynced e False w of
     (Some err, w1) \<Rightarrow> (Inl err, w1)
   | (None, w1) \<Rightarrow> (Inr (sm_secrets (dw_mgr w1)), w1))"

definition GetSecretsInformer :: "'k kube_env \<Rightarrow> 'k db_world \<Rightarrow> nat option result \<times> 'k db_world" where
  "GetSecretsInformer e w = (case ensureSynced e False w of
     (Some err, w1) \<Rightarrow> (Inl (Wrapped ''error ensuring that the secrets manager is synced'' err), w1)
   | (None, w1) \<Rightarrow> (Inr (sm_secretsInformer (dw_mgr w1)), w1))"

text \<open>The secrets behind a lister.\<close>

definition lister_secrets :: "'k kube_env \<Rightarrow> nat option \<Rightarrow> 'k db_world \<Rightarrow> Secret list" where
  "lister_secrets e lister w = (case lister of None \<Rightarrow> [] | Some h \<Rightarrow> ke_secrets e h (dw_kube w))"

definition GetSecretByName :: "'k kube_env \<Rightarrow> string \<Rightarrow> 'k db_world \<Rightarrow> Secret result \<times> 'k db_world" where
  "GetSecretByName e secretName w = (case ensureSynced e False w of
     (Some err, w1) \<Rightarrow> (Inl err, w1)
   | (None, w1) \<Rightarrow>
       (case List.find (\<lambda>s. sec_Name s = secretName) (lister_secrets e (sm_secrets (dw_mgr w1)) w1) of
          None \<Rightarrow> Inl (ke_NotFound e secretName)
        | Some secret \<Rightarrow> Inr secret, w1))"

section \<open>Helpers on secrets\<close>

definition LabelKeySecretType :: string where "LabelKeySecretType = ''argocd.argoproj.io/secret-type''"
definition LabelValueSecretTypeRepository :: string where "LabelValueSecretTypeRepository = ''repository''"
definition LabelValueSecretTypeRepoCreds :: string where "LabelValueSecretTypeRepoCreds = ''repo-creds''"
definition LabelValueSecretTypeRepositoryWrite :: string where "LabelValueSecretTypeRepositoryWrite = ''repository-write''"
definition AnnotationKeyManagedBy :: string where "AnnotationKeyManagedBy = ''managed-by''"
definition AnnotationValueManagedByArgoCD :: string where "AnnotationValueManagedByArgoCD = ''argocd.argoproj.io''"

definition listSecretsByType :: "'k kube_env \<Rightarrow> string \<Rightarrow> 'k db_world \<Rightarrow> Secret list result \<times> 'k db_world" where
  "listSecretsByType e ty w = (case GetSecretsLister e w of
     (Inl err, w1) \<Rightarrow> (Inl err, w1)
   | (Inr lister, w1) \<Rightarrow> (Inr (filter (\<lambda>s. sec_Labels s LabelKeySecretType = Some ty) (lister_secrets e lister w1)), w1))"

text \<open>The cache of \<open>getSecret\<close> is empty at every call of it.\<close>

definition getSecret :: "'k kube_env \<Rightarrow> string \<Rightarrow> 'k db_world \<Rightarrow> Secret result \<times> 'k db_world" where
  "getSecret e name w = GetSecretByName e name w"

text \<open>\<open>string(secret.Data[key])\<close>.\<close>

definition data_string :: "Secret \<Rightarrow> string \<Rightarrow> string" where
  "data_string secret key = (case sec_Data secret key of None \<Rightarrow> [] | Some v \<Rightarrow> v)"

definition strconv_error :: "string \<Rightarrow> string \<Rightarrow> string \<Rightarrow> go_error" where
  "strconv_error fn val reason = ErrorString (''strconv.'' @ fn @ '': parsing '' @ [CHR 0x22] @ val @ [CHR 0x22] @ '': '' @ reason)"

definition boolOrFalse :: "Secret \<Rightarrow> string \<Rightarrow> bool result" where
  "boolOrFalse secret key = (case sec_Data secret key of
     None \<Rightarrow> Inr False
   | Some val \<Rightarrow> (case strconv_ParseBool val of
        None \<Rightarrow> Inl (strconv_error ''ParseBool'' val ''invalid syntax'')
      | Some b \<Rightarrow> Inr b))"

definition int_syntax :: "string \<Rightarrow> bool" where
  "int_syntax s = (let body = (if s \<noteq> [] \<and> (hd s = CHR ''-'' \<or> hd s = CHR ''+'') then tl s else s)
     in body \<noteq> [] \<and> parse_digits 0 body \<noteq> None)"

definition intOrZero :: "Secret \<Rightarrow> string \<Rightarrow> int result" where
  "intOrZero secret key = (case sec_Data secret key of
     None \<Rightarrow> Inr 0
   | Some val \<Rightarrow> (case strconv_ParseInt val of
        None \<Rightarrow> Inl (strconv_error ''ParseInt'' val (if int_syntax val then ''value out of range'' else ''invalid syntax''))
      | Some n \<Rightarrow> Inr n))"

definition updateSecretBool :: "string \<Rightarrow> bool \<Rightarrow> Secret \<Rightarrow> Secret" where
  "updateSecretBool key value secret =
     (if sec_Data secret key \<noteq> None \<or> value then secret\<lparr>sec_Data := (sec_Data secret)(key \<mapsto> FormatBool value)\<rparr> else secret)"

definition updateSecretInt :: "string \<Rightarrow> int \<Rightarrow> Secret \<Rightarrow> Secret" where
  "updateSecretInt key value secret =
     (if sec_Data secret key \<noteq> None \<or> value \<noteq> 0 then secret\<lparr>sec_Data := (sec_Data secret)(key \<mapsto> int_text value)\<rparr> else secret)"

definition updateSecretString :: "string \<Rightarrow> string \<Rightarrow> Secret \<Rightarrow> Secret" where
  "updateSecretString key value secret =
     (if sec_Data secret key \<noteq> None \<or> value \<noteq> [] then secret\<lparr>sec_Data := (sec_Data secret)(key \<mapsto> value)\<rparr> else secret)"

definition addSecretMetadata :: "string \<Rightarrow> Secret \<Rightarrow> Secret" where
  "addSecretMetadata secretType secret = secret\<lparr>
     sec_Annotations := (sec_Annotations secret)(AnnotationKeyManagedBy \<mapsto> AnnotationValueManagedByArgoCD),
     sec_Labels := (sec_Labels secret)(LabelKeySecretType \<mapsto> secretType)\<rparr>"

definition createSecret :: "'k kube_env \<Rightarrow> Secret \<Rightarrow> 'k db_world \<Rightarrow> Secret result \<times> 'k db_world" where
  "createSecret e secret w = (let (r, k) = ke_Create e secret (dw_kube w) in (r, w\<lparr>dw_kube := k\<rparr>))"

definition updateSecret :: "'k kube_env \<Rightarrow> Secret \<Rightarrow> 'k db_world \<Rightarrow> Secret result \<times> 'k db_world" where
  "updateSecret e secret w = (let (r, k) = ke_Update e secret (dw_kube w) in (r, w\<lparr>dw_kube := k\<rparr>))"

definition deleteSecret :: "'k kube_env \<Rightarrow> Secret \<Rightarrow> 'k db_world \<Rightarrow> go_error option \<times> 'k db_world" where
  "deleteSecret e secret w =
     (if sec_Annotations secret AnnotationKeyManagedBy = Some AnnotationValueManagedByArgoCD
      then (let (err, k) = ke_Delete e (sec_Name secret) (dw_kube w) in (err, w\<lparr>dw_kube := k\<rparr>))
      else (case updateSecret e (secret\<lparr>sec_Labels := (sec_Labels secret)(LabelKeySecretType := None)\<rparr>) w of
              (Inl err, w1) \<Rightarrow> (Some err, w1)
            | (Inr _, w1) \<Rightarrow> (None, w1)))"

text \<open>FNV-1a with 32 bits, and the names of the secrets the program creates.\<close>

definition fnv1a_write :: "32 word \<Rightarrow> string \<Rightarrow> 32 word" where
  "fnv1a_write h s = foldl (\<lambda>h c. (h XOR of_nat (byte c)) * 16777619) h s"

definition RepoURLToSecretName :: "string \<Rightarrow> string \<Rightarrow> string \<Rightarrow> string" where
  "RepoURLToSecretName prefix repo project =
     prefix @ ''-'' @ decimal (unat (fnv1a_write (fnv1a_write 2166136261 repo) project))"

section \<open>Repositories and credential templates as secrets\<close>

text \<open>A field that is read from the secret unless an earlier one failed.\<close>

definition read_field :: "'a result \<Rightarrow> ('a \<Rightarrow> 'r \<Rightarrow> 'r) \<Rightarrow> 'r \<times> go_error option \<Rightarrow> 'r \<times> go_error option" where
  "read_field v assign st = (case st of
     (r, Some err) \<Rightarrow> (r, Some err)
   | (r, None) \<Rightarrow> (case v of Inl err \<Rightarrow> (r, Some err) | Inr x \<Rightarrow> (assign x r, None)))"

definition secretToRepository :: "Secret \<Rightarrow> Repository \<times> go_error option" where
  "secretToRepository secret = foldl (\<lambda>st f. f st)
     (zero_Repository\<lparr>
        repo_Name := data_string secret ''name'',
        repo_Repo := data_string secret ''url'',
        repo_Username := data_string secret ''username'',
        repo_Password := data_string secret ''password'',
        repo_BearerToken := data_string secret ''bearerToken'',
        repo_SSHPrivateKey := data_string secret ''sshPrivateKey'',
        repo_TLSClientCertData := data_string secret ''tlsClientCertData'',
        repo_TLSClientCertKey := data_string secret ''tlsClientCertKey'',
        repo_Type := data_string secret ''type'',
        repo_GithubAppPrivateKey := data_string secret ''githubAppPrivateKey'',
        repo_GitHubAppEnterpriseBaseURL := data_string secret ''githubAppEnterpriseBaseUrl'',
        repo_Proxy := data_string secret ''proxy'',
        repo_NoProxy := data_string secret ''noProxy'',
        repo_Project := data_string secret ''project'',
        repo_GCPServiceAccountKey := data_string secret ''gcpServiceAccountKey''\<rparr>, None)
     [read_field (boolOrFalse secret ''insecureIgnoreHostKey'') (\<lambda>b. repo_InsecureIgnoreHostKey_update (\<lambda>_. b)),
      read_field (boolOrFalse secret ''insecure'') (\<lambda>b. repo_Insecure_update (\<lambda>_. b)),
      read_field (boolOrFalse secret ''enableLfs'') (\<lambda>b. repo_EnableLFS_update (\<lambda>_. b)),
      read_field (boolOrFalse secret ''enableOCI'') (\<lambda>b. repo_EnableOCI_update (\<lambda>_. b)),
      read_field (boolOrFalse secret ''insecureOCIForceHttp'') (\<lambda>b. repo_InsecureOCIForceHttp_update (\<lambda>_. b)),
      (\<lambda>st. read_field (intOrZero secret ''githubAppID'') (\<lambda>n. repo_GithubAppId_update (\<lambda>_. n)) st),
      (\<lambda>st. read_field (intOrZero secret ''githubAppInstallationID'') (\<lambda>n. repo_GithubAppInstallationId_update (\<lambda>_. n)) st),
      read_field (boolOrFalse secret ''forceHttpBasicAuth'') (\<lambda>b. repo_ForceHttpBasicAuth_update (\<lambda>_. b)),
      read_field (boolOrFalse secret ''useAzureWorkloadIdentity'') (\<lambda>b. repo_UseAzureWorkloadIdentity_update (\<lambda>_. b))]"

definition getSecretType :: "bool \<Rightarrow> string" where
  "getSecretType writeCreds = (if writeCreds then LabelValueSecretTypeRepositoryWrite else LabelValueSecretTypeRepository)"

definition repositoryToSecret :: "bool \<Rightarrow> Repository \<Rightarrow> Secret \<Rightarrow> Secret" where
  "repositoryToSecret writeCreds repository secret = foldl (\<lambda>s f. f s) secret
     [updateSecretString ''name'' (repo_Name repository),
      updateSecretString ''project'' (repo_Project repository),
      updateSecretString ''url'' (repo_Repo repository),
      updateSecretString ''username'' (repo_Username repository),
      updateSecretString ''password'' (repo_Password repository),
      updateSecretString ''bearerToken'' (repo_BearerToken repository),
      updateSecretString ''sshPrivateKey'' (repo_SSHPrivateKey repository),
      updateSecretBool ''enableOCI'' (repo_EnableOCI repository),
      updateSecretBool ''insecureOCIForceHttp'' (repo_InsecureOCIForceHttp repository),
      updateSecretString ''tlsClientCertData'' (repo_TLSClientCertData repository),
      updateSecretString ''tlsClientCertKey'' (repo_TLSClientCertKey repository),
      updateSecretString ''type'' (repo_Type repository),
      updateSecretString ''githubAppPrivateKey'' (repo_GithubAppPrivateKey repository),
      updateSecretInt ''githubAppID'' (repo_GithubAppId repository),
      updateSecretInt ''githubAppInstallationID'' (repo_GithubAppInstallationId repository),
      updateSecretString ''githubAppEnterpriseBaseUrl'' (repo_GitHubAppEnterpriseBaseURL repository),
      updateSecretBool ''insecureIgnoreHostKey'' (repo_InsecureIgnoreHostKey repository),
      updateSecretBool ''insecure'' (repo_Insecure repository),
      updateSecretBool ''enableLfs'' (repo_EnableLFS repository),
      updateSecretString ''proxy'' (repo_Proxy repository),
      updateSecretString ''noProxy'' (repo_NoProxy repository),
      updateSecretString ''gcpServiceAccountKey'' (repo_GCPServiceAccountKey repository),
      updateSecretBool ''forceHttpBasicAuth'' (repo_ForceHttpBasicAuth repository),
      updateSecretBool ''useAzureWorkloadIdentity'' (repo_UseAzureWorkloadIdentity repository),
      addSecretMetadata (getSecretType writeCreds)]"

definition zero_RepoCreds :: RepoCreds where
  "zero_RepoCreds = \<lparr>rc_URL = [], rc_Username = [], rc_Password = [], rc_SSHPrivateKey = [], rc_TLSClientCertData = [],
     rc_TLSClientCertKey = [], rc_GithubAppPrivateKey = [], rc_GithubAppId = 0, rc_GithubAppInstallationId = 0,
     rc_GitHubAppEnterpriseBaseURL = [], rc_EnableOCI = False, rc_Type = [], rc_GCPServiceAccountKey = [], rc_Proxy = [],
     rc_ForceHttpBasicAuth = False, rc_NoProxy = [], rc_UseAzureWorkloadIdentity = False, rc_BearerToken = [],
     rc_InsecureOCIForceHttp = False\<rparr>"

definition secretToRepoCred :: "Secret \<Rightarrow> RepoCreds \<times> go_error option" where
  "secretToRepoCred secret = foldl (\<lambda>st f. f st)
     (zero_RepoCreds\<lparr>
        rc_URL := data_string secret ''url'',
        rc_Username := data_string secret ''username'',
        rc_Password := data_string secret ''password'',
        rc_BearerToken := data_string secret ''bearerToken'',
        rc_SSHPrivateKey := data_string secret ''sshPrivateKey'',
        rc_TLSClientCertData := data_string secret ''tlsClientCertData'',
        rc_TLSClientCertKey := data_string secret ''tlsClientCertKey'',
        rc_Type := data_string secret ''type'',
        rc_GithubAppPrivateKey := data_string secret ''githubAppPrivateKey'',
        rc_GitHubAppEnterpriseBaseURL := data_string secret ''githubAppEnterpriseBaseUrl'',
        rc_GCPServiceAccountKey := data_string secret ''gcpServiceAccountKey'',
        rc_Proxy := data_string secret ''proxy'',
        rc_NoProxy := data_string secret ''noProxy''\<rparr>, None)
     [read_field (boolOrFalse secret ''enableOCI'') (\<lambda>b. rc_EnableOCI_update (\<lambda>_. b)),
      read_field (boolOrFalse secret ''insecureOCIForceHttp'') (\<lambda>b. rc_InsecureOCIForceHttp_update (\<lambda>_. b)),
      (\<lambda>st. read_field (intOrZero secret ''githubAppID'') (\<lambda>n. rc_GithubAppId_update (\<lambda>_. n)) st),
      (\<lambda>st. read_field (intOrZero secret ''githubAppInstallationID'') (\<lambda>n. rc_GithubAppInstallationId_update (\<lambda>_. n)) st),
      read_field (boolOrFalse secret ''forceHttpBasicAuth'') (\<lambda>b. rc_ForceHttpBasicAuth_update (\<lambda>_. b)),
      read_field (boolOrFalse secret ''useAzureWorkloadIdentity'') (\<lambda>b. rc_UseAzureWorkloadIdentity_update (\<lambda>_. b))]"

definition repoCredsToSecret :: "RepoCreds \<Rightarrow> Secret \<Rightarrow> Secret" where
  "repoCredsToSecret repoCreds secret = foldl (\<lambda>s f. f s) secret
     [updateSecretString ''url'' (rc_URL repoCreds),
      updateSecretString ''username'' (rc_Username repoCreds),
      updateSecretString ''password'' (rc_Password repoCreds),
      updateSecretString ''bearerToken'' (rc_BearerToken repoCreds),
      updateSecretString ''sshPrivateKey'' (rc_SSHPrivateKey repoCreds),
      updateSecretBool ''enableOCI'' (rc_EnableOCI repoCreds),
      updateSecretBool ''insecureOCIForceHttp'' (rc_InsecureOCIForceHttp repoCreds),
      updateSecretString ''tlsClientCertData'' (rc_TLSClientCertData repoCreds),
      updateSecretString ''tlsClientCertKey'' (rc_TLSClientCertKey repoCreds),
      updateSecretString ''type'' (rc_Type repoCreds),
      updateSecretString ''githubAppPrivateKey'' (rc_GithubAppPrivateKey repoCreds),
      updateSecretInt ''githubAppID'' (rc_GithubAppId repoCreds),
      updateSecretInt ''githubAppInstallationID'' (rc_GithubAppInstallationId repoCreds),
      updateSecretString ''githubAppEnterpriseBaseUrl'' (rc_GitHubAppEnterpriseBaseURL repoCreds),
      updateSecretString ''gcpServiceAccountKey'' (rc_GCPServiceAccountKey repoCreds),
      updateSecretString ''proxy'' (rc_Proxy repoCreds),
      updateSecretString ''noProxy'' (rc_NoProxy repoCreds),
      updateSecretBool ''forceHttpBasicAuth'' (rc_ForceHttpBasicAuth repoCreds),
      updateSecretBool ''useAzureWorkloadIdentity'' (rc_UseAzureWorkloadIdentity repoCreds),
      addSecretMetadata LabelValueSecretTypeRepoCreds]"

section \<open>Reading back what was written\<close>

text \<open>A field of a secret after an update is the value written, or what it was under another key.\<close>

lemma data_string_update [simp]:
  "data_string (updateSecretString k v s) k' = (if k' = k then v else data_string s k')"
  "k' \<noteq> k \<Longrightarrow> data_string (updateSecretBool k b s) k' = data_string s k'"
  "k' \<noteq> k \<Longrightarrow> data_string (updateSecretInt k n s) k' = data_string s k'"
  "data_string (addSecretMetadata ty s) k' = data_string s k'"
  by (auto simp: data_string_def updateSecretString_def updateSecretBool_def updateSecretInt_def addSecretMetadata_def)

lemma boolOrFalse_update [simp]:
  "boolOrFalse (updateSecretBool k b s) k' = (if k' = k then Inr b else boolOrFalse s k')"
  "k' \<noteq> k \<Longrightarrow> boolOrFalse (updateSecretString k v s) k' = boolOrFalse s k'"
  "k' \<noteq> k \<Longrightarrow> boolOrFalse (updateSecretInt k n s) k' = boolOrFalse s k'"
  "boolOrFalse (addSecretMetadata ty s) k' = boolOrFalse s k'"
  by (auto simp: boolOrFalse_def updateSecretString_def updateSecretBool_def updateSecretInt_def addSecretMetadata_def)

lemma intOrZero_update [simp]:
  "MinInt64 \<le> n \<Longrightarrow> n \<le> MaxInt64 \<Longrightarrow> intOrZero (updateSecretInt k n s) k' = (if k' = k then Inr n else intOrZero s k')"
  "k' \<noteq> k \<Longrightarrow> intOrZero (updateSecretString k v s) k' = intOrZero s k'"
  "k' \<noteq> k \<Longrightarrow> intOrZero (updateSecretInt k m s) k' = intOrZero s k'"
  "k' \<noteq> k \<Longrightarrow> intOrZero (updateSecretBool k b s) k' = intOrZero s k'"
  "intOrZero (addSecretMetadata ty s) k' = intOrZero s k'"
  by (auto simp: intOrZero_def updateSecretString_def updateSecretBool_def updateSecretInt_def addSecretMetadata_def ParseInt_int_text)

lemma read_field_Inr [simp]: "read_field (Inr x) assign (r, None) = (assign x r, None)"
  by (simp add: read_field_def)

definition int64 :: "int \<Rightarrow> bool" where "int64 n \<longleftrightarrow> MinInt64 \<le> n \<and> n \<le> MaxInt64"

text \<open>What a secret does not keep of a repository.\<close>

definition stored :: "Repository \<Rightarrow> Repository" where
  "stored r = r\<lparr>repo_ConnectionState := zero_ConnectionState, repo_InheritedCreds := False\<rparr>"

lemma secretToRepository_repositoryToSecret:
  assumes "int64 (repo_GithubAppId r)" "int64 (repo_GithubAppInstallationId r)"
  shows "secretToRepository (repositoryToSecret wr r s) = (stored r, None)"
  using assms unfolding int64_def
  by (simp add: secretToRepository_def repositoryToSecret_def zero_Repository_def stored_def)

lemma secretToRepoCred_repoCredsToSecret:
  assumes "int64 (rc_GithubAppId c)" "int64 (rc_GithubAppInstallationId c)"
  shows "secretToRepoCred (repoCredsToSecret c s) = (c, None)"
  using assms unfolding int64_def
  by (simp add: secretToRepoCred_def repoCredsToSecret_def zero_RepoCreds_def)

end
