(* ===== verification/RepoDB.thy ===== *)
theory RepoDB
  imports Secrets
begin

text \<open>
  The repository database, \<open>util/db/repository.go\<close> over the secrets backend of
  \<open>util/db/repository_secrets.go\<close>: looking up, creating, updating and deleting repositories and
  credential templates, with read or write credentials (\<open>writeCreds\<close>). The reconciliation service gets
  the repositories it sends to the repository server from here.

  \<open>de_url_String\<close> is \<open>net/url\<close> (parse and print), \<open>de_statusCode\<close> is \<open>status.Code\<close> of the gRPC library.
\<close>

record 'k db_env =
  de_kube :: "'k kube_env"
  de_url_String :: "string \<Rightarrow> string option"
  de_statusCode :: "go_error \<Rightarrow> grpc_code"

definition quoted :: "string \<Rightarrow> string" where "quoted s = [CHR 0x22] @ s @ [CHR 0x22]"

section \<open>Finding secrets\<close>

text \<open>The loop over the secrets; \<open>found\<close> is \<open>foundSecret\<close>.\<close>

fun find_repository_secret :: "(string \<Rightarrow> string option) \<Rightarrow> string \<Rightarrow> string \<Rightarrow> bool \<Rightarrow> Secret list \<Rightarrow> Secret option \<Rightarrow> Secret option" where
  "find_repository_secret url repoURL project allowFallback [] found = found"
| "find_repository_secret url repoURL project allowFallback (secret # secrets) found =
     (if SameURL url (data_string secret ''url'') repoURL then
        let projectSecret = data_string secret ''project'' in
        if project = projectSecret then Some secret
        else if projectSecret = [] \<and> allowFallback then find_repository_secret url repoURL project allowFallback secrets (Some secret)
        else find_repository_secret url repoURL project allowFallback secrets found
      else find_repository_secret url repoURL project allowFallback secrets found)"

definition getRepositorySecret :: "'k db_env \<Rightarrow> bool \<Rightarrow> string \<Rightarrow> string \<Rightarrow> bool \<Rightarrow> 'k db_world \<Rightarrow> Secret result \<times> 'k db_world" where
  "getRepositorySecret e wr repoURL project allowFallback w =
     (case listSecretsByType (de_kube e) (getSecretType wr) w of
        (Inl err, w1) \<Rightarrow> (Inl (Wrapped ''failed to list repository secrets'' err), w1)
      | (Inr secrets, w1) \<Rightarrow>
          (case find_repository_secret (de_url_String e) repoURL project allowFallback secrets None of
             Some secret \<Rightarrow> Inr secret
           | None \<Rightarrow> Inl (StatusError NotFound (''repository '' @ quoted repoURL @ '' not found'')), w1))"

text \<open>The loop over the credential templates with \<open>maxLen\<close>, \<open>idx\<close> and the index \<open>i\<close>.\<close>

fun credential_index :: "(string \<Rightarrow> string option) \<Rightarrow> string \<Rightarrow> nat \<Rightarrow> Secret list \<Rightarrow> nat \<Rightarrow> int \<Rightarrow> int" where
  "credential_index url repoURL i [] maxLen idx = idx"
| "credential_index url repoURL i (cred # creds) maxLen idx =
     (let credURL = NormalizeGitURL url (data_string cred ''url'') in
      if strings_HasPrefix repoURL credURL \<and> length credURL > maxLen
      then credential_index url repoURL (Suc i) creds (length credURL) (int i)
      else credential_index url repoURL (Suc i) creds maxLen idx)"

definition getRepositoryCredentialIndex :: "(string \<Rightarrow> string option) \<Rightarrow> Secret list \<Rightarrow> string \<Rightarrow> int" where
  "getRepositoryCredentialIndex url repoCredentials repoURL =
     credential_index url (NormalizeGitURL url repoURL) 0 repoCredentials 0 (- 1)"

definition getRepoCredsSecret :: "'k db_env \<Rightarrow> string \<Rightarrow> 'k db_world \<Rightarrow> Secret result \<times> 'k db_world" where
  "getRepoCredsSecret e repoURL w =
     (case listSecretsByType (de_kube e) LabelValueSecretTypeRepoCreds w of
        (Inl err, w1) \<Rightarrow> (Inl err, w1)
      | (Inr secrets, w1) \<Rightarrow>
          (let index = getRepositoryCredentialIndex (de_url_String e) secrets repoURL in
           if index < 0 then Inl (StatusError NotFound (''repository credentials '' @ quoted repoURL @ '' not found''))
           else Inr (secrets ! nat index), w1))"

section \<open>The secrets backend\<close>

definition hasRepoTypeLabel :: "'k db_env \<Rightarrow> string \<Rightarrow> 'k db_world \<Rightarrow> bool result \<times> 'k db_world" where
  "hasRepoTypeLabel e secretName w = (case getSecret (de_kube e) secretName w of
     (Inl err, w1) \<Rightarrow> (if ke_IsNotFound (de_kube e) err then Inr False else Inl err, w1)
   | (Inr sec, w1) \<Rightarrow> (Inr (sec_Labels sec LabelKeySecretType \<noteq> None), w1))"

text \<open>The result of an operation followed by \<open>ResyncInformers\<close>: value and error are both returned.\<close>

definition resynced :: "'k db_env \<Rightarrow> 'a \<Rightarrow> 'k db_world \<Rightarrow> ('a option \<times> go_error option) \<times> 'k db_world" where
  "resynced e x w = (let (err, w1) = ResyncInformers (de_kube e) w in ((Some x, err), w1))"

definition new_secret :: "string \<Rightarrow> Secret" where
  "new_secret name = \<lparr>sec_Name = name, sec_Labels = Map.empty, sec_Annotations = Map.empty, sec_Data = Map.empty\<rparr>"

definition already_exists :: "string \<Rightarrow> go_error" where
  "already_exists repo = StatusError AlreadyExists (''repository '' @ quoted repo @ '' already exists'')"

definition backend_CreateRepository :: "'k db_env \<Rightarrow> bool \<Rightarrow> Repository \<Rightarrow> 'k db_world \<Rightarrow> (Repository option \<times> go_error option) \<times> 'k db_world" where
  "backend_CreateRepository e wr repository w =
     (let secName = RepoURLToSecretName ''repo'' (repo_Repo repository) (repo_Project repository);
          repositorySecret = repositoryToSecret wr repository (new_secret secName)
      in case createSecret (de_kube e) repositorySecret w of
           (Inl err, w1) \<Rightarrow>
             if ke_IsAlreadyExists (de_kube e) err then
               (case hasRepoTypeLabel e secName w1 of
                  (Inl err2, w2) \<Rightarrow> ((None, Some (StatusError Internal (error_Error err2))), w2)
                | (Inr False, w2) \<Rightarrow> ((None, Some (StatusError InvalidArgument (''secret '' @ quoted secName @ '' doesn'' @ [CHR 0x27] @
                    ''t have the proper '' @ quoted LabelKeySecretType @ '' label: please fix the secret or delete it''))), w2)
                | (Inr True, w2) \<Rightarrow> ((None, Some (already_exists (repo_Repo repository))), w2))
             else ((None, Some err), w1)
         | (Inr _, w1) \<Rightarrow> resynced e repository w1)"

definition backend_GetRepository :: "'k db_env \<Rightarrow> bool \<Rightarrow> string \<Rightarrow> string \<Rightarrow> 'k db_world \<Rightarrow> Repository result \<times> 'k db_world" where
  "backend_GetRepository e wr repoURL project w = (case getRepositorySecret e wr repoURL project True w of
     (Inl err, w1) \<Rightarrow> (if de_statusCode e err = NotFound then Inr (zero_Repository\<lparr>repo_Repo := repoURL\<rparr>) else Inl err, w1)
   | (Inr secret, w1) \<Rightarrow> (case secretToRepository secret of (r, Some err) \<Rightarrow> Inl err | (r, None) \<Rightarrow> Inr r, w1))"

definition failed_state :: "Time \<Rightarrow> ConnectionState" where
  "failed_state now = \<lparr>conn_Status = ''Failed'', conn_Message = ''Configuration error - please check the server logs'', conn_ModifiedAt = Some now\<rparr>"

definition backend_ListRepositories :: "'k db_env \<Rightarrow> bool \<Rightarrow> Time \<Rightarrow> string option \<Rightarrow> 'k db_world \<Rightarrow> Repository list result \<times> 'k db_world" where
  "backend_ListRepositories e wr now repoType w = (case listSecretsByType (de_kube e) (getSecretType wr) w of
     (Inl err, w1) \<Rightarrow> (Inl err, w1)
   | (Inr secrets, w1) \<Rightarrow>
       (Inr (filter (\<lambda>r. case repoType of None \<Rightarrow> True | Some ty \<Rightarrow> ty = repo_Type r)
          (map (\<lambda>secret. case secretToRepository secret of
             (r, None) \<Rightarrow> r | (r, Some err) \<Rightarrow> r\<lparr>repo_ConnectionState := failed_state now\<rparr>) secrets)), w1))"

definition backend_UpdateRepository :: "'k db_env \<Rightarrow> bool \<Rightarrow> Repository \<Rightarrow> 'k db_world \<Rightarrow> (Repository option \<times> go_error option) \<times> 'k db_world" where
  "backend_UpdateRepository e wr repository w =
     (case getRepositorySecret e wr (repo_Repo repository) (repo_Project repository) False w of
        (Inl err, w1) \<Rightarrow>
          if de_statusCode e err = NotFound then backend_CreateRepository e wr repository w1 else ((None, Some err), w1)
      | (Inr repositorySecret, w1) \<Rightarrow>
          (case updateSecret (de_kube e) (repositoryToSecret wr repository repositorySecret) w1 of
             (Inl err, w2) \<Rightarrow> ((None, Some err), w2)
           | (Inr _, w2) \<Rightarrow> resynced e repository w2))"

definition backend_DeleteRepository :: "'k db_env \<Rightarrow> bool \<Rightarrow> string \<Rightarrow> string \<Rightarrow> 'k db_world \<Rightarrow> go_error option \<times> 'k db_world" where
  "backend_DeleteRepository e wr repoURL project w = (case getRepositorySecret e wr repoURL project False w of
     (Inl err, w1) \<Rightarrow> (Some err, w1)
   | (Inr secret, w1) \<Rightarrow> (case deleteSecret (de_kube e) secret w1 of
        (Some err, w2) \<Rightarrow> (Some err, w2)
      | (None, w2) \<Rightarrow> ResyncInformers (de_kube e) w2))"

definition backend_RepositoryExists :: "'k db_env \<Rightarrow> bool \<Rightarrow> string \<Rightarrow> string \<Rightarrow> bool \<Rightarrow> 'k db_world \<Rightarrow> bool result \<times> 'k db_world" where
  "backend_RepositoryExists e wr repoURL project allowFallback w = (case getRepositorySecret e wr repoURL project allowFallback w of
     (Inl err, w1) \<Rightarrow>
       (if de_statusCode e err = NotFound then Inr False
        else Inl (Wrapped (''failed to get repository secret for '' @ quoted repoURL) err), w1)
   | (Inr secret, w1) \<Rightarrow> (Inr True, w1))"

definition backend_CreateRepoCreds :: "'k db_env \<Rightarrow> RepoCreds \<Rightarrow> 'k db_world \<Rightarrow> (RepoCreds option \<times> go_error option) \<times> 'k db_world" where
  "backend_CreateRepoCreds e repoCreds w =
     (let secName = RepoURLToSecretName ''creds'' (rc_URL repoCreds) []
      in case createSecret (de_kube e) (repoCredsToSecret repoCreds (new_secret secName)) w of
           (Inl err, w1) \<Rightarrow>
             ((None, Some (if ke_IsAlreadyExists (de_kube e) err
                then StatusError AlreadyExists (''repository credentials '' @ quoted (rc_URL repoCreds) @ '' already exists'') else err)), w1)
         | (Inr _, w1) \<Rightarrow> resynced e repoCreds w1)"

text \<open>Credentials are nil (\<open>Inr None\<close>) when there are none.\<close>

definition backend_GetRepoCreds :: "'k db_env \<Rightarrow> string \<Rightarrow> 'k db_world \<Rightarrow> RepoCreds option result \<times> 'k db_world" where
  "backend_GetRepoCreds e repoURL w = (case getRepoCredsSecret e repoURL w of
     (Inl err, w1) \<Rightarrow> (if de_statusCode e err = NotFound then Inr None else Inl err, w1)
   | (Inr secret, w1) \<Rightarrow> (case secretToRepoCred secret of (c, Some err) \<Rightarrow> Inl err | (c, None) \<Rightarrow> Inr (Some c), w1))"

definition backend_ListRepoCreds :: "'k db_env \<Rightarrow> 'k db_world \<Rightarrow> string list result \<times> 'k db_world" where
  "backend_ListRepoCreds e w = (case listSecretsByType (de_kube e) LabelValueSecretTypeRepoCreds w of
     (Inl err, w1) \<Rightarrow> (Inl err, w1)
   | (Inr secrets, w1) \<Rightarrow> (Inr (map (\<lambda>s. data_string s ''url'') secrets), w1))"

definition backend_UpdateRepoCreds :: "'k db_env \<Rightarrow> RepoCreds \<Rightarrow> 'k db_world \<Rightarrow> (RepoCreds option \<times> go_error option) \<times> 'k db_world" where
  "backend_UpdateRepoCreds e repoCreds w = (case getRepoCredsSecret e (rc_URL repoCreds) w of
     (Inl err, w1) \<Rightarrow> if de_statusCode e err = NotFound then backend_CreateRepoCreds e repoCreds w1 else ((None, Some err), w1)
   | (Inr secret, w1) \<Rightarrow> (case updateSecret (de_kube e) (repoCredsToSecret repoCreds secret) w1 of
        (Inl err, w2) \<Rightarrow> ((None, Some err), w2)
      | (Inr updated, w2) \<Rightarrow> (case secretToRepoCred updated of
           (c, Some err) \<Rightarrow> ((None, Some err), w2)
         | (c, None) \<Rightarrow> resynced e c w2)))"

definition backend_DeleteRepoCreds :: "'k db_env \<Rightarrow> string \<Rightarrow> 'k db_world \<Rightarrow> go_error option \<times> 'k db_world" where
  "backend_DeleteRepoCreds e name w = (case getRepoCredsSecret e name w of
     (Inl err, w1) \<Rightarrow> (Some err, w1)
   | (Inr secret, w1) \<Rightarrow> (case deleteSecret (de_kube e) secret w1 of
        (Some err, w2) \<Rightarrow> (Some err, w2)
      | (None, w2) \<Rightarrow> ResyncInformers (de_kube e) w2))"

definition backend_RepoCredsExists :: "'k db_env \<Rightarrow> string \<Rightarrow> 'k db_world \<Rightarrow> bool result \<times> 'k db_world" where
  "backend_RepoCredsExists e repoURL w = (case getRepoCredsSecret e repoURL w of
     (Inl err, w1) \<Rightarrow> (if de_statusCode e err = NotFound then Inr False else Inl err, w1)
   | (Inr secret, w1) \<Rightarrow> (Inr True, w1))"

text \<open>The loop over the templates of one type; the type is compared without regard to case.\<close>

fun creds_of_type :: "string \<Rightarrow> Secret list \<Rightarrow> RepoCreds list result" where
  "creds_of_type ty [] = Inr []"
| "creds_of_type ty (secret # secrets) =
     (if fold_case (data_string secret ''type'') = ty then
        (case secretToRepoCred secret of
           (c, Some err) \<Rightarrow> Inl err
         | (c, None) \<Rightarrow> (case creds_of_type ty secrets of Inl err \<Rightarrow> Inl err | Inr cs \<Rightarrow> Inr (c # cs)))
      else creds_of_type ty secrets)"

definition backend_GetAllRepoCreds :: "'k db_env \<Rightarrow> string \<Rightarrow> 'k db_world \<Rightarrow> RepoCreds list result \<times> 'k db_world" where
  "backend_GetAllRepoCreds e ty w = (case listSecretsByType (de_kube e) LabelValueSecretTypeRepoCreds w of
     (Inl err, w1) \<Rightarrow> (Inl err, w1)
   | (Inr secrets, w1) \<Rightarrow> (creds_of_type ty secrets, w1))"

definition GetAllHelmRepoCreds :: "'k db_env \<Rightarrow> 'k db_world \<Rightarrow> RepoCreds list result \<times> 'k db_world" where
  "GetAllHelmRepoCreds e w = backend_GetAllRepoCreds e ''helm'' w"

definition GetAllOCIRepoCreds :: "'k db_env \<Rightarrow> 'k db_world \<Rightarrow> RepoCreds list result \<times> 'k db_world" where
  "GetAllOCIRepoCreds e w = backend_GetAllRepoCreds e ''oci'' w"

definition GetRepoCredsBySecretName :: "'k db_env \<Rightarrow> string \<Rightarrow> 'k db_world \<Rightarrow> RepoCreds result \<times> 'k db_world" where
  "GetRepoCredsBySecretName e name w = (case getSecret (de_kube e) name w of
     (Inl err, w1) \<Rightarrow> (Inl (Wrapped (''failed to get secret '' @ name) err), w1)
   | (Inr secret, w1) \<Rightarrow> (case secretToRepoCred secret of (c, Some err) \<Rightarrow> Inl err | (c, None) \<Rightarrow> Inr c, w1))"

section \<open>The database\<close>

text \<open>Operations that exist for read and for write credentials have the backend's \<open>writeCreds\<close> as an argument.\<close>

definition create_repository :: "'k db_env \<Rightarrow> bool \<Rightarrow> Repository \<Rightarrow> 'k db_world \<Rightarrow> (Repository option \<times> go_error option) \<times> 'k db_world" where
  "create_repository e wr r w = (case backend_RepositoryExists e wr (repo_Repo r) (repo_Project r) False w of
     (Inl err, w1) \<Rightarrow> ((None, Some err), w1)
   | (Inr True, w1) \<Rightarrow> ((None, Some (already_exists (repo_Repo r))), w1)
   | (Inr False, w1) \<Rightarrow> backend_CreateRepository e wr r w1)"

definition CreateRepository :: "'k db_env \<Rightarrow> Repository \<Rightarrow> 'k db_world \<Rightarrow> (Repository option \<times> go_error option) \<times> 'k db_world" where
  "CreateRepository e r w = create_repository e False r w"

definition CreateWriteRepository :: "'k db_env \<Rightarrow> Repository \<Rightarrow> 'k db_world \<Rightarrow> (Repository option \<times> go_error option) \<times> 'k db_world" where
  "CreateWriteRepository e r w = create_repository e True r w"

definition get_repository_credentials :: "'k db_env \<Rightarrow> string \<Rightarrow> string \<Rightarrow> 'k db_world \<Rightarrow> RepoCreds option result \<times> 'k db_world" where
  "get_repository_credentials e what repoURL w = (case backend_RepoCredsExists e repoURL w of
     (Inl err, w1) \<Rightarrow> (Inl (Wrapped (''unable to check if '' @ what @ '' for '' @ quoted repoURL @ '' exists from secrets backend'') err), w1)
   | (Inr True, w1) \<Rightarrow> (case backend_GetRepoCreds e repoURL w1 of
        (Inl err, w2) \<Rightarrow> (Inl (Wrapped (''unable to get '' @ what @ '' for '' @ quoted repoURL @ '' from secrets backend'') err), w2)
      | (Inr creds, w2) \<Rightarrow> (Inr creds, w2))
   | (Inr False, w1) \<Rightarrow> (Inr None, w1))"

definition GetRepositoryCredentials :: "'k db_env \<Rightarrow> string \<Rightarrow> 'k db_world \<Rightarrow> RepoCreds option result \<times> 'k db_world" where
  "GetRepositoryCredentials e repoURL w = get_repository_credentials e ''repository credentials'' repoURL w"

definition GetWriteRepositoryCredentials :: "'k db_env \<Rightarrow> string \<Rightarrow> 'k db_world \<Rightarrow> RepoCreds option result \<times> 'k db_world" where
  "GetWriteRepositoryCredentials e repoURL w = get_repository_credentials e ''repository write credentials'' repoURL w"

definition enrichCredsToRepo :: "'k db_env \<Rightarrow> Repository \<Rightarrow> 'k db_world \<Rightarrow> Repository result \<times> 'k db_world" where
  "enrichCredsToRepo e repository w =
     (if \<not> HasCredentials repository then
        (case GetRepositoryCredentials e (repo_Repo repository) w of
           (Inl err, w1) \<Rightarrow> (Inl (Wrapped (''failed to get repository credentials for '' @ quoted (repo_Repo repository)) err), w1)
         | (Inr None, w1) \<Rightarrow> (Inr repository, w1)
         | (Inr (Some creds), w1) \<Rightarrow> (Inr ((CopyCredentialsFrom repository (Some creds))\<lparr>repo_InheritedCreds := True\<rparr>), w1))
      else (Inr repository, w))"

fun enrichCredsToRepos :: "'k db_env \<Rightarrow> Repository list \<Rightarrow> 'k db_world \<Rightarrow> Repository list result \<times> 'k db_world" where
  "enrichCredsToRepos e [] w = (Inr [], w)"
| "enrichCredsToRepos e (repository # repositories) w = (case enrichCredsToRepo e repository w of
     (Inl err, w1) \<Rightarrow> (Inl err, w1)
   | (Inr r, w1) \<Rightarrow> (case enrichCredsToRepos e repositories w1 of
        (Inl err, w2) \<Rightarrow> (Inl err, w2)
      | (Inr rs, w2) \<Rightarrow> (Inr (r # rs), w2)))"

definition db_getRepository :: "'k db_env \<Rightarrow> string \<Rightarrow> string \<Rightarrow> 'k db_world \<Rightarrow> Repository result \<times> 'k db_world" where
  "db_getRepository e repoURL project w = (case backend_RepositoryExists e False repoURL project True w of
     (Inl err, w1) \<Rightarrow> (Inl (Wrapped (''unable to check if repository '' @ quoted repoURL @ '' exists from secrets backend'') err), w1)
   | (Inr True, w1) \<Rightarrow> (case backend_GetRepository e False repoURL project w1 of
        (Inl err, w2) \<Rightarrow> (Inl (Wrapped (''unable to get repository '' @ quoted repoURL @ '' from secrets backend'') err), w2)
      | (Inr repository, w2) \<Rightarrow> (Inr repository, w2))
   | (Inr False, w1) \<Rightarrow> (Inr (zero_Repository\<lparr>repo_Repo := repoURL\<rparr>), w1))"

definition GetRepository :: "'k db_env \<Rightarrow> string \<Rightarrow> string \<Rightarrow> 'k db_world \<Rightarrow> Repository result \<times> 'k db_world" where
  "GetRepository e repoURL project w = (case db_getRepository e repoURL project w of
     (Inl err, w1) \<Rightarrow> (Inl (Wrapped (''unable to get repository '' @ quoted repoURL) err), w1)
   | (Inr repository, w1) \<Rightarrow> (case enrichCredsToRepo e repository w1 of
        (Inl err, w2) \<Rightarrow> (Inl (Wrapped (''unable to enrich repository '' @ quoted repoURL @ '' info with credentials'') err), w2)
      | (Inr r, w2) \<Rightarrow> (Inr r, w2)))"

definition GetWriteRepository :: "'k db_env \<Rightarrow> string \<Rightarrow> string \<Rightarrow> 'k db_world \<Rightarrow> Repository result \<times> 'k db_world" where
  "GetWriteRepository e repoURL project w = (case backend_GetRepository e True repoURL project w of
     (Inl err, w1) \<Rightarrow> (Inl (Wrapped (''unable to get write repository '' @ quoted repoURL) err), w1)
   | (Inr repository, w1) \<Rightarrow> (Inr repository, w1))"

text \<open>The index of a secret by its project.\<close>

definition byProjectIndexerFunc :: "string \<Rightarrow> Secret \<Rightarrow> string list" where
  "byProjectIndexerFunc secretType s =
     (if sec_Labels s LabelKeySecretType \<noteq> Some secretType then []
      else case sec_Data s ''project'' of Some project \<Rightarrow> [project] | None \<Rightarrow> [])"

fun secrets_to_repositories :: "Secret list \<Rightarrow> Repository list result" where
  "secrets_to_repositories [] = Inr []"
| "secrets_to_repositories (secret # secrets) = (case secretToRepository secret of
     (r, Some err) \<Rightarrow> Inl err
   | (r, None) \<Rightarrow> (case secrets_to_repositories secrets of Inl err \<Rightarrow> Inl err | Inr rs \<Rightarrow> Inr (r # rs)))"

definition getRepositories :: "'k db_env \<Rightarrow> string \<Rightarrow> string \<Rightarrow> 'k db_world \<Rightarrow> Repository list result \<times> 'k db_world" where
  "getRepositories e secretType project w = (case GetSecretsInformer (de_kube e) w of
     (Inl err, w1) \<Rightarrow> (Inl err, w1)
   | (Inr informer, w1) \<Rightarrow>
       (secrets_to_repositories (filter (\<lambda>s. project \<in> set (byProjectIndexerFunc secretType s)) (lister_secrets (de_kube e) informer w1)), w1))"

definition GetProjectRepositories :: "'k db_env \<Rightarrow> string \<Rightarrow> 'k db_world \<Rightarrow> Repository list result \<times> 'k db_world" where
  "GetProjectRepositories e project w = getRepositories e LabelValueSecretTypeRepository project w"

definition GetProjectWriteRepositories :: "'k db_env \<Rightarrow> string \<Rightarrow> 'k db_world \<Rightarrow> Repository list result \<times> 'k db_world" where
  "GetProjectWriteRepositories e project w = getRepositories e LabelValueSecretTypeRepositoryWrite project w"

definition RepositoryExists :: "'k db_env \<Rightarrow> string \<Rightarrow> string \<Rightarrow> 'k db_world \<Rightarrow> bool result \<times> 'k db_world" where
  "RepositoryExists e repoURL project w = backend_RepositoryExists e False repoURL project True w"

definition WriteRepositoryExists :: "'k db_env \<Rightarrow> string \<Rightarrow> string \<Rightarrow> 'k db_world \<Rightarrow> bool result \<times> 'k db_world" where
  "WriteRepositoryExists e repoURL project w = backend_RepositoryExists e True repoURL project True w"

definition listRepositories :: "'k db_env \<Rightarrow> Time \<Rightarrow> string option \<Rightarrow> bool \<Rightarrow> 'k db_world \<Rightarrow> Repository list result \<times> 'k db_world" where
  "listRepositories e now repoType writeCreds w = (case backend_ListRepositories e writeCreds now repoType w of
     (Inl err, w1) \<Rightarrow> (Inl err, w1)
   | (Inr repositories, w1) \<Rightarrow> enrichCredsToRepos e repositories w1)"

definition ListRepositories :: "'k db_env \<Rightarrow> Time \<Rightarrow> 'k db_world \<Rightarrow> Repository list result \<times> 'k db_world" where
  "ListRepositories e now w = listRepositories e now None False w"

definition ListWriteRepositories :: "'k db_env \<Rightarrow> Time \<Rightarrow> 'k db_world \<Rightarrow> Repository list result \<times> 'k db_world" where
  "ListWriteRepositories e now w = listRepositories e now None True w"

definition ListOCIRepositories :: "'k db_env \<Rightarrow> Time \<Rightarrow> 'k db_world \<Rightarrow> Repository list result \<times> 'k db_world" where
  "ListOCIRepositories e now w = (case listRepositories e now (Some ''oci'') False w of
     (Inl err, w1) \<Rightarrow> (Inl (Wrapped ''failed to list OCI repositories'' err), w1)
   | (Inr repos, w1) \<Rightarrow> (Inr (Repositories_Filter repos (\<lambda>r. repo_Type r = ''oci'')), w1))"

definition ListHelmRepositories :: "'k db_env \<Rightarrow> Time \<Rightarrow> 'k db_world \<Rightarrow> Repository list result \<times> 'k db_world" where
  "ListHelmRepositories e now w = (case listRepositories e now (Some ''helm'') False w of
     (Inl err, w1) \<Rightarrow> (Inl (Wrapped ''failed to list Helm repositories'' err), w1)
   | (Inr repos, w1) \<Rightarrow> (Inr (Repositories_Filter repos (\<lambda>r. repo_Type r = ''helm'' \<and> repo_Name r \<noteq> [])), w1))"

definition not_found :: "string \<Rightarrow> string \<Rightarrow> go_error" where
  "not_found what name = StatusError NotFound (what @ '' '' @ [CHR 0x27] @ name @ [CHR 0x27] @ '' not found'')"

definition update_repository :: "'k db_env \<Rightarrow> bool \<Rightarrow> Repository \<Rightarrow> 'k db_world \<Rightarrow> (Repository option \<times> go_error option) \<times> 'k db_world" where
  "update_repository e wr r w = (case backend_RepositoryExists e wr (repo_Repo r) (repo_Project r) False w of
     (Inl err, w1) \<Rightarrow> ((None, Some err), w1)
   | (Inr True, w1) \<Rightarrow> backend_UpdateRepository e wr r w1
   | (Inr False, w1) \<Rightarrow> ((None, Some (not_found ''repo'' (repo_Repo r))), w1))"

definition UpdateRepository :: "'k db_env \<Rightarrow> Repository \<Rightarrow> 'k db_world \<Rightarrow> (Repository option \<times> go_error option) \<times> 'k db_world" where
  "UpdateRepository e r w = update_repository e False r w"

definition UpdateWriteRepository :: "'k db_env \<Rightarrow> Repository \<Rightarrow> 'k db_world \<Rightarrow> (Repository option \<times> go_error option) \<times> 'k db_world" where
  "UpdateWriteRepository e r w = update_repository e True r w"

definition delete_repository :: "'k db_env \<Rightarrow> bool \<Rightarrow> string \<Rightarrow> string \<Rightarrow> 'k db_world \<Rightarrow> go_error option \<times> 'k db_world" where
  "delete_repository e wr repoURL project w = (case backend_RepositoryExists e wr repoURL project False w of
     (Inl err, w1) \<Rightarrow> (Some err, w1)
   | (Inr True, w1) \<Rightarrow> backend_DeleteRepository e wr repoURL project w1
   | (Inr False, w1) \<Rightarrow> (Some (not_found ''repo'' repoURL), w1))"

definition DeleteRepository :: "'k db_env \<Rightarrow> string \<Rightarrow> string \<Rightarrow> 'k db_world \<Rightarrow> go_error option \<times> 'k db_world" where
  "DeleteRepository e repoURL project w = delete_repository e False repoURL project w"

definition DeleteWriteRepository :: "'k db_env \<Rightarrow> string \<Rightarrow> string \<Rightarrow> 'k db_world \<Rightarrow> go_error option \<times> 'k db_world" where
  "DeleteWriteRepository e repoURL project w = delete_repository e True repoURL project w"

definition ListRepositoryCredentials :: "'k db_env \<Rightarrow> 'k db_world \<Rightarrow> string list result \<times> 'k db_world" where
  "ListRepositoryCredentials e w = backend_ListRepoCreds e w"

definition ListWriteRepositoryCredentials :: "'k db_env \<Rightarrow> 'k db_world \<Rightarrow> string list result \<times> 'k db_world" where
  "ListWriteRepositoryCredentials e w = backend_ListRepoCreds e w"

definition GetAllHelmRepositoryCredentials :: "'k db_env \<Rightarrow> 'k db_world \<Rightarrow> RepoCreds list result \<times> 'k db_world" where
  "GetAllHelmRepositoryCredentials e w = (case GetAllHelmRepoCreds e w of
     (Inl err, w1) \<Rightarrow> (Inl (Wrapped ''failed to get all Helm repo creds'' err), w1)
   | (Inr cs, w1) \<Rightarrow> (Inr cs, w1))"

definition GetAllOCIRepositoryCredentials :: "'k db_env \<Rightarrow> 'k db_world \<Rightarrow> RepoCreds list result \<times> 'k db_world" where
  "GetAllOCIRepositoryCredentials e w = (case GetAllOCIRepoCreds e w of
     (Inl err, w1) \<Rightarrow> (Inl (Wrapped ''failed to get all Helm repo creds'' err), w1)
   | (Inr cs, w1) \<Rightarrow> (Inr cs, w1))"

text \<open>The existence test of \<open>CreateRepositoryCredentials\<close> is the one for repositories.\<close>

definition CreateRepositoryCredentials :: "'k db_env \<Rightarrow> RepoCreds \<Rightarrow> 'k db_world \<Rightarrow> (RepoCreds option \<times> go_error option) \<times> 'k db_world" where
  "CreateRepositoryCredentials e r w = (case backend_RepositoryExists e False (rc_URL r) [] False w of
     (Inl err, w1) \<Rightarrow> ((None, Some err), w1)
   | (Inr True, w1) \<Rightarrow> ((None, Some (StatusError AlreadyExists (''repository credentials '' @ quoted (rc_URL r) @ '' already exists''))), w1)
   | (Inr False, w1) \<Rightarrow> backend_CreateRepoCreds e r w1)"

definition CreateWriteRepositoryCredentials :: "'k db_env \<Rightarrow> RepoCreds \<Rightarrow> 'k db_world \<Rightarrow> (RepoCreds option \<times> go_error option) \<times> 'k db_world" where
  "CreateWriteRepositoryCredentials e r w = (case backend_RepoCredsExists e (rc_URL r) w of
     (Inl err, w1) \<Rightarrow> ((None, Some err), w1)
   | (Inr True, w1) \<Rightarrow> ((None, Some (StatusError AlreadyExists (''write repository credentials '' @ quoted (rc_URL r) @ '' already exists''))), w1)
   | (Inr False, w1) \<Rightarrow> backend_CreateRepoCreds e r w1)"

definition update_credentials :: "'k db_env \<Rightarrow> string \<Rightarrow> RepoCreds \<Rightarrow> 'k db_world \<Rightarrow> (RepoCreds option \<times> go_error option) \<times> 'k db_world" where
  "update_credentials e what r w = (case backend_RepoCredsExists e (rc_URL r) w of
     (Inl err, w1) \<Rightarrow> ((None, Some err), w1)
   | (Inr True, w1) \<Rightarrow> backend_UpdateRepoCreds e r w1
   | (Inr False, w1) \<Rightarrow> ((None, Some (not_found what (rc_URL r))), w1))"

definition UpdateRepositoryCredentials :: "'k db_env \<Rightarrow> RepoCreds \<Rightarrow> 'k db_world \<Rightarrow> (RepoCreds option \<times> go_error option) \<times> 'k db_world" where
  "UpdateRepositoryCredentials e r w = update_credentials e ''repository credentials'' r w"

definition UpdateWriteRepositoryCredentials :: "'k db_env \<Rightarrow> RepoCreds \<Rightarrow> 'k db_world \<Rightarrow> (RepoCreds option \<times> go_error option) \<times> 'k db_world" where
  "UpdateWriteRepositoryCredentials e r w = update_credentials e ''write repository credentials'' r w"

definition delete_credentials :: "'k db_env \<Rightarrow> string \<Rightarrow> string \<Rightarrow> 'k db_world \<Rightarrow> go_error option \<times> 'k db_world" where
  "delete_credentials e what name w = (case backend_RepoCredsExists e name w of
     (Inl err, w1) \<Rightarrow> (Some err, w1)
   | (Inr True, w1) \<Rightarrow> backend_DeleteRepoCreds e name w1
   | (Inr False, w1) \<Rightarrow> (Some (not_found what name), w1))"

definition DeleteRepositoryCredentials :: "'k db_env \<Rightarrow> string \<Rightarrow> 'k db_world \<Rightarrow> go_error option \<times> 'k db_world" where
  "DeleteRepositoryCredentials e name w = delete_credentials e ''repository credentials'' name w"

definition DeleteWriteRepositoryCredentials :: "'k db_env \<Rightarrow> string \<Rightarrow> 'k db_world \<Rightarrow> go_error option \<times> 'k db_world" where
  "DeleteWriteRepositoryCredentials e name w = delete_credentials e ''write repository credentials'' name w"

section \<open>The lookups\<close>

text \<open>A secret of the project, or an unscoped one when that is allowed.\<close>

lemma find_repository_secret_eq:
  "find_repository_secret url repoURL project allowFallback secrets found =
     (case List.find (\<lambda>s. SameURL url (data_string s ''url'') repoURL \<and> data_string s ''project'' = project) secrets of
        Some s \<Rightarrow> Some s
      | None \<Rightarrow>
          let unscoped = filter (\<lambda>s. SameURL url (data_string s ''url'') repoURL \<and> data_string s ''project'' = []) secrets
          in if allowFallback \<and> unscoped \<noteq> [] then Some (last unscoped) else found)"
proof (induction secrets arbitrary: found)
  case (Cons s secrets)
  show ?case
  proof (cases "SameURL url (data_string s ''url'') repoURL \<and> data_string s ''project'' \<noteq> project \<and> data_string s ''project'' = [] \<and> allowFallback")
    case True
    then show ?thesis using Cons.IH [of "Some s"] by (auto simp: Let_def split: option.split)
  next
    case False
    then show ?thesis using Cons.IH [of found] by (auto simp: Let_def split: option.split)
  qed
qed simp

abbreviation template_url :: "(string \<Rightarrow> string option) \<Rightarrow> Secret \<Rightarrow> string" where
  "template_url url cred \<equiv> NormalizeGitURL url (data_string cred ''url'')"

lemma credential_index_spec:
  assumes "credential_index url u i creds m idx = r"
  shows "(\<forall>c \<in> set creds. strings_HasPrefix u (template_url url c) \<longrightarrow> length (template_url url c) \<le> m) \<and> r = idx \<or>
    (\<exists>j < length creds. r = int (i + j) \<and> strings_HasPrefix u (template_url url (creds ! j)) \<and> m < length (template_url url (creds ! j)) \<and>
      (\<forall>c \<in> set creds. strings_HasPrefix u (template_url url c) \<longrightarrow> length (template_url url c) \<le> length (template_url url (creds ! j))))"
  using assms
proof (induction creds arbitrary: i m idx)
  case (Cons c creds)
  let ?u = "template_url url c"
  show ?case
  proof (cases "strings_HasPrefix u ?u \<and> m < length ?u")
    case True
    with Cons.prems have "credential_index url u (Suc i) creds (length ?u) (int i) = r" by (simp add: Let_def)
    from Cons.IH [OF this] show ?thesis
    proof (elim disjE exE conjE)
      assume "\<forall>c \<in> set creds. strings_HasPrefix u (template_url url c) \<longrightarrow> length (template_url url c) \<le> length ?u" "r = int i"
      with True show ?thesis by (intro disjI2 exI [of _ 0]) auto
    next
      fix j assume "j < length creds" "r = int (Suc i + j)" "strings_HasPrefix u (template_url url (creds ! j))"
        "length ?u < length (template_url url (creds ! j))"
        "\<forall>c \<in> set creds. strings_HasPrefix u (template_url url c) \<longrightarrow> length (template_url url c) \<le> length (template_url url (creds ! j))"
      with True show ?thesis by (intro disjI2 exI [of _ "Suc j"]) auto
    qed
  next
    case False
    with Cons.prems have "credential_index url u (Suc i) creds m idx = r" by (auto simp: Let_def)
    from Cons.IH [OF this] show ?thesis
    proof (elim disjE exE conjE)
      assume "\<forall>c \<in> set creds. strings_HasPrefix u (template_url url c) \<longrightarrow> length (template_url url c) \<le> m" "r = idx"
      with False show ?thesis by auto
    next
      fix j assume "j < length creds" "r = int (Suc i + j)" "strings_HasPrefix u (template_url url (creds ! j))"
        "m < length (template_url url (creds ! j))"
        "\<forall>c \<in> set creds. strings_HasPrefix u (template_url url c) \<longrightarrow> length (template_url url c) \<le> length (template_url url (creds ! j))"
      with False show ?thesis by (intro disjI2 exI [of _ "Suc j"]) auto
    qed
  qed
qed simp

text \<open>
  The template for a repository: a non-empty prefix of its URL, and of those the longest; none if there is
  none.
\<close>

definition best_template :: "(string \<Rightarrow> string option) \<Rightarrow> Secret list \<Rightarrow> string \<Rightarrow> Secret \<Rightarrow> bool" where
  "best_template url creds repoURL c \<longleftrightarrow> c \<in> set creds \<and> template_url url c \<noteq> [] \<and>
     strings_HasPrefix (NormalizeGitURL url repoURL) (template_url url c) \<and>
     (\<forall>d \<in> set creds. strings_HasPrefix (NormalizeGitURL url repoURL) (template_url url d) \<longrightarrow>
        length (template_url url d) \<le> length (template_url url c))"

definition no_template :: "(string \<Rightarrow> string option) \<Rightarrow> Secret list \<Rightarrow> string \<Rightarrow> bool" where
  "no_template url creds repoURL \<longleftrightarrow>
     (\<forall>d \<in> set creds. strings_HasPrefix (NormalizeGitURL url repoURL) (template_url url d) \<longrightarrow> template_url url d = [])"

lemma credentialIndex_cases:
  fixes url creds repoURL
  defines "i \<equiv> getRepositoryCredentialIndex url creds repoURL"
  shows "i < 0 \<and> no_template url creds repoURL \<or>
    0 \<le> i \<and> nat i < length creds \<and> best_template url creds repoURL (creds ! nat i)"
  using credential_index_spec [where url = url and u = "NormalizeGitURL url repoURL" and i = 0 and creds = creds and m = 0 and idx = "- 1", OF refl]
  unfolding i_def getRepositoryCredentialIndex_def best_template_def no_template_def
  by (elim disjE exE conjE) force+

section \<open>Reading with a synchronised settings manager\<close>

definition ready :: "'k db_world \<Rightarrow> bool" where
  "ready w \<longleftrightarrow> sm_secrets (dw_mgr w) \<noteq> None \<and> sm_configmaps (dw_mgr w) \<noteq> None"

definition known :: "'k db_env \<Rightarrow> 'k db_world \<Rightarrow> Secret list" where
  "known e w = lister_secrets (de_kube e) (sm_secrets (dw_mgr w)) w"

definition of_type :: "string \<Rightarrow> Secret list \<Rightarrow> Secret list" where
  "of_type ty secrets = filter (\<lambda>s. sec_Labels s LabelKeySecretType = Some ty) secrets"

lemma ensureSynced_ready [simp]: "ready w \<Longrightarrow> ensureSynced e False w = (None, w)"
  by (simp add: ensureSynced_def ready_def)

lemma listSecretsByType_ready [simp]: "ready w \<Longrightarrow> listSecretsByType (de_kube e) ty w = (Inr (of_type ty (known e w)), w)"
  by (simp add: listSecretsByType_def GetSecretsLister_def known_def of_type_def)

definition plain_codes :: "'k db_env \<Rightarrow> bool" where
  "plain_codes e \<longleftrightarrow> (\<forall>c m. de_statusCode e (StatusError c m) = c)"

lemma RepositoryExists_ready:
  assumes "ready w" "plain_codes e"
  shows "backend_RepositoryExists e wr url project fb w =
    (Inr (find_repository_secret (de_url_String e) url project fb (of_type (getSecretType wr) (known e w)) None \<noteq> None), w)"
  using assms by (simp add: backend_RepositoryExists_def getRepositorySecret_def plain_codes_def split: option.split)

lemma GetRepository_ready:
  assumes "ready w" "plain_codes e"
  shows "backend_GetRepository e wr url project w =
    (case find_repository_secret (de_url_String e) url project True (of_type (getSecretType wr) (known e w)) None of
       None \<Rightarrow> Inr (zero_Repository\<lparr>repo_Repo := url\<rparr>)
     | Some s \<Rightarrow> (case secretToRepository s of (r, Some err) \<Rightarrow> Inl err | (r, None) \<Rightarrow> Inr r), w)"
  using assms by (simp add: backend_GetRepository_def getRepositorySecret_def plain_codes_def split: option.split)

lemma GetRepositoryCredentials_ready:
  assumes "ready w" "plain_codes e" "GetRepositoryCredentials e url w = (r, w')"
  defines "creds \<equiv> of_type LabelValueSecretTypeRepoCreds (known e w)"
  shows "w' = w" "r = Inr None \<Longrightarrow> no_template (de_url_String e) creds url"
    "r = Inr (Some c) \<Longrightarrow> \<exists>t. best_template (de_url_String e) creds url t \<and> secretToRepoCred t = (c, None)"
proof -
  let ?i = "getRepositoryCredentialIndex (de_url_String e) creds url"
  have i: "?i < 0 \<and> no_template (de_url_String e) creds url \<or> 0 \<le> ?i \<and> nat ?i < length creds \<and> best_template (de_url_String e) creds url (creds ! nat ?i)"
    by (rule credentialIndex_cases)
  have r: "(r, w') = (if ?i < 0 then (Inr None, w)
     else (case secretToRepoCred (creds ! nat ?i) of
       (c, Some err) \<Rightarrow> (Inl (Wrapped (''unable to get repository credentials for '' @ quoted url @ '' from secrets backend'') err), w)
     | (c, None) \<Rightarrow> (Inr (Some c), w)))"
    using assms(1-3) unfolding creds_def
    by (auto simp: GetRepositoryCredentials_def get_repository_credentials_def backend_RepoCredsExists_def backend_GetRepoCreds_def
        getRepoCredsSecret_def plain_codes_def Let_def split: prod.splits option.splits if_splits)
  show "w' = w" using r by (auto split: if_splits prod.splits option.splits)
  show "r = Inr None \<Longrightarrow> no_template (de_url_String e) creds url" using r i by (auto split: if_splits prod.splits option.splits)
  show "r = Inr (Some c) \<Longrightarrow> \<exists>t. best_template (de_url_String e) creds url t \<and> secretToRepoCred t = (c, None)"
    using r i by (auto split: if_splits prod.splits option.splits)
qed

lemma find_repository_secret_None:
  "find_repository_secret url u p fb ss None = None \<longleftrightarrow>
   (\<forall>s \<in> set ss. SameURL url (data_string s ''url'') u \<longrightarrow> data_string s ''project'' \<noteq> p \<and> (fb \<longrightarrow> data_string s ''project'' \<noteq> []))"
proof (cases "List.find (\<lambda>s. SameURL url (data_string s ''url'') u \<and> data_string s ''project'' = p) ss")
  case None
  then have "\<forall>s \<in> set ss. SameURL url (data_string s ''url'') u \<longrightarrow> data_string s ''project'' \<noteq> p" unfolding find_None_iff by blast
  then show ?thesis unfolding find_repository_secret_eq None by (simp add: Let_def filter_empty_conv)
next
  case (Some t)
  then have "\<exists>t \<in> set ss. SameURL url (data_string t ''url'') u \<and> data_string t ''project'' = p" unfolding find_Some_iff by force
  then show ?thesis unfolding find_repository_secret_eq Some by auto
qed

lemma find_repository_secret_Some:
  assumes "find_repository_secret url u p fb ss None = Some s"
  shows "s \<in> set ss" "SameURL url (data_string s ''url'') u"
    "data_string s ''project'' = p \<or> fb \<and> data_string s ''project'' = [] \<and>
       (\<forall>t \<in> set ss. SameURL url (data_string t ''url'') u \<longrightarrow> data_string t ''project'' \<noteq> p)"
proof -
  let ?exact = "\<lambda>s. SameURL url (data_string s ''url'') u \<and> data_string s ''project'' = p"
  let ?unscoped = "filter (\<lambda>s. SameURL url (data_string s ''url'') u \<and> data_string s ''project'' = []) ss"
  have "s \<in> set ss \<and> ?exact s \<or> fb \<and> s \<in> set ?unscoped \<and> (\<forall>t \<in> set ss. \<not> ?exact t)"
  proof (cases "List.find ?exact ss")
    case None
    then have "fb \<and> ?unscoped \<noteq> [] \<and> s = last ?unscoped"
      using assms unfolding find_repository_secret_eq by (simp only: Let_def option.case split: if_splits) simp_all
    moreover have "\<forall>t \<in> set ss. \<not> ?exact t" using None unfolding find_None_iff by blast
    ultimately show ?thesis using last_in_set [of ?unscoped] by blast
  next
    case (Some t)
    then have "s = t" using assms unfolding find_repository_secret_eq by simp
    then show ?thesis using Some unfolding find_Some_iff by force
  qed
  then show "s \<in> set ss" "SameURL url (data_string s ''url'') u"
    "data_string s ''project'' = p \<or> fb \<and> data_string s ''project'' = [] \<and>
       (\<forall>t \<in> set ss. SameURL url (data_string t ''url'') u \<longrightarrow> data_string t ''project'' \<noteq> p)" by auto
qed

lemma enrich_ready:
  assumes "ready w" "plain_codes e" "enrichCredsToRepo e base w = (r, w')"
  defines "templates \<equiv> of_type LabelValueSecretTypeRepoCreds (known e w)"
  shows "w' = w" "r = Inr repo \<Longrightarrow> if HasCredentials base then repo = base
    else repo = base \<and> no_template (de_url_String e) templates (repo_Repo base) \<or>
      (\<exists>t c. best_template (de_url_String e) templates (repo_Repo base) t \<and> secretToRepoCred t = (c, None) \<and>
        repo = (CopyCredentialsFrom base (Some c))\<lparr>repo_InheritedCreds := True\<rparr>)"
proof -
  obtain rc w1 where c: "GetRepositoryCredentials e (repo_Repo base) w = (rc, w1)" by (rule prod.exhaust)
  note g = GetRepositoryCredentials_ready [OF assms(1,2) c, folded templates_def]
  show "w' = w" using assms(3) c g(1) by (auto simp: enrichCredsToRepo_def split: if_splits sum.splits option.splits)
  show "if HasCredentials base then repo = base
    else repo = base \<and> no_template (de_url_String e) templates (repo_Repo base) \<or>
      (\<exists>t c. best_template (de_url_String e) templates (repo_Repo base) t \<and> secretToRepoCred t = (c, None) \<and>
        repo = (CopyCredentialsFrom base (Some c))\<lparr>repo_InheritedCreds := True\<rparr>)" if "r = Inr repo"
    using assms(3) c g(2,3) that by (auto simp: enrichCredsToRepo_def split: if_splits sum.splits option.splits)
qed

text \<open>
  (C10) A repository comes with credentials of its project only. What \<open>GetRepository\<close> returns for a URL and a
  project is read from a repository secret with the same URL that belongs to the project; only when the
  project has none, from one that belongs to no project; and if there is neither, it is a
  repository without any settings. A secret of another project is never used. If the repository
  has credentials, these are all it gets. Otherwise they are inherited from a credential template whose
  URL is a prefix of the repository's, and of those from one with the longest URL.
\<close>

theorem credentials_stay_in_scope:
  assumes "ready w" "plain_codes e" "GetRepository e url project w = (Inr repo, w')"
  shows "w' = w \<and> (\<exists>base.
    (base = zero_Repository\<lparr>repo_Repo := url\<rparr> \<and>
       (\<forall>s \<in> set (of_type LabelValueSecretTypeRepository (known e w)).
          SameURL (de_url_String e) (data_string s ''url'') url \<longrightarrow> data_string s ''project'' \<notin> {project, []}) \<or>
     (\<exists>s \<in> set (of_type LabelValueSecretTypeRepository (known e w)).
        SameURL (de_url_String e) (data_string s ''url'') url \<and> secretToRepository s = (base, None) \<and>
        (data_string s ''project'' = project \<or> data_string s ''project'' = [] \<and>
           (\<forall>t \<in> set (of_type LabelValueSecretTypeRepository (known e w)).
              SameURL (de_url_String e) (data_string t ''url'') url \<longrightarrow> data_string t ''project'' \<noteq> project)))) \<and>
    (if HasCredentials base then repo = base
     else repo = base \<and> no_template (de_url_String e) (of_type LabelValueSecretTypeRepoCreds (known e w)) (repo_Repo base) \<or>
       (\<exists>t c. best_template (de_url_String e) (of_type LabelValueSecretTypeRepoCreds (known e w)) (repo_Repo base) t \<and>
          secretToRepoCred t = (c, None) \<and> repo = (CopyCredentialsFrom base (Some c))\<lparr>repo_InheritedCreds := True\<rparr>)))"
proof -
  let ?ss = "of_type LabelValueSecretTypeRepository (known e w)"
  let ?found = "find_repository_secret (de_url_String e) url project True ?ss None"
  have ty: "getSecretType False = LabelValueSecretTypeRepository" by (simp add: getSecretType_def)
  obtain base w1 where b: "db_getRepository e url project w = (Inr base, w1)" and en: "enrichCredsToRepo e base w1 = (Inr repo, w')"
    using assms(3) by (auto simp: GetRepository_def split: prod.splits sum.splits)
  have base: "w1 = w" "?found = None \<Longrightarrow> base = zero_Repository\<lparr>repo_Repo := url\<rparr>"
    "\<And>s. ?found = Some s \<Longrightarrow> secretToRepository s = (base, None)"
    using b by (auto simp: db_getRepository_def RepositoryExists_ready [OF assms(1,2)] GetRepository_ready [OF assms(1,2)] ty
        split: prod.splits sum.splits option.splits bool.splits)
  note en = enrich_ready [OF assms(1,2) en [unfolded base(1)]]
  show ?thesis
  proof (intro conjI exI [of _ base] en(1) en(2) [OF refl])
    show "base = zero_Repository\<lparr>repo_Repo := url\<rparr> \<and>
       (\<forall>s \<in> set ?ss. SameURL (de_url_String e) (data_string s ''url'') url \<longrightarrow> data_string s ''project'' \<notin> {project, []}) \<or>
     (\<exists>s \<in> set ?ss. SameURL (de_url_String e) (data_string s ''url'') url \<and> secretToRepository s = (base, None) \<and>
        (data_string s ''project'' = project \<or> data_string s ''project'' = [] \<and>
           (\<forall>t \<in> set ?ss. SameURL (de_url_String e) (data_string t ''url'') url \<longrightarrow> data_string t ''project'' \<noteq> project)))"
    proof (cases ?found)
      case None
      with base(2) find_repository_secret_None [of "de_url_String e" url project True ?ss] show ?thesis by simp
    next
      case (Some s)
      with base(3) find_repository_secret_Some [OF Some] show ?thesis by blast
    qed
  qed
qed


section \<open>Behaviour that differs from what the names promise\<close>

text \<open>
  A repository with the URL of a new credential template makes its creation fail, as if the template
  existed; whether it exists is not looked at.
\<close>

lemma repository_blocks_credentials:
  assumes "ready w" "plain_codes e" "s \<in> set (of_type LabelValueSecretTypeRepository (known e w))"
    and "SameURL (de_url_String e) (data_string s ''url'') (rc_URL c)" "data_string s ''project'' = []"
  shows "CreateRepositoryCredentials e c w =
    ((None, Some (StatusError AlreadyExists (''repository credentials '' @ quoted (rc_URL c) @ '' already exists''))), w)"
proof -
  have "find_repository_secret (de_url_String e) (rc_URL c) [] False (of_type LabelValueSecretTypeRepository (known e w)) None \<noteq> None"
    using assms(3-5) by (auto simp: find_repository_secret_None)
  then show ?thesis
    by (simp add: CreateRepositoryCredentials_def RepositoryExists_ready [OF assms(1,2)] getSecretType_def)
qed

text \<open>A credential template for writing is stored and read as one for reading.\<close>

lemma write_credentials_are_read_credentials:
  "sec_Labels (repoCredsToSecret c s) LabelKeySecretType = Some LabelValueSecretTypeRepoCreds"
  "ListWriteRepositoryCredentials e w = ListRepositoryCredentials e w"
  "DeleteWriteRepositoryCredentials e url w = (None, w') \<Longrightarrow> DeleteRepositoryCredentials e url w = (None, w')"
  by (auto simp: repoCredsToSecret_def addSecretMetadata_def ListWriteRepositoryCredentials_def ListRepositoryCredentials_def
      DeleteWriteRepositoryCredentials_def DeleteRepositoryCredentials_def delete_credentials_def Let_def
      split: prod.splits sum.splits bool.splits)

text \<open>The name of a secret depends on URL and project run together.\<close>

lemma secret_name_of_url_and_project_together:
  "RepoURLToSecretName prefix url (a @ project) = RepoURLToSecretName prefix (url @ a) project"
  by (simp add: RepoURLToSecretName_def fnv1a_write_def)

end
