(* ===== verification/RepoStore.thy ===== *)
theory RepoStore
  imports RepoDB
begin

text \<open>
  The repository database as a map. Repositories are addressed by the kind of credentials, the normalised
  URL and the project; \<open>repos\<close> is the map from such slots to what is read from the secret there. The locale
  \<open>secret_store\<close> states what the database relies on in the cluster: created, updated and deleted
  secrets are seen by informers that are started afterwards. Its lemmas say that the operations of
  the database act on the map as updates and deletions.
\<close>

section \<open>Slots\<close>

type_synonym slot = "string option \<times> string \<times> string"

definition slot_of :: "'k db_env \<Rightarrow> Secret \<Rightarrow> slot" where
  "slot_of e s = (sec_Labels s LabelKeySecretType, NormalizeGitURLAllowInvalid (de_url_String e) (data_string s ''url''), data_string s ''project'')"

definition repo_slot :: "'k db_env \<Rightarrow> bool \<Rightarrow> string \<Rightarrow> string \<Rightarrow> slot" where
  "repo_slot e wr url project = (Some (getSecretType wr), NormalizeGitURLAllowInvalid (de_url_String e) url, project)"

definition repository_slot :: "slot \<Rightarrow> bool" where
  "repository_slot x \<longleftrightarrow> fst x \<in> {Some LabelValueSecretTypeRepository, Some LabelValueSecretTypeRepositoryWrite} \<and> fst (snd x) \<noteq> []"

definition repos :: "'k db_env \<Rightarrow> 'k db_world \<Rightarrow> slot \<rightharpoonup> Repository \<times> go_error option" where
  "repos e w x = (if repository_slot x then map_option secretToRepository (List.find (\<lambda>s. slot_of e s = x) (known e w)) else None)"

definition one_per_slot :: "'k db_env \<Rightarrow> Secret set \<Rightarrow> bool" where
  "one_per_slot e S \<longleftrightarrow> (\<forall>s \<in> S. \<forall>t \<in> S. slot_of e s = slot_of e t \<longrightarrow> repository_slot (slot_of e s) \<longrightarrow> s = t)"

lemma repository_slot_repo: "repository_slot (repo_slot e wr url p) \<longleftrightarrow> NormalizeGitURLAllowInvalid (de_url_String e) url \<noteq> []"
  by (simp add: repository_slot_def repo_slot_def getSecretType_def)

lemma find_filter: "List.find P (filter Q xs) = List.find (\<lambda>x. Q x \<and> P x) xs"
  by (induction xs) auto

lemma find_in_slot:
  assumes "repository_slot (repo_slot e wr url p)"
  shows "find_repository_secret (de_url_String e) url p False (of_type (getSecretType wr) ss) None =
    List.find (\<lambda>s. slot_of e s = repo_slot e wr url p) ss"
proof -
  have "(\<lambda>s. sec_Labels s LabelKeySecretType = Some (getSecretType wr) \<and> SameURL (de_url_String e) (data_string s ''url'') url \<and>
      data_string s ''project'' = p) = (\<lambda>s. slot_of e s = repo_slot e wr url p)"
    using assms by (auto simp: fun_eq_iff slot_of_def repo_slot_def SameURL_def repository_slot_def Let_def)
  then show ?thesis unfolding find_repository_secret_eq of_type_def find_filter by (simp split: option.split)
qed

lemma one_per_slot_insert:
  assumes "one_per_slot e S" "\<And>t. t \<in> S \<Longrightarrow> repository_slot (slot_of e s) \<Longrightarrow> slot_of e t \<noteq> slot_of e s"
  shows "one_per_slot e (insert s S)"
  using assms unfolding one_per_slot_def by (metis insertE)

lemma one_per_slot_subset: "one_per_slot e S \<Longrightarrow> T \<subseteq> S \<Longrightarrow> one_per_slot e T"
  unfolding one_per_slot_def by blast

lemma option_eqI:
  assumes "\<And>v. a = Some v \<longleftrightarrow> b = Some v"
  shows "a = b"
  using assms [of "the a"] assms [of "the b"] by (cases a; cases b) simp_all

lemma find_unique:
  assumes "\<And>x y. x \<in> set xs \<Longrightarrow> y \<in> set xs \<Longrightarrow> P x \<Longrightarrow> P y \<Longrightarrow> x = y"
  shows "List.find P xs = Some x \<longleftrightarrow> x \<in> set xs \<and> P x"
  using assms by (induction xs) auto

section \<open>What the updates of a secret leave alone\<close>

lemma update_fields [simp]:
  "sec_Name (updateSecretString k v s) = sec_Name s" "sec_Name (updateSecretBool k b s) = sec_Name s"
  "sec_Name (updateSecretInt k n s) = sec_Name s" "sec_Name (addSecretMetadata ty s) = sec_Name s"
  "sec_Labels (addSecretMetadata ty s) LabelKeySecretType = Some ty"
  by (simp_all add: updateSecretString_def updateSecretBool_def updateSecretInt_def addSecretMetadata_def)

lemma repositoryToSecret_fields:
  "sec_Name (repositoryToSecret wr r s) = sec_Name s"
  "slot_of e (repositoryToSecret wr r s) = repo_slot e wr (repo_Repo r) (repo_Project r)"
  by (simp_all add: repositoryToSecret_def slot_of_def repo_slot_def)

section \<open>The contract of the cluster\<close>

text \<open>The informers know the cluster, names are unique and no two secrets compete for a slot.\<close>

definition synced :: "'k db_env \<Rightarrow> ('k \<Rightarrow> Secret set) \<Rightarrow> 'k db_world \<Rightarrow> bool" where
  "synced e cluster w \<longleftrightarrow> ready w \<and> set (known e w) = cluster (dw_kube w) \<and> inj_on sec_Name (cluster (dw_kube w)) \<and>
     one_per_slot e (cluster (dw_kube w))"

locale secret_store =
  fixes e :: "'k db_env" and cluster :: "'k \<Rightarrow> Secret set"
  assumes codes: "plain_codes e"
    and create: "ke_Create (de_kube e) s k = (Inr s', k') \<Longrightarrow> cluster k' = insert s (cluster k) \<and> sec_Name s \<notin> sec_Name ` cluster k"
    and update: "ke_Update (de_kube e) s k = (Inr s', k') \<Longrightarrow> cluster k' = insert s {t \<in> cluster k. sec_Name t \<noteq> sec_Name s}"
    and delete: "ke_Delete (de_kube e) n k = (None, k') \<Longrightarrow> cluster k' = {t \<in> cluster k. sec_Name t \<noteq> n}"
    and run: "ke_runInformers (de_kube e) k = ((h, True), k') \<Longrightarrow> set (ke_secrets (de_kube e) h k') = cluster k \<and> cluster k' = cluster k"
    and stop: "cluster (ke_stopInformers (de_kube e) k) = cluster k"
begin

lemma resync:
  assumes "ResyncInformers (de_kube e) w = (None, w')"
  shows "ready w' \<and> set (known e w') = cluster (dw_kube w) \<and> cluster (dw_kube w') = cluster (dw_kube w)"
  using assms stop [of "dw_kube w"] run
  by (auto simp: ResyncInformers_def ensureSynced_def mgr_initialize_def ready_def known_def lister_secrets_def Let_def
      split: prod.splits if_splits)

lemma resync_synced:
  assumes "ResyncInformers (de_kube e) w = (None, w')" "inj_on sec_Name (cluster (dw_kube w))" "one_per_slot e (cluster (dw_kube w))"
  shows "synced e cluster w' \<and> cluster (dw_kube w') = cluster (dw_kube w)"
  using resync [OF assms(1)] assms(2,3) by (simp add: synced_def)

lemma repos_iff:
  assumes "synced e cluster w"
  shows "repos e w x = Some v \<longleftrightarrow> repository_slot x \<and> (\<exists>s \<in> cluster (dw_kube w). slot_of e s = x \<and> secretToRepository s = v)"
proof (cases "repository_slot x")
  case True
  have "List.find (\<lambda>s. slot_of e s = x) (known e w) = Some s \<longleftrightarrow> s \<in> set (known e w) \<and> slot_of e s = x" for s
    using assms True by (intro find_unique) (auto simp: synced_def one_per_slot_def)
  then show ?thesis using assms True by (auto simp: repos_def synced_def)
qed (simp add: repos_def)

lemma found_iff:
  assumes "synced e cluster w" "repository_slot (repo_slot e wr url p)"
  shows "find_repository_secret (de_url_String e) url p False (of_type (getSecretType wr) (known e w)) None = Some s \<longleftrightarrow>
    s \<in> cluster (dw_kube w) \<and> slot_of e s = repo_slot e wr url p"
  unfolding find_in_slot [OF assms(2)] using assms
  by (subst find_unique) (auto simp: synced_def one_per_slot_def)

lemma exists_iff:
  assumes "synced e cluster w" "repository_slot (repo_slot e wr url p)"
  shows "backend_RepositoryExists e wr url p False w = (Inr (repos e w (repo_slot e wr url p) \<noteq> None), w)"
  using assms by (simp add: RepositoryExists_ready codes synced_def find_in_slot repos_def)

lemma create_refines:
  assumes "synced e cluster w" "repository_slot (repo_slot e wr (repo_Repo r) (repo_Project r))"
    and "int64 (repo_GithubAppId r)" "int64 (repo_GithubAppInstallationId r)"
    and "create_repository e wr r w = ((x, None), w')"
  shows "synced e cluster w' \<and> x = Some r \<and> repos e w (repo_slot e wr (repo_Repo r) (repo_Project r)) = None \<and>
    repos e w' = (repos e w)(repo_slot e wr (repo_Repo r) (repo_Project r) \<mapsto> (stored r, None))"
proof -
  let ?x = "repo_slot e wr (repo_Repo r) (repo_Project r)"
  let ?s = "repositoryToSecret wr r (new_secret (RepoURLToSecretName ''repo'' (repo_Repo r) (repo_Project r)))"
  have free: "repos e w ?x = None"
    by (rule ccontr) (use assms(5) exists_iff [OF assms(1,2)] in \<open>simp add: create_repository_def\<close>)
  then have b: "backend_CreateRepository e wr r w = ((x, None), w')"
    using assms(5) exists_iff [OF assms(1,2)] by (simp add: create_repository_def)
  obtain s' k' where c: "ke_Create (de_kube e) ?s (dw_kube w) = (Inr s', k')" and x: "x = Some r"
    and rs: "ResyncInformers (de_kube e) (w\<lparr>dw_kube := k'\<rparr>) = (None, w')"
    using b by (auto simp: backend_CreateRepository_def createSecret_def resynced_def Let_def split: prod.splits sum.splits if_splits bool.splits)
  note k' = create [OF c]
  have s: "slot_of e ?s = ?x" "secretToRepository ?s = (stored r, None)"
    using assms(3,4) by (simp_all add: repositoryToSecret_fields secretToRepository_repositoryToSecret)
  have new: "slot_of e t \<noteq> ?x" if "t \<in> cluster (dw_kube w)" for t
    using free that repos_iff [OF assms(1), of ?x "secretToRepository t"] assms(2) by auto
  have "inj_on sec_Name (cluster k')" using k' assms(1) by (auto simp: synced_def)
  moreover have "one_per_slot e (cluster k')" unfolding k' [THEN conjunct1]
    using assms(1) new s(1) by (intro one_per_slot_insert) (auto simp: synced_def)
  ultimately have w': "synced e cluster w'" "cluster (dw_kube w') = insert ?s (cluster (dw_kube w))"
    using resync_synced [OF rs] k' by simp_all
  have "repos e w' y = ((repos e w)(?x \<mapsto> (stored r, None))) y" for y
  proof (cases "y = ?x")
    case True
    then show ?thesis using repos_iff [OF w'(1), of ?x "(stored r, None)"] w'(2) s assms(2) by auto
  next
    case False
    have "repos e w' y = Some v \<longleftrightarrow> repos e w y = Some v" for v
      using False s unfolding repos_iff [OF w'(1)] repos_iff [OF assms(1)] w'(2) by auto
    then show ?thesis using False by (metis fun_upd_other not_Some_eq)
  qed
  then show ?thesis using w' x free by auto
qed

end

context secret_store
begin

text \<open>The cluster after replacing the secret of a slot by one for the same slot or for none.\<close>

lemma replace_secret:
  assumes "synced e cluster w" "s \<in> cluster (dw_kube w)" "sec_Name t = sec_Name s"
    and "repository_slot (slot_of e t) \<Longrightarrow> slot_of e t = slot_of e s"
  shows "insert t {u \<in> cluster (dw_kube w). sec_Name u \<noteq> sec_Name t} = insert t (cluster (dw_kube w) - {s})"
    "inj_on sec_Name (insert t (cluster (dw_kube w) - {s}))" "one_per_slot e (insert t (cluster (dw_kube w) - {s}))"
proof -
  have inj: "u = s" if "u \<in> cluster (dw_kube w)" "sec_Name u = sec_Name s" for u
    using assms(1,2) that by (auto simp: synced_def inj_on_def)
  show "insert t {u \<in> cluster (dw_kube w). sec_Name u \<noteq> sec_Name t} = insert t (cluster (dw_kube w) - {s})"
    using inj assms(2,3) by auto
  show "inj_on sec_Name (insert t (cluster (dw_kube w) - {s}))"
    using assms(1,3) inj by (auto simp: synced_def intro: inj_on_diff)
  show "one_per_slot e (insert t (cluster (dw_kube w) - {s}))"
  proof (rule one_per_slot_insert)
    show "one_per_slot e (cluster (dw_kube w) - {s})"
      using assms(1) by (auto simp: synced_def elim: one_per_slot_subset)
    show "slot_of e u \<noteq> slot_of e t" if "u \<in> cluster (dw_kube w) - {s}" "repository_slot (slot_of e t)" for u
      using assms(1,2,4) that unfolding synced_def one_per_slot_def by (metis Diff_iff singletonI)
  qed
qed

lemma repos_changed:
  assumes "synced e cluster w" "synced e cluster w'" "repository_slot x"
    and "\<And>y v. y \<noteq> x \<Longrightarrow> (\<exists>s \<in> cluster (dw_kube w'). slot_of e s = y \<and> repository_slot y \<and> secretToRepository s = v) \<longleftrightarrow>
      (\<exists>s \<in> cluster (dw_kube w). slot_of e s = y \<and> repository_slot y \<and> secretToRepository s = v)"
  shows "repos e w' = (repos e w)(x := repos e w' x)"
proof
  fix y
  have "repos e w' y = Some v \<longleftrightarrow> repos e w y = Some v" if "y \<noteq> x" for v
    using assms(4) [OF that] unfolding repos_iff [OF assms(1)] repos_iff [OF assms(2)] by blast
  then have "repos e w' y = repos e w y" if "y \<noteq> x" using that by (intro option_eqI) 
  then show "repos e w' y = ((repos e w)(x := repos e w' x)) y" by simp
qed

lemma getRepositorySecret_found:
  assumes "synced e cluster w" "repository_slot (repo_slot e wr url p)" "repos e w (repo_slot e wr url p) \<noteq> None"
  obtains s where "getRepositorySecret e wr url p False w = (Inr s, w)" "s \<in> cluster (dw_kube w)" "slot_of e s = repo_slot e wr url p"
proof -
  obtain s where "List.find (\<lambda>s. slot_of e s = repo_slot e wr url p) (known e w) = Some s"
    using assms(2,3) by (auto simp: repos_def)
  then have f: "find_repository_secret (de_url_String e) url p False (of_type (getSecretType wr) (known e w)) None = Some s"
    by (simp add: find_in_slot [OF assms(2)])
  with assms(1) have "getRepositorySecret e wr url p False w = (Inr s, w)" by (simp add: getRepositorySecret_def synced_def)
  moreover from f have "s \<in> cluster (dw_kube w) \<and> slot_of e s = repo_slot e wr url p" unfolding found_iff [OF assms(1,2)] .
  ultimately show thesis using that by blast
qed

lemma update_refines:
  assumes "synced e cluster w" "repository_slot (repo_slot e wr (repo_Repo r) (repo_Project r))"
    and "int64 (repo_GithubAppId r)" "int64 (repo_GithubAppInstallationId r)"
    and "update_repository e wr r w = ((x, None), w')"
  shows "synced e cluster w' \<and> x = Some r \<and> repos e w (repo_slot e wr (repo_Repo r) (repo_Project r)) \<noteq> None \<and>
    repos e w' = (repos e w)(repo_slot e wr (repo_Repo r) (repo_Project r) \<mapsto> (stored r, None))"
proof -
  let ?x = "repo_slot e wr (repo_Repo r) (repo_Project r)"
  have there: "repos e w ?x \<noteq> None"
    by (rule ccontr) (use assms(5) exists_iff [OF assms(1,2)] in \<open>simp add: update_repository_def\<close>)
  then have b: "backend_UpdateRepository e wr r w = ((x, None), w')"
    using assms(5) exists_iff [OF assms(1,2)] by (simp add: update_repository_def)
  obtain s where g: "getRepositorySecret e wr (repo_Repo r) (repo_Project r) False w = (Inr s, w)" and
    s: "s \<in> cluster (dw_kube w)" "slot_of e s = ?x"
    by (rule getRepositorySecret_found [OF assms(1,2) there])
  let ?t = "repositoryToSecret wr r s"
  obtain s' k' where u: "ke_Update (de_kube e) ?t (dw_kube w) = (Inr s', k')" and x: "x = Some r"
    and rs: "ResyncInformers (de_kube e) (w\<lparr>dw_kube := k'\<rparr>) = (None, w')"
    using b g by (auto simp: backend_UpdateRepository_def updateSecret_def resynced_def Let_def split: prod.splits sum.splits)
  have t: "sec_Name ?t = sec_Name s" "slot_of e ?t = ?x" "secretToRepository ?t = (stored r, None)"
    using assms(3,4) by (simp_all add: repositoryToSecret_fields secretToRepository_repositoryToSecret)
  note c = replace_secret [OF assms(1) s(1) t(1)] update [OF u]
  have "synced e cluster w' \<and> cluster (dw_kube w') = insert ?t (cluster (dw_kube w) - {s})"
    using resync_synced [OF rs] c s(2) t(2) by simp
  then have w': "synced e cluster w'" "cluster (dw_kube w') = insert ?t (cluster (dw_kube w) - {s})" by blast+
  have "repos e w' ?x = Some (stored r, None)" using repos_iff [OF w'(1), of ?x] w'(2) t assms(2) by auto
  moreover have "repos e w' = (repos e w)(?x := repos e w' ?x)"
    by (rule repos_changed [OF assms(1) w'(1) assms(2)]) (use s t in \<open>auto simp: w'(2)\<close>)
  ultimately show ?thesis using w'(1) x there by simp
qed

lemma delete_refines:
  assumes "synced e cluster w" "repository_slot (repo_slot e wr url p)" "delete_repository e wr url p w = (None, w')"
  shows "synced e cluster w' \<and> repos e w (repo_slot e wr url p) \<noteq> None \<and> repos e w' = (repos e w)(repo_slot e wr url p := None)"
proof -
  let ?x = "repo_slot e wr url p"
  have there: "repos e w ?x \<noteq> None"
    by (rule ccontr) (use assms(3) exists_iff [OF assms(1,2)] in \<open>simp add: delete_repository_def\<close>)
  obtain s where g: "getRepositorySecret e wr url p False w = (Inr s, w)" and s: "s \<in> cluster (dw_kube w)" "slot_of e s = ?x"
    by (rule getRepositorySecret_found [OF assms(1,2) there])
  let ?t = "s\<lparr>sec_Labels := (sec_Labels s)(LabelKeySecretType := None)\<rparr>"
  have t: "sec_Name ?t = sec_Name s" "\<not> repository_slot (slot_of e ?t)" by (simp_all add: slot_of_def repository_slot_def)
  obtain w1 where d: "deleteSecret (de_kube e) s w = (None, w1)" and rs: "ResyncInformers (de_kube e) w1 = (None, w')"
    using assms(3) exists_iff [OF assms(1,2)] there g
    by (auto simp: delete_repository_def backend_DeleteRepository_def split: prod.splits option.splits)
  have "slot_of e ?t = slot_of e s" if "repository_slot (slot_of e ?t)" using that t(2) by blast
  note c = replace_secret [OF assms(1) s(1) t(1) this]
  have w1: "cluster (dw_kube w1) = cluster (dw_kube w) - {s} \<or> cluster (dw_kube w1) = insert ?t (cluster (dw_kube w) - {s})"
  proof (cases "sec_Annotations s AnnotationKeyManagedBy = Some AnnotationValueManagedByArgoCD")
    case True
    then have "cluster (dw_kube w1) = {u \<in> cluster (dw_kube w). sec_Name u \<noteq> sec_Name s}"
      using d delete by (auto simp: deleteSecret_def Let_def split: prod.splits)
    then show ?thesis using assms(1) s(1) by (auto simp: synced_def inj_on_def)
  next
    case False
    obtain r k' where u: "ke_Update (de_kube e) ?t (dw_kube w) = (r, k')" by (rule prod.exhaust)
    with d False obtain s' where r: "r = Inr s'" and k1: "dw_kube w1 = k'"
      by (cases r) (auto simp: deleteSecret_def updateSecret_def)
    have "cluster (dw_kube w1) = insert ?t {u \<in> cluster (dw_kube w). sec_Name u \<noteq> sec_Name ?t}"
      unfolding k1 by (rule update [OF u [unfolded r]])
    also note c(1)
    finally show ?thesis by (rule disjI2)
  qed
  then have sub: "cluster (dw_kube w1) \<subseteq> insert ?t (cluster (dw_kube w) - {s})" by blast
  have w': "synced e cluster w'" "cluster (dw_kube w') = cluster (dw_kube w1)"
    using resync_synced [OF rs inj_on_subset [OF c(2) sub] one_per_slot_subset [OF c(3) sub]] by simp_all
  have "repos e w' ?x = None"
  proof (rule ccontr)
    assume "repos e w' ?x \<noteq> None"
    then obtain u where u: "u \<in> cluster (dw_kube w1)" "slot_of e u = ?x" using repos_iff [OF w'(1), of ?x] w'(2) by auto
    with w1 t(2) assms(2) have "u \<in> cluster (dw_kube w)" "u \<noteq> s" by auto
    with u s assms(1,2) show False unfolding synced_def one_per_slot_def by metis
  qed
  moreover have "repos e w' = (repos e w)(?x := repos e w' ?x)"
    by (rule repos_changed [OF assms(1) w'(1) assms(2)]) (use s t w1 in \<open>auto simp: w'(2)\<close>)
  ultimately show ?thesis using w'(1) there by simp
qed

end

section \<open>A cluster in memory\<close>

text \<open>An API server with a list of secrets; informers take a copy when they are started.\<close>

record mem_cluster =
  mc_secrets :: "Secret list"
  mc_caches :: "nat \<Rightarrow> Secret list"
  mc_next :: nat

definition mem_kube :: "mem_cluster kube_env" where
  "mem_kube = \<lparr>
     ke_runInformers = (\<lambda>k. ((mc_next k, True), k\<lparr>mc_caches := (mc_caches k)(mc_next k := mc_secrets k), mc_next := Suc (mc_next k)\<rparr>)),
     ke_stopInformers = id,
     ke_secrets = (\<lambda>h k. mc_caches k h),
     ke_NotFound = (\<lambda>n. Wrapped ''not found'' (ErrorString n)),
     ke_IsNotFound = (\<lambda>err. case err of Wrapped t _ \<Rightarrow> t = ''not found'' | _ \<Rightarrow> False),
     ke_IsAlreadyExists = (\<lambda>err. case err of Wrapped t _ \<Rightarrow> t = ''already exists'' | _ \<Rightarrow> False),
     ke_Create = (\<lambda>s k. if list_ex (\<lambda>t. sec_Name t = sec_Name s) (mc_secrets k) then (Inl (Wrapped ''already exists'' (ErrorString (sec_Name s))), k)
        else (Inr s, k\<lparr>mc_secrets := s # mc_secrets k\<rparr>)),
     ke_Update = (\<lambda>s k. if list_ex (\<lambda>t. sec_Name t = sec_Name s) (mc_secrets k)
        then (Inr s, k\<lparr>mc_secrets := s # filter (\<lambda>t. sec_Name t \<noteq> sec_Name s) (mc_secrets k)\<rparr>)
        else (Inl (Wrapped ''not found'' (ErrorString (sec_Name s))), k)),
     ke_Delete = (\<lambda>n k. if list_ex (\<lambda>t. sec_Name t = n) (mc_secrets k)
        then (None, k\<lparr>mc_secrets := filter (\<lambda>t. sec_Name t \<noteq> n) (mc_secrets k)\<rparr>)
        else (Some (Wrapped ''not found'' (ErrorString n)), k))\<rparr>"

definition mem_db :: "mem_cluster db_env" where
  "mem_db = \<lparr>de_kube = mem_kube, de_url_String = Some, de_statusCode = (\<lambda>err. case err of StatusError c m \<Rightarrow> c | _ \<Rightarrow> Unknown)\<rparr>"

interpretation mem_store: secret_store mem_db "\<lambda>k. set (mc_secrets k)"
  by unfold_locales (auto simp: mem_db_def mem_kube_def plain_codes_def list_ex_iff split: if_splits)

definition empty_db :: "mem_cluster db_world" where
  "empty_db = snd (ResyncInformers mem_kube \<lparr>dw_mgr = NewSettingsManager, dw_kube = \<lparr>mc_secrets = [], mc_caches = (\<lambda>_. []), mc_next = 0\<rparr>\<rparr>)"

lemma empty_db_synced: "synced mem_db (\<lambda>k. set (mc_secrets k)) empty_db"
  by (simp add: synced_def empty_db_def ResyncInformers_def ensureSynced_def mgr_initialize_def NewSettingsManager_def mem_db_def mem_kube_def
      ready_def known_def lister_secrets_def one_per_slot_def)

section \<open>Properties\<close>

text \<open>
  (C9) The repository database is a map from kind, normalised URL and project to repositories. Over a cluster
  that keeps what is written, with informers in step and at most one secret per slot:
  a creation that succeeds adds the repository at a slot that was free, an update
  replaces it at a slot that was taken, a deletion empties a taken slot, all other slots are
  left alone and the state is again one in step; a creation at a taken slot and an
  update or deletion at a free one fail with AlreadyExists and NotFound and change nothing.
  What is read back is the repository that was written, except for the connection state and the mark
  of inherited credentials, which are not stored.
\<close>

theorem repository_store_refines_map:
  fixes e :: "'k db_env" and wr :: bool
  assumes "secret_store e cluster" "synced e cluster w"
    and "NormalizeGitURLAllowInvalid (de_url_String e) (repo_Repo r) \<noteq> []" "int64 (repo_GithubAppId r)" "int64 (repo_GithubAppInstallationId r)"
  defines "x \<equiv> repo_slot e wr (repo_Repo r) (repo_Project r)"
  shows "(\<forall>v w'. create_repository e wr r w = ((v, None), w') \<longrightarrow> synced e cluster w' \<and> v = Some r \<and>
      repos e w x = None \<and> repos e w' = (repos e w)(x \<mapsto> (stored r, None))) \<and>
    (\<forall>v w'. update_repository e wr r w = ((v, None), w') \<longrightarrow> synced e cluster w' \<and> v = Some r \<and>
      repos e w x \<noteq> None \<and> repos e w' = (repos e w)(x \<mapsto> (stored r, None))) \<and>
    (\<forall>w'. delete_repository e wr (repo_Repo r) (repo_Project r) w = (None, w') \<longrightarrow> synced e cluster w' \<and>
      repos e w x \<noteq> None \<and> repos e w' = (repos e w)(x := None)) \<and>
    (if repos e w x = None
     then update_repository e wr r w = ((None, Some (not_found ''repo'' (repo_Repo r))), w) \<and>
       delete_repository e wr (repo_Repo r) (repo_Project r) w = (Some (not_found ''repo'' (repo_Repo r)), w)
     else create_repository e wr r w = ((None, Some (already_exists (repo_Repo r))), w))"
proof -
  have slot: "repository_slot x" using assms(3) by (simp add: x_def repository_slot_repo)
  note ops = secret_store.create_refines [OF assms(1,2) slot [unfolded x_def] assms(4,5), folded x_def]
    secret_store.update_refines [OF assms(1,2) slot [unfolded x_def] assms(4,5), folded x_def]
    secret_store.delete_refines [OF assms(1,2) slot [unfolded x_def], folded x_def]
  have ex: "backend_RepositoryExists e wr (repo_Repo r) (repo_Project r) False w = (Inr (repos e w x \<noteq> None), w)"
    using secret_store.exists_iff [OF assms(1,2) slot [unfolded x_def]] by (simp add: x_def)
  show ?thesis
  proof (intro conjI allI impI)
    fix v w'
    assume "create_repository e wr r w = ((v, None), w')"
    then show "synced e cluster w'" "v = Some r" "repos e w x = None" "repos e w' = (repos e w)(x \<mapsto> (stored r, None))"
      by (blast dest: ops(1))+
  next
    fix v w'
    assume "update_repository e wr r w = ((v, None), w')"
    then show "synced e cluster w'" "v = Some r" "repos e w x \<noteq> None" "repos e w' = (repos e w)(x \<mapsto> (stored r, None))"
      by (blast dest: ops(2))+
  next
    fix w'
    assume "delete_repository e wr (repo_Repo r) (repo_Project r) w = (None, w')"
    then show "synced e cluster w'" "repos e w x \<noteq> None" "repos e w' = (repos e w)(x := None)"
      by (blast dest: ops(3))+
  next
    show "if repos e w x = None
     then update_repository e wr r w = ((None, Some (not_found ''repo'' (repo_Repo r))), w) \<and>
       delete_repository e wr (repo_Repo r) (repo_Project r) w = (Some (not_found ''repo'' (repo_Repo r)), w)
     else create_repository e wr r w = ((None, Some (already_exists (repo_Repo r))), w)"
      using ex by (cases "repos e w x") (simp_all add: create_repository_def update_repository_def delete_repository_def)
  qed
qed


text \<open>A repository that is written into an empty database and read back.\<close>

definition sample_repo :: Repository where
  "sample_repo = zero_Repository\<lparr>repo_Repo := ''https://git.example.com/mono'', repo_Username := ''bot'', repo_GithubAppId := 7\<rparr>"

definition sample_written :: "mem_cluster db_world" where
  "sample_written = snd (create_repository mem_db False sample_repo empty_db)"

lemma sample_create: "fst (create_repository mem_db False sample_repo empty_db) = (Some sample_repo, None)"
proof -
  have "known mem_db empty_db = []"
    by (simp add: known_def lister_secrets_def mem_db_def mem_kube_def empty_db_def ResyncInformers_def ensureSynced_def
        mgr_initialize_def NewSettingsManager_def)
  moreover have "ready empty_db" "plain_codes mem_db"
    using empty_db_synced mem_store.codes by (simp_all add: synced_def)
  ultimately have e: "backend_RepositoryExists mem_db False u p False empty_db = (Inr False, empty_db)" for u p
    by (simp add: RepositoryExists_ready of_type_def)
  have "fst (backend_CreateRepository mem_db False sample_repo empty_db) = (Some sample_repo, None)"
    by (simp add: backend_CreateRepository_def createSecret_def resynced_def empty_db_def ResyncInformers_def ensureSynced_def
        mgr_initialize_def NewSettingsManager_def mem_db_def mem_kube_def Let_def)
  then show ?thesis by (simp add: create_repository_def e)
qed

lemma sample_named: "NormalizeGitURLAllowInvalid (de_url_String mem_db) (repo_Repo sample_repo) \<noteq> []"
  by code_simp

lemma sample_ids: "int64 (repo_GithubAppId sample_repo)" "int64 (repo_GithubAppInstallationId sample_repo)"
  by code_simp+

theorem repository_store_refines_map_witness:
  "create_repository mem_db False sample_repo empty_db = ((Some sample_repo, None), sample_written) \<and>
   synced mem_db (\<lambda>k. set (mc_secrets k)) sample_written \<and>
   repos mem_db sample_written (repo_slot mem_db False ''https://git.example.com/mono'' []) = Some (stored sample_repo, None)"
proof -
  have c: "create_repository mem_db False sample_repo empty_db = ((Some sample_repo, None), sample_written)"
    using sample_create by (simp add: sample_written_def prod_eq_iff)
  show ?thesis
    using c repository_store_refines_map [OF mem_store.secret_store_axioms empty_db_synced sample_named sample_ids, of False]
    by (simp add: sample_repo_def zero_Repository_def)
qed


text \<open>
  A cluster with the repository of one project, the same repository for every project, without a user, and
  a credential template: another project gets the second with the credentials of the template.
\<close>

definition sample_secret :: "string \<Rightarrow> string \<Rightarrow> (string \<times> string) list \<Rightarrow> Secret" where
  "sample_secret n ty data = \<lparr>sec_Name = n, sec_Labels = map_of [(LabelKeySecretType, ty)], sec_Annotations = Map.empty,
     sec_Data = map_of data\<rparr>"

definition sample_cluster :: mem_cluster where
  "sample_cluster = \<lparr>mc_secrets = [
      sample_secret ''a'' LabelValueSecretTypeRepository [(''url'', ''https://git.example.com/mono''), (''project'', ''p1''), (''password'', ''secret'')],
      sample_secret ''b'' LabelValueSecretTypeRepository [(''url'', ''https://git.example.com/mono.git'')],
      sample_secret ''c'' LabelValueSecretTypeRepoCreds [(''url'', ''https://git.example.com/''), (''username'', ''bot'')]],
    mc_caches = (\<lambda>_. []), mc_next = 0\<rparr>"

definition sample_db :: "mem_cluster db_world" where
  "sample_db = snd (ResyncInformers mem_kube \<lparr>dw_mgr = NewSettingsManager, dw_kube = sample_cluster\<rparr>)"

definition sample_inherited :: Repository where
  "sample_inherited = zero_Repository\<lparr>repo_Repo := ''https://git.example.com/mono.git'', repo_Username := ''bot'', repo_InheritedCreds := True\<rparr>"

lemma sample_db_ready: "ready sample_db"
  by (simp add: ready_def sample_db_def ResyncInformers_def ensureSynced_def mgr_initialize_def NewSettingsManager_def mem_kube_def)

lemma sample_db_get: "fst (GetRepository mem_db ''https://git.example.com/mono'' ''p2'' sample_db) = Inr sample_inherited"
  by code_simp

theorem credentials_stay_in_scope_witness:
  "GetRepository mem_db ''https://git.example.com/mono'' ''p2'' sample_db = (Inr sample_inherited, sample_db) \<and>
   (\<exists>base t c. \<not> HasCredentials base \<and>
      best_template Some (of_type LabelValueSecretTypeRepoCreds (known mem_db sample_db)) (repo_Repo base) t \<and>
      secretToRepoCred t = (c, None) \<and> sample_inherited = (CopyCredentialsFrom base (Some c))\<lparr>repo_InheritedCreds := True\<rparr>)"
proof -
  obtain w' where g: "GetRepository mem_db ''https://git.example.com/mono'' ''p2'' sample_db = (Inr sample_inherited, w')"
    using sample_db_get by (metis prod.collapse)
  have c: "HasCredentials sample_inherited" by code_simp
  have u: "de_url_String mem_db = Some" by (simp add: mem_db_def)
  note spec = credentials_stay_in_scope [OF sample_db_ready mem_store.codes g, unfolded u]
  obtain base where b: "if HasCredentials base then sample_inherited = base
     else sample_inherited = base \<and> no_template Some (of_type LabelValueSecretTypeRepoCreds (known mem_db sample_db)) (repo_Repo base) \<or>
       (\<exists>t c. best_template Some (of_type LabelValueSecretTypeRepoCreds (known mem_db sample_db)) (repo_Repo base) t \<and>
          secretToRepoCred t = (c, None) \<and> sample_inherited = (CopyCredentialsFrom base (Some c))\<lparr>repo_InheritedCreds := True\<rparr>)"
    and from_secret: "base = zero_Repository\<lparr>repo_Repo := ''https://git.example.com/mono''\<rparr> \<or>
      (\<exists>s \<in> set (of_type LabelValueSecretTypeRepository (known mem_db sample_db)). secretToRepository s = (base, None))"
    using spec by blast
  have "list_all (\<lambda>s. \<not> repo_InheritedCreds (fst (secretToRepository s))) (of_type LabelValueSecretTypeRepository (known mem_db sample_db))"
    by code_simp
  then have "\<not> repo_InheritedCreds base"
    using from_secret by (auto simp: list_all_iff zero_Repository_def)
  moreover have "repo_InheritedCreds sample_inherited" by (simp add: sample_inherited_def)
  ultimately have "sample_inherited \<noteq> base" by metis
  then have "\<not> HasCredentials base" using b by metis
  then show ?thesis using b \<open>sample_inherited \<noteq> base\<close> spec g by auto
qed

end
