(* ===== verification/System.thy ===== *)
theory System
  imports Controller RepoService RepoStore
begin

text \<open>
  The controller connected to a repository server. What the reconciliation service relies on is an
  interface, the locale \<open>repo_server_client\<close>: an answer it gets to \<open>GetChangeRevision\<close> is one the handler
  of \<open>reposerver/repository/mrp_repository.go\<close> gave, and the server changes its state only by handling
  requests, also those of other clients. The lemmas of the locale say what the annotations
  then mean.
\<close>

text \<open>The states a server reaches by handling requests one after the other.\<close>

inductive server_run :: "('g, 'v) Service \<Rightarrow> 'g repo_world \<Rightarrow> 'g repo_world \<Rightarrow> bool" for s where
  idle: "server_run s v v"
| handle: "server_run s v v1 \<Longrightarrow> crr_Repo request = Some repo \<Longrightarrow> GetChangeRevision s request v1 = Some (Ret (r, v2)) \<Longrightarrow> server_run s v v2"

lemma server_run_trans: "server_run s v1 v2 \<Longrightarrow> server_run s v v1 \<Longrightarrow> server_run s v v2"
  by (induction rule: server_run.induct) (auto intro: server_run.handle)

text \<open>The change revisions the service may record for a source: \<open>recorded\<close> for the right answer.\<close>

definition right_record :: "(string list \<Rightarrow> string) \<Rightarrow> Application \<Rightarrow> sourceRevisions \<Rightarrow> string \<Rightarrow> bool" where
  "right_record answer app r c \<longleftrightarrow> (\<exists>x. c = recorded r x \<and>
     right_answer answer (GetSourceRefreshPaths app (rv_path r)) (rv_previousRevision r) (rv_currentRevision r) x)"

locale repo_server_client =
  fixes env :: "'w mrp_env" and s :: "('g, 'v) Service" and holds :: "'g \<Rightarrow> string \<Rightarrow> cache_value \<Rightarrow> bool"
    and plain :: "cache_value \<Rightarrow> bool" and answer :: "string list \<Rightarrow> string" and server :: "'w \<Rightarrow> 'g repo_world"
  assumes coherent_server: "coherent_server s holds plain answer"
    and attempts: "0 < sv_maxAttemptsCount s"
    and answered: "env_GetChangeRevision env request w = (Inr (Some x), w') \<Longrightarrow> \<exists>v v'. server_run s (server w) v \<and>
      GetChangeRevision s request v = Some (Ret (Inr x, v')) \<and> server_run s v' (server w')"
    and not_answered: "env_GetChangeRevision env request w = (r, w') \<Longrightarrow> (\<And>x. r \<noteq> Inr (Some x)) \<Longrightarrow> server_run s (server w) (server w')"
    and Get_runs: "env_Get env ns n w = (ra, w') \<Longrightarrow> server_run s (server w) (server w')"
    and GetRepository_runs: "env_GetRepository env url proj w = (rr, w') \<Longrightarrow> server_run s (server w) (server w')"
    and NewClient_runs: "env_NewRepoServerClient env w = (e, w') \<Longrightarrow> server_run s (server w) (server w')"
    and Close_runs: "server_run s (server w) (server (env_Close env w))"
begin

abbreviation sound :: "'g repo_world \<Rightarrow> bool" where "sound v \<equiv> coherent holds answer (rw_ext v)"

lemma handler_sound:
  assumes "sound v" "crr_Repo request = Some repo" "GetChangeRevision s request v = Some (Ret (r, v'))"
  shows "sound v'" "r = Inr x \<Longrightarrow> right_answer answer (crr_Paths request) (crr_PreviousRevision request) (crr_CurrentRevision request) x"
  using coherent_server.GetChangeRevision_spec [OF coherent_server _ assms(2) attempts assms(3)] assms(1)
  unfolding coherent_server.good_ext [OF coherent_server] by auto

lemma run_sound: "server_run s v v' \<Longrightarrow> sound v \<Longrightarrow> sound v'"
  by (induction rule: server_run.induct) (auto dest: handler_sound(1))

lemma rpc_sound:
  assumes "env_GetChangeRevision env request w = (r, w')" "sound (server w)" "crr_Repo request = Some repo"
  shows "sound (server w')" "r = Inr (Some x) \<Longrightarrow>
    right_answer answer (crr_Paths request) (crr_PreviousRevision request) (crr_CurrentRevision request) x"
proof -
  have "sound (server w') \<and> (r = Inr (Some x) \<longrightarrow>
      right_answer answer (crr_Paths request) (crr_PreviousRevision request) (crr_CurrentRevision request) x)"
  proof (cases "\<exists>y. r = Inr (Some y)")
    case True
    then obtain y where y: "r = Inr (Some y)" by blast
    with answered assms(1) obtain v v' where v: "server_run s (server w) v" "server_run s v' (server w')"
      and g: "GetChangeRevision s request v = Some (Ret (Inr y, v'))" by blast
    from run_sound [OF v(1) assms(2)] have "sound v" .
    from handler_sound [OF this assms(3) g] run_sound [OF v(2)] y show ?thesis by auto
  next
    case False
    with not_answered [OF assms(1)] run_sound assms(2) show ?thesis by blast
  qed
  then show "sound (server w')" "r = Inr (Some x) \<Longrightarrow>
    right_answer answer (crr_Paths request) (crr_PreviousRevision request) (crr_CurrentRevision request) x" by blast+
qed

lemma calculate_sound:
  assumes "calculateChangeRevision env app current previous url path (w, m) = (res, (w', m'))" "sound (server w)"
  shows "sound (server w') \<and> (\<forall>x. res = Inr x \<longrightarrow> right_answer answer (GetSourceRefreshPaths app path) previous current x)"
proof -
  obtain rr w1 where 1: "env_GetRepository env url (spec_Project (app_Spec app)) w = (rr, w1)" by (rule prod.exhaust)
  obtain e w2 where 2: "env_NewRepoServerClient env w1 = (e, w2)" by (rule prod.exhaust)
  have s1: "sound (server w1)" using run_sound [OF GetRepository_runs [OF 1] assms(2)] .
  have s2: "sound (server w2)" using run_sound [OF NewClient_runs [OF 2] s1] .
  show ?thesis
  proof (cases "isErr rr \<or> e \<noteq> None")
    case True
    with assms(1) 1 2 s1 s2 show ?thesis by (cases rr) (auto simp: calculateChangeRevision_def)
  next
    case False
    then obtain repo where repo: "rr = Inr repo" by (cases rr) auto
    let ?req = "\<lparr>crr_AppName = app_Name app, crr_Namespace = app_Namespace app, crr_CurrentRevision = current,
      crr_PreviousRevision = previous, crr_Paths = GetSourceRefreshPaths app path, crr_Repo = Some repo\<rparr>"
    obtain r w3 where 3: "env_GetChangeRevision env ?req w2 = (r, w3)" by (rule prod.exhaust)
    have w': "w' = env_Close env w3" "\<And>x. res = Inr x \<Longrightarrow> r = Inr (Some x)"
      using assms(1) 1 2 3 False repo by (auto simp: calculateChangeRevision_def Let_def split: sum.splits option.splits)
    have "sound (server w3)" using rpc_sound(1) [OF 3 s2] by simp
    then have "sound (server w')" unfolding w'(1) by (rule run_sound [OF Close_runs])
    moreover have "right_answer answer (GetSourceRefreshPaths app path) previous current x" if "res = Inr x" for x
      using rpc_sound(2) [OF 3 s2 _ w'(2) [OF that]] by simp
    ultimately show ?thesis by blast
  qed
qed

lemma patch_sources_sound:
  "patch_sources env app rs (w, m) = (res, (w', m')) \<Longrightarrow> sound (server w) \<Longrightarrow> sound (server w')"
proof (induction rs arbitrary: w m res)
  case (Cons r rs)
  obtain p w1 m1 where p: "patch_source env app r (w, m) = (p, (w1, m1))" by (metis surj_pair)
  obtain calc w2 m2 where c: "source_calculation env app r (w, m) = (calc, (w2, m2))" by (metis surj_pair)
  have "sound (server w2)" using calculate_sound [OF c [unfolded source_calculation_def] Cons.prems(2)] by blast
  then have s1: "sound (server w1)"
    using p patch_source_calculated [OF _ c] patch_source_not_calculated [of r env app "(w, m)"] Cons.prems(2)
    by (cases "calculated r") auto
  show ?case
  proof (cases p)
    case (Inl e)
    then show ?thesis using Cons.prems(1) p s1 by auto
  next
    case (Inr q)
    then obtain rest where "patch_sources env app rs (w1, m1) = (rest, (w', m'))"
      using Cons.prems(1) p by (auto split: prod.splits)
    then show ?thesis by (rule Cons.IH [OF _ s1])
  qed
qed simp

lemma source_calculation_sound:
  assumes "sound (server w)" "fst (source_calculation env app (rs ! i) (source_state env app rs (w, m) i)) = Inr x"
  shows "right_answer answer (GetSourceRefreshPaths app (rv_path (rs ! i))) (rv_previousRevision (rs ! i)) (rv_currentRevision (rs ! i)) x"
proof -
  obtain res w1 m1 where s: "patch_sources env app (take i rs) (w, m) = (res, (w1, m1))" by (metis surj_pair)
  obtain calc w2 m2 where c: "source_calculation env app (rs ! i) (w1, m1) = (calc, (w2, m2))" by (metis surj_pair)
  have "calc = Inr x" using assms(2) by (simp add: source_state_def s c)
  then show ?thesis using calculate_sound [OF c [unfolded source_calculation_def] patch_sources_sound [OF s assms(1)]] by blast
qed

end

section \<open>A controller and a server in one process\<close>

text \<open>The service with a client that calls the handler of a server directly; a call that would wait runs into its
  deadline. Repositories are looked up in the database of \<open>util/db\<close>, as \<open>NewRepoServerClient\<close> and \<open>NewDB\<close> connect them.\<close>

definition direct_call :: "('g, 'v) Service \<Rightarrow> ChangeRevisionRequest \<Rightarrow> 'g repo_world \<Rightarrow> string option result \<times> 'g repo_world" where
  "direct_call s request v = (case GetChangeRevision s request v of
     Some (Ret (Inr x, v')) \<Rightarrow> (Inr (Some x), v')
   | Some (Ret (Inl e, v')) \<Rightarrow> (Inl e, v')
   | _ \<Rightarrow> (Inl ContextDeadlineExceeded, v))"

definition direct_env :: "Application \<Rightarrow> ('g, 'v) Service \<Rightarrow> 'k db_env \<Rightarrow> ('g repo_world \<times> 'k db_world) mrp_env" where
  "direct_env app s e = \<lparr>
     env_Get = (\<lambda>ns n v. (Inr app, v)),
     env_Patch = (\<lambda>ns n p v. (None, v)),
     env_GetRepository = (\<lambda>url proj (v, d). case GetRepository e url proj d of (r, d') \<Rightarrow> (r, v, d')),
     env_NewRepoServerClient = (\<lambda>v. (None, v)),
     env_GetChangeRevision = (\<lambda>request (v, d). if crr_Repo request = None then (Inl ContextDeadlineExceeded, v, d)
        else case direct_call s request v of (r, v') \<Rightarrow> (r, v', d)),
     env_Close = id,
     env_FromError = (\<lambda>e. case e of StatusError c t \<Rightarrow> Some c | _ \<Rightarrow> None)\<rparr>"

lemma direct_call_runs:
  assumes "direct_call s request v = (r, v')" "crr_Repo request = Some repo"
  shows "r = Inr (Some x) \<Longrightarrow> GetChangeRevision s request v = Some (Ret (Inr x, v'))" "server_run s v v'"
proof -
  show "r = Inr (Some x) \<Longrightarrow> GetChangeRevision s request v = Some (Ret (Inr x, v'))"
    using assms(1) by (auto simp: direct_call_def split: option.splits go.splits sum.splits)
  show "server_run s v v'"
    using assms by (auto simp: direct_call_def split: option.splits go.splits sum.splits intro: server_run.idle server_run.handle [OF server_run.idle])
qed

interpretation mem_client: repo_server_client "direct_env app (memory_service git) e" "memory_service git" "\<lambda>g k v. g k = Some v" any_value "fst \<circ> git" fst
  for app git e
proof unfold_locales
  show "0 < sv_maxAttemptsCount (memory_service git)" by (simp add: memory_service_def)
  show "\<exists>v v'. server_run (memory_service git) (fst w) v \<and> GetChangeRevision (memory_service git) request v = Some (Ret (Inr x, v')) \<and>
      server_run (memory_service git) v' (fst w')"
    if "env_GetChangeRevision (direct_env app (memory_service git) e) request w = (Inr (Some x), w')" for request w x w'
    using that direct_call_runs(1) [of "memory_service git" request "fst w" "Inr (Some x)" "fst w'"] server_run.idle
    by (fastforce simp: direct_env_def split: if_splits prod.splits)
  show "server_run (memory_service git) (fst w) (fst w')"
    if "env_GetChangeRevision (direct_env app (memory_service git) e) request w = (r, w')" for request w r w'
    using that direct_call_runs(2) [of "memory_service git" request "fst w" r "fst w'"] server_run.idle
    by (fastforce simp: direct_env_def split: if_splits prod.splits)
qed (auto simp: direct_env_def intro: server_run.idle mem_server.coherent_server_axioms split: prod.splits)

end
