(* ===== verification/Deployed.thy ===== *)
theory Deployed
  imports System
begin

text \<open>An application, a repository and a server on which the whole system is evaluated.\<close>

text \<open>An application synced from one commit to the next, whose directory the second commit changed.\<close>

definition deployed_app :: Application where
  "deployed_app = zero_Application\<lparr>
     app_ObjectMeta := zero_ObjectMeta\<lparr>om_Name := ''app'', om_Annotations := [AnnotationKeyManifestGeneratePaths \<mapsto> ''.'']\<rparr>,
     app_Spec := zero_ApplicationSpec\<lparr>spec_Source :=
       Some (zero_ApplicationSource\<lparr>src_RepoURL := ''https://git.example/mono'', src_Path := ''apps/a''\<rparr>)\<rparr>,
     app_Status := zero_ApplicationStatus\<lparr>
       status_History := [\<lparr>rh_Revision = sha_a, rh_DeployedAt = 0, rh_ID = 0, rh_Source = zero_ApplicationSource,
         rh_DeployStartedAt = None, rh_Sources = [], rh_Revisions = [], rh_InitiatedBy = \<lparr>oi_Username = [], oi_Automated = False\<rparr>\<rparr>],
       status_Sync := zero_SyncStatus\<lparr>ss_Status := ''Synced'', ss_Revision := sha_b\<rparr>\<rparr>\<rparr>"

definition deployed_revisions :: sourceRevisions where
  "deployed_revisions = \<lparr>rv_changeRevision = [], rv_gitRevision = [], rv_currentRevision = sha_b,
     rv_previousRevision = sha_a, rv_repoURL = ''https://git.example/mono'', rv_isHelmRepo = False, rv_path = ''apps/a''\<rparr>"

definition deployed_result :: "string option" where
  "deployed_result =
     (case makeChangeRevisionPatch (direct_env deployed_app (memory_service sample_git) mem_db) deployed_app ((sample_world, empty_db), sample_metrics) of
        Ret (Inr (Some q), _) \<Rightarrow> q CHANGE_REVISION_ANN | _ \<Rightarrow> None)"

lemma deployed_app_revisions: "getSourcesRevisions deployed_app = Ret [deployed_revisions]"
  by code_simp

lemma deployed_app_result: "deployed_result = Some sha_b"
  by code_simp

lemma deployed_app_patch:
  obtains q st' where "makeChangeRevisionPatch (direct_env deployed_app (memory_service sample_git) mem_db) deployed_app ((sample_world, empty_db), sample_metrics)
    = Ret (Inr (Some q), st')" "q CHANGE_REVISION_ANN = Some sha_b"
  using deployed_app_result unfolding deployed_result_def by (auto split: go.splits sum.splits option.splits)

end
