(* ===== verification/Env.thy ===== *)
theory Env
  imports GoStrconv
begin

text \<open>
  Settings read from environment variables, \<open>util/env/env.go\<close>. The environment of the process is a
  map; a variable that is not set reads as the empty string. Numbers are Go's 64-bit \<open>int\<close> and
  \<open>int64\<close>, kept as integers with the range check of \<open>strconv.ParseInt\<close> written out;
  \<open>time.ParseDuration\<close> is an argument of the function that uses it. The two floating-point readers
  are not modelled.
\<close>

section \<open>Standard library\<close>

type_synonym environ = "string \<rightharpoonup> string"

definition os_Getenv :: "environ \<Rightarrow> string \<Rightarrow> string" where
  "os_Getenv e name = (case e name of Some v \<Rightarrow> v | None \<Rightarrow> [])"

section \<open>Readers\<close>

definition ParseNumFromEnv :: "environ \<Rightarrow> string \<Rightarrow> int \<Rightarrow> int \<Rightarrow> int \<Rightarrow> int" where
  "ParseNumFromEnv e env defaultValue minimum maximum =
     (let str = os_Getenv e env in
      if str = [] then defaultValue
      else case strconv_ParseInt str of
        None \<Rightarrow> defaultValue
      | Some num \<Rightarrow>
          if num > MaxInt64 \<or> num < MinInt64 then defaultValue
          else if num < minimum then defaultValue
          else if num > maximum then defaultValue
          else num)"

definition ParseInt64FromEnv :: "environ \<Rightarrow> string \<Rightarrow> int \<Rightarrow> int \<Rightarrow> int \<Rightarrow> int" where
  "ParseInt64FromEnv e env defaultValue minimum maximum =
     (let str = os_Getenv e env in
      if str = [] then defaultValue
      else case strconv_ParseInt str of
        None \<Rightarrow> defaultValue
      | Some num \<Rightarrow>
          if num < minimum then defaultValue
          else if num > maximum then defaultValue
          else num)"

definition ParseDurationFromEnv :: "(string \<Rightarrow> int option) \<Rightarrow> environ \<Rightarrow> string \<Rightarrow> int \<Rightarrow> int \<Rightarrow> int \<Rightarrow> int" where
  "ParseDurationFromEnv time_ParseDuration e env defaultValue minimum maximum =
     (let str = os_Getenv e env in
      if str = [] then defaultValue
      else case time_ParseDuration str of
        None \<Rightarrow> defaultValue
      | Some dur \<Rightarrow>
          if dur < minimum then defaultValue
          else if dur > maximum then defaultValue
          else dur)"

record StringFromEnvOpts =
  seo_AllowEmpty :: bool

definition StringFromEnv :: "environ \<Rightarrow> string \<Rightarrow> string \<Rightarrow> StringFromEnvOpts list \<Rightarrow> string" where
  "StringFromEnv e env defaultValue opts =
     (let allowEmpty = foldl (\<lambda>a opt. a \<or> seo_AllowEmpty opt) False opts in
      case e env of
        Some str \<Rightarrow> if allowEmpty \<or> str \<noteq> [] then str else defaultValue
      | None \<Rightarrow> defaultValue)"

definition StringsFromEnv :: "environ \<Rightarrow> string \<Rightarrow> string list \<Rightarrow> string \<Rightarrow> string list" where
  "StringsFromEnv e env defaultValue separator =
     (let str = os_Getenv e env in
      if str \<noteq> [] then map strings_TrimSpace (strings_SplitStr str separator) else defaultValue)"

definition ParseBoolFromEnv :: "environ \<Rightarrow> string \<Rightarrow> bool \<Rightarrow> bool" where
  "ParseBoolFromEnv e envVar defaultValue =
     (let val = os_Getenv e envVar in
      if val \<noteq> [] then
        if fold_case val = ''true'' then True
        else if fold_case val = ''false'' then False
        else defaultValue
      else defaultValue)"

text \<open>The loop over the pairs; \<open>None\<close> when it returns the default.\<close>

fun parse_pairs :: "string list \<Rightarrow> (string \<rightharpoonup> string) \<Rightarrow> (string \<rightharpoonup> string) option" where
  "parse_pairs [] parsed = Some parsed"
| "parse_pairs (pair # pairs) parsed =
     (case strings_Split (CHR ''='') pair of
        [k, v] \<Rightarrow>
          let key = strings_TrimSpace k; value = strings_TrimSpace v in
          if parsed key \<noteq> None then None else parse_pairs pairs (parsed(key \<mapsto> value))
      | _ \<Rightarrow> None)"

definition ParseStringToStringFromEnv :: "environ \<Rightarrow> string \<Rightarrow> (string \<rightharpoonup> string) \<Rightarrow> string \<Rightarrow> (string \<rightharpoonup> string)" where
  "ParseStringToStringFromEnv e envVar defaultValue separator =
     (let str = strings_TrimSpace (os_Getenv e envVar) in
      if str = [] then defaultValue
      else case parse_pairs (strings_SplitStr str separator) Map.empty of None \<Rightarrow> defaultValue | Some parsed \<Rightarrow> parsed)"

section \<open>Properties\<close>

lemma ParseNum_ParseInt64: "ParseNumFromEnv e env d lo hi = ParseInt64FromEnv e env d lo hi"
  using ParseInt_range [of "os_Getenv e env"]
  by (auto simp: ParseNumFromEnv_def ParseInt64FromEnv_def Let_def split: option.splits)

lemma ParseInt64_value: "e env = Some (int_text n) \<Longrightarrow>
    ParseInt64FromEnv e env d lo hi = (if lo \<le> n \<and> n \<le> hi \<and> MinInt64 \<le> n \<and> n \<le> MaxInt64 then n else d)"
  by (auto simp: ParseInt64FromEnv_def os_Getenv_def int_text_not_empty ParseInt_of_int_text)

lemma ParseInt64_other:
  "e env \<in> {None, Some []} \<or> (\<exists>s c. e env = Some s \<and> c \<in> set s \<and> digit_value c = None \<and> c \<noteq> CHR ''-'' \<and> c \<noteq> CHR ''+'') \<Longrightarrow>
    ParseInt64FromEnv e env d lo hi = d"
  by (auto simp: ParseInt64FromEnv_def os_Getenv_def ParseInt_other)

lemma ParseDuration_value: "ParseDurationFromEnv pd e env d lo hi =
    (case e env of None \<Rightarrow> d | Some s \<Rightarrow> if s = [] then d else (case pd s of None \<Rightarrow> d | Some x \<Rightarrow> if lo \<le> x \<and> x \<le> hi then x else d))"
  by (auto simp: ParseDurationFromEnv_def os_Getenv_def Let_def split: option.splits)

lemma settings_default_or_between:
  "ParseInt64FromEnv e env d lo hi = d \<or> lo \<le> ParseInt64FromEnv e env d lo hi \<and> ParseInt64FromEnv e env d lo hi \<le> hi \<and>
     MinInt64 \<le> ParseInt64FromEnv e env d lo hi \<and> ParseInt64FromEnv e env d lo hi \<le> MaxInt64"
  "ParseDurationFromEnv pd e env d lo hi = d \<or> lo \<le> ParseDurationFromEnv pd e env d lo hi \<and> ParseDurationFromEnv pd e env d lo hi \<le> hi"
  using ParseInt_range [of "os_Getenv e env"]
  by (auto simp: ParseInt64FromEnv_def ParseDurationFromEnv_def Let_def split: option.splits)

text \<open>
  (C38) Numeric settings are read and kept within their bounds. For a positive maximum, the comments of the source leave open what
  happens without one: a variable that holds the decimal text of a number is read as that number by both readers if it lies within
  the bounds and in 64 bits, otherwise as the default; a variable that is not set, is empty or has a character that is no digit and no
  sign is read as the default; a duration is read as what \<open>time.ParseDuration\<close> makes of the variable, under the same conditions. So
  whatever the variable contains, the result is within the bounds when the default is, and fits its 64-bit type when the default does.
\<close>

theorem settings_are_within_bounds:
  assumes "0 < hi"
  shows "(\<forall>n. e env = Some (int_text n) \<longrightarrow>
      (let r = (if lo \<le> n \<and> n \<le> hi \<and> MinInt64 \<le> n \<and> n \<le> MaxInt64 then n else d)
       in ParseNumFromEnv e env d lo hi = r \<and> ParseInt64FromEnv e env d lo hi = r)) \<and>
   (e env \<in> {None, Some []} \<or> (\<exists>s c. e env = Some s \<and> c \<in> set s \<and> digit_value c = None \<and> c \<noteq> CHR ''-'' \<and> c \<noteq> CHR ''+'') \<longrightarrow>
      ParseNumFromEnv e env d lo hi = d \<and> ParseInt64FromEnv e env d lo hi = d) \<and>
   ParseDurationFromEnv pd e env d lo hi = (case e env of None \<Rightarrow> d | Some s \<Rightarrow>
      if s = [] then d else (case pd s of None \<Rightarrow> d | Some x \<Rightarrow> if lo \<le> x \<and> x \<le> hi then x else d)) \<and>
   (lo \<le> d \<and> d \<le> hi \<longrightarrow> (\<forall>r \<in> {ParseNumFromEnv e env d lo hi, ParseInt64FromEnv e env d lo hi, ParseDurationFromEnv pd e env d lo hi}.
      lo \<le> r \<and> r \<le> hi)) \<and>
   (MinInt64 \<le> d \<and> d \<le> MaxInt64 \<longrightarrow> (\<forall>r \<in> {ParseNumFromEnv e env d lo hi, ParseInt64FromEnv e env d lo hi}. MinInt64 \<le> r \<and> r \<le> MaxInt64))"
proof (intro conjI allI impI)
  show "let r = (if lo \<le> n \<and> n \<le> hi \<and> MinInt64 \<le> n \<and> n \<le> MaxInt64 then n else d)
      in ParseNumFromEnv e env d lo hi = r \<and> ParseInt64FromEnv e env d lo hi = r" if "e env = Some (int_text n)" for n
    using that by (simp add: ParseNum_ParseInt64 ParseInt64_value Let_def)
qed (use settings_default_or_between(1) [of e env d lo hi] settings_default_or_between(2) [of pd e env d lo hi] ParseInt64_other [of e env d lo hi] in
    \<open>auto simp: ParseNum_ParseInt64 simp flip: ParseDuration_value\<close>)

theorem settings_are_within_bounds_witness:
  "ParseInt64FromEnv [''LIMIT'' \<mapsto> int_text 7] ''LIMIT'' 1 0 10 = 7 \<and> ParseNumFromEnv [''LIMIT'' \<mapsto> int_text 99] ''LIMIT'' 1 0 10 = 1"
  using settings_are_within_bounds [of 10 "[''LIMIT'' \<mapsto> int_text 7]" "''LIMIT''" 0 1, THEN conjunct1, rule_format, of 7]
    settings_are_within_bounds [of 10 "[''LIMIT'' \<mapsto> int_text 99]" "''LIMIT''" 0 1, THEN conjunct1, rule_format, of 99]
  by (simp add: MinInt64_def MaxInt64_def)

text \<open>
  Writing a number and reading it back gives the number: a variable set to the decimal text of any
  64-bit integer between the bounds is read as that integer by both readers, also at the ends of
  the range, and a number outside the bounds gives the default.
\<close>

theorem number_setting_round_trip:
  assumes "MinInt64 \<le> n" "n \<le> MaxInt64" "e env = Some (int_text n)"
  shows "ParseInt64FromEnv e env d lo hi = (if lo \<le> n \<and> n \<le> hi then n else d) \<and>
    ParseNumFromEnv e env d lo hi = (if lo \<le> n \<and> n \<le> hi then n else d)"
  using assms ParseInt_int_text [OF assms(1,2)] decimal_not_empty
  by (auto simp: ParseInt64FromEnv_def ParseNumFromEnv_def os_Getenv_def int_text_def)

theorem number_setting_round_trip_witness:
  "ParseInt64FromEnv [''LIMIT'' \<mapsto> int_text MinInt64] ''LIMIT'' 0 MinInt64 MaxInt64 = MinInt64"
  using number_setting_round_trip [of MinInt64 "[''LIMIT'' \<mapsto> int_text MinInt64]" "''LIMIT''" 0 MinInt64 MaxInt64]
  by (simp add: MinInt64_def MaxInt64_def)

end
