(* ===== verification/Clusters.thy ===== *)
theory Clusters
  imports AppSpec RepoTypes
begin

text \<open>The cluster types of \<open>types.go\<close>. Maps are partial functions, byte slices are strings.\<close>

record ClusterCacheInfo =
  cci_ResourcesCount :: int
  cci_APIsCount :: int
  cci_LastCacheSyncTime :: "Time option"

record ClusterInfo =
  ci_ConnectionState :: ConnectionState
  ci_ServerVersion :: string
  ci_CacheInfo :: ClusterCacheInfo
  ci_ApplicationsCount :: int
  ci_APIVersions :: "string list"

record AWSAuthConfig =
  aws_ClusterName :: string
  aws_RoleARN :: string
  aws_Profile :: string

record ExecProviderConfig =
  exec_Command :: string
  exec_Args :: "string list"
  exec_Env :: "string \<rightharpoonup> string"
  exec_APIVersion :: string
  exec_InstallHint :: string

record TLSClientConfig =
  tls_Insecure :: bool
  tls_ServerName :: string
  tls_CertData :: string
  tls_KeyData :: string
  tls_CAData :: string

record ClusterConfig =
  cc_Username :: string
  cc_Password :: string
  cc_BearerToken :: string
  cc_TLSClientConfig :: TLSClientConfig
  cc_AWSAuthConfig :: "AWSAuthConfig option"
  cc_ExecProviderConfig :: "ExecProviderConfig option"
  cc_DisableCompression :: bool
  cc_ProxyUrl :: string

record Cluster =
  cl_ID :: string
  cl_Server :: string
  cl_Name :: string
  cl_Config :: ClusterConfig
  cl_ConnectionState :: ConnectionState
  cl_ServerVersion :: string
  cl_Namespaces :: "string list"
  cl_RefreshRequestedAt :: "Time option"
  cl_Info :: ClusterInfo
  cl_Shard :: "int option"
  cl_ClusterResources :: bool
  cl_Project :: string
  cl_Labels :: "string \<rightharpoonup> string"
  cl_Annotations :: "string \<rightharpoonup> string"

definition Cluster_Equals :: "Cluster \<Rightarrow> Cluster \<Rightarrow> bool" where
  "Cluster_Equals c other =
     (if cl_Server c \<noteq> cl_Server other then False
      else if cl_Name c \<noteq> cl_Name other then False
      else if strings_Join (cl_Namespaces c) '','' \<noteq> strings_Join (cl_Namespaces other) '','' then False
      else
        let shard = (case cl_Shard c of None \<Rightarrow> - 1 | Some n \<Rightarrow> n);
            otherShard = (case cl_Shard other of None \<Rightarrow> - 1 | Some n \<Rightarrow> n)
        in if shard \<noteq> otherShard then False
           else if cl_ClusterResources c \<noteq> cl_ClusterResources other then False
           else if cl_Annotations c \<noteq> cl_Annotations other then False
           else if cl_Labels c \<noteq> cl_Labels other then False
           else cl_Config c = cl_Config other)"

definition GetKubeVersion :: "ClusterInfo \<Rightarrow> string" where "GetKubeVersion c = ci_ServerVersion c"

definition GetApiVersions :: "ClusterInfo \<Rightarrow> string list" where "GetApiVersions c = ci_APIVersions c"

definition zero_ClusterConfig :: ClusterConfig where
  "zero_ClusterConfig = \<lparr>cc_Username = [], cc_Password = [], cc_BearerToken = [],
     cc_TLSClientConfig = \<lparr>tls_Insecure = False, tls_ServerName = [], tls_CertData = [], tls_KeyData = [], tls_CAData = []\<rparr>,
     cc_AWSAuthConfig = None, cc_ExecProviderConfig = None, cc_DisableCompression = False, cc_ProxyUrl = []\<rparr>"

definition zero_Cluster :: Cluster where
  "zero_Cluster = \<lparr>cl_ID = [], cl_Server = [], cl_Name = [], cl_Config = zero_ClusterConfig, cl_ConnectionState = zero_ConnectionState,
     cl_ServerVersion = [], cl_Namespaces = [], cl_RefreshRequestedAt = None,
     cl_Info = \<lparr>ci_ConnectionState = zero_ConnectionState, ci_ServerVersion = [],
       ci_CacheInfo = \<lparr>cci_ResourcesCount = 0, cci_APIsCount = 0, cci_LastCacheSyncTime = None\<rparr>, ci_ApplicationsCount = 0, ci_APIVersions = []\<rparr>,
     cl_Shard = None, cl_ClusterResources = False, cl_Project = [], cl_Labels = Map.empty, cl_Annotations = Map.empty\<rparr>"

text \<open>
  \<open>Equals\<close> is an equivalence, but not equality: it does not look at the project, at what is known of the
  state of the cluster, nor at the difference between no shard and shard \<open>-1\<close>.
\<close>

lemma Cluster_Equals_equiv:
  "Cluster_Equals c c"
  "Cluster_Equals c d \<Longrightarrow> Cluster_Equals d c"
  "Cluster_Equals c d \<Longrightarrow> Cluster_Equals d f \<Longrightarrow> Cluster_Equals c f"
  by (auto simp: Cluster_Equals_def Let_def split: if_splits)

lemma Cluster_Equals_ignores_project: "Cluster_Equals (c\<lparr>cl_Project := p\<rparr>) c"
  by (simp add: Cluster_Equals_def Let_def)

end
