(* ===== verification/Glob.thy ===== *)
theory Glob
  imports GoStrings
begin

text \<open>
  Pattern matching: \<open>util/glob/glob.go\<close>, \<open>util/glob/list.go\<close>, \<open>util/regex/regex.go\<close>,
  \<open>util/security/application_namespaces.go\<close> and \<open>util/security/rbac.go\<close>, and \<open>globMatch\<close> and \<open>isDenyPattern\<close> of
  \<open>app_project_types.go\<close>. The libraries that compile globs and regular expressions are parameters.
\<close>

section \<open>Patterns\<close>

text \<open>
  \<open>glob.Compile(pattern, separators...)\<close> of gobwas/glob and \<open>regexp2.Compile\<close>: nothing when the pattern is
  refused; the latter's match may fail.
\<close>

record pattern_env =
  pe_glob :: "string \<Rightarrow> string \<Rightarrow> (string \<Rightarrow> bool) option"
  pe_regexp2 :: "string \<Rightarrow> (string \<Rightarrow> bool option) option"

definition glob_Match :: "pattern_env \<Rightarrow> string \<Rightarrow> string \<Rightarrow> string \<Rightarrow> bool" where
  "glob_Match e pattern text separators = (case pe_glob e pattern separators of None \<Rightarrow> False | Some m \<Rightarrow> m text)"

definition MatchWithError :: "pattern_env \<Rightarrow> string \<Rightarrow> string \<Rightarrow> string \<Rightarrow> bool option" where
  "MatchWithError e pattern text separators = (case pe_glob e pattern separators of None \<Rightarrow> None | Some m \<Rightarrow> Some (m text))"

definition regex_Match :: "pattern_env \<Rightarrow> string \<Rightarrow> string \<Rightarrow> bool" where
  "regex_Match e pattern text = (case pe_regexp2 e pattern of
     None \<Rightarrow> False
   | Some m \<Rightarrow> (case m text of None \<Rightarrow> False | Some b \<Rightarrow> b))"

section \<open>Lists of patterns\<close>

definition EXACT :: string where "EXACT = ''exact''"
definition GLOB :: string where "GLOB = ''glob''"
definition REGEXP :: string where "REGEXP = ''regexp''"

text \<open>The slice \<open>s[lo:hi]\<close> of a string.\<close>

definition string_slice :: "string \<Rightarrow> int \<Rightarrow> int \<Rightarrow> string go" where
  "string_slice s lo hi =
     (if 0 \<le> lo \<and> lo \<le> hi \<and> hi \<le> int (length s) then Ret (take (nat (hi - lo)) (drop (nat lo) s)) else Panic IndexOutOfRange)"

fun MatchStringInList :: "pattern_env \<Rightarrow> string list \<Rightarrow> string \<Rightarrow> string \<Rightarrow> bool go" where
  "MatchStringInList e [] item patternMatch = Ret False"
| "MatchStringInList e (ll # list) item patternMatch =
     go_bind
       (if patternMatch = REGEXP \<and> strings_HasPrefix ll ''/'' \<and> strings_HasSuffix ll ''/''
        then go_bind (string_slice ll 1 (int (length ll) - 1)) (\<lambda>re. Ret (regex_Match e re item))
        else Ret False)
       (\<lambda>regexMatched.
          if regexMatched then Ret True
          else if (patternMatch = REGEXP \<or> patternMatch = GLOB) \<and> glob_Match e ll item [] then Ret True
          else if patternMatch = EXACT \<and> item = ll then Ret True
          else MatchStringInList e list item patternMatch)"

definition IsNamespaceEnabled :: "pattern_env \<Rightarrow> string \<Rightarrow> string \<Rightarrow> string list \<Rightarrow> bool go" where
  "IsNamespaceEnabled e namespace serverNamespace enabledNamespaces =
     (if namespace = serverNamespace then Ret True else MatchStringInList e enabledNamespaces namespace REGEXP)"

definition NamespaceNotPermittedError :: "string \<Rightarrow> go_error" where
  "NamespaceNotPermittedError namespace = ErrorString (''namespace '' @ [CHR 0x27] @ namespace @ [CHR 0x27] @ '' is not permitted'')"

definition RBACName :: "string \<Rightarrow> string \<Rightarrow> string \<Rightarrow> string \<Rightarrow> string" where
  "RBACName defaultNS project namespace name =
     (if defaultNS \<noteq> [] \<and> namespace \<noteq> defaultNS \<and> namespace \<noteq> [] then project @ ''/'' @ namespace @ ''/'' @ name
      else project @ ''/'' @ name)"

section \<open>Patterns of projects\<close>

definition isDenyPattern :: "string \<Rightarrow> bool" where
  "isDenyPattern pattern = strings_HasPrefix pattern ''!''"

definition globMatch :: "pattern_env \<Rightarrow> string \<Rightarrow> string \<Rightarrow> bool \<Rightarrow> string \<Rightarrow> bool" where
  "globMatch e pattern val allowNegation separators =
     (if allowNegation \<and> isDenyPattern pattern then \<not> glob_Match e (drop 1 pattern) val separators
      else if pattern = ''*'' then True
      else glob_Match e pattern val separators)"

section \<open>Lemmas\<close>

text \<open>Whether one entry of a list accepts an item.\<close>

definition entry_accepts :: "pattern_env \<Rightarrow> string \<Rightarrow> string \<Rightarrow> string \<Rightarrow> bool" where
  "entry_accepts e patternMatch item ll \<longleftrightarrow>
     patternMatch = REGEXP \<and> (\<exists>re. ll = ''/'' @ re @ ''/'' \<and> regex_Match e re item) \<or>
     patternMatch \<in> {REGEXP, GLOB} \<and> glob_Match e ll item [] \<or>
     patternMatch = EXACT \<and> item = ll"

lemma wrapped_in_slashes:
  assumes "strings_HasPrefix ll ''/''" "strings_HasSuffix ll ''/''" "ll \<noteq> ''/''"
  obtains re where "ll = ''/'' @ re @ ''/''" "string_slice ll 1 (int (length ll) - 1) = Ret re"
proof -
  obtain r where r: "ll = ''/'' @ r" using assms(1) unfolding HasPrefix_iff by blast
  moreover obtain q where q: "ll = q @ ''/''" using assms(2) unfolding HasSuffix_iff by blast
  ultimately obtain re where "r = re @ ''/''" using assms(3) by (cases q) auto
  with r show thesis by (intro that [of re]) (simp_all add: string_slice_def)
qed

lemma slashes_not_wrapped: "\<not> (strings_HasPrefix ll ''/'' \<and> strings_HasSuffix ll ''/'') \<Longrightarrow> ll \<noteq> ''/'' @ re @ ''/''"
  unfolding HasPrefix_iff HasSuffix_iff by (metis append.assoc)

lemma MatchStringInList_spec:
  assumes "patternMatch = REGEXP \<Longrightarrow> ''/'' \<notin> set list"
  shows "MatchStringInList e list item patternMatch = Ret (\<exists>ll \<in> set list. entry_accepts e patternMatch item ll)"
  using assms
proof (induction list)
  case (Cons ll list)
  have IH: "MatchStringInList e list item patternMatch = Ret (\<exists>ll \<in> set list. entry_accepts e patternMatch item ll)"
    using Cons by simp
  show ?case
  proof (cases "patternMatch = REGEXP \<and> strings_HasPrefix ll ''/'' \<and> strings_HasSuffix ll ''/''")
    case True
    then have "strings_HasPrefix ll ''/''" "strings_HasSuffix ll ''/''" "ll \<noteq> ''/''" using Cons.prems by auto
    then obtain re where re: "ll = ''/'' @ re @ ''/''" "string_slice ll 1 (int (length ll) - 1) = Ret re"
      by (rule wrapped_in_slashes)
    then have "entry_accepts e patternMatch item ll \<longleftrightarrow> regex_Match e re item \<or> glob_Match e ll item []"
      using True by (auto simp: entry_accepts_def REGEXP_def EXACT_def)
    then show ?thesis using True re(2) IH by (simp add: REGEXP_def EXACT_def)
  next
    case False
    then have "entry_accepts e patternMatch item ll \<longleftrightarrow>
        patternMatch \<in> {REGEXP, GLOB} \<and> glob_Match e ll item [] \<or> patternMatch = EXACT \<and> item = ll"
      using slashes_not_wrapped unfolding entry_accepts_def by blast
    then have "Ret (\<exists>l \<in> set (ll # list). entry_accepts e patternMatch item l) =
        (if (patternMatch = REGEXP \<or> patternMatch = GLOB) \<and> glob_Match e ll item [] then Ret True
         else if patternMatch = EXACT \<and> item = ll then Ret True
         else Ret (\<exists>l \<in> set list. entry_accepts e patternMatch item l))" by (simp; blast)
    then show ?thesis unfolding MatchStringInList.simps if_not_P [OF False] by (simp only: go_bind.simps IH if_False)
  qed
qed simp

text \<open>An entry that is a single slash makes the slice of the regular expression fail.\<close>

lemma single_slash_panics: "MatchStringInList e (''/'' # list) item REGEXP = Panic IndexOutOfRange"
  by (simp add: string_slice_def strings_HasSuffix_def)

lemma globMatch_deny: "globMatch e (CHR ''!'' # p) val True seps \<longleftrightarrow> \<not> glob_Match e p val seps"
  by (simp add: globMatch_def isDenyPattern_def)

end
