(* ===== verification/SyncWindows.thy ===== *)
theory SyncWindows
  imports AppSpec GoStrconv Glob
begin

text \<open>
  The sync windows of a project: \<open>SyncWindow\<close>, \<open>SyncWindows\<close> and their methods and the operations on
  windows of \<open>AppProjectSpec\<close>, all of \<open>types.go\<close>. Times are instants in nanoseconds, durations are
  \<open>int64\<close> nanoseconds with the wrap-around written out. A window in a list is a pointer and may be nil.
\<close>

section \<open>Windows\<close>

record SyncWindow =
  sw_Kind :: string
  sw_Schedule :: string
  sw_Duration :: string
  sw_Applications :: "string list"
  sw_Namespaces :: "string list"
  sw_Clusters :: "string list"
  sw_ManualSync :: bool
  sw_TimeZone :: string
  sw_UseAndOperator :: bool
  sw_Description :: string

type_synonym SyncWindows = "SyncWindow option list"

text \<open>
  What the windows rely on: the cron library (a parser for the five standard fields and \<open>Next\<close>),
  \<open>time.ParseDuration\<close>, the time zone database (\<open>LoadLocation\<close>, the offset of a zone in seconds) and the
  clock, which moves with every reading.
\<close>

record ('s, 'l, 'w) window_env =
  we_Parse :: "string \<Rightarrow> 's result"
  we_Next :: "'s \<Rightarrow> Time \<Rightarrow> Time"
  we_ParseDuration :: "string \<Rightarrow> int result"
  we_LoadLocation :: "string \<Rightarrow> 'l option"
  we_UTC :: 'l
  we_Zone :: "'l \<Rightarrow> Time \<Rightarrow> int"
  we_Now :: "'w \<Rightarrow> Time \<times> 'w"
  we_patterns :: pattern_env

definition wrap64 :: "int \<Rightarrow> int" where
  "wrap64 n = (n + 2 ^ 63) mod 2 ^ 64 - 2 ^ 63"

definition HasWindows :: "SyncWindows option \<Rightarrow> bool" where
  "HasWindows w = (case w of None \<Rightarrow> False | Some ws \<Rightarrow> 0 < length ws)"

section \<open>Active windows\<close>

definition scheduleOffsetByTimeZone :: "('s, 'l, 'w) window_env \<Rightarrow> SyncWindow \<Rightarrow> 'w \<Rightarrow> int \<times> 'w" where
  "scheduleOffsetByTimeZone e w st =
     (let (loc, st1) = (case we_LoadLocation e (sw_TimeZone w) of
            Some loc \<Rightarrow> (loc, st)
          | None \<Rightarrow> (we_UTC e, snd (we_Now e st)));
          (now, st2) = we_Now e st1
      in (wrap64 (we_Zone e loc now * 1000000000), st2))"

definition quoted_arg :: "string \<Rightarrow> string \<Rightarrow> string" where
  "quoted_arg t s = t @ '' '' @ [CHR 0x27] @ s @ [CHR 0x27]"

definition window_active :: "('s, 'l, 'w) window_env \<Rightarrow> Time \<Rightarrow> SyncWindow \<Rightarrow> 'w \<Rightarrow> bool result \<times> 'w" where
  "window_active e currentTime w st =
     (case we_Parse e (sw_Schedule w) of
        Inl sErr \<Rightarrow> (Inl (Wrapped (quoted_arg ''cannot parse schedule'' (sw_Schedule w)) sErr), st)
      | Inr schedule \<Rightarrow>
     (case we_ParseDuration e (sw_Duration w) of
        Inl dErr \<Rightarrow> (Inl (Wrapped (quoted_arg ''cannot parse duration'' (sw_Duration w)) dErr), st)
      | Inr duration \<Rightarrow>
          let (timeZoneOffsetDuration, st1) = scheduleOffsetByTimeZone e w st;
              nextWindow = we_Next e schedule (currentTime + wrap64 (timeZoneOffsetDuration - duration))
          in (Inr (nextWindow < currentTime + timeZoneOffsetDuration), st1)))"

text \<open>
  The loops of \<open>active\<close> and \<open>inactiveAllows\<close>. Both compute what \<open>SyncWindow.active\<close> computes for
  every window and keep the windows for which it is true, and not true.
\<close>

fun active_windows :: "('s, 'l, 'w) window_env \<Rightarrow> Time \<Rightarrow> SyncWindows \<Rightarrow> SyncWindows \<Rightarrow> 'w \<Rightarrow> (SyncWindows result \<times> 'w) go" where
  "active_windows e t [] acc st = Ret (Inr acc, st)"
| "active_windows e t (p # ws) acc st = go_bind (deref p) (\<lambda>w.
     case window_active e t w st of
       (Inl err, st1) \<Rightarrow> Ret (Inl err, st1)
     | (Inr b, st1) \<Rightarrow> active_windows e t ws (if b then acc @ [Some w] else acc) st1)"

fun inactive_allow_windows :: "('s, 'l, 'w) window_env \<Rightarrow> Time \<Rightarrow> SyncWindows \<Rightarrow> SyncWindows \<Rightarrow> 'w \<Rightarrow> (SyncWindows result \<times> 'w) go" where
  "inactive_allow_windows e t [] acc st = Ret (Inr acc, st)"
| "inactive_allow_windows e t (p # ws) acc st = go_bind (deref p) (\<lambda>w.
     if sw_Kind w \<noteq> ''allow'' then inactive_allow_windows e t ws acc st
     else case window_active e t w st of
       (Inl err, st1) \<Rightarrow> Ret (Inl err, st1)
     | (Inr b, st1) \<Rightarrow> inactive_allow_windows e t ws (if \<not> b then acc @ [Some w] else acc) st1)"

definition non_empty :: "(SyncWindows result \<times> 'w) go \<Rightarrow> (SyncWindows option result \<times> 'w) go" where
  "non_empty r = go_bind r (\<lambda>(x, st). Ret (case x of
      Inl err \<Rightarrow> Inl err
    | Inr ws \<Rightarrow> Inr (if 0 < length ws then Some ws else None), st))"

definition active :: "('s, 'l, 'w) window_env \<Rightarrow> Time \<Rightarrow> SyncWindows option \<Rightarrow> 'w \<Rightarrow> (SyncWindows option result \<times> 'w) go" where
  "active e currentTime w st =
     (if HasWindows w then non_empty (active_windows e currentTime (the w) [] st) else Ret (Inr None, st))"

definition inactiveAllows :: "('s, 'l, 'w) window_env \<Rightarrow> Time \<Rightarrow> SyncWindows option \<Rightarrow> 'w \<Rightarrow> (SyncWindows option result \<times> 'w) go" where
  "inactiveAllows e currentTime w st =
     (if HasWindows w then non_empty (inactive_allow_windows e currentTime (the w) [] st) else Ret (Inr None, st))"

definition Active :: "('s, 'l, 'w) window_env \<Rightarrow> SyncWindows option \<Rightarrow> 'w \<Rightarrow> (SyncWindows option result \<times> 'w) go" where
  "Active e w st = (let (now, st1) = we_Now e st in active e now w st1)"

definition InactiveAllows :: "('s, 'l, 'w) window_env \<Rightarrow> SyncWindows option \<Rightarrow> 'w \<Rightarrow> (SyncWindows option result \<times> 'w) go" where
  "InactiveAllows e w st = (let (now, st1) = we_Now e st in inactiveAllows e now w st1)"

definition SyncWindow_Active :: "('s, 'l, 'w) window_env \<Rightarrow> SyncWindow \<Rightarrow> 'w \<Rightarrow> bool result \<times> 'w" where
  "SyncWindow_Active e w st = (let (now, st1) = we_Now e st in window_active e now w st1)"

section \<open>May an application be synced\<close>

fun deny_loop :: "SyncWindows \<Rightarrow> bool \<times> bool \<Rightarrow> (bool \<times> bool) go" where
  "deny_loop [] st = Ret st"
| "deny_loop (p # ws) (denyFound, manualEnabled) = go_bind (deref p) (\<lambda>a.
     if sw_Kind a = ''deny''
     then deny_loop ws (True, if \<not> denyFound then sw_ManualSync a else if manualEnabled then sw_ManualSync a else manualEnabled)
     else deny_loop ws (denyFound, manualEnabled))"

definition hasDeny :: "SyncWindows option \<Rightarrow> (bool \<times> bool) go" where
  "hasDeny w = (if \<not> HasWindows w then Ret (False, False) else deny_loop (the w) (False, False))"

fun allow_loop :: "SyncWindows \<Rightarrow> bool go" where
  "allow_loop [] = Ret False"
| "allow_loop (p # ws) = go_bind (deref p) (\<lambda>a. if sw_Kind a = ''allow'' then Ret True else allow_loop ws)"

definition hasAllow :: "SyncWindows option \<Rightarrow> bool go" where
  "hasAllow w = (if \<not> HasWindows w then Ret False else allow_loop (the w))"

fun manual_loop :: "SyncWindows \<Rightarrow> bool go" where
  "manual_loop [] = Ret True"
| "manual_loop (p # ws) = go_bind (deref p) (\<lambda>s. if \<not> sw_ManualSync s then Ret False else manual_loop ws)"

definition manualEnabled :: "SyncWindows option \<Rightarrow> bool go" where
  "manualEnabled w = (if \<not> HasWindows w then Ret False else manual_loop (the w))"

definition CanSync :: "('s, 'l, 'w) window_env \<Rightarrow> bool \<Rightarrow> SyncWindows option \<Rightarrow> 'w \<Rightarrow> (bool result \<times> 'w) go" where
  "CanSync e isManual w st =
     (if \<not> HasWindows w then Ret (Inr True, st)
      else go_bind (Active e w st) (\<lambda>(ra, st1). case ra of
        Inl err \<Rightarrow> Ret (Inl (Wrapped ''invalid sync windows'' err), st1)
      | Inr act \<Rightarrow> go_bind (hasDeny act) (\<lambda>(hasActiveDeny, manual).
          if hasActiveDeny then Ret (Inr (isManual \<and> manual), st1)
          else go_bind (hasAllow act) (\<lambda>allowed.
            if allowed then Ret (Inr True, st1)
            else go_bind (InactiveAllows e w st1) (\<lambda>(ri, st2). case ri of
              Inl err \<Rightarrow> Ret (Inl (Wrapped ''invalid sync windows'' err), st2)
            | Inr ina \<Rightarrow>
                if HasWindows ina
                then (if isManual then go_bind (manualEnabled ina) (\<lambda>m. Ret (Inr m, st2)) else Ret (Inr False, st2))
                else Ret (Inr True, st2))))))"

section \<open>Windows of an application\<close>

definition apps_match :: "pattern_env \<Rightarrow> SyncWindow \<Rightarrow> Application \<Rightarrow> bool" where
  "apps_match e window app = list_ex (\<lambda>a. globMatch e a (app_Name app) False []) (sw_Applications window)"

definition clusters_match :: "pattern_env \<Rightarrow> SyncWindow \<Rightarrow> Application \<Rightarrow> bool" where
  "clusters_match e window app =
     (let dst = spec_Destination (app_Spec app)
      in list_ex (\<lambda>c. (dest_Name dst \<noteq> [] \<and> globMatch e c (dest_Name dst) False []) \<or>
           (dest_Server dst \<noteq> [] \<and> globMatch e c (dest_Server dst) False [])) (sw_Clusters window))"

definition namespaces_match :: "pattern_env \<Rightarrow> SyncWindow \<Rightarrow> Application \<Rightarrow> bool" where
  "namespaces_match e window app =
     list_ex (\<lambda>n. globMatch e n (dest_Namespace (spec_Destination (app_Spec app))) False []) (sw_Namespaces window)"

text \<open>The body of the loop of \<open>Matches\<close>, with its variables \<open>matched\<close> and \<open>isSet\<close> after each of the three tests.\<close>

definition window_matches :: "pattern_env \<Rightarrow> Application \<Rightarrow> SyncWindow \<Rightarrow> bool" where
  "window_matches e app window =
     (let (matched1, isSet1) = (if 0 < length (sw_Applications window) then (apps_match e window app, True) else (False, False))
      in if sw_UseAndOperator window \<and> \<not> matched1 \<and> isSet1 then False
         else if \<not> sw_UseAndOperator window \<and> matched1 then True
         else
     let (matched2, isSet2) = (if 0 < length (sw_Clusters window) then (clusters_match e window app, True) else (matched1, isSet1))
      in if isSet2 \<and> sw_UseAndOperator window \<and> \<not> matched2 then False
         else if \<not> sw_UseAndOperator window \<and> matched2 then True
         else if 0 < length (sw_Namespaces window) then namespaces_match e window app else matched2)"

fun matching_windows :: "pattern_env \<Rightarrow> Application \<Rightarrow> SyncWindows \<Rightarrow> SyncWindows go" where
  "matching_windows e app [] = Ret []"
| "matching_windows e app (p # ws) = go_bind (deref p) (\<lambda>window.
     go_bind (matching_windows e app ws) (\<lambda>ms. Ret (if window_matches e app window then Some window # ms else ms)))"

definition Matches :: "pattern_env \<Rightarrow> SyncWindows option \<Rightarrow> Application \<Rightarrow> SyncWindows option go" where
  "Matches e w app =
     (if HasWindows w then go_bind (matching_windows e app (the w)) (\<lambda>ms. Ret (if 0 < length ms then Some ms else None))
      else Ret None)"

section \<open>Changing windows\<close>

text \<open>\<open>Validate\<close> also sets the time zone; the result is the error and the window afterwards.\<close>

definition Validate :: "('s, 'l, 'w) window_env \<Rightarrow> SyncWindow \<Rightarrow> go_error option \<times> SyncWindow" where
  "Validate e w0 =
     (let w1 = (if sw_TimeZone w0 = [] then w0\<lparr>sw_TimeZone := ''UTC''\<rparr> else w0);
          w = (if we_LoadLocation e (sw_TimeZone w1) = None then w1\<lparr>sw_TimeZone := ''UTC''\<rparr> else w1)
      in if sw_Kind w \<noteq> ''allow'' \<and> sw_Kind w \<noteq> ''deny''
         then (Some (ErrorString (quoted_arg ''kind'' (sw_Kind w) @ '' mismatch: can only be allow or deny'')), w)
         else case we_Parse e (sw_Schedule w) of
           Inl err \<Rightarrow> (Some (Wrapped (quoted_arg ''cannot parse schedule'' (sw_Schedule w)) err), w)
         | Inr _ \<Rightarrow> (case we_ParseDuration e (sw_Duration w) of
           Inl err \<Rightarrow> (Some (Wrapped (quoted_arg ''cannot parse duration'' (sw_Duration w)) err), w)
         | Inr _ \<Rightarrow>
             if 255 < length (sw_Description w) then (Some (ErrorString ''description must not exceed 255 characters''), w)
             else (None, w)))"

text \<open>\<open>AddWindow\<close> and \<open>DeleteWindow\<close> change only the windows of the project.\<close>

definition AddWindow :: "('s, 'l, 'w) window_env \<Rightarrow> string \<Rightarrow> string \<Rightarrow> string \<Rightarrow> string list \<Rightarrow> string list \<Rightarrow> string list \<Rightarrow> bool \<Rightarrow>
    string \<Rightarrow> bool \<Rightarrow> string \<Rightarrow> SyncWindows \<Rightarrow> go_error option \<times> SyncWindows" where
  "AddWindow e knd sch dur app ns cl ms timeZone andOperator description ws =
     (if knd = [] \<or> sch = [] \<or> dur = []
      then (Some (ErrorString ''cannot create window: require kind, schedule, duration and one or more of applications, namespaces and clusters''), ws)
      else
        let window = \<lparr>sw_Kind = knd, sw_Schedule = sch, sw_Duration = dur, sw_Applications = app, sw_Namespaces = ns,
              sw_Clusters = cl, sw_ManualSync = ms, sw_TimeZone = timeZone, sw_UseAndOperator = andOperator, sw_Description = description\<rparr>
        in case Validate e window of
             (Some err, _) \<Rightarrow> (Some err, ws)
           | (None, w) \<Rightarrow> (None, ws @ [Some w]))"

definition DeleteWindow :: "int \<Rightarrow> SyncWindows \<Rightarrow> go_error option \<times> SyncWindows" where
  "DeleteWindow i ws =
     (if 0 \<le> i \<and> i < int (length ws) then (None, take (nat i) ws @ drop (nat i + 1) ws)
      else (Some (ErrorString (quoted_arg ''window with id'' (int_text i) @ '' not found'')), ws))"

definition Update :: "string \<Rightarrow> string \<Rightarrow> string list \<Rightarrow> string list \<Rightarrow> string list \<Rightarrow> string \<Rightarrow> string \<Rightarrow> SyncWindow \<Rightarrow> go_error option \<times> SyncWindow" where
  "Update s d a n c tz description w =
     (if s = [] \<and> d = [] \<and> a = [] \<and> n = [] \<and> c = [] \<and> description = []
      then (Some (ErrorString ''cannot update: require one or more of schedule, duration, application, namespace, cluster or description''), w)
      else (None,
        let w1 = (if s \<noteq> [] then w\<lparr>sw_Schedule := s\<rparr> else w);
            w2 = (if d \<noteq> [] then w1\<lparr>sw_Duration := d\<rparr> else w1);
            w3 = (if a \<noteq> [] then w2\<lparr>sw_Applications := a\<rparr> else w2);
            w4 = (if n \<noteq> [] then w3\<lparr>sw_Namespaces := n\<rparr> else w3);
            w5 = (if c \<noteq> [] then w4\<lparr>sw_Clusters := c\<rparr> else w4);
            w6 = (if description \<noteq> [] then w5\<lparr>sw_Description := description\<rparr> else w5)
        in w6\<lparr>sw_TimeZone := if tz = [] then ''UTC'' else tz\<rparr>))"


section \<open>The decision at one instant\<close>

text \<open>
  One decision reads the clock several times. The lemmas are about a decision during which it shows one
  time, \<open>t\<close>; then a window is open or not, and a list of windows without nil pointers allows a sync or not.
\<close>

definition frozen :: "('s, 'l, 'w) window_env \<Rightarrow> Time \<Rightarrow> bool" where
  "frozen e t \<longleftrightarrow> (\<forall>st. fst (we_Now e st) = t)"

definition valid_window :: "('s, 'l, 'w) window_env \<Rightarrow> SyncWindow \<Rightarrow> bool" where
  "valid_window e w \<longleftrightarrow> \<not> isErr (we_Parse e (sw_Schedule w)) \<and> \<not> isErr (we_ParseDuration e (sw_Duration w))"

definition offset_at :: "('s, 'l, 'w) window_env \<Rightarrow> Time \<Rightarrow> SyncWindow \<Rightarrow> int" where
  "offset_at e t w = wrap64 (we_Zone e (case we_LoadLocation e (sw_TimeZone w) of Some loc \<Rightarrow> loc | None \<Rightarrow> we_UTC e) t * 1000000000)"

definition open_at :: "('s, 'l, 'w) window_env \<Rightarrow> Time \<Rightarrow> SyncWindow \<Rightarrow> bool" where
  "open_at e t w \<longleftrightarrow> we_Next e (projr (we_Parse e (sw_Schedule w)))
     (t + wrap64 (offset_at e t w - projr (we_ParseDuration e (sw_Duration w)))) < t + offset_at e t w"

definition sync_allowed :: "('s, 'l, 'w) window_env \<Rightarrow> Time \<Rightarrow> bool \<Rightarrow> SyncWindow list \<Rightarrow> bool" where
  "sync_allowed e t isManual vs =
     (let denies = filter (\<lambda>w. sw_Kind w = ''deny'' \<and> open_at e t w) vs;
          allows = filter (\<lambda>w. sw_Kind w = ''allow'') vs
      in if denies \<noteq> [] then isManual \<and> list_all sw_ManualSync denies
         else if list_ex (open_at e t) allows then True
         else if allows \<noteq> [] then isManual \<and> list_all sw_ManualSync allows
         else True)"

lemma scheduleOffset_frozen:
  assumes "frozen e t"
  shows "fst (scheduleOffsetByTimeZone e w st) = offset_at e t w"
  using assms by (simp add: scheduleOffsetByTimeZone_def offset_at_def frozen_def split: option.splits prod.splits) (metis fst_conv)+

lemma window_active_frozen:
  assumes "frozen e t"
  shows "valid_window e w \<Longrightarrow> \<exists>st'. window_active e t w st = (Inr (open_at e t w), st')"
    and "\<not> valid_window e w \<Longrightarrow> \<exists>err. window_active e t w st = (Inl err, st)"
  using scheduleOffset_frozen [OF assms, of w st]
  by (auto simp: window_active_def valid_window_def open_at_def isErr_def Let_def split: sum.splits prod.splits)

lemma active_windows_frozen:
  assumes "frozen e t"
  shows "list_all (valid_window e) vs \<Longrightarrow>
      \<exists>st'. active_windows e t (map Some vs) acc st = Ret (Inr (acc @ map Some (filter (open_at e t) vs)), st')"
    and "\<not> list_all (valid_window e) vs \<Longrightarrow> \<exists>err st'. active_windows e t (map Some vs) acc st = Ret (Inl err, st')"
proof (induction vs arbitrary: acc st)
  case (Cons v vs)
  {
    case 1
    then obtain st1 where "window_active e t v st = (Inr (open_at e t v), st1)" using window_active_frozen(1) [OF assms] by force
    then show ?case using 1 Cons.IH(1) [of "if open_at e t v then acc @ [Some v] else acc" st1] by (auto split: if_splits)
  next
    case 2
    show ?case
    proof (cases "valid_window e v")
      case True
      then obtain st1 where "window_active e t v st = (Inr (open_at e t v), st1)" using window_active_frozen(1) [OF assms] by force
      then show ?thesis using 2 True Cons.IH(2) by simp
    next
      case False
      then show ?thesis using window_active_frozen(2) [OF assms False, of st] by auto
    qed
  }
qed simp_all

lemma inactive_allow_windows_frozen:
  assumes "frozen e t" "list_all (valid_window e) vs"
  shows "\<exists>st'. inactive_allow_windows e t (map Some vs) acc st =
      Ret (Inr (acc @ map Some (filter (\<lambda>w. sw_Kind w = ''allow'' \<and> \<not> open_at e t w) vs)), st')"
  using assms(2)
proof (induction vs arbitrary: acc st)
  case (Cons v vs)
  then obtain st1 where "window_active e t v st = (Inr (open_at e t v), st1)" using window_active_frozen(1) [OF assms(1)] by force
  then show ?case using Cons.prems Cons.IH [of "if open_at e t v then acc else acc @ [Some v]" st1] Cons.IH [of acc st] by (auto split: if_splits)
qed simp

lemma deny_loop_found: "deny_loop (map Some vs) (True, m) = Ret (True, m \<and> (\<forall>w \<in> set vs. sw_Kind w = ''deny'' \<longrightarrow> sw_ManualSync w))"
  by (induction vs arbitrary: m) auto

lemma hasDeny_spec:
  "hasDeny (Some (map Some vs)) = Ret ((\<exists>w \<in> set vs. sw_Kind w = ''deny''),
     (\<exists>w \<in> set vs. sw_Kind w = ''deny'') \<and> (\<forall>w \<in> set vs. sw_Kind w = ''deny'' \<longrightarrow> sw_ManualSync w))"
proof -
  have "deny_loop (map Some vs) (False, False) = Ret ((\<exists>w \<in> set vs. sw_Kind w = ''deny''),
     (\<exists>w \<in> set vs. sw_Kind w = ''deny'') \<and> (\<forall>w \<in> set vs. sw_Kind w = ''deny'' \<longrightarrow> sw_ManualSync w))"
    by (induction vs) (simp_all add: deny_loop_found)
  then show ?thesis by (simp add: hasDeny_def HasWindows_def)
qed

lemma hasAllow_spec: "hasAllow (Some (map Some vs)) = Ret (\<exists>w \<in> set vs. sw_Kind w = ''allow'')"
proof -
  have "allow_loop (map Some vs) = Ret (\<exists>w \<in> set vs. sw_Kind w = ''allow'')" by (induction vs) simp_all
  then show ?thesis by (simp add: hasAllow_def HasWindows_def)
qed

lemma manualEnabled_spec: "vs \<noteq> [] \<Longrightarrow> manualEnabled (Some (map Some vs)) = Ret (\<forall>w \<in> set vs. sw_ManualSync w)"
proof -
  have "manual_loop (map Some vs) = Ret (\<forall>w \<in> set vs. sw_ManualSync w)" by (induction vs) simp_all
  then show "vs \<noteq> [] \<Longrightarrow> ?thesis" by (simp add: manualEnabled_def HasWindows_def)
qed


lemma active_frozen:
  assumes "frozen e t" "vs \<noteq> []"
  shows "list_all (valid_window e) vs \<Longrightarrow>
      \<exists>st'. Active e (Some (map Some vs)) st =
        Ret (Inr (let os = filter (open_at e t) vs in if os = [] then None else Some (map Some os)), st')"
    and "\<not> list_all (valid_window e) vs \<Longrightarrow> \<exists>err st'. Active e (Some (map Some vs)) st = Ret (Inl err, st')"
proof -
  obtain st1 where now: "we_Now e st = (t, st1)" using assms(1) by (metis frozen_def prod.collapse)
  show "list_all (valid_window e) vs \<Longrightarrow>
      \<exists>st'. Active e (Some (map Some vs)) st =
        Ret (Inr (let os = filter (open_at e t) vs in if os = [] then None else Some (map Some os)), st')"
    using active_windows_frozen(1) [OF assms(1), of vs "[]" st1] assms(2)
    by (auto simp: Active_def active_def HasWindows_def non_empty_def now Let_def)
  show "\<not> list_all (valid_window e) vs \<Longrightarrow> \<exists>err st'. Active e (Some (map Some vs)) st = Ret (Inl err, st')"
    using active_windows_frozen(2) [OF assms(1), of vs "[]" st1] assms(2)
    by (auto simp: Active_def active_def HasWindows_def non_empty_def now)
qed

lemma inactive_frozen:
  assumes "frozen e t" "vs \<noteq> []" "list_all (valid_window e) vs"
  shows "\<exists>st'. InactiveAllows e (Some (map Some vs)) st =
     Ret (Inr (let os = filter (\<lambda>w. sw_Kind w = ''allow'' \<and> \<not> open_at e t w) vs in if os = [] then None else Some (map Some os)), st')"
proof -
  obtain st1 where now: "we_Now e st = (t, st1)" using assms(1) by (metis frozen_def prod.collapse)
  show ?thesis
    using inactive_allow_windows_frozen [OF assms(1,3), of "[]" st1] assms(2)
    by (auto simp: InactiveAllows_def inactiveAllows_def HasWindows_def non_empty_def now Let_def)
qed

lemma nothing_active [simp]: "hasDeny None = Ret (False, False)" "hasAllow None = Ret False"
  by (simp_all add: hasDeny_def hasAllow_def HasWindows_def)

lemma active_hasDeny:
  "hasDeny (let os = filter P vs in if os = [] then None else Some (map Some os)) =
     Ret ((\<exists>w \<in> set vs. P w \<and> sw_Kind w = ''deny''),
       (\<exists>w \<in> set vs. P w \<and> sw_Kind w = ''deny'') \<and> (\<forall>w \<in> set vs. P w \<longrightarrow> sw_Kind w = ''deny'' \<longrightarrow> sw_ManualSync w))"
proof (cases "filter P vs = []")
  case True
  then have "\<not> P w" if "w \<in> set vs" for w using that by (simp add: filter_empty_conv)
  then show ?thesis using True by auto
next
  case False
  then show ?thesis unfolding Let_def if_not_P [OF False] hasDeny_spec by (simp; blast)
qed

lemma active_hasAllow:
  "hasAllow (let os = filter P vs in if os = [] then None else Some (map Some os)) = Ret (\<exists>w \<in> set vs. P w \<and> sw_Kind w = ''allow'')"
proof (cases "filter P vs = []")
  case True
  then have "\<not> P w" if "w \<in> set vs" for w using that by (simp add: filter_empty_conv)
  then show ?thesis using True by auto
next
  case False
  then show ?thesis using hasAllow_spec [of "filter P vs"] by (auto simp: Let_def)
qed

lemma CanSync_frozen:
  assumes "frozen e t" "list_all (valid_window e) vs" "vs \<noteq> []"
  shows "\<exists>st'. CanSync e isManual (Some (map Some vs)) st = Ret (Inr (sync_allowed e t isManual vs), st')"
proof -
  have has: "HasWindows (Some (map Some vs))" using assms(3) by (simp add: HasWindows_def)
  obtain st1 where a: "Active e (Some (map Some vs)) st =
      Ret (Inr (let os = filter (open_at e t) vs in if os = [] then None else Some (map Some os)), st1)"
    using active_frozen(1) [OF assms(1,3,2)] by blast
  define ina where "ina = filter (\<lambda>w. sw_Kind w = ''allow'' \<and> \<not> open_at e t w) vs"
  obtain st2 where i: "InactiveAllows e (Some (map Some vs)) st1 = Ret (Inr (if ina = [] then None else Some (map Some ina)), st2)"
    using inactive_frozen [OF assms(1,3,2), of st1] unfolding ina_def Let_def by blast
  consider (deny) "\<exists>w \<in> set vs. open_at e t w \<and> sw_Kind w = ''deny''"
    | (allow) "\<not> (\<exists>w \<in> set vs. open_at e t w \<and> sw_Kind w = ''deny'')" "\<exists>w \<in> set vs. open_at e t w \<and> sw_Kind w = ''allow''"
    | (none) "\<not> (\<exists>w \<in> set vs. open_at e t w \<and> sw_Kind w = ''deny'')" "\<not> (\<exists>w \<in> set vs. open_at e t w \<and> sw_Kind w = ''allow'')" by blast
  then show ?thesis
  proof cases
    case deny
    then have "sync_allowed e t isManual vs = (isManual \<and> (\<forall>w \<in> set vs. open_at e t w \<longrightarrow> sw_Kind w = ''deny'' \<longrightarrow> sw_ManualSync w))"
      by (auto simp: sync_allowed_def Let_def filter_empty_conv list_all_iff)
    then show ?thesis using deny by (simp add: CanSync_def has a active_hasDeny)
  next
    case allow
    then have "sync_allowed e t isManual vs"
      by (auto simp: sync_allowed_def Let_def filter_empty_conv list_ex_iff)
    moreover have "hasDeny (let os = filter (open_at e t) vs in if os = [] then None else Some (map Some os)) = Ret (False, False)"
      using allow(1) unfolding active_hasDeny by simp
    moreover have "hasAllow (let os = filter (open_at e t) vs in if os = [] then None else Some (map Some os)) = Ret True"
      using allow(2) unfolding active_hasAllow by simp
    ultimately show ?thesis by (simp add: CanSync_def has a)
  next
    case none
    have ina: "filter (\<lambda>w. sw_Kind w = ''allow'') vs = ina" using none(2) unfolding ina_def by (intro filter_cong) auto
    have "sync_allowed e t isManual vs = (ina \<noteq> [] \<longrightarrow> isManual \<and> (\<forall>w \<in> set ina. sw_ManualSync w))"
    proof -
      have "filter (\<lambda>w. sw_Kind w = ''deny'' \<and> open_at e t w) vs = []" using none(1) unfolding filter_empty_conv by blast
      moreover have "\<not> list_ex (open_at e t) ina" unfolding list_ex_iff ina_def by simp
      ultimately show ?thesis unfolding sync_allowed_def ina by (simp add: list_all_iff)
    qed
    moreover have "hasDeny (let os = filter (open_at e t) vs in if os = [] then None else Some (map Some os)) = Ret (False, False)"
      using none(1) unfolding active_hasDeny by simp
    moreover have "hasAllow (let os = filter (open_at e t) vs in if os = [] then None else Some (map Some os)) = Ret False"
      using none(2) unfolding active_hasAllow by simp
    ultimately show ?thesis using manualEnabled_spec [of ina] assms(3)
      by (cases "ina = []") (simp_all add: CanSync_def has a i HasWindows_def)
  qed
qed


lemma CanSync_invalid:
  assumes "frozen e t" "\<not> list_all (valid_window e) vs"
  shows "\<exists>err st'. CanSync e isManual (Some (map Some vs)) st = Ret (Inl (Wrapped ''invalid sync windows'' err), st')"
proof -
  have "vs \<noteq> []" using assms(2) by auto
  moreover obtain err st1 where "Active e (Some (map Some vs)) st = Ret (Inl err, st1)"
    using active_frozen(2) [OF assms(1) calculation assms(2)] by blast
  ultimately show ?thesis by (simp add: CanSync_def HasWindows_def)
qed

lemma CanSync_total:
  assumes "frozen e t" "list_all (valid_window e) vs"
  shows "\<exists>b st'. CanSync e isManual (Some (map Some vs)) st = Ret (Inr b, st')"
proof (cases "vs = []")
  case True
  then show ?thesis by (auto simp: CanSync_def HasWindows_def)
next
  case False
  then show ?thesis using CanSync_frozen [OF assms False] by blast
qed

section \<open>Windows that stay valid\<close>

text \<open>What \<open>Validate\<close> accepts, and lists that hold only such windows.\<close>

definition well_formed :: "('s, 'l, 'w) window_env \<Rightarrow> SyncWindow \<Rightarrow> bool" where
  "well_formed e w \<longleftrightarrow> valid_window e w \<and> sw_Kind w \<in> {''allow'', ''deny''} \<and> length (sw_Description w) \<le> 255 \<and>
     we_LoadLocation e (sw_TimeZone w) \<noteq> None"

definition windows_ok :: "('s, 'l, 'w) window_env \<Rightarrow> SyncWindows \<Rightarrow> bool" where
  "windows_ok e ws \<longleftrightarrow> (\<exists>vs. ws = map Some vs \<and> list_all (well_formed e) vs)"

lemma Validate_ok:
  assumes "we_LoadLocation e ''UTC'' \<noteq> None" "Validate e w = (None, w')"
  shows "well_formed e w' \<and> w' = w\<lparr>sw_TimeZone := sw_TimeZone w'\<rparr>"
  using assms by (auto simp: Validate_def well_formed_def valid_window_def isErr_def Let_def split: if_splits sum.splits)

lemma windows_ok_append: "windows_ok e (ws @ ws') \<longleftrightarrow> windows_ok e ws \<and> windows_ok e ws'"
  unfolding windows_ok_def by (auto simp: append_eq_map_conv list_all_iff)

lemma windows_ok_Nil [simp]: "windows_ok e []"
  by (simp add: windows_ok_def)

lemma windows_ok_single: "windows_ok e [Some w] \<longleftrightarrow> well_formed e w"
  by (auto simp: windows_ok_def Cons_eq_map_conv)

lemma AddWindow_ok:
  assumes "we_LoadLocation e ''UTC'' \<noteq> None" "windows_ok e ws"
    and "AddWindow e knd sch dur app ns cl ms tz op descr ws = (r, ws')"
  shows "windows_ok e ws' \<and> (if r = None then \<exists>w. ws' = ws @ [Some w] \<and> sw_Kind w = knd \<and> sw_Schedule w = sch \<and> sw_Duration w = dur
    else ws' = ws)"
proof (cases "knd = [] \<or> sch = [] \<or> dur = []")
  case True
  then have "r \<noteq> None \<and> ws' = ws" using assms(3) by (auto simp: AddWindow_def)
  then show ?thesis using assms(2) by auto
next
  case False
  define window where "window = \<lparr>sw_Kind = knd, sw_Schedule = sch, sw_Duration = dur, sw_Applications = app, sw_Namespaces = ns,
    sw_Clusters = cl, sw_ManualSync = ms, sw_TimeZone = tz, sw_UseAndOperator = op, sw_Description = descr\<rparr>"
  have add: "(r, ws') = (case Validate e window of (Some err, _) \<Rightarrow> (Some err, ws) | (None, w) \<Rightarrow> (None, ws @ [Some w]))"
    using assms(3) False unfolding AddWindow_def window_def Let_def by simp
  obtain v w where v: "Validate e window = (v, w)" by (rule prod.exhaust)
  show ?thesis
  proof (cases v)
    case None
    note w = Validate_ok [OF assms(1) v [unfolded None]]
    have rw: "r = None" "ws' = ws @ [Some w]" using add unfolding v None by simp_all
    have "windows_ok e ws'" unfolding rw windows_ok_append windows_ok_single using assms(2) w by blast
    moreover have "sw_Kind w = knd" "sw_Schedule w = sch" "sw_Duration w = dur"
      by (subst conjunct2 [OF w], simp add: window_def)+
    ultimately show ?thesis using rw by simp
  next
    case (Some err)
    then have "r = Some err" "ws' = ws" using add unfolding v by simp_all
    then show ?thesis using assms(2) by simp
  qed
qed

lemma DeleteWindow_ok:
  assumes "windows_ok e ws" "DeleteWindow i ws = (r, ws')"
  shows "windows_ok e ws'"
proof (cases "0 \<le> i \<and> i < int (length ws)")
  case True
  then have "ws' = take (nat i) ws @ drop (nat i + 1) ws" using assms(2) by (simp add: DeleteWindow_def)
  moreover have "windows_ok e (take (nat i) ws)" "windows_ok e (drop (nat i + 1) ws)"
    using assms(1) windows_ok_append [of e "take n ws" "drop n ws" for n] by simp_all
  ultimately show ?thesis by (simp only: windows_ok_append)
qed (use assms in \<open>auto simp: DeleteWindow_def\<close>)

section \<open>Behaviour that surprises\<close>

text \<open>An update that says nothing about the time zone sets it to UTC.\<close>

lemma update_resets_time_zone:
  assumes "description \<noteq> []"
  shows "sw_TimeZone (snd (Update [] [] [] [] [] [] description w)) = ''UTC''"
  using assms by (simp add: Update_def Let_def)

text \<open>
  \<open>Next\<close> of the cron library returns the zero time for a schedule that has no time within five years, such as
  the 30th of February; the window is then taken for open at any time.
\<close>

lemma impossible_schedule_is_open:
  assumes "frozen e t" "we_Parse e (sw_Schedule w) = Inr sch" "we_ParseDuration e (sw_Duration w) = Inr d"
    and "\<And>x. we_Next e sch x = 0" "0 < t + offset_at e t w"
  shows "\<exists>st'. window_active e t w st = (Inr True, st')"
  using window_active_frozen(1) [OF assms(1), of w st] assms(2-5) by (simp add: valid_window_def open_at_def)

text \<open>A nil window makes the decision panic, though \<open>ValidateProject\<close> accepts it.\<close>

lemma nil_window_panics: "CanSync e isManual (Some (None # ws)) st = Panic NilDereference"
  by (simp add: CanSync_def HasWindows_def Active_def active_def non_empty_def split: prod.splits)

section \<open>Properties\<close>

text \<open>
  (C17) Sync windows decide as documented. Without windows every sync is allowed; a window whose schedule or duration cannot
  be parsed gives an error. Otherwise an open deny window forbids the sync, except a manual one
  when all open deny windows permit manual syncs; without one an open allow window
  permits it; if there are allow windows but none is open, only a manual sync is allowed, and only if all of
  them permit it; and if there are only deny windows, none of them open, the sync is allowed.
\<close>

theorem sync_windows_decide:
  assumes "frozen e t"
  shows "\<exists>r st'. CanSync e isManual (Some (map Some vs)) st = Ret (r, st') \<and>
    (if vs = [] then r = Inr True
     else if \<not> list_all (valid_window e) vs then isErr r
     else r = Inr (
       if \<exists>w \<in> set vs. sw_Kind w = ''deny'' \<and> open_at e t w
       then isManual \<and> (\<forall>w \<in> set vs. sw_Kind w = ''deny'' \<and> open_at e t w \<longrightarrow> sw_ManualSync w)
       else (\<exists>w \<in> set vs. sw_Kind w = ''allow'' \<and> open_at e t w) \<or>
         (isManual \<and> (\<forall>w \<in> set vs. sw_Kind w = ''allow'' \<longrightarrow> sw_ManualSync w)) \<or>
         (\<forall>w \<in> set vs. sw_Kind w \<noteq> ''allow'')))"
proof -
  consider "vs = []" | "vs \<noteq> []" "list_all (valid_window e) vs" | "\<not> list_all (valid_window e) vs" by blast
  then show ?thesis
  proof cases
    case 1
    then show ?thesis by (simp add: CanSync_def HasWindows_def)
  next
    case 2
    obtain st' where "CanSync e isManual (Some (map Some vs)) st = Ret (Inr (sync_allowed e t isManual vs), st')"
      using CanSync_frozen [OF assms 2(2,1)] by blast
    moreover have "sync_allowed e t isManual vs = (
       if \<exists>w \<in> set vs. sw_Kind w = ''deny'' \<and> open_at e t w
       then isManual \<and> (\<forall>w \<in> set vs. sw_Kind w = ''deny'' \<and> open_at e t w \<longrightarrow> sw_ManualSync w)
       else (\<exists>w \<in> set vs. sw_Kind w = ''allow'' \<and> open_at e t w) \<or>
         (isManual \<and> (\<forall>w \<in> set vs. sw_Kind w = ''allow'' \<longrightarrow> sw_ManualSync w)) \<or>
         (\<forall>w \<in> set vs. sw_Kind w \<noteq> ''allow''))"
      unfolding sync_allowed_def Let_def list_all_iff list_ex_iff filter_empty_conv set_filter mem_Collect_eq
      by (simp; blast)
    ultimately show ?thesis using 2 by simp
  next
    case 3
    then show ?thesis using CanSync_invalid [OF assms 3, of isManual st] by auto
  qed
qed

text \<open>
  A window applies to an application as its operator says: with the default operator when one of its lists
  of application, cluster and namespace patterns has a match, with the and-operator when every list that is
  not empty has one, and some list is not empty. \<open>Matches\<close> returns these windows in their order.
\<close>

theorem windows_of_application:
  "Matches e (Some (map Some vs)) app = Ret (
     let ms = filter (\<lambda>w.
       if sw_UseAndOperator w
       then (sw_Applications w \<noteq> [] \<longrightarrow> apps_match e w app) \<and> (sw_Clusters w \<noteq> [] \<longrightarrow> clusters_match e w app) \<and>
         (sw_Namespaces w \<noteq> [] \<longrightarrow> namespaces_match e w app) \<and> (sw_Applications w \<noteq> [] \<or> sw_Clusters w \<noteq> [] \<or> sw_Namespaces w \<noteq> [])
       else apps_match e w app \<or> clusters_match e w app \<or> namespaces_match e w app) vs
     in if ms = [] then None else Some (map Some ms))"
proof -
  have m: "window_matches e app = (\<lambda>w.
       if sw_UseAndOperator w
       then (sw_Applications w \<noteq> [] \<longrightarrow> apps_match e w app) \<and> (sw_Clusters w \<noteq> [] \<longrightarrow> clusters_match e w app) \<and>
         (sw_Namespaces w \<noteq> [] \<longrightarrow> namespaces_match e w app) \<and> (sw_Applications w \<noteq> [] \<or> sw_Clusters w \<noteq> [] \<or> sw_Namespaces w \<noteq> [])
       else apps_match e w app \<or> clusters_match e w app \<or> namespaces_match e w app)" (is "_ = ?m")
  proof
    show "window_matches e app w = ?m w" for w
      by (cases "sw_Applications w = []"; cases "sw_Clusters w = []"; cases "sw_Namespaces w = []")
        (simp_all add: window_matches_def apps_match_def clusters_match_def namespaces_match_def Let_def)
  qed
  have "matching_windows e app (map Some vs) = Ret (map Some (filter (window_matches e app) vs))"
    by (induction vs) simp_all
  then show ?thesis unfolding m [symmetric] by (cases "vs = []") (simp_all add: Matches_def HasWindows_def)
qed

text \<open>
  (C18) Windows added and deleted through the operations of the project are always well formed, so that the
  decision about a sync never fails on them: \<open>AddWindow\<close> either refuses, leaving the list as it is, or appends the
  window; \<open>DeleteWindow\<close> removes the window with the given index or reports that there is none.
\<close>

theorem windows_stay_well_formed:
  assumes "we_LoadLocation e ''UTC'' \<noteq> None" "windows_ok e ws"
  shows "windows_ok e (snd (AddWindow e knd sch dur app ns cl ms tz op descr ws)) \<and>
    (case AddWindow e knd sch dur app ns cl ms tz op descr ws of
       (Some err, ws') \<Rightarrow> ws' = ws
     | (None, ws') \<Rightarrow> \<exists>w. ws' = ws @ [Some w] \<and> sw_Kind w = knd \<and> sw_Schedule w = sch \<and> sw_Duration w = dur) \<and>
    windows_ok e (snd (DeleteWindow i ws)) \<and>
    (fst (DeleteWindow i ws) = None \<longleftrightarrow> 0 \<le> i \<and> i < int (length ws)) \<and>
    (frozen e t \<longrightarrow> (\<exists>b st'. CanSync e isManual (Some ws) st = Ret (Inr b, st')))"
proof (intro conjI impI)
  obtain r ws' where a: "AddWindow e knd sch dur app ns cl ms tz op descr ws = (r, ws')" by (rule prod.exhaust)
  note ok = AddWindow_ok [OF assms a]
  show "windows_ok e (snd (AddWindow e knd sch dur app ns cl ms tz op descr ws))" using ok a by simp
  show "case AddWindow e knd sch dur app ns cl ms tz op descr ws of
       (Some err, ws') \<Rightarrow> ws' = ws
     | (None, ws') \<Rightarrow> \<exists>w. ws' = ws @ [Some w] \<and> sw_Kind w = knd \<and> sw_Schedule w = sch \<and> sw_Duration w = dur"
    using ok unfolding a by (cases r) simp_all
  show "windows_ok e (snd (DeleteWindow i ws))"
    by (rule DeleteWindow_ok [OF assms(2)]) (rule prod.collapse [symmetric])
  show "fst (DeleteWindow i ws) = None \<longleftrightarrow> 0 \<le> i \<and> i < int (length ws)" by (simp add: DeleteWindow_def)
  assume "frozen e t"
  obtain vs where vs: "ws = map Some vs" "list_all (valid_window e) vs"
    using assms(2) by (auto simp: windows_ok_def well_formed_def list_all_iff)
  show "\<exists>b st'. CanSync e isManual (Some ws) st = Ret (Inr b, st')"
    unfolding vs(1) by (rule CanSync_total [OF \<open>frozen e t\<close> vs(2)])
qed


section \<open>A day of windows\<close>

text \<open>
  Schedules that start once a day at a given hour, durations in hours, one time zone two hours ahead of UTC, and a
  clock that stands still.
\<close>

definition hour :: int where "hour = 3600000000000"

definition daily_env :: "Time \<Rightarrow> (int, int, unit) window_env" where
  "daily_env t = \<lparr>
     we_Parse = (\<lambda>s. if s = ''0 8 * * *'' then Inr (8 * hour) else if s = ''0 22 * * *'' then Inr (22 * hour) else Inl (ErrorString ''schedule'')),
     we_Next = (\<lambda>start x. x + 1 + (start - x - 1) mod (24 * hour)),
     we_ParseDuration = (\<lambda>s. if s = ''1h'' then Inr hour else if s = ''8h'' then Inr (8 * hour) else Inl (ErrorString ''duration'')),
     we_LoadLocation = (\<lambda>z. if z = ''UTC'' then Some 0 else if z = ''Europe/Berlin'' then Some 7200 else None),
     we_UTC = 0,
     we_Zone = (\<lambda>loc _. loc),
     we_Now = (\<lambda>st. (t, st)),
     we_patterns = \<lparr>pe_glob = (\<lambda>p _. Some (\<lambda>s. s = p)), pe_regexp2 = (\<lambda>_. None)\<rparr>\<rparr>"

definition sample_window :: "string \<Rightarrow> string \<Rightarrow> string \<Rightarrow> bool \<Rightarrow> SyncWindow" where
  "sample_window k sch dur manual = \<lparr>sw_Kind = k, sw_Schedule = sch, sw_Duration = dur, sw_Applications = [''*''], sw_Namespaces = [],
     sw_Clusters = [], sw_ManualSync = manual, sw_TimeZone = ''Europe/Berlin'', sw_UseAndOperator = False, sw_Description = []\<rparr>"

definition sample_windows :: "SyncWindow list" where
  "sample_windows = [sample_window ''allow'' ''0 8 * * *'' ''8h'' True, sample_window ''deny'' ''0 22 * * *'' ''1h'' False]"

lemma daily_env_frozen: "frozen (daily_env t) t"
  by (simp add: frozen_def daily_env_def)

text \<open>At 10:00 UTC, noon in Berlin, the first window is open; at 17:00 UTC only manual syncs are allowed; at 20:30 UTC none.\<close>

theorem sync_windows_decide_witness:
  "(\<exists>st'. CanSync (daily_env (10 * hour)) False (Some (map Some sample_windows)) () = Ret (Inr True, st')) \<and>
   (\<exists>st'. CanSync (daily_env (17 * hour)) False (Some (map Some sample_windows)) () = Ret (Inr False, st')) \<and>
   (\<exists>st'. CanSync (daily_env (17 * hour)) True (Some (map Some sample_windows)) () = Ret (Inr True, st')) \<and>
   (\<exists>st'. CanSync (daily_env (20 * hour + hour div 2)) True (Some (map Some sample_windows)) () = Ret (Inr False, st'))"
proof (intro conjI)
  have v: "list_all (valid_window (daily_env t)) sample_windows" for t
    by (simp add: sample_windows_def sample_window_def valid_window_def daily_env_def)
  have o10: "map (open_at (daily_env (10 * hour)) (10 * hour)) sample_windows = [True, False]" by code_simp
  have o17: "map (open_at (daily_env (17 * hour)) (17 * hour)) sample_windows = [False, False]" by code_simp
  have o20: "map (open_at (daily_env (20 * hour + hour div 2)) (20 * hour + hour div 2)) sample_windows = [False, True]" by code_simp
  note decide = sync_windows_decide [OF daily_env_frozen, where vs = sample_windows and st = "()"]
  note w = sample_windows_def sample_window_def
  show "\<exists>st'. CanSync (daily_env (10 * hour)) False (Some (map Some sample_windows)) () = Ret (Inr True, st')"
    using decide [of "10 * hour" False] v [of "10 * hour"] o10 by (auto simp: w)
  show "\<exists>st'. CanSync (daily_env (17 * hour)) False (Some (map Some sample_windows)) () = Ret (Inr False, st')"
    using decide [of "17 * hour" False] v [of "17 * hour"] o17 by (auto simp: w)
  show "\<exists>st'. CanSync (daily_env (17 * hour)) True (Some (map Some sample_windows)) () = Ret (Inr True, st')"
    using decide [of "17 * hour" True] v [of "17 * hour"] o17 by (auto simp: w)
  show "\<exists>st'. CanSync (daily_env (20 * hour + hour div 2)) True (Some (map Some sample_windows)) () = Ret (Inr False, st')"
    using decide [of "20 * hour + hour div 2" True] v [of "20 * hour + hour div 2"] o20 by (auto simp: w)
qed

theorem windows_stay_well_formed_witness:
  "windows_ok (daily_env 0) (map Some sample_windows) \<and>
   fst (AddWindow (daily_env 0) ''allow'' ''0 22 * * *'' ''1h'' [''web''] [] [] True [] False [] (map Some sample_windows)) = None \<and>
   windows_ok (daily_env 0) (snd (AddWindow (daily_env 0) ''allow'' ''0 22 * * *'' ''1h'' [''web''] [] [] True [] False [] (map Some sample_windows))) \<and>
   windows_ok (daily_env 0) (snd (DeleteWindow 1 (map Some sample_windows)))"
proof -
  have ok: "windows_ok (daily_env 0) (map Some sample_windows)"
    unfolding windows_ok_def
    by (intro exI [of _ sample_windows] conjI refl) (simp add: sample_windows_def sample_window_def well_formed_def valid_window_def daily_env_def)
  have utc: "we_LoadLocation (daily_env 0) ''UTC'' \<noteq> None" by (simp add: daily_env_def)
  have "fst (AddWindow (daily_env 0) ''allow'' ''0 22 * * *'' ''1h'' [''web''] [] [] True [] False [] (map Some sample_windows)) = None"
    by (simp add: AddWindow_def Validate_def daily_env_def Let_def)
  then show ?thesis using ok windows_stay_well_formed [OF utc ok] by blast
qed


section \<open>When a window is open\<close>

lemma wrap64_id: "MinInt64 \<le> n \<Longrightarrow> n \<le> MaxInt64 \<Longrightarrow> wrap64 n = n"
  by (simp add: wrap64_def MinInt64_def MaxInt64_def)

text \<open>What \<open>Next\<close> of the cron library promises for a schedule with the given starts: the first one after a time, if there is one.\<close>

definition cron_next :: "('s, 'l, 'w) window_env \<Rightarrow> ('s \<Rightarrow> Time \<Rightarrow> bool) \<Rightarrow> bool" where
  "cron_next e starts \<longleftrightarrow> (\<forall>sch x. (\<exists>s. starts sch s \<and> x < s) \<longrightarrow>
     starts sch (we_Next e sch x) \<and> x < we_Next e sch x \<and> (\<forall>s. starts sch s \<and> x < s \<longrightarrow> we_Next e sch x \<le> s))"

text \<open>
  (C19) A window is open from after a start of its schedule until its duration has passed, on the clock of its time zone; both ends
  are excluded. This holds for every duration that the time zone's offset does not push out of the range of
  \<open>int64\<close>, if the schedule has any start after the current time less the duration.
\<close>

theorem window_open_during_its_duration:
  assumes "frozen e t" "cron_next e starts"
    and "we_Parse e (sw_Schedule w) = Inr sch" "we_ParseDuration e (sw_Duration w) = Inr d"
    and "MinInt64 \<le> offset_at e t w - d" "offset_at e t w - d \<le> MaxInt64"
    and "starts sch later" "t + offset_at e t w - d < later"
  shows "\<exists>st'. window_active e t w st =
    (Inr (\<exists>s. starts sch s \<and> s < t + offset_at e t w \<and> t + offset_at e t w < s + d), st')"
proof -
  let ?x = "t + offset_at e t w - d"
  have x: "t + wrap64 (offset_at e t w - d) = ?x" by (simp add: wrap64_id assms(5,6))
  have v: "valid_window e w" by (simp add: valid_window_def assms(3,4))
  have n: "starts sch (we_Next e sch ?x)" "?x < we_Next e sch ?x" "\<And>s. starts sch s \<Longrightarrow> ?x < s \<Longrightarrow> we_Next e sch ?x \<le> s"
    using assms(2,7,8) unfolding cron_next_def by blast+
  have "open_at e t w \<longleftrightarrow> (\<exists>s. starts sch s \<and> s < t + offset_at e t w \<and> t + offset_at e t w < s + d)"
  proof
    assume "open_at e t w"
    then have "we_Next e sch ?x < t + offset_at e t w" by (simp add: open_at_def assms(3,4) x)
    then show "\<exists>s. starts sch s \<and> s < t + offset_at e t w \<and> t + offset_at e t w < s + d" using n(1,2) by force
  next
    assume "\<exists>s. starts sch s \<and> s < t + offset_at e t w \<and> t + offset_at e t w < s + d"
    then show "open_at e t w" using n(3) by (fastforce simp: open_at_def assms(3,4) x)
  qed
  then show ?thesis using window_active_frozen(1) [OF assms(1) v] by simp
qed

lemma daily_next: "cron_next (daily_env t) (\<lambda>sch s. s mod (24 * hour) = sch mod (24 * hour))"
  unfolding cron_next_def
proof (intro allI impI)
  fix sch x :: int
  let ?D = "24 * hour"
  have D: "0 < ?D" by (simp add: hour_def)
  have n: "we_Next (daily_env t) sch x = x + 1 + (sch - x - 1) mod ?D" by (simp add: daily_env_def)
  have "(x + 1 + (sch - x - 1) mod ?D) mod ?D = sch mod ?D" by (simp add: mod_simps)
  moreover have "0 \<le> (sch - x - 1) mod ?D" using D by simp
  moreover have "x + 1 + (sch - x - 1) mod ?D \<le> s" if "s mod ?D = sch mod ?D" "x < s" for s
  proof -
    have "(s - (x + 1)) mod ?D = (sch - (x + 1)) mod ?D" using that(1) by (metis mod_diff_left_eq)
    moreover have "(s - (x + 1)) mod ?D \<le> s - (x + 1)" using that(2) by (intro zmod_le_nonneg_dividend) simp
    ultimately show ?thesis by (simp add: algebra_simps)
  qed
  ultimately show "we_Next (daily_env t) sch x mod ?D = sch mod ?D \<and> x < we_Next (daily_env t) sch x \<and>
    (\<forall>s. s mod ?D = sch mod ?D \<and> x < s \<longrightarrow> we_Next (daily_env t) sch x \<le> s)"
    unfolding n by auto
qed

theorem window_open_during_its_duration_witness:
  "\<exists>st'. window_active (daily_env (10 * hour)) (10 * hour) (sample_window ''allow'' ''0 8 * * *'' ''8h'' True) () =
    (Inr (\<exists>s. s mod (24 * hour) = 8 * hour mod (24 * hour) \<and> s < 12 * hour \<and> 12 * hour < s + 8 * hour), st')"
proof -
  let ?w = "sample_window ''allow'' ''0 8 * * *'' ''8h'' True" and ?t = "10 * hour"
  have off: "offset_at (daily_env ?t) ?t ?w = 2 * hour" by code_simp
  have p: "we_Parse (daily_env ?t) (sw_Schedule ?w) = Inr (8 * hour)" "we_ParseDuration (daily_env ?t) (sw_Duration ?w) = Inr (8 * hour)"
    by (simp_all add: daily_env_def sample_window_def)
  show ?thesis
    using window_open_during_its_duration [OF daily_env_frozen daily_next p, of "8 * hour"]
    by (simp add: off) (simp add: hour_def MinInt64_def MaxInt64_def)
qed

end
