(* ===== verification/AppProject.thy ===== *)
theory AppProject
  imports Clusters SyncWindows GitURL GoFilepath "HOL-Library.AList" "HOL-Library.Multiset"
begin

text \<open>
  Projects: \<open>app_project_types.go\<close> and what \<open>types.go\<close> holds for it (the specification, roles and tokens, the
  validation of roles, policies and groups). A slice for which the code tells nil from empty is an option;
  the map from roles to tokens is an association list with one entry per key.
\<close>

section \<open>Data\<close>

record JWTToken =
  jwt_IssuedAt :: int
  jwt_ExpiresAt :: int
  jwt_ID :: string

record ProjectRole =
  role_Name :: string
  role_Description :: string
  role_Policies :: "string list"
  role_JWTTokens :: "JWTToken list option"
  role_Groups :: "string list"

record GroupKind =
  gk_Group :: string
  gk_Kind :: string

record OrphanedResourceKey =
  ork_Group :: string
  ork_Kind :: string
  ork_Name :: string

record OrphanedResourcesMonitorSettings =
  orm_Warn :: "bool option"
  orm_Ignore :: "OrphanedResourceKey list"

record SignatureKey =
  sk_KeyID :: string

record ApplicationDestinationServiceAccount =
  dsa_Server :: string
  dsa_Namespace :: string
  dsa_DefaultServiceAccount :: string

record AppProjectSpec =
  ps_SourceRepos :: "string list"
  ps_Destinations :: "ApplicationDestination list"
  ps_Description :: string
  ps_Roles :: "ProjectRole list"
  ps_ClusterResourceWhitelist :: "GroupKind list"
  ps_NamespaceResourceBlacklist :: "GroupKind list"
  ps_OrphanedResources :: "OrphanedResourcesMonitorSettings option"
  ps_SyncWindows :: SyncWindows
  ps_NamespaceResourceWhitelist :: "GroupKind list option"
  ps_SignatureKeys :: "SignatureKey list"
  ps_ClusterResourceBlacklist :: "GroupKind list"
  ps_SourceNamespaces :: "string list"
  ps_PermitOnlyProjectScopedClusters :: bool
  ps_DestinationServiceAccounts :: "ApplicationDestinationServiceAccount list"

text \<open>\<open>JWTTokensByRole\<close>: nil, or the tokens (\<open>JWTTokens.Items\<close>) of every role.\<close>

type_synonym tokens_by_role = "(string \<times> JWTToken list option) list"

record AppProject =
  proj_ObjectMeta :: ObjectMeta
  proj_Spec :: AppProjectSpec
  proj_JWTTokensByRole :: "tokens_by_role option"

abbreviation proj_Name :: "AppProject \<Rightarrow> string" where
  "proj_Name proj \<equiv> om_Name (proj_ObjectMeta proj)"

definition with_roles :: "ProjectRole list \<Rightarrow> AppProject \<Rightarrow> AppProject" where
  "with_roles rs proj = proj\<lparr>proj_Spec := (proj_Spec proj)\<lparr>ps_Roles := rs\<rparr>\<rparr>"

text \<open>The elements of a slice that may be nil.\<close>

definition elems :: "'a list option \<Rightarrow> 'a list" where
  "elems s = (case s of None \<Rightarrow> [] | Some xs \<Rightarrow> xs)"

definition IsWarn :: "OrphanedResourcesMonitorSettings \<Rightarrow> bool" where
  "IsWarn s = (case orm_Warn s of None \<Rightarrow> False | Some b \<Rightarrow> b)"

definition DestinationClusters :: "AppProjectSpec \<Rightarrow> string list" where
  "DestinationClusters spec = map dest_Server (ps_Destinations spec)"

definition apostrophes :: "string \<Rightarrow> string" where "apostrophes s = [CHR 0x27] @ s @ [CHR 0x27]"

definition ErrApplicationNotAllowedToUseProject :: "string \<Rightarrow> string \<Rightarrow> string \<Rightarrow> go_error" where
  "ErrApplicationNotAllowedToUseProject application namespace project = ErrorString
     (''application '' @ apostrophes application @ '' in namespace '' @ apostrophes namespace @
      '' is not allowed to use project '' @ project)"

section \<open>Roles and tokens\<close>

definition GetRoleByName :: "AppProject \<Rightarrow> string \<Rightarrow> (ProjectRole \<times> nat) result" where
  "GetRoleByName proj name =
     (case find_index (\<lambda>role. name = role_Name role) (ps_Roles (proj_Spec proj)) of
        Some i \<Rightarrow> Inr (ps_Roles (proj_Spec proj) ! i, i)
      | None \<Rightarrow> Inl (ErrorString (''role '' @ apostrophes name @ '' does not exist in project '' @ apostrophes (proj_Name proj))))"

text \<open>The two loops over tokens of \<open>GetJWTTokenFromSpec\<close> and \<open>GetJWTToken\<close>.\<close>

definition find_token :: "JWTToken list \<Rightarrow> int \<Rightarrow> string \<Rightarrow> nat option" where
  "find_token tokens issuedAt tid =
     (case (if tid \<noteq> [] then find_index (\<lambda>t. tid = jwt_ID t) tokens else None) of
        Some i \<Rightarrow> Some i
      | None \<Rightarrow> (if issuedAt \<noteq> - 1 then find_index (\<lambda>t. issuedAt = jwt_IssuedAt t) tokens else None))"

definition no_token :: "AppProject \<Rightarrow> string \<Rightarrow> int \<Rightarrow> go_error" where
  "no_token proj roleName issuedAt = ErrorString (''JWT token for role '' @ apostrophes roleName @ '' issued at '' @
     apostrophes (int_text issuedAt) @ '' does not exist in project '' @ apostrophes (proj_Name proj))"

definition GetJWTTokenFromSpec :: "AppProject \<Rightarrow> string \<Rightarrow> int \<Rightarrow> string \<Rightarrow> (JWTToken \<times> nat) result" where
  "GetJWTTokenFromSpec proj roleName issuedAt tid =
     (case GetRoleByName proj roleName of
        Inl err \<Rightarrow> Inl err
      | Inr (role, _) \<Rightarrow>
          (case find_token (elems (role_JWTTokens role)) issuedAt tid of
             Some i \<Rightarrow> Inr (elems (role_JWTTokens role) ! i, i)
           | None \<Rightarrow> Inl (no_token proj (role_Name role) issuedAt)))"

definition status_tokens :: "AppProject \<Rightarrow> string \<Rightarrow> JWTToken list option" where
  "status_tokens proj roleName =
     (case proj_JWTTokensByRole proj of None \<Rightarrow> None
      | Some m \<Rightarrow> (case map_of m roleName of None \<Rightarrow> None | Some items \<Rightarrow> items))"

definition GetJWTToken :: "AppProject \<Rightarrow> string \<Rightarrow> int \<Rightarrow> string \<Rightarrow> (JWTToken \<times> nat) result" where
  "GetJWTToken proj roleName issuedAt tid =
     (case find_token (elems (status_tokens proj roleName)) issuedAt tid of
        Some i \<Rightarrow> Inr (elems (status_tokens proj roleName) ! i, i)
      | None \<Rightarrow> Inl (no_token proj roleName issuedAt))"

text \<open>Overwrite an element by the last one and drop that; out of range it panics.\<close>

definition swap_remove :: "'a list \<Rightarrow> nat \<Rightarrow> 'a list go" where
  "swap_remove xs i = (if i < length xs then Ret (butlast (xs[i := last xs])) else Panic IndexOutOfRange)"

definition set_status_tokens :: "string \<Rightarrow> JWTToken list option \<Rightarrow> AppProject \<Rightarrow> AppProject" where
  "set_status_tokens roleName items proj =
     proj\<lparr>proj_JWTTokensByRole := map_option (AList.update roleName items) (proj_JWTTokensByRole proj)\<rparr>"

text \<open>\<open>RemoveJWTToken\<close> has the project as a value, but the slice of roles and the map it changes are shared with the
  caller's. The arrays of the two lists of tokens are not shared with each other, as in a project that was read from the API server.\<close>

definition RemoveJWTToken :: "AppProject \<Rightarrow> int \<Rightarrow> int \<Rightarrow> string \<Rightarrow> (go_error option \<times> AppProject) go" where
  "RemoveJWTToken proj roleIndex issuedAt tid = go_bind (slice_index (ps_Roles (proj_Spec proj)) roleIndex) (\<lambda>role.
     let roleName = role_Name role in
     go_bind (case GetJWTTokenFromSpec proj roleName issuedAt tid of
         Inl err1 \<Rightarrow> Ret (False, proj)
       | Inr (_, i) \<Rightarrow> go_bind (swap_remove (elems (role_JWTTokens role)) i) (\<lambda>ts.
           Ret (True, with_roles ((ps_Roles (proj_Spec proj))[nat roleIndex := role\<lparr>role_JWTTokens := Some ts\<rparr>]) proj)))
     (\<lambda>(inSpec, proj1).
       case GetJWTToken proj1 roleName issuedAt tid of
         Inl err2 \<Rightarrow> Ret (if inSpec then None else Some err2, proj1)
       | Inr (_, i) \<Rightarrow> go_bind (swap_remove (elems (status_tokens proj1 roleName)) i) (\<lambda>ts.
           Ret (None, set_status_tokens roleName (Some ts) proj1))))"

definition ValidateJWTTokenID :: "AppProject \<Rightarrow> string \<Rightarrow> string \<Rightarrow> go_error option" where
  "ValidateJWTTokenID proj roleName tid =
     (case GetRoleByName proj roleName of
        Inl err \<Rightarrow> Some err
      | Inr (role, _) \<Rightarrow>
          if tid = [] then None
          else if list_ex (\<lambda>token. tid = jwt_ID token) (elems (role_JWTTokens role))
          then Some (StatusError InvalidArgument (''Token tid '' @ apostrophes tid @ '' has been used. ''))
          else None)"

definition AddGroupToRole :: "AppProject \<Rightarrow> string \<Rightarrow> string \<Rightarrow> bool result \<times> AppProject" where
  "AddGroupToRole proj roleName grp =
     (case GetRoleByName proj roleName of
        Inl err \<Rightarrow> (Inl err, proj)
      | Inr (role, roleIndex) \<Rightarrow>
          if list_ex (\<lambda>roleGroup. grp = roleGroup) (role_Groups role) then (Inr False, proj)
          else (Inr True, with_roles ((ps_Roles (proj_Spec proj))[roleIndex := role\<lparr>role_Groups := role_Groups role @ [grp]\<rparr>]) proj))"

definition RemoveGroupFromRole :: "AppProject \<Rightarrow> string \<Rightarrow> string \<Rightarrow> bool result \<times> AppProject" where
  "RemoveGroupFromRole proj roleName grp =
     (case GetRoleByName proj roleName of
        Inl err \<Rightarrow> (Inl err, proj)
      | Inr (role, roleIndex) \<Rightarrow>
          (case find_index (\<lambda>roleGroup. grp = roleGroup) (role_Groups role) of
             None \<Rightarrow> (Inr False, proj)
           | Some i \<Rightarrow> (Inr True, with_roles ((ps_Roles (proj_Spec proj))[roleIndex :=
               role\<lparr>role_Groups := take i (role_Groups role) @ drop (i + 1) (role_Groups role)\<rparr>]) proj)))"

section \<open>Tokens in the specification and in the status\<close>

text \<open>
  The order in which a map is iterated and the order of equal elements after \<open>sort.Slice\<close> are not determined.
  The argument \<open>ord\<close> rearranges a list before a stable sort; over all rearrangements this gives all outcomes.
\<close>

definition sort_tokens :: "(JWTToken list \<Rightarrow> JWTToken list) \<Rightarrow> JWTToken list \<Rightarrow> JWTToken list" where
  "sort_tokens ord tokens = sort_key (\<lambda>t. - jwt_IssuedAt t) (ord tokens)"

definition jwtTokensCombine :: "(JWTToken list \<Rightarrow> JWTToken list) \<Rightarrow> JWTToken list \<Rightarrow> JWTToken list \<Rightarrow> JWTToken list option" where
  "jwtTokensCombine ord tokens1 tokens2 =
     (let tokensMap = foldl (\<lambda>m token. AList.update (jwt_ID token) token m) [] (tokens1 @ tokens2);
          tokens = map snd tokensMap
      in if tokens = [] then None else Some (sort_tokens ord tokens))"

definition sync_role :: "(JWTToken list \<Rightarrow> JWTToken list) \<Rightarrow> ProjectRole \<Rightarrow> tokens_by_role option \<Rightarrow> bool \<times> ProjectRole \<times> tokens_by_role" where
  "sync_role ord role byRole =
     (let (m, tokensInStatus) = (case byRole of
             None \<Rightarrow> ([], [])
           | Some m \<Rightarrow> (m, elems (case map_of m (role_Name role) of None \<Rightarrow> None | Some items \<Rightarrow> items)));
          tokensInSpec = elems (role_JWTTokens role);
          tokens = jwtTokensCombine ord tokensInStatus tokensInSpec;
          specItems = map_option (sort_tokens ord) (role_JWTTokens role);
          statusItems = map_option (sort_tokens ord) (case map_of m (role_Name role) of None \<Rightarrow> None | Some items \<Rightarrow> items)
      in (tokens \<noteq> specItems \<or> tokens \<noteq> statusItems, role\<lparr>role_JWTTokens := tokens\<rparr>, AList.update (role_Name role) tokens m))"

fun sync_roles :: "(JWTToken list \<Rightarrow> JWTToken list) \<Rightarrow> ProjectRole list \<Rightarrow> tokens_by_role option \<Rightarrow> bool \<times> ProjectRole list \<times> tokens_by_role option" where
  "sync_roles ord [] byRole = (False, [], byRole)"
| "sync_roles ord (role # roles) byRole =
     (let (need, role', m) = sync_role ord role byRole;
          (need', roles', byRole') = sync_roles ord roles (Some m)
      in (need \<or> need', role' # roles', byRole'))"

definition syncJWTTokenBetweenStatusAndSpec :: "(JWTToken list \<Rightarrow> JWTToken list) \<Rightarrow> AppProject \<Rightarrow> bool \<times> AppProject" where
  "syncJWTTokenBetweenStatusAndSpec ord proj =
     (let existingRole = map role_Name (ps_Roles (proj_Spec proj));
          (need, roles, byRole) = sync_roles ord (ps_Roles (proj_Spec proj)) (proj_JWTTokensByRole proj);
          stale = (case byRole of None \<Rightarrow> [] | Some m \<Rightarrow> filter (\<lambda>(role, _). role \<notin> set existingRole) m);
          byRole' = map_option (filter (\<lambda>(role, _). role \<in> set existingRole)) byRole
      in (need \<or> stale \<noteq> [], (with_roles roles proj)\<lparr>proj_JWTTokensByRole := byRole'\<rparr>))"

definition with_ID :: "JWTToken \<Rightarrow> JWTToken" where
  "with_ID token = (if jwt_ID token = [] then token\<lparr>jwt_ID := int_text (jwt_IssuedAt token)\<rparr> else token)"

definition lacks_ID :: "JWTToken list option \<Rightarrow> bool" where
  "lacks_ID tokens = list_ex (\<lambda>token. jwt_ID token = []) (elems tokens)"

definition NormalizeJWTTokens :: "(JWTToken list \<Rightarrow> JWTToken list) \<Rightarrow> AppProject \<Rightarrow> bool \<times> AppProject" where
  "NormalizeJWTTokens ord proj =
     (let roles = ps_Roles (proj_Spec proj);
          byRole = proj_JWTTokensByRole proj;
          needNormalize = (list_ex (\<lambda>role. lacks_ID (role_JWTTokens role)) roles \<or>
            (case byRole of None \<Rightarrow> False | Some m \<Rightarrow> list_ex (\<lambda>(_, items). lacks_ID items) m));
          roles' = map (\<lambda>role. role\<lparr>role_JWTTokens := map_option (map with_ID) (role_JWTTokens role)\<rparr>) roles;
          byRole' = map_option (map (\<lambda>(role, items). (role, map_option (map with_ID) items))) byRole;
          (needSync, proj') = syncJWTTokenBetweenStatusAndSpec ord ((with_roles roles' proj)\<lparr>proj_JWTTokensByRole := byRole'\<rparr>)
      in (needNormalize \<or> needSync, proj'))"


section \<open>Policies\<close>

text \<open>\<open>strings.Trim(s, " ")\<close> and \<open>strings.ContainsAny\<close>.\<close>

definition trim_spaces :: "string \<Rightarrow> string" where
  "trim_spaces s = rev (dropWhile (\<lambda>c. c = CHR '' '') (rev (dropWhile (\<lambda>c. c = CHR '' '') s)))"

definition strings_ContainsAny :: "string \<Rightarrow> string \<Rightarrow> bool" where
  "strings_ContainsAny s chars = list_ex (\<lambda>c. c \<in> set chars) s"

definition normalizePolicy :: "string \<Rightarrow> string" where
  "normalizePolicy policy =
     foldl (\<lambda>normalized component. if normalized = [] then component else normalized @ '', '' @ trim_spaces component)
       [] (strings_Split CHR '','' policy)"

definition NormalizePolicies :: "AppProject \<Rightarrow> AppProject" where
  "NormalizePolicies proj =
     with_roles (map (\<lambda>role. role\<lparr>role_Policies := map normalizePolicy (role_Policies role)\<rparr>) (ps_Roles (proj_Spec proj))) proj"

definition role_policies :: "AppProject \<Rightarrow> ProjectRole \<Rightarrow> string list" where
  "role_policies proj role =
     (''p, proj:'' @ proj_Name proj @ '':'' @ role_Name role @ '', projects, get, '' @ proj_Name proj @ '', allow'') #
     role_Policies role @
     map (\<lambda>groupName. ''g, '' @ groupName @ '', proj:'' @ proj_Name proj @ '':'' @ role_Name role) (role_Groups role)"

definition ProjectPoliciesString :: "AppProject \<Rightarrow> string" where
  "ProjectPoliciesString proj = strings_Join (concat (map (role_policies proj) (ps_Roles (proj_Spec proj)))) [CHR 0x0A]"

section \<open>Validation\<close>

text \<open>\<open>rbac.ProjectScoped\<close> and \<open>validActions\<close>.\<close>

definition ProjectScoped :: "string list" where
  "ProjectScoped = [''applications'', ''applicationsets'', ''logs'', ''exec'', ''clusters'', ''repositories'']"

definition validActions :: "string list" where
  "validActions = [''get'', ''create'', ''update'', ''delete'', ''sync'', ''override'', ''*'']"

text \<open>The patterns of \<open>validActionPatterns\<close> are not anchored, so that they match anywhere in the text.\<close>

definition isValidAction :: "string \<Rightarrow> bool" where
  "isValidAction action \<longleftrightarrow> action \<in> set validActions \<or>
     list_ex (strings_Contains action) [''action/'', ''update/'', ''delete/'']"

text \<open>
  The expression \<open>^<proj>(/[*\w-.]+)?/[*\w-.]+$\<close>: the project, quoted, and one or two non-empty parts, each after a slash;
  no part contains a slash.
\<close>

definition object_char :: "char \<Rightarrow> bool" where
  "object_char c \<longleftrightarrow> c \<in> {CHR ''*'', CHR ''_'', CHR ''-'', CHR ''.''} \<or> 0x30 \<le> byte c \<and> byte c \<le> 0x39 \<or>
     0x41 \<le> byte c \<and> byte c \<le> 0x5A \<or> 0x61 \<le> byte c \<and> byte c \<le> 0x7A"

definition isValidObject :: "string \<Rightarrow> string \<Rightarrow> bool" where
  "isValidObject proj object \<longleftrightarrow> strings_HasPrefix object proj \<and>
     (case strings_Split CHR ''/'' (drop (length proj) object) of
        first # parts \<Rightarrow> first = [] \<and> length parts \<in> {1, 2} \<and> list_all (\<lambda>p. p \<noteq> [] \<and> list_all object_char p) parts
      | [] \<Rightarrow> False)"

definition invalid_policy :: "string \<Rightarrow> string \<Rightarrow> go_error" where
  "invalid_policy policy why = StatusError InvalidArgument (''invalid policy rule '' @ apostrophes policy @ '': '' @ why)"

definition validatePolicy :: "string \<Rightarrow> string \<Rightarrow> string \<Rightarrow> go_error option" where
  "validatePolicy proj role policy =
     (let policyComponents = map trim_spaces (strings_Split CHR '','' policy) in
      if length policyComponents \<noteq> 6 \<or> policyComponents ! 0 \<noteq> ''p''
      then Some (invalid_policy policy (''must be of the form: '' @ apostrophes ''p, sub, res, act, obj, eft''))
      else
        let subject = policyComponents ! 1; expectedSubject = ''proj:'' @ proj @ '':'' @ role;
            resource = policyComponents ! 2; action = policyComponents ! 3; object = policyComponents ! 4; effect = policyComponents ! 5
        in if subject \<noteq> expectedSubject
           then Some (invalid_policy policy (''policy subject must be: '' @ apostrophes expectedSubject @ '', not '' @ apostrophes subject))
           else if resource \<notin> set ProjectScoped
           then Some (invalid_policy policy (''project resource must be: '' @ apostrophes ''applications'' @ '', '' @ apostrophes ''applicationsets'' @
             '', '' @ apostrophes ''repositories'' @ '', '' @ apostrophes ''exec'' @ '', '' @ apostrophes ''logs'' @ '' or '' @
             apostrophes ''clusters'' @ '', not '' @ apostrophes resource))
           else if \<not> isValidAction action
           then Some (invalid_policy policy (''invalid action '' @ apostrophes action))
           else if \<not> isValidObject proj object
           then Some (invalid_policy policy (''object must be of form '' @ apostrophes (proj @ ''/*'') @ '', '' @
             apostrophes (proj @ ''[/<NAMESPACE>]/<APPNAME>'') @ '' or '' @ apostrophes (proj @ ''/<APPNAME>'') @ '', not '' @ apostrophes object))
           else if effect \<noteq> ''allow'' \<and> effect \<noteq> ''deny''
           then Some (invalid_policy policy (''effect must be: '' @ apostrophes ''allow'' @ '' or '' @ apostrophes ''deny''))
           else None)"

text \<open>The expression \<open>^[a-zA-Z0-9]([-_a-zA-Z0-9]*[a-zA-Z0-9])?$\<close>.\<close>

definition alphanumeric :: "char \<Rightarrow> bool" where
  "alphanumeric c \<longleftrightarrow> 0x30 \<le> byte c \<and> byte c \<le> 0x39 \<or> 0x41 \<le> byte c \<and> byte c \<le> 0x5A \<or> 0x61 \<le> byte c \<and> byte c \<le> 0x7A"

definition roleNameRegexp :: "string \<Rightarrow> bool" where
  "roleNameRegexp name \<longleftrightarrow> name \<noteq> [] \<and> alphanumeric (hd name) \<and> alphanumeric (last name) \<and>
     list_all (\<lambda>c. c = CHR ''-'' \<or> c = CHR ''_'' \<or> alphanumeric c) name"

definition validateRoleName :: "string \<Rightarrow> go_error option" where
  "validateRoleName name =
     (if \<not> roleNameRegexp name
      then Some (StatusError InvalidArgument (''invalid role name '' @ apostrophes name @ ''. Must consist of alphanumeric characters, '' @
        apostrophes ''-'' @ '' or '' @ apostrophes ''_'' @ '', and must start and end with an alphanumeric character''))
      else None)"

text \<open>\<open>[]rune(s)\<close> and \<open>unicode.IsSpace\<close>.\<close>

function runes :: "string \<Rightarrow> nat list" where
  "runes s = (if s = [] then [] else (let (r, width) = utf8_DecodeRune s in r # runes (drop width s)))"
  by pat_completeness auto
termination
  by (relation "measure length") (use DecodeRune_width in \<open>fastforce simp: prod_eq_iff\<close>)+

declare runes.simps [simp del]

definition unicode_IsSpace :: "nat \<Rightarrow> bool" where
  "unicode_IsSpace r \<longleftrightarrow> (if r < 0x80 then 0x09 \<le> r \<and> r \<le> 0x0D \<or> r = 0x20
     else r = 0x85 \<or> r = 0xA0 \<or> r = 0x1680 \<or> 0x2000 \<le> r \<and> r \<le> 0x200A \<or> r = 0x2028 \<or> r = 0x2029 \<or> r = 0x202F \<or>
       r = 0x205F \<or> r = 0x3000)"

definition validateGroupName :: "string \<Rightarrow> go_error option" where
  "validateGroupName name0 =
     (let n = runes name0; trimmed = strings_TrimSpace name0;
          quotedName = (1 < length trimmed \<and> strings_HasPrefix trimmed [CHR 0x22] \<and> strings_HasSuffix trimmed [CHR 0x22]);
          name = (if quotedName then take (length trimmed - 2) (drop 1 trimmed) else trimmed)
      in if \<not> quotedName \<and> strings_Contains name '',''
         then Some (StatusError InvalidArgument (''group '' @ apostrophes name @ '' must be quoted''))
         else if name = [] then Some (StatusError InvalidArgument (''group '' @ apostrophes name @ '' is empty''))
         else if strings_ContainsAny name [CHR 0x22, CHR 0x0A, CHR 0x0D, CHR 0x09]
         then Some (StatusError InvalidArgument (''group '' @ apostrophes name @ '' contains invalid characters''))
         else if 1 < length n \<and> unicode_IsSpace (hd n)
         then Some (StatusError InvalidArgument (''group '' @ apostrophes name @ '' contains a leading space''))
         else if 1 < length n \<and> unicode_IsSpace (last n)
         then Some (StatusError InvalidArgument (''group '' @ apostrophes name @ '' contains a trailing space''))
         else None)"


text \<open>The loops of \<open>ValidateProject\<close>. The maps that remember what was seen are lists.\<close>

definition invalid_format :: "string \<Rightarrow> string \<Rightarrow> go_error" where
  "invalid_format what v = StatusError InvalidArgument (what @ '' has an invalid format, '' @ apostrophes v)"

definition destination_key :: "ApplicationDestination \<Rightarrow> string" where
  "destination_key dest =
     (if dest_Server dest = [] \<and> dest_Name dest \<noteq> [] then dest_Name dest @ ''/'' @ dest_Namespace dest
      else dest_Server dest @ ''/'' @ dest_Namespace dest)"

fun validate_destinations :: "ApplicationDestination list \<Rightarrow> string list \<Rightarrow> go_error option" where
  "validate_destinations [] destKeys = None"
| "validate_destinations (dest # dests) destKeys =
     (if dest_Name dest = ''!*'' then Some (invalid_format ''name'' ''!*'')
      else if dest_Server dest = ''!*'' then Some (invalid_format ''server'' ''!*'')
      else if dest_Namespace dest = ''!*'' then Some (invalid_format ''namespace'' ''!*'')
      else if destination_key dest \<in> set destKeys
      then Some (StatusError InvalidArgument (''destination '' @ apostrophes (destination_key dest) @ '' already added''))
      else validate_destinations dests (destination_key dest # destKeys))"

fun validate_source_namespaces :: "string list \<Rightarrow> string list \<Rightarrow> go_error option" where
  "validate_source_namespaces [] seen = None"
| "validate_source_namespaces (ns # nss) seen =
     (if ns \<in> set seen then Some (StatusError InvalidArgument (''source namespace '' @ apostrophes ns @ '' already added''))
      else validate_source_namespaces nss (ns # seen))"

fun validate_source_repos :: "string list \<Rightarrow> string list \<Rightarrow> go_error option" where
  "validate_source_repos [] seen = None"
| "validate_source_repos (src # srcs) seen =
     (if src = ''!*'' then Some (invalid_format ''source repository'' ''!*'')
      else if src \<in> set seen then Some (StatusError InvalidArgument (''source repository '' @ apostrophes src @ '' already added''))
      else validate_source_repos srcs (src # seen))"

fun validate_policies :: "string \<Rightarrow> string \<Rightarrow> string list \<Rightarrow> string list \<Rightarrow> go_error option" where
  "validate_policies proj role [] seen = None"
| "validate_policies proj role (policy # policies) seen =
     (if policy \<in> set seen
      then Some (StatusError AlreadyExists (''policy '' @ apostrophes policy @ '' already exists for role '' @ apostrophes role))
      else case validatePolicy proj role policy of
        Some err \<Rightarrow> Some err
      | None \<Rightarrow> validate_policies proj role policies (policy # seen))"

fun validate_groups :: "string \<Rightarrow> string list \<Rightarrow> string list \<Rightarrow> go_error option" where
  "validate_groups role [] seen = None"
| "validate_groups role (grp # groups) seen =
     (if grp \<in> set seen
      then Some (StatusError AlreadyExists (''group '' @ apostrophes grp @ '' already exists for role '' @ apostrophes role))
      else case validateGroupName grp of
        Some err \<Rightarrow> Some err
      | None \<Rightarrow> validate_groups role groups (grp # seen))"

fun validate_roles :: "string \<Rightarrow> ProjectRole list \<Rightarrow> string list \<Rightarrow> go_error option" where
  "validate_roles proj [] seen = None"
| "validate_roles proj (role # roles) seen =
     (if role_Name role \<in> set seen
      then Some (StatusError AlreadyExists (''role '' @ apostrophes (role_Name role) @ '' already exists''))
      else case validateRoleName (role_Name role) of Some err \<Rightarrow> Some err | None \<Rightarrow>
     (case validate_policies proj (role_Name role) (role_Policies role) [] of Some err \<Rightarrow> Some err | None \<Rightarrow>
     (case validate_groups (role_Name role) (role_Groups role) [] of Some err \<Rightarrow> Some err | None \<Rightarrow>
        validate_roles proj roles (role_Name role # seen))))"

definition window_key :: "SyncWindow \<Rightarrow> string" where
  "window_key w = sw_Kind w @ sw_Schedule w @ sw_Duration w"

definition window_error :: "grpc_code \<Rightarrow> SyncWindow \<Rightarrow> string \<Rightarrow> go_error" where
  "window_error c w t = StatusError c (''window '' @ apostrophes (sw_Kind w) @ '':'' @ apostrophes (sw_Schedule w) @ '':'' @
     apostrophes (sw_Duration w) @ t)"

text \<open>\<open>window.Validate\<close> changes the window, which is shared with the project.\<close>

fun validate_windows :: "('s, 'l, 'w) window_env \<Rightarrow> SyncWindows \<Rightarrow> string list \<Rightarrow> go_error option \<times> SyncWindows" where
  "validate_windows e [] seen = (None, [])"
| "validate_windows e (None # ws) seen = (case validate_windows e ws seen of (err, ws') \<Rightarrow> (err, None # ws'))"
| "validate_windows e (Some w # ws) seen =
     (if window_key w \<in> set seen then (Some (window_error AlreadyExists w '' already exists, update or edit''), Some w # ws)
      else case Validate e w of
        (Some err, w') \<Rightarrow> (Some err, Some w' # ws)
      | (None, w') \<Rightarrow>
          if sw_Applications w' = [] \<and> sw_Namespaces w' = [] \<and> sw_Clusters w' = []
          then (Some (window_error OutOfRange w' '' requires one of application, cluster or namespace''), Some w' # ws)
          else (case validate_windows e ws (window_key w' # seen) of (err, ws') \<Rightarrow> (err, Some w' # ws')))"

definition serviceAccountDisallowedCharSet :: string where
  "serviceAccountDisallowedCharSet = ''!*[]{}'' @ [CHR 0x5C] @ ''/''"

fun validate_service_accounts :: "pattern_env \<Rightarrow> ApplicationDestinationServiceAccount list \<Rightarrow> string list \<Rightarrow> go_error option" where
  "validate_service_accounts e [] seen = None"
| "validate_service_accounts e (a # as) seen =
     (if strings_Contains (dsa_Server a) ''!'' then Some (invalid_format ''server'' (dsa_Server a))
      else if strings_Contains (dsa_Namespace a) ''!'' then Some (invalid_format ''namespace'' (dsa_Namespace a))
      else if trim_spaces (dsa_DefaultServiceAccount a) = [] \<or>
        strings_ContainsAny (dsa_DefaultServiceAccount a) serviceAccountDisallowedCharSet
      then Some (invalid_format ''defaultServiceAccount'' (dsa_DefaultServiceAccount a))
      else if pe_glob e (dsa_Server a) [] = None then Some (invalid_format ''server'' (dsa_Server a))
      else if pe_glob e (dsa_Namespace a) [] = None then Some (invalid_format ''namespace'' (dsa_Namespace a))
      else if dsa_Server a @ ''/'' @ dsa_Namespace a \<in> set seen
      then Some (StatusError InvalidArgument (''destinationServiceAccount '' @ apostrophes (dsa_Server a @ ''/'' @ dsa_Namespace a) @ '' already added''))
      else validate_service_accounts e as ((dsa_Server a @ ''/'' @ dsa_Namespace a) # seen))"

definition ValidateProject :: "('s, 'l, 'w) window_env \<Rightarrow> AppProject \<Rightarrow> go_error option \<times> AppProject" where
  "ValidateProject e proj =
     (let spec = proj_Spec proj in
      case validate_destinations (ps_Destinations spec) [] of Some err \<Rightarrow> (Some err, proj) | None \<Rightarrow>
     (case validate_source_namespaces (ps_SourceNamespaces spec) [] of Some err \<Rightarrow> (Some err, proj) | None \<Rightarrow>
     (case validate_source_repos (ps_SourceRepos spec) [] of Some err \<Rightarrow> (Some err, proj) | None \<Rightarrow>
     (case validate_roles (proj_Name proj) (ps_Roles spec) [] of Some err \<Rightarrow> (Some err, proj) | None \<Rightarrow>
     (case validate_windows e (ps_SyncWindows spec) [] of (werr, ws) \<Rightarrow>
        let proj' = proj\<lparr>proj_Spec := spec\<lparr>ps_SyncWindows := ws\<rparr>\<rparr> in
        case werr of
          Some err \<Rightarrow> (Some err, proj')
        | None \<Rightarrow> (validate_service_accounts (we_patterns e) (ps_DestinationServiceAccounts spec) [], proj'))))))"

section \<open>Permissions\<close>

fun isResourceInList :: "GroupKind \<Rightarrow> GroupKind list \<Rightarrow> bool" where
  "isResourceInList res [] = False"
| "isResourceInList res (item # list) =
     (if filepath_Match (gk_Kind item) (gk_Kind res) = Some True \<and> filepath_Match (gk_Group item) (gk_Group res) = Some True
      then True else isResourceInList res list)"

definition IsGroupKindPermitted :: "AppProject \<Rightarrow> GroupKind \<Rightarrow> bool \<Rightarrow> bool" where
  "IsGroupKindPermitted proj res namespaced =
     (let spec = proj_Spec proj in
      if namespaced then
        let isWhiteListed = (case ps_NamespaceResourceWhitelist spec of None \<Rightarrow> True | Some l \<Rightarrow> length l \<noteq> 0 \<and> isResourceInList res l);
            isBlackListed = (length (ps_NamespaceResourceBlacklist spec) \<noteq> 0 \<and> isResourceInList res (ps_NamespaceResourceBlacklist spec))
        in isWhiteListed \<and> \<not> isBlackListed
      else
        let isWhiteListed = (length (ps_ClusterResourceWhitelist spec) \<noteq> 0 \<and> isResourceInList res (ps_ClusterResourceWhitelist spec));
            isBlackListed = (length (ps_ClusterResourceBlacklist spec) \<noteq> 0 \<and> isResourceInList res (ps_ClusterResourceBlacklist spec))
        in isWhiteListed \<and> \<not> isBlackListed)"

fun source_loop :: "pattern_env \<Rightarrow> (string \<Rightarrow> string) \<Rightarrow> string \<Rightarrow> string list \<Rightarrow> bool \<Rightarrow> bool" where
  "source_loop e normal_url src [] anySourceMatched = anySourceMatched"
| "source_loop e normal_url src (repoURL # repos) anySourceMatched =
     (let normalized = (if isDenyPattern repoURL then ''!'' @ normal_url (strings_TrimPrefix repoURL ''!'') else normal_url repoURL)
      in if globMatch e normalized src True ''/'' then source_loop e normal_url src repos True
         else if isDenyPattern normalized then False
         else source_loop e normal_url src repos anySourceMatched)"

definition IsSourcePermitted :: "pattern_env \<Rightarrow> (string \<Rightarrow> string option) \<Rightarrow> AppProject \<Rightarrow> ApplicationSource \<Rightarrow> bool" where
  "IsSourcePermitted e url_String proj src =
     source_loop e (NormalizeGitURL url_String) (NormalizeGitURL url_String (src_RepoURL src)) (ps_SourceRepos (proj_Spec proj)) False"

text \<open>The three tests and the switch of \<open>isDestinationMatched\<close>; \<open>&&\<close> binds more tightly than \<open>||\<close>.\<close>

definition name_matched :: "pattern_env \<Rightarrow> ApplicationDestination \<Rightarrow> ApplicationDestination \<Rightarrow> bool" where
  "name_matched e dst item \<longleftrightarrow> dest_Name dst \<noteq> [] \<and> globMatch e (dest_Name item) (dest_Name dst) True []"

definition server_matched :: "pattern_env \<Rightarrow> ApplicationDestination \<Rightarrow> ApplicationDestination \<Rightarrow> bool" where
  "server_matched e dst item \<longleftrightarrow> dest_Server dst \<noteq> [] \<and> globMatch e (dest_Server item) (dest_Server dst) True []"

definition namespace_matched :: "pattern_env \<Rightarrow> ApplicationDestination \<Rightarrow> ApplicationDestination \<Rightarrow> bool" where
  "namespace_matched e dst item \<longleftrightarrow> globMatch e (dest_Namespace item) (dest_Namespace dst) True []"

definition destination_matched :: "pattern_env \<Rightarrow> ApplicationDestination \<Rightarrow> ApplicationDestination \<Rightarrow> bool" where
  "destination_matched e dst item \<longleftrightarrow> (server_matched e dst item \<or> name_matched e dst item) \<and> namespace_matched e dst item"

definition destination_rejected :: "pattern_env \<Rightarrow> ApplicationDestination \<Rightarrow> ApplicationDestination \<Rightarrow> bool" where
  "destination_rejected e dst item \<longleftrightarrow>
     (\<not> name_matched e dst item \<and> isDenyPattern (dest_Name item)) \<or>
     (\<not> server_matched e dst item \<and> isDenyPattern (dest_Server item)) \<and> namespace_matched e dst item \<or>
     \<not> namespace_matched e dst item \<and> isDenyPattern (dest_Namespace item) \<and> server_matched e dst item"

fun destination_loop :: "pattern_env \<Rightarrow> ApplicationDestination \<Rightarrow> ApplicationDestination list \<Rightarrow> bool \<Rightarrow> bool" where
  "destination_loop e dst [] anyDestinationMatched = anyDestinationMatched"
| "destination_loop e dst (item # items) anyDestinationMatched =
     (if destination_matched e dst item then destination_loop e dst items True
      else if destination_rejected e dst item then False
      else destination_loop e dst items anyDestinationMatched)"

definition isDestinationMatched :: "pattern_env \<Rightarrow> AppProject \<Rightarrow> ApplicationDestination \<Rightarrow> bool" where
  "isDestinationMatched e proj dst = destination_loop e dst (ps_Destinations (proj_Spec proj)) False"

definition IsDestinationPermitted :: "pattern_env \<Rightarrow> AppProject \<Rightarrow> Cluster option \<Rightarrow> string \<Rightarrow> (string \<Rightarrow> Cluster list result) \<Rightarrow> bool result" where
  "IsDestinationPermitted e proj destCluster destNamespace projectClusters =
     (case destCluster of
        None \<Rightarrow> Inr False
      | Some c \<Rightarrow>
          let dst = \<lparr>dest_Server = cl_Server c, dest_Namespace = destNamespace, dest_Name = cl_Name c\<rparr>;
              destinationMatched = isDestinationMatched e proj dst
          in if destinationMatched \<and> ps_PermitOnlyProjectScopedClusters (proj_Spec proj)
             then (case projectClusters (proj_Name proj) of
                     Inl err \<Rightarrow> Inl (Wrapped ''could not retrieve project clusters'' err)
                   | Inr clusters \<Rightarrow> Inr (list_ex (\<lambda>k. cl_Name k = dest_Name dst \<or> cl_Server k = dest_Server dst) clusters))
             else Inr destinationMatched)"

definition IsResourcePermitted :: "pattern_env \<Rightarrow> AppProject \<Rightarrow> GroupKind \<Rightarrow> string \<Rightarrow> Cluster option \<Rightarrow> (string \<Rightarrow> Cluster list result) \<Rightarrow> bool result" where
  "IsResourcePermitted e proj groupKind namespace destCluster projectClusters =
     (if \<not> IsGroupKindPermitted proj groupKind (namespace \<noteq> []) then Inr False
      else if namespace \<noteq> [] then IsDestinationPermitted e proj destCluster namespace projectClusters
      else Inr True)"

text \<open>A live resource is given by its group and kind and its namespace.\<close>

definition IsLiveResourcePermitted :: "pattern_env \<Rightarrow> AppProject \<Rightarrow> GroupKind \<times> string \<Rightarrow> Cluster option \<Rightarrow> (string \<Rightarrow> Cluster list result) \<Rightarrow> bool result" where
  "IsLiveResourcePermitted e proj un destCluster projectClusters = IsResourcePermitted e proj (fst un) (snd un) destCluster projectClusters"

definition HasFinalizer :: "AppProject \<Rightarrow> bool" where
  "HasFinalizer proj \<longleftrightarrow> - 1 < getFinalizerIndex (om_Finalizers (proj_ObjectMeta proj)) ResourcesFinalizerName"

definition RemoveFinalizer :: "AppProject \<Rightarrow> AppProject" where
  "RemoveFinalizer proj =
     (let fs = om_Finalizers (proj_ObjectMeta proj)
      in proj\<lparr>proj_ObjectMeta := (proj_ObjectMeta proj)\<lparr>om_Finalizers :=
           live (setFinalizer \<lparr>fs_array = fs, fs_len = length fs\<rparr> ResourcesFinalizerName False)\<rparr>\<rparr>)"

definition IsAppNamespacePermitted :: "pattern_env \<Rightarrow> AppProject \<Rightarrow> Application \<Rightarrow> string \<Rightarrow> bool go" where
  "IsAppNamespacePermitted e proj app controllerNs =
     (if app_Namespace app = [] \<or> app_Namespace app = controllerNs then Ret True
      else MatchStringInList e (ps_SourceNamespaces (proj_Spec proj)) (app_Namespace app) REGEXP)"

end
