(* ===== verification/ProjectLaws.thy ===== *)
theory ProjectLaws
  imports AppProject
begin

text \<open>
  What the operations of \<open>AppProject\<close> guarantee: which sources and destinations a project permits, what a
  project that passed validation looks like, that groups and tokens are kept consistently.
\<close>

section \<open>Sources and destinations\<close>

definition normal_pattern :: "(string \<Rightarrow> string) \<Rightarrow> string \<Rightarrow> string" where
  "normal_pattern normal_url repoURL =
     (if isDenyPattern repoURL then ''!'' @ normal_url (strings_TrimPrefix repoURL ''!'') else normal_url repoURL)"

lemma source_loop_spec:
  "source_loop e n src repos b \<longleftrightarrow>
     (b \<or> (\<exists>r \<in> set repos. globMatch e (normal_pattern n r) src True ''/'')) \<and>
     (\<forall>r \<in> set repos. isDenyPattern (normal_pattern n r) \<longrightarrow> globMatch e (normal_pattern n r) src True ''/'')"
  by (induction repos arbitrary: b) (auto simp: Let_def normal_pattern_def)

lemma destination_loop_spec:
  "destination_loop e dst items b \<longleftrightarrow>
     (b \<or> (\<exists>i \<in> set items. destination_matched e dst i)) \<and>
     (\<forall>i \<in> set items. destination_rejected e dst i \<longrightarrow> destination_matched e dst i)"
  by (induction items arbitrary: b) auto

text \<open>Patterns that only forbid allow everything they do not forbid.\<close>

lemma deny_pattern_allows_the_rest:
  assumes "ps_SourceRepos (proj_Spec proj) = [''!'' @ p]"
  shows "IsSourcePermitted e u proj src \<longleftrightarrow> \<not> glob_Match e (NormalizeGitURL u p) (NormalizeGitURL u (src_RepoURL src)) ''/''"
  using assms by (simp add: IsSourcePermitted_def source_loop_spec normal_pattern_def isDenyPattern_def globMatch_def strings_TrimPrefix_def)

text \<open>
  A namespace that is forbidden in a destination given by the name of its cluster is not rejected, if another
  destination matches: the switch looks at the server only.
\<close>

lemma namespace_deny_by_name_is_ignored:
  assumes "dest_Server item = []" "dest_Namespace item = ''!'' @ ns" "\<not> isDenyPattern (dest_Name item)"
    and "\<not> globMatch e [] (dest_Server dst) True []" "destination_matched e dst other"
  shows "destination_loop e dst [other, item] False"
proof -
  have "\<not> destination_rejected e dst item"
    using assms(1-4) by (auto simp: destination_rejected_def server_matched_def isDenyPattern_def)
  then show ?thesis using assms(5) by (simp add: destination_loop_spec)
qed


section \<open>Groups\<close>

lemma GetRoleByName_Inr:
  assumes "GetRoleByName proj name = Inr (role, i)"
  shows "i < length (ps_Roles (proj_Spec proj))" "role = ps_Roles (proj_Spec proj) ! i" "role_Name role = name"
    "find_index (\<lambda>r. name = role_Name r) (ps_Roles (proj_Spec proj)) = Some i"
  using assms find_index_Some by (fastforce simp: GetRoleByName_def split: option.splits)+

lemma GetRoleByName_with_role:
  assumes "GetRoleByName proj name = Inr (role, i)" "role_Name role' = name"
  shows "GetRoleByName (with_roles ((ps_Roles (proj_Spec proj))[i := role']) proj) name = Inr (role', i)"
proof -
  let ?rs = "ps_Roles (proj_Spec proj)"
  note f = find_index_Some [OF GetRoleByName_Inr(4) [OF assms(1)]]
  have "find_index (\<lambda>r. name = role_Name r) (?rs[i := role']) = Some i"
    by (rule find_index_eqI) (use f assms(2) in \<open>auto simp: nth_list_update\<close>)
  then show ?thesis using f by (simp add: GetRoleByName_def with_roles_def)
qed

lemma with_roles_simps [simp]:
  "ps_Roles (proj_Spec (with_roles rs proj)) = rs" "with_roles rs (with_roles rs' proj) = with_roles rs proj"
  "with_roles (ps_Roles (proj_Spec proj)) proj = proj" "proj_ObjectMeta (with_roles rs proj) = proj_ObjectMeta proj"
  "proj_JWTTokensByRole (with_roles rs proj) = proj_JWTTokensByRole proj"
  by (simp_all add: with_roles_def)

text \<open>
  Groups of a role form a set. Adding one that is there changes nothing; adding one that is not and removing it again gives
  back the project; without a role of that name both fail and change nothing.
\<close>

theorem groups_of_role_round_trip:
  "(case AddGroupToRole proj roleName g of
     (Inl err, proj') \<Rightarrow> proj' = proj \<and> RemoveGroupFromRole proj roleName g = (Inl err, proj)
   | (Inr False, proj') \<Rightarrow> proj' = proj \<and> (\<exists>role i. GetRoleByName proj roleName = Inr (role, i) \<and> g \<in> set (role_Groups role))
   | (Inr True, proj') \<Rightarrow> RemoveGroupFromRole proj' roleName g = (Inr True, proj) \<and> RemoveGroupFromRole proj roleName g = (Inr False, proj))"
proof (cases "GetRoleByName proj roleName")
  case (Inl err)
  then show ?thesis by (simp add: AddGroupToRole_def RemoveGroupFromRole_def)
next
  case (Inr a)
  then obtain role i where r: "GetRoleByName proj roleName = Inr (role, i)" by (cases a) auto
  note role = GetRoleByName_Inr [OF r]
  show ?thesis
  proof (cases "g \<in> set (role_Groups role)")
    case True
    then show ?thesis using r by (auto simp: AddGroupToRole_def list_ex_iff)
  next
    case False
    let ?role' = "role\<lparr>role_Groups := role_Groups role @ [g]\<rparr>"
    have new: "find_index (\<lambda>x. g = x) (role_Groups role @ [g]) = Some (length (role_Groups role))"
      by (rule find_index_eqI) (use False in \<open>auto simp: nth_append in_set_conv_nth\<close>)
    have old: "find_index (\<lambda>x. g = x) (role_Groups role) = None" using False by (auto simp: find_index_None)
    have "GetRoleByName (with_roles ((ps_Roles (proj_Spec proj))[i := ?role']) proj) roleName = Inr (?role', i)"
      by (rule GetRoleByName_with_role [OF r]) (simp add: role(3))
    moreover have "AddGroupToRole proj roleName g = (Inr True, with_roles ((ps_Roles (proj_Spec proj))[i := ?role']) proj)"
      using False by (simp add: AddGroupToRole_def r list_ex_iff)
    moreover have "(ps_Roles (proj_Spec proj))[i := role] = ps_Roles (proj_Spec proj)" using role(2) by simp
    ultimately show ?thesis by (simp add: RemoveGroupFromRole_def r new old)
  qed
qed

section \<open>Validated projects\<close>

lemma validatePolicy_ok:
  assumes "validatePolicy proj role policy = None"
  obtains res act obj eff where
    "map trim_spaces (strings_Split CHR '','' policy) = [''p'', ''proj:'' @ proj @ '':'' @ role, res, act, obj, eff]"
    "res \<in> set ProjectScoped" "isValidAction act" "isValidObject proj obj" "eff \<in> {''allow'', ''deny''}"
proof -
  let ?c = "map trim_spaces (strings_Split CHR '','' policy)"
  have l: "length ?c = 6" "?c ! 0 = ''p''" "?c ! 1 = ''proj:'' @ proj @ '':'' @ role" "?c ! 2 \<in> set ProjectScoped"
    "isValidAction (?c ! 3)" "isValidObject proj (?c ! 4)" "?c ! 5 = ''allow'' \<or> ?c ! 5 = ''deny''"
    using assms unfolding validatePolicy_def Let_def by (simp_all split: if_splits)
  have "?c = [?c ! 0, ?c ! 1, ?c ! 2, ?c ! 3, ?c ! 4, ?c ! 5]"
    by (rule nth_equalityI) (use l(1) in \<open>auto simp: less_Suc_eq numeral_eq_Suc\<close>)
  then have "?c = [''p'', ''proj:'' @ proj @ '':'' @ role, ?c ! 2, ?c ! 3, ?c ! 4, ?c ! 5]" unfolding l(2,3) .
  moreover have "?c ! 5 \<in> {''allow'', ''deny''}" using l(7) by blast
  ultimately show thesis by (rule that [OF _ l(4-6)])
qed

lemma isValidObject_prefix:
  assumes "isValidObject proj obj"
  shows "strings_HasPrefix obj (proj @ ''/'')"
proof -
  obtain r where r: "obj = proj @ r" using assms by (auto simp: isValidObject_def HasPrefix_iff)
  obtain parts where "strings_Split CHR ''/'' r = [] # parts" "length parts = 1 \<or> length parts = 2"
    using assms r by (auto simp: isValidObject_def split: list.splits)
  moreover from this(2) have "parts \<noteq> []" by auto
  ultimately have "r = CHR ''/'' # strings_Join parts ''/''"
    using Join_Split [of "CHR ''/''" r] by (simp add: strings_Join_Cons)
  then show ?thesis using r by (simp add: HasPrefix_iff)
qed

lemma validate_destinations_ok:
  "validate_destinations ds seen = None \<Longrightarrow> distinct (map destination_key ds) \<and> set (map destination_key ds) \<inter> set seen = {} \<and>
     (\<forall>d \<in> set ds. ''!*'' \<notin> {dest_Name d, dest_Server d, dest_Namespace d})"
  by (induction ds seen rule: validate_destinations.induct) (auto split: if_splits)

lemma validate_source_namespaces_ok: "validate_source_namespaces ns seen = None \<Longrightarrow> distinct ns \<and> set ns \<inter> set seen = {}"
  by (induction ns seen rule: validate_source_namespaces.induct) (auto split: if_splits)

lemma validate_source_repos_ok: "validate_source_repos rs seen = None \<Longrightarrow> distinct rs \<and> set rs \<inter> set seen = {} \<and> ''!*'' \<notin> set rs"
  by (induction rs seen rule: validate_source_repos.induct) (auto split: if_splits)

lemma validate_policies_ok:
  "validate_policies p r ps seen = None \<Longrightarrow> distinct ps \<and> set ps \<inter> set seen = {} \<and> (\<forall>x \<in> set ps. validatePolicy p r x = None)"
  by (induction p r ps seen rule: validate_policies.induct) (auto split: if_splits option.splits)

lemma validate_groups_ok:
  "validate_groups r gs seen = None \<Longrightarrow> distinct gs \<and> set gs \<inter> set seen = {} \<and> (\<forall>x \<in> set gs. validateGroupName x = None)"
  by (induction r gs seen rule: validate_groups.induct) (auto split: if_splits option.splits)

lemma validate_roles_ok:
  "validate_roles p rs seen = None \<Longrightarrow> distinct (map role_Name rs) \<and> set (map role_Name rs) \<inter> set seen = {} \<and>
     (\<forall>r \<in> set rs. roleNameRegexp (role_Name r) \<and> distinct (role_Policies r) \<and> distinct (role_Groups r) \<and>
        (\<forall>x \<in> set (role_Policies r). validatePolicy p (role_Name r) x = None))"
proof (induction p rs seen rule: validate_roles.induct)
  case (2 p r rs seen)
  have c: "role_Name r \<notin> set seen" "validateRoleName (role_Name r) = None" "validate_policies p (role_Name r) (role_Policies r) [] = None"
    "validate_groups (role_Name r) (role_Groups r) [] = None" "validate_roles p rs (role_Name r # seen) = None"
    using 2(2) by (simp_all split: if_splits option.splits)
  have "roleNameRegexp (role_Name r)" using c(2) by (simp add: validateRoleName_def split: if_splits)
  then show ?case using 2(1) [OF c(1-5)] validate_policies_ok [OF c(3)] validate_groups_ok [OF c(4)] c(1) by auto
qed simp

lemma validate_windows_ok:
  assumes "we_LoadLocation e ''UTC'' \<noteq> None" "validate_windows e ws seen = (None, ws')"
  shows "length ws' = length ws \<and> (\<forall>w. Some w \<in> set ws' \<longrightarrow> well_formed e w \<and> (sw_Applications w \<noteq> [] \<or> sw_Namespaces w \<noteq> [] \<or> sw_Clusters w \<noteq> []))"
  using assms
proof (induction e ws seen arbitrary: ws' rule: validate_windows.induct)
  case (2 e ws seen)
  then show ?case by (fastforce split: prod.splits)
next
  case (3 e w ws seen)
  obtain w' ws1 where v: "window_key w \<notin> set seen" "Validate e w = (None, w')" "validate_windows e ws (window_key w' # seen) = (None, ws1)"
    "ws' = Some w' # ws1" "\<not> (sw_Applications w' = [] \<and> sw_Namespaces w' = [] \<and> sw_Clusters w' = [])"
    using 3(3) by (auto split: if_splits prod.splits option.splits)
  have IH: "length ws1 = length ws \<and> (\<forall>w. Some w \<in> set ws1 \<longrightarrow> well_formed e w \<and> (sw_Applications w \<noteq> [] \<or> sw_Namespaces w \<noteq> [] \<or> sw_Clusters w \<noteq> []))"
    by (rule 3(1) [OF v(1) v(2) [symmetric] refl v(5) 3(2) v(3)])
  then show ?case using Validate_ok [OF 3(2) v(2)] v(4,5) by auto
qed simp


lemma ValidateProject_ok:
  assumes "ValidateProject e proj = (None, proj')"
  obtains ws where "validate_destinations (ps_Destinations (proj_Spec proj)) [] = None"
    "validate_source_namespaces (ps_SourceNamespaces (proj_Spec proj)) [] = None"
    "validate_source_repos (ps_SourceRepos (proj_Spec proj)) [] = None"
    "validate_roles (proj_Name proj) (ps_Roles (proj_Spec proj)) [] = None"
    "validate_windows e (ps_SyncWindows (proj_Spec proj)) [] = (None, ws)"
    "proj' = proj\<lparr>proj_Spec := (proj_Spec proj)\<lparr>ps_SyncWindows := ws\<rparr>\<rparr>"
  using assms by (auto simp: ValidateProject_def Let_def split: option.splits prod.splits)

text \<open>
  (C21) A project that passes validation grants only rights of its own. Every policy of a role has the role of this project as
  its subject, one of the resources that belong to projects, an object whose name starts with the project
  and a slash, and is an allow or a deny rule. Roles, the policies and groups of a role, destinations,
  source repositories and source namespaces occur once each, and no entry forbids everything.
\<close>

theorem validated_projects_grant_their_own:
  assumes "ValidateProject e proj = (None, proj')"
  shows "(\<forall>role \<in> set (ps_Roles (proj_Spec proj)). \<forall>policy \<in> set (role_Policies role). \<exists>res act obj eff.
      map trim_spaces (strings_Split CHR '','' policy) = [''p'', ''proj:'' @ proj_Name proj @ '':'' @ role_Name role, res, act, obj, eff] \<and>
      res \<in> {''applications'', ''applicationsets'', ''logs'', ''exec'', ''clusters'', ''repositories''} \<and>
      strings_HasPrefix obj (proj_Name proj @ ''/'') \<and> eff \<in> {''allow'', ''deny''}) \<and>
    distinct (map role_Name (ps_Roles (proj_Spec proj))) \<and>
    (\<forall>role \<in> set (ps_Roles (proj_Spec proj)). distinct (role_Policies role) \<and> distinct (role_Groups role)) \<and>
    distinct (map destination_key (ps_Destinations (proj_Spec proj))) \<and>
    distinct (ps_SourceRepos (proj_Spec proj)) \<and> distinct (ps_SourceNamespaces (proj_Spec proj)) \<and>
    ''!*'' \<notin> set (ps_SourceRepos (proj_Spec proj))"
proof -
  obtain ws where v: "validate_destinations (ps_Destinations (proj_Spec proj)) [] = None"
    "validate_source_namespaces (ps_SourceNamespaces (proj_Spec proj)) [] = None"
    "validate_source_repos (ps_SourceRepos (proj_Spec proj)) [] = None"
    "validate_roles (proj_Name proj) (ps_Roles (proj_Spec proj)) [] = None"
    by (rule ValidateProject_ok [OF assms])
  have scoped: "res \<in> {''applications'', ''applicationsets'', ''logs'', ''exec'', ''clusters'', ''repositories''}" if "res \<in> set ProjectScoped" for res
    using that by (simp add: ProjectScoped_def)
  note roles = validate_roles_ok [OF v(4)]
  show ?thesis
  proof (intro conjI ballI)
    fix role policy
    assume "role \<in> set (ps_Roles (proj_Spec proj))" "policy \<in> set (role_Policies role)"
    then have "validatePolicy (proj_Name proj) (role_Name role) policy = None" using roles by blast
    then obtain res act obj eff where
      "map trim_spaces (strings_Split CHR '','' policy) = [''p'', ''proj:'' @ proj_Name proj @ '':'' @ role_Name role, res, act, obj, eff]"
      "res \<in> set ProjectScoped" "isValidObject (proj_Name proj) obj" "eff \<in> {''allow'', ''deny''}"
      by (rule validatePolicy_ok)
    then show "\<exists>res act obj eff.
      map trim_spaces (strings_Split CHR '','' policy) = [''p'', ''proj:'' @ proj_Name proj @ '':'' @ role_Name role, res, act, obj, eff] \<and>
      res \<in> {''applications'', ''applicationsets'', ''logs'', ''exec'', ''clusters'', ''repositories''} \<and>
      strings_HasPrefix obj (proj_Name proj @ ''/'') \<and> eff \<in> {''allow'', ''deny''}"
      by (intro exI conjI) (assumption | erule scoped isValidObject_prefix)+
  qed (use roles validate_destinations_ok [OF v(1)] validate_source_repos_ok [OF v(3)] validate_source_namespaces_ok [OF v(2)] in blast)+
qed

text \<open>
  The sync windows of a project that passed validation never make the decision about a sync fail: validation leaves every
  window well formed, with a time zone that can be loaded and something it applies to, so that
  \<open>CanSync\<close> returns a decision at any time, if no window is a nil pointer.
\<close>

theorem validated_windows_decide:
  assumes "we_LoadLocation e ''UTC'' \<noteq> None" "ValidateProject e proj = (None, proj')"
    and "None \<notin> set (ps_SyncWindows (proj_Spec proj'))" "frozen e t"
  shows "\<exists>b st'. CanSync e isManual (Some (ps_SyncWindows (proj_Spec proj'))) st = Ret (Inr b, st')"
proof -
  obtain ws where ws: "validate_windows e (ps_SyncWindows (proj_Spec proj)) [] = (None, ws)" "ps_SyncWindows (proj_Spec proj') = ws"
    using ValidateProject_ok [OF assms(2)] by (metis AppProject.select_convs(2) AppProject.surjective AppProject.update_convs(2) AppProjectSpec.select_convs(8) AppProjectSpec.surjective AppProjectSpec.update_convs(8))
  define vs where "vs = map the ws"
  have vs: "ws = map Some vs" unfolding vs_def map_map comp_def
    by (rule map_idI [symmetric]) (use assms(3) ws(2) in \<open>metis option.collapse\<close>)
  have "well_formed e w" if "w \<in> set vs" for w
    using validate_windows_ok [OF assms(1) ws(1)] that unfolding vs by simp
  then have "list_all (valid_window e) vs" by (simp add: list_all_iff well_formed_def)
  then show ?thesis unfolding ws(2) vs by (rule CanSync_total [OF assms(4)])
qed

definition sample_project :: AppProject where
  "sample_project = \<lparr>proj_ObjectMeta = zero_ObjectMeta\<lparr>om_Name := ''shop''\<rparr>,
     proj_Spec = \<lparr>ps_SourceRepos = [''https://git.example.com/*''],
       ps_Destinations = [\<lparr>dest_Server = ''*'', dest_Namespace = ''shop-*'', dest_Name = []\<rparr>], ps_Description = [],
       ps_Roles = [\<lparr>role_Name = ''deployer'', role_Description = [],
         role_Policies = [''p, proj:shop:deployer, applications, sync, shop/*, allow''],
         role_JWTTokens = Some [\<lparr>jwt_IssuedAt = 7, jwt_ExpiresAt = 0, jwt_ID = []\<rparr>], role_Groups = [''ops'']\<rparr>],
       ps_ClusterResourceWhitelist = [], ps_NamespaceResourceBlacklist = [], ps_OrphanedResources = None,
       ps_SyncWindows = map Some sample_windows, ps_NamespaceResourceWhitelist = None, ps_SignatureKeys = [],
       ps_ClusterResourceBlacklist = [], ps_SourceNamespaces = [], ps_PermitOnlyProjectScopedClusters = False,
       ps_DestinationServiceAccounts = []\<rparr>,
     proj_JWTTokensByRole = None\<rparr>"


lemma sample_project_valid: "fst (ValidateProject (daily_env 0) sample_project) = None"
  by code_simp

theorem validated_projects_grant_their_own_witness:
  "fst (ValidateProject (daily_env 0) sample_project) = None \<and>
   (\<exists>res act obj eff. map trim_spaces (strings_Split CHR '','' ''p, proj:shop:deployer, applications, sync, shop/*, allow'') =
       [''p'', ''proj:'' @ ''shop'' @ '':'' @ ''deployer'', res, act, obj, eff] \<and>
     res \<in> {''applications'', ''applicationsets'', ''logs'', ''exec'', ''clusters'', ''repositories''} \<and>
     strings_HasPrefix obj (''shop'' @ ''/'') \<and> eff \<in> {''allow'', ''deny''})"
proof -
  obtain proj' where v: "ValidateProject (daily_env 0) sample_project = (None, proj')"
    using sample_project_valid by (metis prod.collapse)
  let ?policy = "''p, proj:shop:deployer, applications, sync, shop/*, allow''"
  define role where "role = ps_Roles (proj_Spec sample_project) ! 0"
  have r: "role \<in> set (ps_Roles (proj_Spec sample_project))" "?policy \<in> set (role_Policies role)"
    and n: "proj_Name sample_project = ''shop''" "role_Name role = ''deployer''"
    by (simp_all add: role_def sample_project_def zero_ObjectMeta_def)
  show ?thesis
    using bspec [OF bspec [OF conjunct1 [OF validated_projects_grant_their_own [OF v]] r(1)] r(2)] sample_project_valid
    unfolding n by (rule conjI [rotated])
qed

theorem validated_windows_decide_witness:
  "\<exists>proj' b st'. ValidateProject (daily_env 0) sample_project = (None, proj') \<and>
     CanSync (daily_env 0) False (Some (ps_SyncWindows (proj_Spec proj'))) () = Ret (Inr b, st')"
proof -
  obtain proj' where v: "ValidateProject (daily_env 0) sample_project = (None, proj')"
    using sample_project_valid by (metis prod.collapse)
  have "None \<notin> set (ps_SyncWindows (proj_Spec (snd (ValidateProject (daily_env 0) sample_project))))" by code_simp
  then have n: "None \<notin> set (ps_SyncWindows (proj_Spec proj'))" using v by simp
  have utc: "we_LoadLocation (daily_env 0) ''UTC'' \<noteq> None" by (simp add: daily_env_def)
  show ?thesis using v validated_windows_decide [OF utc v n daily_env_frozen] by blast
qed

text \<open>Patterns that end in a star, as prefixes, and a project that forbids some of the repositories that it permits.\<close>

definition prefix_patterns :: pattern_env where
  "prefix_patterns = \<lparr>pe_glob = (\<lambda>p _. Some (\<lambda>s. if p \<noteq> [] \<and> List.last p = CHR ''*'' then take (length p - 1) s = butlast p else s = p)),
     pe_regexp2 = (\<lambda>_. None)\<rparr>"

definition restricted_project :: AppProject where
  "restricted_project = sample_project\<lparr>proj_Spec := (proj_Spec sample_project)\<lparr>
     ps_SourceRepos := [''https://git.example.com/*'', ''!https://git.example.com/secret*'']\<rparr>\<rparr>"


text \<open>The patterns of actions are not anchored: an action that contains one is taken for valid.\<close>

lemma unanchored_action_is_valid: "isValidAction ''transaction/x''"
  by code_simp

section \<open>Tokens\<close>

text \<open>
  A token is looked up by its identifier and, failing that, by the time it was issued; so a token that was removed is still
  found if another one of the role was issued in the same second.
\<close>

lemma removed_token_still_found:
  assumes "other \<in> set tokens" "jwt_IssuedAt other = t" "t \<noteq> - 1"
  shows "find_token tokens t tid \<noteq> None"
proof -
  have "find_index (\<lambda>x. t = jwt_IssuedAt x) tokens \<noteq> None" using assms(1,2) by (auto simp: find_index_None)
  then show ?thesis using assms(3) by (auto simp: find_token_def split: option.splits)
qed


lemma sort_tokens_props:
  assumes "\<And>xs. mset (ord xs) = mset xs"
  shows "mset (sort_tokens ord ts) = mset ts" "set (sort_tokens ord ts) = set ts"
    "sorted_wrt (\<lambda>a b. jwt_IssuedAt b \<le> jwt_IssuedAt a) (sort_tokens ord ts)"
proof -
  show m: "mset (sort_tokens ord ts) = mset ts" by (simp add: sort_tokens_def assms)
  then show "set (sort_tokens ord ts) = set ts" by (metis set_mset_mset)
  have "sorted (map (\<lambda>t. - jwt_IssuedAt t) (sort_tokens ord ts))" by (simp add: sort_tokens_def)
  then show "sorted_wrt (\<lambda>a b. jwt_IssuedAt b \<le> jwt_IssuedAt a) (sort_tokens ord ts)" by (simp add: sorted_wrt_map)
qed

text \<open>The map of tokens by identifier.\<close>

definition by_ID :: "JWTToken list \<Rightarrow> (string \<times> JWTToken) list" where
  "by_ID ts = foldl (\<lambda>m token. AList.update (jwt_ID token) token m) [] ts"

lemma by_ID_snoc: "by_ID (ts @ [t]) = AList.update (jwt_ID t) t (by_ID ts)"
  by (simp add: by_ID_def)

lemma by_ID_props:
  "distinct (map fst (by_ID ts))" "fst ` set (by_ID ts) = jwt_ID ` set ts" "(k, v) \<in> set (by_ID ts) \<Longrightarrow> k = jwt_ID v \<and> v \<in> set ts"
proof (induction ts rule: rev_induct)
  case (snoc t ts)
  have d: "distinct (map fst (by_ID (ts @ [t])))" using snoc.IH(1) unfolding by_ID_snoc by (rule distinct_update)
  {
    case 1
    show ?case by (rule d)
  next
    case 2
    show ?case using snoc.IH(2) unfolding by_ID_snoc dom_update by simp
  next
    case 3
    then have "map_of (by_ID (ts @ [t])) k = Some v" using d by simp
    then have "(k = jwt_ID t \<and> v = t) \<or> map_of (by_ID ts) k = Some v" unfolding by_ID_snoc update_conv' by (auto split: if_splits)
    then show ?case using snoc.IH(3) by (auto dest: map_of_SomeD)
  }
qed (simp_all add: by_ID_def)

lemma tokens_by_ID:
  "distinct (map jwt_ID (map snd (by_ID ts)))" "jwt_ID ` set (map snd (by_ID ts)) = jwt_ID ` set ts" "set (map snd (by_ID ts)) \<subseteq> set ts"
proof -
  have "map jwt_ID (map snd (by_ID ts)) = map fst (by_ID ts)" using by_ID_props(3) by (auto simp: case_prod_beta)
  then show "distinct (map jwt_ID (map snd (by_ID ts)))" "jwt_ID ` set (map snd (by_ID ts)) = jwt_ID ` set ts"
    using by_ID_props(1,2) [of ts] by (metis, metis list.set_map)
  show "set (map snd (by_ID ts)) \<subseteq> set ts" using by_ID_props(3) by fastforce
qed

definition tidy :: "JWTToken list \<Rightarrow> bool" where
  "tidy ts \<longleftrightarrow> distinct (map jwt_ID ts) \<and> sorted_wrt (\<lambda>a b. jwt_IssuedAt b \<le> jwt_IssuedAt a) ts"

lemma jwtTokensCombine_props:
  assumes "\<And>xs. mset (ord xs) = mset xs"
  shows "tidy (elems (jwtTokensCombine ord ts us))"
    "jwt_ID ` set (elems (jwtTokensCombine ord ts us)) = jwt_ID ` (set ts \<union> set us)"
    "set (elems (jwtTokensCombine ord ts us)) \<subseteq> set ts \<union> set us"
proof -
  let ?l = "map snd (by_ID (ts @ us))"
  have e: "elems (jwtTokensCombine ord ts us) = (if ?l = [] then [] else sort_tokens ord ?l)"
    by (simp add: jwtTokensCombine_def by_ID_def elems_def Let_def)
  note s = sort_tokens_props [OF assms, of ?l]
  have "mset (map jwt_ID (sort_tokens ord ?l)) = mset (map jwt_ID ?l)" using s(1) by (metis mset_map)
  then have "distinct (map jwt_ID (sort_tokens ord ?l))" using tokens_by_ID(1) [of "ts @ us"] by (metis mset_eq_imp_distinct_iff)
  then show "tidy (elems (jwtTokensCombine ord ts us))" using s(3) unfolding e tidy_def by simp
  have set: "set (elems (jwtTokensCombine ord ts us)) = set ?l" using s(2) unfolding e by simp
  show "jwt_ID ` set (elems (jwtTokensCombine ord ts us)) = jwt_ID ` (set ts \<union> set us)"
    using tokens_by_ID(2) [of "ts @ us"] unfolding set by simp
  show "set (elems (jwtTokensCombine ord ts us)) \<subseteq> set ts \<union> set us" using tokens_by_ID(3) [of "ts @ us"] unfolding set by simp
qed

definition tokens_at :: "tokens_by_role option \<Rightarrow> string \<Rightarrow> JWTToken list option" where
  "tokens_at byRole k = (case byRole of None \<Rightarrow> None | Some m \<Rightarrow> (case map_of m k of None \<Rightarrow> None | Some items \<Rightarrow> items))"

lemma status_tokens_at: "status_tokens proj k = tokens_at (proj_JWTTokensByRole proj) k"
  by (simp add: status_tokens_def tokens_at_def)

definition combined :: "(JWTToken list \<Rightarrow> JWTToken list) \<Rightarrow> tokens_by_role option \<Rightarrow> ProjectRole \<Rightarrow> JWTToken list option" where
  "combined ord byRole role = jwtTokensCombine ord (elems (tokens_at byRole (role_Name role))) (elems (role_JWTTokens role))"

lemma sync_role_eq:
  "sync_role ord role byRole = (combined ord byRole role \<noteq> map_option (sort_tokens ord) (role_JWTTokens role) \<or>
      combined ord byRole role \<noteq> map_option (sort_tokens ord) (tokens_at byRole (role_Name role)),
    role\<lparr>role_JWTTokens := combined ord byRole role\<rparr>, AList.update (role_Name role) (combined ord byRole role) (elems byRole))"
  by (simp add: sync_role_def combined_def tokens_at_def elems_def Let_def split: option.splits)

lemma tokens_at_update: "tokens_at (Some (AList.update k v (elems byRole))) k' = (if k' = k then v else tokens_at byRole k')"
  by (cases byRole) (simp_all add: tokens_at_def elems_def update_conv')

lemma sync_roles_spec:
  assumes "distinct (map role_Name roles)" "sync_roles ord roles byRole = (need, roles', byRole')"
  shows "roles' = map (\<lambda>r. r\<lparr>role_JWTTokens := combined ord byRole r\<rparr>) roles"
    "\<And>r. r \<in> set roles \<Longrightarrow> tokens_at byRole' (role_Name r) = combined ord byRole r"
    "\<And>k. k \<notin> role_Name ` set roles \<Longrightarrow> tokens_at byRole' k = tokens_at byRole k"
    "need \<longleftrightarrow> (\<exists>r \<in> set roles. fst (sync_role ord r byRole))"
    "fst ` set (elems byRole') = fst ` set (elems byRole) \<union> role_Name ` set roles"
proof -
  have "roles' = map (\<lambda>r. r\<lparr>role_JWTTokens := combined ord byRole r\<rparr>) roles \<and>
    (\<forall>r \<in> set roles. tokens_at byRole' (role_Name r) = combined ord byRole r) \<and>
    (\<forall>k. k \<notin> role_Name ` set roles \<longrightarrow> tokens_at byRole' k = tokens_at byRole k) \<and>
    (need \<longleftrightarrow> (\<exists>r \<in> set roles. fst (sync_role ord r byRole))) \<and>
    fst ` set (elems byRole') = fst ` set (elems byRole) \<union> role_Name ` set roles"
    using assms
  proof (induction roles arbitrary: byRole need roles' byRole')
    case (Cons r roles)
    let ?m = "Some (AList.update (role_Name r) (combined ord byRole r) (elems byRole))"
    obtain need1 roles1 where rec: "sync_roles ord roles ?m = (need1, roles1, byRole')"
      "roles' = r\<lparr>role_JWTTokens := combined ord byRole r\<rparr> # roles1" "need = (fst (sync_role ord r byRole) \<or> need1)"
      using Cons.prems(2) by (auto simp: sync_role_eq Let_def split: prod.splits)
    have other: "tokens_at ?m (role_Name x) = tokens_at byRole (role_Name x)" if "x \<in> set roles" for x
    proof -
      have "role_Name x \<noteq> role_Name r" using that Cons.prems(1) by (metis distinct.simps(2) image_eqI list.simps(9) set_map)
      then show ?thesis by (simp add: tokens_at_update)
    qed
    then have same: "combined ord ?m x = combined ord byRole x" if "x \<in> set roles" for x
      using that by (simp add: combined_def)
    have same_need: "fst (sync_role ord x ?m) = fst (sync_role ord x byRole)" if "x \<in> set roles" for x
      using that by (simp only: sync_role_eq fst_conv same other)
    have IH: "roles1 = map (\<lambda>r. r\<lparr>role_JWTTokens := combined ord ?m r\<rparr>) roles"
      "\<forall>x \<in> set roles. tokens_at byRole' (role_Name x) = combined ord ?m x"
      "\<forall>k. k \<notin> role_Name ` set roles \<longrightarrow> tokens_at byRole' k = tokens_at ?m k"
      "need1 \<longleftrightarrow> (\<exists>x \<in> set roles. fst (sync_role ord x ?m))"
      "fst ` set (elems byRole') = fst ` set (elems ?m) \<union> role_Name ` set roles"
      using Cons.IH [OF _ rec(1)] Cons.prems(1) by auto
    have notin: "role_Name r \<notin> role_Name ` set roles" using Cons.prems(1) by simp
    show ?case
    proof (intro conjI)
      show "roles' = map (\<lambda>r. r\<lparr>role_JWTTokens := combined ord byRole r\<rparr>) (r # roles)"
        using rec(2) IH(1) same by simp
      show "\<forall>x \<in> set (r # roles). tokens_at byRole' (role_Name x) = combined ord byRole x"
        using IH(2) same IH(3) notin by (auto simp: tokens_at_update)
      show "\<forall>k. k \<notin> role_Name ` set (r # roles) \<longrightarrow> tokens_at byRole' k = tokens_at byRole k"
        using IH(3) by (auto simp: tokens_at_update)
      show "need \<longleftrightarrow> (\<exists>x \<in> set (r # roles). fst (sync_role ord x byRole))"
        using rec(3) IH(4) same_need by auto
      show "fst ` set (elems byRole') = fst ` set (elems byRole) \<union> role_Name ` set (r # roles)"
        using IH(5) by (auto simp: elems_def dom_update)
    qed
  qed simp
  then show "roles' = map (\<lambda>r. r\<lparr>role_JWTTokens := combined ord byRole r\<rparr>) roles"
    "\<And>r. r \<in> set roles \<Longrightarrow> tokens_at byRole' (role_Name r) = combined ord byRole r"
    "\<And>k. k \<notin> role_Name ` set roles \<Longrightarrow> tokens_at byRole' k = tokens_at byRole k"
    "need \<longleftrightarrow> (\<exists>r \<in> set roles. fst (sync_role ord r byRole))"
    "fst ` set (elems byRole') = fst ` set (elems byRole) \<union> role_Name ` set roles" by blast+
qed

lemma image_filter_fst: "A \<subseteq> fst ` S \<Longrightarrow> fst ` {x \<in> S. fst x \<in> A} = A"
  by (auto simp: subset_iff image_iff)

lemma tokens_at_filter:
  assumes "k \<in> ks"
  shows "tokens_at (map_option (filter (\<lambda>(r, _). r \<in> ks)) byRole) k = tokens_at byRole k"
proof -
  have "map_of (filter (\<lambda>(r, _). r \<in> ks) m) k = map_of m k" for m :: tokens_by_role
    using assms by (induction m) auto
  then show ?thesis by (cases byRole) (simp_all add: tokens_at_def)
qed

lemma tokens_at_map: "tokens_at (map_option (map (\<lambda>(r, items). (r, map_option f items))) byRole) k = map_option f (tokens_at byRole k)"
proof -
  have "map_of (map (\<lambda>(r, items). (r, map_option f items)) m) k = map_option (map_option f) (map_of m k)" for m :: tokens_by_role
    by (induction m) auto
  then show ?thesis by (cases byRole) (simp_all add: tokens_at_def split: option.splits)
qed

lemma elems_map [simp]: "elems (map_option (map f) x) = map f (elems x)"
  by (cases x) (simp_all add: elems_def)

lemma with_ID_not_empty: "jwt_ID (with_ID t) \<noteq> []"
proof -
  have "int_text n \<noteq> []" for n using decimal_not_empty by (simp add: int_text_def)
  then show ?thesis by (simp add: with_ID_def)
qed

text \<open>
  (C22) After normalisation the tokens of every role are the same in the specification and in the status: in both places the tokens
  that were in one of them, each under an identifier of its own, newest first. No token is lost, none is
  invented, every token has an identifier, and roles that do not exist have none. This holds whatever the order in which a
  map is iterated and equal elements are sorted.
\<close>

theorem tokens_in_step:
  assumes "\<And>xs. mset (ord xs) = mset xs" "distinct (map role_Name (ps_Roles (proj_Spec proj)))"
    and "NormalizeJWTTokens ord proj = (need, proj')"
  shows "map role_Name (ps_Roles (proj_Spec proj')) = map role_Name (ps_Roles (proj_Spec proj)) \<and>
    (\<forall>i < length (ps_Roles (proj_Spec proj)).
       let role = ps_Roles (proj_Spec proj) ! i; tokens = role_JWTTokens (ps_Roles (proj_Spec proj') ! i);
           before = with_ID ` (set (elems (role_JWTTokens role)) \<union> set (elems (status_tokens proj (role_Name role))))
       in status_tokens proj' (role_Name role) = tokens \<and>
          set (elems tokens) \<subseteq> before \<and> jwt_ID ` set (elems tokens) = jwt_ID ` before \<and>
          distinct (map jwt_ID (elems tokens)) \<and> [] \<notin> jwt_ID ` set (elems tokens) \<and>
          sorted_wrt (\<lambda>a b. jwt_IssuedAt b \<le> jwt_IssuedAt a) (elems tokens)) \<and>
    fst ` set (elems (proj_JWTTokensByRole proj')) = role_Name ` set (ps_Roles (proj_Spec proj))"
proof -
  define roles where "roles = map (\<lambda>role. role\<lparr>role_JWTTokens := map_option (map with_ID) (role_JWTTokens role)\<rparr>) (ps_Roles (proj_Spec proj))"
  define byRole where "byRole = map_option (map (\<lambda>(role, items). (role, map_option (map with_ID) items))) (proj_JWTTokensByRole proj)"
  have names: "map role_Name roles = map role_Name (ps_Roles (proj_Spec proj))" by (simp add: roles_def)
  obtain need1 roles1 byRole1 where s: "sync_roles ord roles byRole = (need1, roles1, byRole1)" by (cases "sync_roles ord roles byRole") blast
  have d: "distinct (map role_Name roles)" using assms(2) names by simp
  note spec = sync_roles_spec [OF d s]
  have p': "ps_Roles (proj_Spec proj') = roles1"
    "proj_JWTTokensByRole proj' = map_option (filter (\<lambda>(r, _). r \<in> role_Name ` set (ps_Roles (proj_Spec proj)))) byRole1"
    using assms(3) s by (auto simp: NormalizeJWTTokens_def syncJWTTokenBetweenStatusAndSpec_def Let_def roles_def byRole_def
        image_image comp_def split: prod.splits)
  show ?thesis
  proof (intro conjI allI impI)
    show "map role_Name (ps_Roles (proj_Spec proj')) = map role_Name (ps_Roles (proj_Spec proj))"
      by (simp add: p'(1) spec(1) roles_def)
    show "fst ` set (elems (proj_JWTTokensByRole proj')) = role_Name ` set (ps_Roles (proj_Spec proj))"
    proof -
      have "role_Name ` set (ps_Roles (proj_Spec proj)) \<subseteq> fst ` set (elems byRole1)"
        using spec(5) arg_cong [OF names, of set] by auto
      then have "fst ` {x \<in> set (elems byRole1). fst x \<in> role_Name ` set (ps_Roles (proj_Spec proj))} = role_Name ` set (ps_Roles (proj_Spec proj))"
        by (rule image_filter_fst)
      then show ?thesis unfolding p'(2) by (cases byRole1) (simp_all add: elems_def case_prod_beta)
    qed
  next
    fix i assume i: "i < length (ps_Roles (proj_Spec proj))"
    define role where "role = ps_Roles (proj_Spec proj) ! i"
    define r where "r = roles ! i"
    have r: "r \<in> set roles" "role_Name r = role_Name role" "role_JWTTokens r = map_option (map with_ID) (role_JWTTokens role)"
      using i by (simp_all add: r_def roles_def role_def)
    have t: "role_JWTTokens (ps_Roles (proj_Spec proj') ! i) = combined ord byRole r"
      using i by (simp add: p'(1) spec(1) r_def roles_def)
    have st: "status_tokens proj' (role_Name role) = combined ord byRole r"
      unfolding status_tokens_at p'(2) using i
      by (subst tokens_at_filter) (use spec(2) [OF r(1)] r(2) in \<open>auto simp: role_def\<close>)
    have c: "combined ord byRole r = jwtTokensCombine ord (map with_ID (elems (status_tokens proj (role_Name role)))) (map with_ID (elems (role_JWTTokens role)))"
      by (simp add: combined_def r byRole_def tokens_at_map status_tokens_at)
    note comb = jwtTokensCombine_props [OF assms(1), of "map with_ID (elems (status_tokens proj (role_Name role)))"
        "map with_ID (elems (role_JWTTokens role))", folded c]
    have before: "set (map with_ID (elems (status_tokens proj (role_Name role)))) \<union> set (map with_ID (elems (role_JWTTokens role))) =
      with_ID ` (set (elems (role_JWTTokens role)) \<union> set (elems (status_tokens proj (role_Name role))))" by auto
    have noid: "[] \<notin> jwt_ID ` with_ID ` X" for X using with_ID_not_empty by (metis imageE)
    show "let role = ps_Roles (proj_Spec proj) ! i; tokens = role_JWTTokens (ps_Roles (proj_Spec proj') ! i);
           before = with_ID ` (set (elems (role_JWTTokens role)) \<union> set (elems (status_tokens proj (role_Name role))))
       in status_tokens proj' (role_Name role) = tokens \<and>
          set (elems tokens) \<subseteq> before \<and> jwt_ID ` set (elems tokens) = jwt_ID ` before \<and>
          distinct (map jwt_ID (elems tokens)) \<and> [] \<notin> jwt_ID ` set (elems tokens) \<and>
          sorted_wrt (\<lambda>a b. jwt_IssuedAt b \<le> jwt_IssuedAt a) (elems tokens)"
      unfolding Let_def role_def [symmetric] t st
      using comb noid unfolding before tidy_def by (intro conjI) simp_all
  qed
qed

theorem tokens_in_step_witness:
  "\<exists>need proj'. NormalizeJWTTokens rev sample_project = (need, proj') \<and>
     status_tokens proj' ''deployer'' = Some [\<lparr>jwt_IssuedAt = 7, jwt_ExpiresAt = 0, jwt_ID = ''7''\<rparr>]"
proof -
  obtain need proj' where n: "NormalizeJWTTokens rev sample_project = (need, proj')" by (rule prod.exhaust)
  have "role_JWTTokens (ps_Roles (proj_Spec (snd (NormalizeJWTTokens rev sample_project))) ! 0) =
    Some [\<lparr>jwt_IssuedAt = 7, jwt_ExpiresAt = 0, jwt_ID = ''7''\<rparr>]" by code_simp
  then have t: "role_JWTTokens (ps_Roles (proj_Spec proj') ! 0) = Some [\<lparr>jwt_IssuedAt = 7, jwt_ExpiresAt = 0, jwt_ID = ''7''\<rparr>]" using n by simp
  have d: "distinct (map role_Name (ps_Roles (proj_Spec sample_project)))" by (simp add: sample_project_def)
  have r: "0 < length (ps_Roles (proj_Spec sample_project))" "role_Name (ps_Roles (proj_Spec sample_project) ! 0) = ''deployer''"
    by (simp_all add: sample_project_def)
  show ?thesis
    using n tokens_in_step [OF mset_rev d n] r t unfolding Let_def by metis
qed

end
