(* ===== verification/AppTree.thy ===== *)
theory AppTree
  imports AppSpec "HOL-Library.List_Lexorder" "HOL-Library.Char_ord"
begin

text \<open>
  The resource tree of an application, \<open>ApplicationTree\<close> of \<open>types.go\<close>: nodes and hosts, merging, splitting into shards.
  The types of the Kubernetes API inside nodes and hosts are type parameters. \<open>GetShards\<close> loops over what is
  left of the tree; it is a partial function, and not returning is \<open>None\<close>.
\<close>

section \<open>Trees\<close>

record ResourceRef =
  rr_Group :: string
  rr_Version :: string
  rr_Kind :: string
  rr_Namespace :: string
  rr_Name :: string
  rr_UID :: string

record InfoItem =
  ii_Name :: string
  ii_Value :: string

record 'lb ResourceNetworkingInfo =
  ni_TargetLabels :: "string \<rightharpoonup> string"
  ni_TargetRefs :: "ResourceRef list"
  ni_Labels :: "string \<rightharpoonup> string"
  ni_Ingress :: "'lb list"
  ni_ExternalURLs :: "string list"

record 'lb ResourceNode =
  node_ResourceRef :: ResourceRef
  node_ParentRefs :: "ResourceRef list"
  node_Info :: "InfoItem list"
  node_NetworkingInfo :: "'lb ResourceNetworkingInfo option"
  node_ResourceVersion :: string
  node_Images :: "string list"
  node_Health :: "HealthStatus option"
  node_CreatedAt :: "Time option"

record HostResourceInfo =
  hri_ResourceName :: string
  hri_RequestedByApp :: int
  hri_RequestedByNeighbors :: int
  hri_Capacity :: int

record 'sys HostInfo =
  host_Name :: string
  host_ResourcesInfo :: "HostResourceInfo list"
  host_SystemInfo :: 'sys
  host_Labels :: "string \<rightharpoonup> string"

record ('lb, 'sys) ApplicationTree =
  tree_Nodes :: "'lb ResourceNode list"
  tree_OrphanedNodes :: "'lb ResourceNode list"
  tree_Hosts :: "'sys HostInfo list"
  tree_ShardsCount :: int

definition empty_tree :: "('lb, 'sys) ApplicationTree" where
  "empty_tree = \<lparr>tree_Nodes = [], tree_OrphanedNodes = [], tree_Hosts = [], tree_ShardsCount = 0\<rparr>"

definition FullName :: "'lb ResourceNode \<Rightarrow> string" where
  "FullName n = (let r = node_ResourceRef n in rr_Group r @ ''/'' @ rr_Kind r @ ''/'' @ rr_Namespace r @ ''/'' @ rr_Name r)"

definition GroupKindVersion :: "'lb ResourceNode \<Rightarrow> string \<times> string \<times> string" where
  "GroupKindVersion n = (rr_Group (node_ResourceRef n), rr_Version (node_ResourceRef n), rr_Kind (node_ResourceRef n))"

section \<open>Operations\<close>

text \<open>
  \<open>sort.Slice\<close> leaves the order of elements with the same name open; the arguments \<open>no\<close> and \<open>ho\<close> rearrange a
  list before a stable sort.
\<close>

definition Normalize :: "('lb ResourceNode list \<Rightarrow> 'lb ResourceNode list) \<Rightarrow> ('sys HostInfo list \<Rightarrow> 'sys HostInfo list) \<Rightarrow>
    ('lb, 'sys) ApplicationTree \<Rightarrow> ('lb, 'sys) ApplicationTree" where
  "Normalize no ho t = t\<lparr>tree_Nodes := sort_key FullName (no (tree_Nodes t)),
     tree_OrphanedNodes := sort_key FullName (no (tree_OrphanedNodes t)), tree_Hosts := sort_key host_Name (ho (tree_Hosts t))\<rparr>"

definition Merge :: "('lb ResourceNode list \<Rightarrow> 'lb ResourceNode list) \<Rightarrow> ('sys HostInfo list \<Rightarrow> 'sys HostInfo list) \<Rightarrow>
    ('lb, 'sys) ApplicationTree \<Rightarrow> ('lb, 'sys) ApplicationTree \<Rightarrow> ('lb, 'sys) ApplicationTree" where
  "Merge no ho t other = Normalize no ho (t\<lparr>tree_Nodes := tree_Nodes t @ tree_Nodes other,
     tree_OrphanedNodes := tree_OrphanedNodes t @ tree_OrphanedNodes other, tree_Hosts := tree_Hosts t @ tree_Hosts other\<rparr>)"

text \<open>The closures that \<open>GetShards\<close> collects: each adds one entry to a shard.\<close>

datatype ('lb, 'sys) tree_item = NodeItem "'lb ResourceNode" | OrphanedItem "'lb ResourceNode" | HostItem "'sys HostInfo"

fun add_item :: "('lb, 'sys) ApplicationTree \<Rightarrow> ('lb, 'sys) tree_item \<Rightarrow> ('lb, 'sys) ApplicationTree" where
  "add_item shard (NodeItem n) = shard\<lparr>tree_Nodes := tree_Nodes shard @ [n]\<rparr>"
| "add_item shard (OrphanedItem n) = shard\<lparr>tree_OrphanedNodes := tree_OrphanedNodes shard @ [n]\<rparr>"
| "add_item shard (HostItem h) = shard\<lparr>tree_Hosts := tree_Hosts shard @ [h]\<rparr>"

definition tree_items :: "('lb, 'sys) ApplicationTree \<Rightarrow> ('lb, 'sys) tree_item list" where
  "tree_items t = map NodeItem (tree_Nodes t) @ map OrphanedItem (tree_OrphanedNodes t) @ map HostItem (tree_Hosts t)"

partial_function (option) shards_loop :: "int \<Rightarrow> ('lb, 'sys) tree_item list \<Rightarrow> ('lb, 'sys) ApplicationTree list option" where
  "shards_loop sz items =
     (if items = [] then Some []
      else let cnt = nat (min sz (int (length items))) in
        Option.bind (shards_loop sz (drop cnt items)) (\<lambda>shards. Some (foldl add_item empty_tree (take cnt items) # shards)))"

definition GetShards :: "('lb ResourceNode list \<Rightarrow> 'lb ResourceNode list) \<Rightarrow> ('sys HostInfo list \<Rightarrow> 'sys HostInfo list) \<Rightarrow>
    int \<Rightarrow> ('lb, 'sys) ApplicationTree \<Rightarrow> (('lb, 'sys) ApplicationTree list \<times> ('lb, 'sys) ApplicationTree) option" where
  "GetShards no ho sz t0 =
     (let t = Normalize no ho t0 in
      if sz = 0 then Some ([t], t)
      else Option.bind (shards_loop sz (tree_items t)) (\<lambda>shards. Some (
        case shards of
          s # ss \<Rightarrow> s\<lparr>tree_ShardsCount := int (length shards)\<rparr> # ss
        | [] \<Rightarrow> [empty_tree\<lparr>tree_ShardsCount := 0\<rparr>], t)))"

definition FindNode :: "('lb, 'sys) ApplicationTree \<Rightarrow> string \<Rightarrow> string \<Rightarrow> string \<Rightarrow> string \<Rightarrow> 'lb ResourceNode option" where
  "FindNode t g kind namespace name =
     List.find (\<lambda>n. rr_Group (node_ResourceRef n) = g \<and> rr_Kind (node_ResourceRef n) = kind \<and>
       rr_Namespace (node_ResourceRef n) = namespace \<and> rr_Name (node_ResourceRef n) = name) (tree_Nodes t @ tree_OrphanedNodes t)"

section \<open>Lemmas\<close>

definition tree_size :: "('lb, 'sys) ApplicationTree \<Rightarrow> nat" where
  "tree_size t = length (tree_Nodes t) + length (tree_OrphanedNodes t) + length (tree_Hosts t)"

text \<open>A tree as what its entries are, without the count of shards.\<close>

definition entries :: "('lb, 'sys) ApplicationTree \<Rightarrow> 'lb ResourceNode list \<times> 'lb ResourceNode list \<times> 'sys HostInfo list" where
  "entries t = (tree_Nodes t, tree_OrphanedNodes t, tree_Hosts t)"

fun item_nodes :: "('lb, 'sys) tree_item \<Rightarrow> 'lb ResourceNode list" where
  "item_nodes (NodeItem n) = [n]" | "item_nodes _ = []"

fun item_orphaned :: "('lb, 'sys) tree_item \<Rightarrow> 'lb ResourceNode list" where
  "item_orphaned (OrphanedItem n) = [n]" | "item_orphaned _ = []"

fun item_hosts :: "('lb, 'sys) tree_item \<Rightarrow> 'sys HostInfo list" where
  "item_hosts (HostItem h) = [h]" | "item_hosts _ = []"

lemma add_item_parts:
  "tree_Nodes (add_item s x) = tree_Nodes s @ item_nodes x" "tree_OrphanedNodes (add_item s x) = tree_OrphanedNodes s @ item_orphaned x"
  "tree_Hosts (add_item s x) = tree_Hosts s @ item_hosts x" "tree_size (add_item s x) = Suc (tree_size s)"
  by (cases x; simp add: tree_size_def)+

lemma add_items:
  "tree_Nodes (foldl add_item s xs) = tree_Nodes s @ concat (map item_nodes xs)"
  "tree_OrphanedNodes (foldl add_item s xs) = tree_OrphanedNodes s @ concat (map item_orphaned xs)"
  "tree_Hosts (foldl add_item s xs) = tree_Hosts s @ concat (map item_hosts xs)"
  "tree_size (foldl add_item s xs) = tree_size s + length xs"
  by (induction xs arbitrary: s) (simp_all add: add_item_parts)

lemma concat_map_Nil: "concat (map (\<lambda>x. []) xs) = []"
  by (induction xs) simp_all

lemma tree_items_parts:
  "concat (map item_nodes (tree_items t)) = tree_Nodes t"
  "concat (map item_orphaned (tree_items t)) = tree_OrphanedNodes t"
  "concat (map item_hosts (tree_items t)) = tree_Hosts t"
  "length (tree_items t) = tree_size t"
  by (simp_all add: tree_items_def tree_size_def comp_def concat_map_Nil)

lemma empty_tree_parts [simp]: "tree_Nodes empty_tree = []" "tree_OrphanedNodes empty_tree = []" "tree_Hosts empty_tree = []"
  by (simp_all add: empty_tree_def)

lemma concat_take_drop: "concat (map f (take n xs)) @ concat (map f (drop n xs)) = concat (map f xs)"
  by (metis append_take_drop_id concat_append map_append)

lemma shards_loop_total:
  assumes "0 < sz"
  shows "\<exists>shards. shards_loop sz items = Some shards \<and>
    concat (map tree_Nodes shards) = concat (map item_nodes items) \<and>
    concat (map tree_OrphanedNodes shards) = concat (map item_orphaned items) \<and>
    concat (map tree_Hosts shards) = concat (map item_hosts items) \<and>
    (\<forall>s \<in> set shards. 0 < tree_size s \<and> int (tree_size s) \<le> sz) \<and>
    length shards = (length items + nat sz - 1) div nat sz"
proof (induction "length items" arbitrary: items rule: less_induct)
  case less
  show ?case
  proof (cases "items = []")
    case True
    then show ?thesis using assms by (simp add: shards_loop.simps nat_less_iff)
  next
    case False
    define cnt where "cnt = nat (min sz (int (length items)))"
    have cnt: "0 < cnt" "cnt \<le> length items" "int cnt \<le> sz" "cnt = min (nat sz) (length items)" using assms False by (auto simp: cnt_def)
    have "length (drop cnt items) < length items" using cnt by simp
    from less [OF this] obtain shards where sh: "shards_loop sz (drop cnt items) = Some shards"
      "concat (map tree_Nodes shards) = concat (map item_nodes (drop cnt items))"
      "concat (map tree_OrphanedNodes shards) = concat (map item_orphaned (drop cnt items))"
      "concat (map tree_Hosts shards) = concat (map item_hosts (drop cnt items))"
      "\<forall>s \<in> set shards. 0 < tree_size s \<and> int (tree_size s) \<le> sz"
      "length shards = (length (drop cnt items) + nat sz - 1) div nat sz" by blast
    let ?s = "foldl add_item empty_tree (take cnt items)"
    have loop: "shards_loop sz items = Some (?s # shards)"
      using False sh(1) by (subst shards_loop.simps) (simp add: cnt_def [symmetric])
    have size_s: "tree_size ?s = cnt" using cnt(2) unfolding add_items(4) by (simp add: empty_tree_def tree_size_def)
    have len: "length (?s # shards) = (length items + nat sz - 1) div nat sz"
    proof (cases "length items \<le> nat sz")
      case True
      have "(length items + nat sz - 1) div nat sz = 1"
        using True False assms by (intro div_nat_eqI) (auto simp: Suc_le_eq neq_Nil_conv)
      then show ?thesis using True cnt(4) sh(6) assms by simp
    next
      case more: False
      have "length items + nat sz - 1 = nat sz + (length items - nat sz + nat sz - 1)" using more assms by simp
      then have "(length items + nat sz - 1) div nat sz = 1 + (length items - nat sz + nat sz - 1) div nat sz"
        using assms by (metis div_add_self1 nat_0_iff not_le add.commute)
      then show ?thesis using more cnt(4) sh(6) by simp
    qed
    show ?thesis
      by (rule exI [of _ "?s # shards"]) (use loop len sh(2-5) size_s cnt(1,3) in
          \<open>simp add: add_items(1-3) concat_take_drop\<close>)
  qed
qed

text \<open>With a negative size a round of the loop takes nothing.\<close>

lemma shards_loop_diverges:
  assumes "sz < 0" "items \<noteq> []"
  shows "shards_loop sz items = None"
proof (cases "shards_loop sz items")
  case (Some shards)
  have "shards_loop sz items = Option.bind (shards_loop sz items) (\<lambda>shards. Some (empty_tree # shards))"
    using assms by (subst shards_loop.simps) simp
  then have "shards = empty_tree # shards" using Some by simp
  then show ?thesis by simp
qed

definition rearranges :: "('a list \<Rightarrow> 'a list) \<Rightarrow> bool" where
  "rearranges f \<longleftrightarrow> (\<forall>xs. mset (f xs) = mset xs)"

lemma Normalize_entries:
  assumes "rearranges no" "rearranges ho"
  shows "mset (tree_Nodes (Normalize no ho t)) = mset (tree_Nodes t)" "mset (tree_OrphanedNodes (Normalize no ho t)) = mset (tree_OrphanedNodes t)"
    "mset (tree_Hosts (Normalize no ho t)) = mset (tree_Hosts t)" "tree_size (Normalize no ho t) = tree_size t"
    "sorted (map FullName (tree_Nodes (Normalize no ho t)))" "sorted (map FullName (tree_OrphanedNodes (Normalize no ho t)))"
    "sorted (map host_Name (tree_Hosts (Normalize no ho t)))"
proof -
  show m: "mset (tree_Nodes (Normalize no ho t)) = mset (tree_Nodes t)" "mset (tree_OrphanedNodes (Normalize no ho t)) = mset (tree_OrphanedNodes t)"
    "mset (tree_Hosts (Normalize no ho t)) = mset (tree_Hosts t)" using assms by (simp_all add: Normalize_def rearranges_def)
  show "tree_size (Normalize no ho t) = tree_size t" unfolding tree_size_def using m [THEN mset_eq_length] by simp
qed (simp_all add: Normalize_def)

lemma merge_all_entries:
  assumes "rearranges no" "rearranges ho"
  shows "mset (tree_Nodes (foldl (Merge no ho) t ts)) = mset (tree_Nodes t) + mset (concat (map tree_Nodes ts))"
    "mset (tree_OrphanedNodes (foldl (Merge no ho) t ts)) = mset (tree_OrphanedNodes t) + mset (concat (map tree_OrphanedNodes ts))"
    "mset (tree_Hosts (foldl (Merge no ho) t ts)) = mset (tree_Hosts t) + mset (concat (map tree_Hosts ts))"
  by (induction ts arbitrary: t) (simp_all add: Merge_def Normalize_entries [OF assms])

section \<open>Properties\<close>

text \<open>
  (C33) Splitting a tree ends for every positive size, and loses nothing. The result has as many shards as needed, at least one; the first
  holds their number; no shard has more entries than the size, and none is empty unless the tree is. One after the other the shards
  hold the nodes, the orphaned nodes and the hosts of the tree, sorted by name; merging them all gives back the entries of the tree.
  For a negative size and a tree that is not empty the function does not return.
\<close>

theorem shards_of_tree:
  assumes "rearranges no" "rearranges ho"
  shows "(0 < sz \<longrightarrow> (\<exists>shards. GetShards no ho sz t = Some (shards, Normalize no ho t) \<and>
      length shards = max 1 ((tree_size t + nat sz - 1) div nat sz) \<and>
      tree_ShardsCount (hd shards) = (if tree_size t = 0 then 0 else int (length shards)) \<and>
      (\<forall>s \<in> set shards. int (tree_size s) \<le> sz \<and> (tree_size t = 0 \<or> 0 < tree_size s)) \<and>
      concat (map tree_Nodes shards) = tree_Nodes (Normalize no ho t) \<and>
      concat (map tree_OrphanedNodes shards) = tree_OrphanedNodes (Normalize no ho t) \<and>
      concat (map tree_Hosts shards) = tree_Hosts (Normalize no ho t) \<and>
      mset (tree_Nodes (foldl (Merge no ho) empty_tree shards)) = mset (tree_Nodes t) \<and>
      mset (tree_OrphanedNodes (foldl (Merge no ho) empty_tree shards)) = mset (tree_OrphanedNodes t) \<and>
      mset (tree_Hosts (foldl (Merge no ho) empty_tree shards)) = mset (tree_Hosts t))) \<and>
    (sz < 0 \<and> 0 < tree_size t \<longrightarrow> GetShards no ho sz t = None)"
proof (intro conjI impI)
  let ?t = "Normalize no ho t"
  note norm = Normalize_entries [OF assms, of t]
  assume sz: "0 < sz"
  obtain shards where sh: "shards_loop sz (tree_items ?t) = Some shards"
    "concat (map tree_Nodes shards) = tree_Nodes ?t" "concat (map tree_OrphanedNodes shards) = tree_OrphanedNodes ?t"
    "concat (map tree_Hosts shards) = tree_Hosts ?t" "\<forall>s \<in> set shards. 0 < tree_size s \<and> int (tree_size s) \<le> sz"
    "length shards = (tree_size t + nat sz - 1) div nat sz"
    using shards_loop_total [OF sz, of "tree_items ?t"] unfolding tree_items_parts norm(4) by blast
  define res where "res = (case shards of s # ss \<Rightarrow> s\<lparr>tree_ShardsCount := int (length shards)\<rparr> # ss | [] \<Rightarrow> [empty_tree\<lparr>tree_ShardsCount := 0\<rparr>])"
  have g: "GetShards no ho sz t = Some (res, ?t)" using sz sh(1) by (simp add: GetShards_def res_def Let_def)
  have parts: "concat (map tree_Nodes res) = tree_Nodes ?t" "concat (map tree_OrphanedNodes res) = tree_OrphanedNodes ?t"
    "concat (map tree_Hosts res) = tree_Hosts ?t" using sh(2-4) by (cases shards; simp add: res_def)+
  have empty: "shards = [] \<longleftrightarrow> tree_size t = 0"
  proof -
    have "tree_size t = 0 \<Longrightarrow> length shards = 0" using sh(6) sz by (simp add: nat_less_iff)
    moreover have "shards = [] \<Longrightarrow> tree_size ?t = 0" using sh(2-4) by (simp add: tree_size_def)
    ultimately show ?thesis using norm(4) by auto
  qed
  have len: "length res = max 1 ((tree_size t + nat sz - 1) div nat sz)" using sh(6) by (cases shards) (auto simp: res_def max_def)
  have bound: "\<forall>s \<in> set res. int (tree_size s) \<le> sz \<and> (tree_size t = 0 \<or> 0 < tree_size s)"
    using sh(5) sz empty by (cases shards) (auto simp: res_def tree_size_def)
  have count: "tree_ShardsCount (hd res) = (if tree_size t = 0 then 0 else int (length res))"
    using empty by (cases shards) (auto simp: res_def)
  note merged = merge_all_entries [OF assms, of empty_tree res, unfolded parts norm(1-3)]
  show "\<exists>shards. GetShards no ho sz t = Some (shards, ?t) \<and>
      length shards = max 1 ((tree_size t + nat sz - 1) div nat sz) \<and>
      tree_ShardsCount (hd shards) = (if tree_size t = 0 then 0 else int (length shards)) \<and>
      (\<forall>s \<in> set shards. int (tree_size s) \<le> sz \<and> (tree_size t = 0 \<or> 0 < tree_size s)) \<and>
      concat (map tree_Nodes shards) = tree_Nodes ?t \<and> concat (map tree_OrphanedNodes shards) = tree_OrphanedNodes ?t \<and>
      concat (map tree_Hosts shards) = tree_Hosts ?t \<and>
      mset (tree_Nodes (foldl (Merge no ho) empty_tree shards)) = mset (tree_Nodes t) \<and>
      mset (tree_OrphanedNodes (foldl (Merge no ho) empty_tree shards)) = mset (tree_OrphanedNodes t) \<and>
      mset (tree_Hosts (foldl (Merge no ho) empty_tree shards)) = mset (tree_Hosts t)"
    by (rule exI [of _ res]) (use g len count bound parts merged in simp)
next
  assume "sz < 0 \<and> 0 < tree_size t"
  moreover have "tree_items (Normalize no ho t) \<noteq> []"
    using calculation tree_items_parts(4) [of "Normalize no ho t"] Normalize_entries(4) [OF assms, of t] by auto
  ultimately show "GetShards no ho sz t = None" by (simp add: GetShards_def Let_def shards_loop_diverges)
qed

definition sample_node :: "string \<Rightarrow> unit ResourceNode" where
  "sample_node n = \<lparr>node_ResourceRef = \<lparr>rr_Group = [], rr_Version = ''v1'', rr_Kind = ''Pod'', rr_Namespace = ''default'', rr_Name = n, rr_UID = []\<rparr>,
     node_ParentRefs = [], node_Info = [], node_NetworkingInfo = None, node_ResourceVersion = [], node_Images = [], node_Health = None, node_CreatedAt = None\<rparr>"

definition sample_tree :: "(unit, unit) ApplicationTree" where
  "sample_tree = \<lparr>tree_Nodes = [sample_node ''b'', sample_node ''a''], tree_OrphanedNodes = [sample_node ''c''], tree_Hosts = [], tree_ShardsCount = 0\<rparr>"

theorem shards_of_tree_witness:
  "(\<exists>shards. GetShards rev id 2 sample_tree = Some (shards, Normalize rev id sample_tree) \<and> length shards = 2) \<and>
   GetShards rev id (- 1) sample_tree = None"
proof -
  have r: "rearranges (rev :: unit ResourceNode list \<Rightarrow> _)" "rearranges (id :: unit HostInfo list \<Rightarrow> _)" by (simp_all add: rearranges_def)
  have s: "tree_size sample_tree = 3" by (simp add: tree_size_def sample_tree_def)
  show ?thesis using shards_of_tree [OF r, of 2 sample_tree] shards_of_tree [OF r, of "- 1" sample_tree] unfolding s by auto
qed

end
