(* ===== verification/Server.thy ===== *)
theory Server
  imports Controller SyncWindows
begin

text \<open>
  The server of the controller process, \<open>mrp_controller/server.go\<close>: its options, the namespace its informer watches, the
  filter of its metrics and the controller it runs. The sockets, the clients of the cluster and of the repository server and
  the goroutines it starts are not modelled.
\<close>

record MRPServerOpts =
  so_ListenPort :: int
  so_ListenHost :: string
  so_Namespace :: string
  so_ApplicationNamespaces :: "string list"
  so_BaseHRef :: string
  so_RootPath :: string
  so_MetricsCacheExpiration :: int
  so_EventHandlingTimeout :: int
  so_NumWorkers :: int

text \<open>The namespace given to the informer by \<open>NewMRPServer\<close>; the empty one stands for all namespaces.\<close>

definition appInformerNs :: "MRPServerOpts \<Rightarrow> string" where
  "appInformerNs opts = (if 0 < length (so_ApplicationNamespaces opts) then [] else so_Namespace opts)"

definition informer_watches :: "string \<Rightarrow> string \<Rightarrow> bool" where
  "informer_watches ns namespace \<longleftrightarrow> ns = [] \<or> namespace = ns"

definition canProcessApp :: "Application \<Rightarrow> bool" where
  "canProcessApp app = True"

definition metricsAddr :: "MRPServerOpts \<Rightarrow> string" where
  "metricsAddr opts = so_ListenHost opts @ '':'' @ int_text (so_ListenPort opts)"

definition RunController :: "MRPServerOpts \<Rightarrow> monorepoController" where
  "RunController opts = NewMonorepoController (wrap64 (1000000000 * so_EventHandlingTimeout opts)) (so_NumWorkers opts)"

text \<open>The decisions of \<open>Run\<close>: the metrics are set to expire if the expiration is positive, in seconds.\<close>

definition metrics_expire :: "MRPServerOpts \<Rightarrow> bool" where
  "metrics_expire opts \<longleftrightarrow> 0 < so_MetricsCacheExpiration opts"

text \<open>
  With additional namespaces configured the applications of every namespace are processed: the informer watches them all, and the
  test that an application is in one of the configured namespaces is commented out.
\<close>

lemma additional_namespaces_are_all:
  assumes "so_ApplicationNamespaces opts \<noteq> []"
  shows "informer_watches (appInformerNs opts) (app_Namespace app) \<and> canProcessApp app"
  using assms by (simp add: informer_watches_def appInformerNs_def canProcessApp_def)

lemma own_namespace_only:
  assumes "so_ApplicationNamespaces opts = []" "so_Namespace opts \<noteq> []"
  shows "informer_watches (appInformerNs opts) (app_Namespace app) \<longleftrightarrow> app_Namespace app = so_Namespace opts"
  using assms by (simp add: informer_watches_def appInformerNs_def)

text \<open>
  The time limit of an event is the configured number of seconds for every value that
  fits into a duration; a negative number of workers makes the controller panic when it starts.
\<close>

lemma server_starts_controller:
  "(\<bar>so_EventHandlingTimeout opts\<bar> \<le> 9223372036 \<longrightarrow> mc_eventTimeout (RunController opts) = so_EventHandlingTimeout opts * 1000000000) \<and>
   ((\<exists>r. Run (RunController opts) = Ret r) \<longleftrightarrow> 0 \<le> so_NumWorkers opts)"
proof (intro conjI impI)
  assume "\<bar>so_EventHandlingTimeout opts\<bar> \<le> 9223372036"
  then show "mc_eventTimeout (RunController opts) = so_EventHandlingTimeout opts * 1000000000"
    unfolding RunController_def NewMonorepoController_def by (simp add: wrap64_id MinInt64_def MaxInt64_def)
next
  show "(\<exists>r. Run (RunController opts) = Ret r) \<longleftrightarrow> 0 \<le> so_NumWorkers opts"
    by (auto simp: RunController_def Run_def NewMonorepoController_def NewWorkerPool_def Let_def split: prod.splits if_splits)
qed

end
