(* ===== verification/GitCreds.thy ===== *)
theory GitCreds
  imports GitClient
begin

text \<open>
  Git credentials: \<open>util/git/creds.go\<close>, the server that hands them to git (\<open>util/askpass/server.go\<close>), the closers of
  \<open>util/io/closer.go\<close> and the choice of credentials by \<open>Repository.GetGitCreds\<close>. \<open>Environ\<close> creates what a git process
  needs, files with keys and an entry of the credential store, and returns a closer that removes it; the
  lemmas say that nothing is left behind. The libraries that fetch tokens are parameters.
\<close>

section \<open>The world of the credentials\<close>

record AskPassCreds =
  ap_Username :: string
  ap_Password :: string

text \<open>The server of \<open>util/askpass\<close>: credentials by nonce.\<close>

record askpass_server =
  as_creds :: "string \<rightharpoonup> AskPassCreds"
  as_socketPath :: string

text \<open>Temporary files with their contents, the server, and the state of everything else.\<close>

record 'x cred_world =
  cw_files :: "string \<rightharpoonup> string"
  cw_server :: askpass_server
  cw_ext :: 'x

text \<open>A proxy URL as \<open>url.Parse\<close> returns it: host name, port, and a user with or without a password.\<close>

record proxy_url =
  pu_Hostname :: string
  pu_Port :: string
  pu_User :: "(string \<times> string option) option"

record GitHubAppCreds =
  gh_appID :: int
  gh_appInstallId :: int
  gh_privateKey :: string
  gh_baseURL :: string
  gh_clientCertData :: string
  gh_clientCertKey :: string
  gh_insecure :: bool
  gh_proxy :: string
  gh_noProxy :: string

text \<open>
  The operating system (a new temporary file, and whether writing to and removing a file fails), \<open>uuid.New\<close>,
  \<open>url.Parse\<close>, \<open>os.Getenv\<close> and the sources of tokens.
\<close>

record 'x cred_env =
  ce_CreateTemp :: "'x cred_world \<Rightarrow> string result \<times> 'x"
  ce_WriteError :: "string \<Rightarrow> 'x \<Rightarrow> go_error option \<times> 'x"
  ce_RemoveError :: "string \<Rightarrow> 'x \<Rightarrow> go_error option \<times> 'x"
  ce_uuid :: "'x cred_world \<Rightarrow> string \<times> 'x"
  ce_url_Parse :: "string \<Rightarrow> proxy_url result"
  ce_Getenv :: "string \<Rightarrow> string"
  ce_gitHubToken :: "GitHubAppCreds \<Rightarrow> 'x \<Rightarrow> string result \<times> 'x"
  ce_googleUsername :: "string \<Rightarrow> string result"
  ce_googleToken :: "string \<Rightarrow> 'x \<Rightarrow> string result \<times> 'x"
  ce_azureToken :: "string \<Rightarrow> 'x \<Rightarrow> string result \<times> 'x"

definition os_CreateTemp :: "'x cred_env \<Rightarrow> 'x cred_world \<Rightarrow> string result \<times> 'x cred_world" where
  "os_CreateTemp e w = (case ce_CreateTemp e w of
     (Inl err, x) \<Rightarrow> (Inl err, w\<lparr>cw_ext := x\<rparr>)
   | (Inr name, x) \<Rightarrow> (Inr name, w\<lparr>cw_ext := x, cw_files := (cw_files w)(name \<mapsto> [])\<rparr>))"

definition WriteString :: "'x cred_env \<Rightarrow> string \<Rightarrow> string \<Rightarrow> 'x cred_world \<Rightarrow> go_error option \<times> 'x cred_world" where
  "WriteString e name s w = (case ce_WriteError e name (cw_ext w) of
     (Some err, x) \<Rightarrow> (Some err, w\<lparr>cw_ext := x\<rparr>)
   | (None, x) \<Rightarrow> (None, w\<lparr>cw_ext := x, cw_files := (cw_files w)(name \<mapsto> s)\<rparr>))"

definition os_Remove :: "'x cred_env \<Rightarrow> string \<Rightarrow> 'x cred_world \<Rightarrow> go_error option \<times> 'x cred_world" where
  "os_Remove e name w = (case ce_RemoveError e name (cw_ext w) of
     (Some err, x) \<Rightarrow> (Some err, w\<lparr>cw_ext := x\<rparr>)
   | (None, x) \<Rightarrow> (None, w\<lparr>cw_ext := x, cw_files := (cw_files w)(name := None)\<rparr>))"

section \<open>Credential stores\<close>

text \<open>The interface \<open>CredsStore\<close>.\<close>

record 'w CredsStore =
  st_Add :: "string \<Rightarrow> string \<Rightarrow> 'w \<Rightarrow> string \<times> 'w"
  st_Remove :: "string \<Rightarrow> 'w \<Rightarrow> 'w"
  st_Environ :: "string \<Rightarrow> string list"

definition NoopCredsStore :: "'w CredsStore" where
  "NoopCredsStore = \<lparr>st_Add = (\<lambda>_ _ w. ([], w)), st_Remove = (\<lambda>_ w. w), st_Environ = (\<lambda>_. [])\<rparr>"

definition NewServer :: "string \<Rightarrow> askpass_server" where
  "NewServer socketPath = \<lparr>as_creds = Map.empty, as_socketPath = socketPath\<rparr>"

definition getCreds :: "askpass_server \<Rightarrow> string \<Rightarrow> AskPassCreds option" where
  "getCreds s nonce = as_creds s nonce"

definition GetCredentials :: "askpass_server \<Rightarrow> string \<Rightarrow> (string \<times> string) result" where
  "GetCredentials s nonce =
     (if nonce = [] then Inl (StatusError InvalidArgument ''missing nonce'')
      else case getCreds s nonce of
        None \<Rightarrow> Inl (StatusError NotFound ''unknown nonce'')
      | Some c \<Rightarrow> Inr (ap_Username c, ap_Password c))"

definition server_Add :: "'x cred_env \<Rightarrow> string \<Rightarrow> string \<Rightarrow> 'x cred_world \<Rightarrow> string \<times> 'x cred_world" where
  "server_Add e username password w =
     (let (nonce, x) = ce_uuid e w; s = cw_server w
      in (nonce, w\<lparr>cw_ext := x, cw_server := s\<lparr>as_creds := (as_creds s)(nonce \<mapsto> \<lparr>ap_Username = username, ap_Password = password\<rparr>)\<rparr>\<rparr>))"

definition server_Remove :: "string \<Rightarrow> 'x cred_world \<Rightarrow> 'x cred_world" where
  "server_Remove nonce w = w\<lparr>cw_server := (cw_server w)\<lparr>as_creds := (as_creds (cw_server w))(nonce := None)\<rparr>\<rparr>"

definition server_Environ :: "string \<Rightarrow> string \<Rightarrow> string list" where
  "server_Environ socketPath nonce =
     [''GIT_ASKPASS=argocd'', ''ARGOCD_GIT_ASKPASS_NONCE='' @ nonce, ''GIT_TERMINAL_PROMPT=0'',
      ''ARGOCD_BINARY_NAME=argocd-git-ask-pass'', ''ARGOCD_ASK_PASS_SOCK='' @ socketPath]"

definition askpass_store :: "'x cred_env \<Rightarrow> string \<Rightarrow> 'x cred_world CredsStore" where
  "askpass_store e socketPath = \<lparr>st_Add = server_Add e, st_Remove = server_Remove, st_Environ = server_Environ socketPath\<rparr>"

section \<open>Closers\<close>

text \<open>\<open>NopCloser\<close>, the key file of SSH credentials, and the closure that removes a store's entry and then files.\<close>

datatype closer = NopCloser | sshPrivateKeyFile string | storeCloser string "string list"

text \<open>\<open>authFilePaths.Close\<close>: the last error is returned.\<close>

fun authFilePaths_Close :: "'x cred_env \<Rightarrow> string list \<Rightarrow> go_error option \<Rightarrow> 'x cred_world \<Rightarrow> go_error option \<times> 'x cred_world" where
  "authFilePaths_Close e [] retErr w = (retErr, w)"
| "authFilePaths_Close e (path # paths) retErr w = (case os_Remove e path w of
     (Some err, w1) \<Rightarrow> authFilePaths_Close e paths (Some err) w1
   | (None, w1) \<Rightarrow> authFilePaths_Close e paths retErr w1)"

fun closer_Close :: "'x cred_env \<Rightarrow> 'x cred_world CredsStore \<Rightarrow> closer \<Rightarrow> 'x cred_world \<Rightarrow> go_error option \<times> 'x cred_world" where
  "closer_Close e store NopCloser w = (None, w)"
| "closer_Close e store (sshPrivateKeyFile f) w = os_Remove e f w"
| "closer_Close e store (storeCloser nonce paths) w = authFilePaths_Close e paths None (st_Remove store nonce w)"

section \<open>Credentials\<close>

record HTTPSCreds =
  hc_username :: string
  hc_password :: string
  hc_bearerToken :: string
  hc_insecure :: bool
  hc_clientCertData :: string
  hc_clientCertKey :: string
  hc_forceBasicAuth :: bool

record SSHCreds =
  sc_sshPrivateKey :: string
  sc_caPath :: string
  sc_insecure :: bool
  sc_proxy :: string

text \<open>Google credentials are their JSON text, nothing when it was refused.\<close>

datatype Creds = NopCreds | HTTPS HTTPSCreds | SSH SSHCreds | GitHubApp GitHubAppCreds
  | GoogleCloud "string option" | AzureWorkloadIdentity

definition NewHTTPSCreds :: "string \<Rightarrow> string \<Rightarrow> string \<Rightarrow> string \<Rightarrow> string \<Rightarrow> bool \<Rightarrow> bool \<Rightarrow> HTTPSCreds" where
  "NewHTTPSCreds username password bearerToken clientCertData clientCertKey insecure forceBasicAuth =
     \<lparr>hc_username = username, hc_password = password, hc_bearerToken = bearerToken, hc_insecure = insecure,
      hc_clientCertData = clientCertData, hc_clientCertKey = clientCertKey, hc_forceBasicAuth = forceBasicAuth\<rparr>"

definition NewSSHCreds :: "string \<Rightarrow> string \<Rightarrow> bool \<Rightarrow> string \<Rightarrow> SSHCreds" where
  "NewSSHCreds sshPrivateKey caPath insecureIgnoreHostKey proxy =
     \<lparr>sc_sshPrivateKey = sshPrivateKey, sc_caPath = caPath, sc_insecure = insecureIgnoreHostKey, sc_proxy = proxy\<rparr>"

text \<open>\<open>base64.StdEncoding.EncodeToString\<close>.\<close>

definition base64_digit :: "nat \<Rightarrow> char" where
  "base64_digit n = (''ABCDEFGHIJKLMNOPQRSTUVWXYZabcdefghijklmnopqrstuvwxyz0123456789+/'' ! n)"

fun base64_Encode :: "string \<Rightarrow> string" where
  "base64_Encode [] = []"
| "base64_Encode [a] = [base64_digit (byte a div 4), base64_digit (byte a mod 4 * 16), CHR ''='', CHR ''='']"
| "base64_Encode [a, b] =
     [base64_digit (byte a div 4), base64_digit (byte a mod 4 * 16 + byte b div 16), base64_digit (byte b mod 16 * 4), CHR ''='']"
| "base64_Encode (a # b # c # s) =
     [base64_digit (byte a div 4), base64_digit (byte a mod 4 * 16 + byte b div 16),
      base64_digit (byte b mod 16 * 4 + byte c div 64), base64_digit (byte c mod 64)] @ base64_Encode s"

definition BasicAuthHeader :: "HTTPSCreds \<Rightarrow> string" where
  "BasicAuthHeader creds = ''Authorization: Basic '' @ base64_Encode (hc_username creds @ '':'' @ hc_password creds)"

definition BearerAuthHeader :: "HTTPSCreds \<Rightarrow> string" where
  "BearerAuthHeader creds = ''Authorization: Bearer '' @ hc_bearerToken creds"

definition githubAccessTokenUsername :: string where "githubAccessTokenUsername = ''x-access-token''"

text \<open>The two files are written; they are removed when that fails.\<close>

definition write_cert_files :: "'x cred_env \<Rightarrow> string \<Rightarrow> string \<Rightarrow> string \<Rightarrow> string \<Rightarrow> 'x cred_world \<Rightarrow> (string list \<times> string list) result \<times> 'x cred_world" where
  "write_cert_files e certFile certData keyFile certKey w2 =
     (case WriteString e certFile certData w2 of
        (Some err, w3) \<Rightarrow> (Inl err, snd (authFilePaths_Close e [certFile, keyFile] None w3))
      | (None, w3) \<Rightarrow> (case WriteString e keyFile certKey w3 of
        (Some err, w4) \<Rightarrow> (Inl err, snd (authFilePaths_Close e [certFile, keyFile] None w4))
      | (None, w4) \<Rightarrow> (Inr ([certFile, keyFile], [''GIT_SSL_CERT='' @ certFile, ''GIT_SSL_KEY='' @ keyFile]), w4)))"

text \<open>
  The part that \<open>HTTPSCreds.Environ\<close> and \<open>GitHubAppCreds.Environ\<close> have in common: the files of a client certificate.
  The result is the files that have to be closed and the environment so far.
\<close>

definition client_cert_files :: "'x cred_env \<Rightarrow> string \<Rightarrow> string \<Rightarrow> 'x cred_world \<Rightarrow> (string list \<times> string list) result \<times> 'x cred_world" where
  "client_cert_files e certData certKey w0 =
     (if \<not> (certData \<noteq> [] \<and> certKey \<noteq> []) then (Inr ([], []), w0)
      else case os_CreateTemp e w0 of
        (Inl err, w1) \<Rightarrow> (Inl err, w1)
      | (Inr certFile, w1) \<Rightarrow> (case os_CreateTemp e w1 of
        (Inl err, w2) \<Rightarrow> (Inl err, snd (os_Remove e certFile w2))
      | (Inr keyFile, w2) \<Rightarrow> write_cert_files e certFile certData keyFile certKey w2))"

definition store_env :: "'x cred_world CredsStore \<Rightarrow> string \<Rightarrow> string \<Rightarrow> string list \<Rightarrow> string list \<Rightarrow> 'x cred_world \<Rightarrow>
    (closer \<times> string list) result \<times> 'x cred_world" where
  "store_env store username password files env w =
     (let (nonce, w1) = st_Add store username password w in (Inr (storeCloser nonce files, env @ st_Environ store nonce), w1))"

definition HTTPSCreds_Environ :: "'x cred_env \<Rightarrow> 'x cred_world CredsStore \<Rightarrow> HTTPSCreds \<Rightarrow> 'x cred_world \<Rightarrow>
    (closer \<times> string list) result \<times> 'x cred_world" where
  "HTTPSCreds_Environ e store creds w =
     (case client_cert_files e (hc_clientCertData creds) (hc_clientCertKey creds) w of
        (Inl err, w1) \<Rightarrow> (Inl err, w1)
      | (Inr (files, certEnv), w1) \<Rightarrow>
          let env = (if hc_insecure creds then [''GIT_SSL_NO_VERIFY=true''] else []) @ certEnv @
                (if hc_password creds \<noteq> [] \<and> hc_forceBasicAuth creds then [forceBasicAuthHeaderEnv @ ''='' @ BasicAuthHeader creds]
                 else if hc_bearerToken creds \<noteq> [] then [bearerAuthHeaderEnv @ ''='' @ BearerAuthHeader creds]
                 else [])
          in store_env store (if hc_username creds \<noteq> [] then hc_username creds else githubAccessTokenUsername)
               (hc_password creds) files env w1)"

definition GitHubAppCreds_Environ :: "'x cred_env \<Rightarrow> 'x cred_world CredsStore \<Rightarrow> GitHubAppCreds \<Rightarrow> 'x cred_world \<Rightarrow>
    (closer \<times> string list) result \<times> 'x cred_world" where
  "GitHubAppCreds_Environ e store g w0 =
     (case ce_gitHubToken e g (cw_ext w0) of
        (Inl err, x) \<Rightarrow> (Inl err, w0\<lparr>cw_ext := x\<rparr>)
      | (Inr token, x) \<Rightarrow>
     (case client_cert_files e (gh_clientCertData g) (gh_clientCertKey g) (w0\<lparr>cw_ext := x\<rparr>) of
        (Inl err, w1) \<Rightarrow> (Inl err, w1)
      | (Inr (files, certEnv), w1) \<Rightarrow>
          store_env store githubAccessTokenUsername token files
            ((if gh_insecure g then [''GIT_SSL_NO_VERIFY=true''] else []) @ certEnv) w1))"

definition GetSSHKnownHostsDataPath :: "(string \<Rightarrow> string) \<Rightarrow> string" where
  "GetSSHKnownHostsDataPath getenv =
     (if getenv ''ARGOCD_SSH_DATA_PATH'' \<noteq> [] then filepath_Join [getenv ''ARGOCD_SSH_DATA_PATH'', ''ssh_known_hosts'']
      else filepath_Join [''/app/config/ssh'', ''ssh_known_hosts''])"

definition apos :: string where "apos = [CHR 0x27]"

definition SSHCreds_Environ :: "'x cred_env \<Rightarrow> SSHCreds \<Rightarrow> 'x cred_world \<Rightarrow> (closer \<times> string list) result \<times> 'x cred_world" where
  "SSHCreds_Environ e c w0 =
     (case os_CreateTemp e w0 of
        (Inl err, w1) \<Rightarrow> (Inl err, w1)
      | (Inr file, w1) \<Rightarrow> (case WriteString e file (sc_sshPrivateKey c @ [CHR 0x0A]) w1 of
        (Some err, w2) \<Rightarrow> (Inl err, snd (os_Remove e file w2))
      | (None, w2) \<Rightarrow>
          let args = [''ssh'', ''-i'', file] @
                (if sc_insecure c then [''-o'', ''StrictHostKeyChecking=no'', ''-o'', ''UserKnownHostsFile=/dev/null'']
                 else [''-o'', ''StrictHostKeyChecking=yes'', ''-o'', ''UserKnownHostsFile='' @ GetSSHKnownHostsDataPath (ce_Getenv e)]);
              env = (if sc_caPath c \<noteq> [] then [''GIT_SSL_CAINFO='' @ sc_caPath c] else [])
          in if sc_proxy c = [] then (Inr (sshPrivateKeyFile file, env @ [''GIT_SSH_COMMAND='' @ strings_Join args '' '']), w2)
             else case ce_url_Parse e (sc_proxy c) of
               Inl err \<Rightarrow> (Inl (Wrapped (''failed to set environment variables related to socks5 proxy, could not parse proxy URL '' @
                 apos @ sc_proxy c @ apos) err), snd (os_Remove e file w2))
             | Inr u \<Rightarrow>
                 let args2 = args @ [''-o'', ''ProxyCommand='' @ apos @ ''connect-proxy -S '' @ pu_Hostname u @ '':'' @ pu_Port u @ '' -5 %h %p'' @ apos];
                     proxyEnv = (case pu_User u of
                        None \<Rightarrow> []
                      | Some (user, None) \<Rightarrow> [''SOCKS5_USER='' @ user]
                      | Some (user, Some passwd) \<Rightarrow> [''SOCKS5_USER='' @ user, ''SOCKS5_PASSWD='' @ passwd])
                 in (Inr (sshPrivateKeyFile file, env @ [''GIT_SSH_COMMAND='' @ strings_Join args2 '' ''] @ proxyEnv), w2)))"

definition GoogleCloudCreds_Environ :: "'x cred_env \<Rightarrow> 'x cred_world CredsStore \<Rightarrow> string option \<Rightarrow> 'x cred_world \<Rightarrow>
    (closer \<times> string list) result \<times> 'x cred_world" where
  "GoogleCloudCreds_Environ e store creds w =
     (case creds of
        None \<Rightarrow> (Inl (Wrapped ''failed to get username from creds'' (ErrorString ''credentials for Google Cloud Source repositories are invalid'')), w)
      | Some json \<Rightarrow> (case ce_googleUsername e json of
        Inl err \<Rightarrow> (Inl (Wrapped ''failed to get username from creds'' err), w)
      | Inr username \<Rightarrow> (case ce_googleToken e json (cw_ext w) of
        (Inl err, x) \<Rightarrow> (Inl (Wrapped ''failed to get access token from creds'' err), w\<lparr>cw_ext := x\<rparr>)
      | (Inr token, x) \<Rightarrow> store_env store username token [] [] (w\<lparr>cw_ext := x\<rparr>))))"

definition azureDevopsEntraResourceId :: string where
  "azureDevopsEntraResourceId = ''499b84ac-1321-427f-aa17-267ca6975798/.default''"

definition AzureWorkloadIdentityCreds_Environ :: "'x cred_env \<Rightarrow> 'x cred_world CredsStore \<Rightarrow> 'x cred_world \<Rightarrow>
    (closer \<times> string list) result \<times> 'x cred_world" where
  "AzureWorkloadIdentityCreds_Environ e store w =
     (case ce_azureToken e azureDevopsEntraResourceId (cw_ext w) of
        (Inl err, x) \<Rightarrow> (Inl err, w\<lparr>cw_ext := x\<rparr>)
      | (Inr token, x) \<Rightarrow> store_env store [] token [] [] (w\<lparr>cw_ext := x\<rparr>))"

fun Environ_of :: "'x cred_env \<Rightarrow> 'x cred_world CredsStore \<Rightarrow> Creds \<Rightarrow> 'x cred_world \<Rightarrow> (closer \<times> string list) result \<times> 'x cred_world" where
  "Environ_of e store NopCreds w = (Inr (NopCloser, []), w)"
| "Environ_of e store (HTTPS c) w = HTTPSCreds_Environ e store c w"
| "Environ_of e store (SSH c) w = SSHCreds_Environ e c w"
| "Environ_of e store (GitHubApp g) w = GitHubAppCreds_Environ e store g w"
| "Environ_of e store (GoogleCloud c) w = GoogleCloudCreds_Environ e store c w"
| "Environ_of e store AzureWorkloadIdentity w = AzureWorkloadIdentityCreds_Environ e store w"

text \<open>\<open>GetGitCreds\<close>; \<open>caPath\<close> is the certificate bundle for the host of a URL, and \<open>google\<close> reads credentials from JSON.\<close>

definition GetGitCreds :: "(string \<Rightarrow> string) \<Rightarrow> (string \<Rightarrow> string option) \<Rightarrow> Repository option \<Rightarrow> Creds" where
  "GetGitCreds caPath google repo = (case repo of
     None \<Rightarrow> NopCreds
   | Some r \<Rightarrow>
       if repo_Password r \<noteq> [] \<or> repo_BearerToken r \<noteq> []
       then HTTPS (NewHTTPSCreds (repo_Username r) (repo_Password r) (repo_BearerToken r) (repo_TLSClientCertData r)
              (repo_TLSClientCertKey r) (IsInsecure r) (repo_ForceHttpBasicAuth r))
       else if repo_SSHPrivateKey r \<noteq> []
       then SSH (NewSSHCreds (repo_SSHPrivateKey r) (caPath (repo_Repo r)) (IsInsecure r) (repo_Proxy r))
       else if repo_GithubAppPrivateKey r \<noteq> [] \<and> repo_GithubAppId r \<noteq> 0 \<and> repo_GithubAppInstallationId r \<noteq> 0
       then GitHubApp \<lparr>gh_appID = repo_GithubAppId r, gh_appInstallId = repo_GithubAppInstallationId r,
              gh_privateKey = repo_GithubAppPrivateKey r, gh_baseURL = repo_GitHubAppEnterpriseBaseURL r,
              gh_clientCertData = repo_TLSClientCertData r, gh_clientCertKey = repo_TLSClientCertKey r, gh_insecure = IsInsecure r,
              gh_proxy = repo_Proxy r, gh_noProxy = repo_NoProxy r\<rparr>
       else if repo_GCPServiceAccountKey r \<noteq> [] then GoogleCloud (google (repo_GCPServiceAccountKey r))
       else if repo_UseAzureWorkloadIdentity r then AzureWorkloadIdentity
       else NopCreds)"

section \<open>What closing leaves behind\<close>

text \<open>\<open>undoes w w' w'' w3\<close>: \<open>w3\<close> is \<open>w''\<close> without the files and the store's entries that \<open>w'\<close> has in addition to \<open>w\<close>.\<close>

abbreviation entries :: "'x cred_world \<Rightarrow> string \<rightharpoonup> AskPassCreds" where
  "entries w \<equiv> as_creds (cw_server w)"

definition finite_world :: "'x cred_world \<Rightarrow> bool" where
  "finite_world w \<longleftrightarrow> finite (dom (cw_files w)) \<and> finite (dom (entries w))"

definition undone :: "(string \<rightharpoonup> 'b) \<Rightarrow> (string \<rightharpoonup> 'b) \<Rightarrow> (string \<rightharpoonup> 'b) \<Rightarrow> (string \<rightharpoonup> 'b)" where
  "undone m m' m'' = m'' |` (- (dom m' - dom m))"

lemma restrict_UNIV: "m |` UNIV = m"
  by (rule ext) simp

lemma undone_same: "undone m m m'' = m''"
  by (simp add: undone_def restrict_UNIV)

lemma undone_added: "m n = None \<Longrightarrow> undone m (m(n \<mapsto> v)) m'' = m''(n := None)"
  by (rule ext) (auto simp: undone_def restrict_map_def)

lemma undone_refl: "m \<subseteq>\<^sub>m m' \<Longrightarrow> undone m m' m' = m"
  by (rule ext) (auto simp: undone_def restrict_map_def map_le_def domIff split: if_splits, metis domIff)

text \<open>The interface \<open>CredsStore\<close>: adding touches no file and keeps what is there, removing undoes the addition only.\<close>

locale creds_store =
  fixes store :: "'x cred_world CredsStore"
  assumes Add: "st_Add store u p w = (n, w') \<Longrightarrow> finite_world w \<Longrightarrow> cw_files w' = cw_files w \<and> entries w \<subseteq>\<^sub>m entries w'"
    and Remove_files: "cw_files (st_Remove store n w) = cw_files w"
    and Remove: "st_Add store u p w = (n, w') \<Longrightarrow> finite_world w \<Longrightarrow> entries (st_Remove store n w'') = undone (entries w) (entries w') (entries w'')"

text \<open>The operating system: a new temporary file is new, and removing a file of the process succeeds.\<close>

locale cred_os =
  fixes e :: "'x cred_env"
  assumes temp_new: "ce_CreateTemp e w = (Inr f, x) \<Longrightarrow> finite_world w \<Longrightarrow> cw_files w f = None"
    and remove_ok: "fst (ce_RemoveError e f x) = None"
begin

lemma os_Remove_spec: "os_Remove e f w = (None, w') \<and> cw_files w' = (cw_files w)(f := None) \<and> entries w' = entries w"
  if "snd (os_Remove e f w) = w'"
  using that remove_ok [of f "cw_ext w"] unfolding os_Remove_def by (auto split: prod.splits)

lemma authFilePaths_Close_spec:
  "\<exists>w'. authFilePaths_Close e fs err w = (err, w') \<and> cw_files w' = cw_files w |` (- set fs) \<and> entries w' = entries w"
proof (induction fs arbitrary: w)
  case (Cons f fs)
  obtain w1 where 1: "os_Remove e f w = (None, w1)" "cw_files w1 = (cw_files w)(f := None)" "entries w1 = entries w"
    using os_Remove_spec [OF refl] by blast
  have 2: "cw_files w1 |` (- set fs) = cw_files w |` (- set (f # fs))"
    by (rule ext) (simp add: restrict_map_def 1(2))
  show ?case using Cons.IH [of w1] 1(1,3) unfolding 2 by simp
qed (simp add: restrict_UNIV)

lemma os_CreateTemp_Inl: "os_CreateTemp e w = (Inl err, w') \<Longrightarrow> cw_files w' = cw_files w \<and> cw_server w' = cw_server w"
  unfolding os_CreateTemp_def by (auto split: prod.splits sum.splits)

lemma os_CreateTemp_Inr:
  "os_CreateTemp e w = (Inr f, w') \<Longrightarrow> finite_world w \<Longrightarrow>
   cw_files w f = None \<and> cw_files w' = (cw_files w)(f \<mapsto> []) \<and> cw_server w' = cw_server w"
  unfolding os_CreateTemp_def using temp_new by (auto split: prod.splits sum.splits)

lemma WriteString_Some: "WriteString e f s w = (Some err, w') \<Longrightarrow> cw_files w' = cw_files w \<and> cw_server w' = cw_server w"
  unfolding WriteString_def by (auto split: prod.splits option.splits)

lemma WriteString_None: "WriteString e f s w = (None, w') \<Longrightarrow> cw_files w' = (cw_files w)(f \<mapsto> s) \<and> cw_server w' = cw_server w"
  unfolding WriteString_def by (auto split: prod.splits option.splits)

lemma write_cert_files_spec:
  assumes "write_cert_files e f cd g ck w2 = (r, w')" "cw_files w2 = (cw_files w)(f \<mapsto> [], g \<mapsto> [])" "entries w2 = entries w"
    and new: "cw_files w f = None" "cw_files w g = None" "g \<noteq> f" and fin: "finite_world w"
  shows "entries w' = entries w \<and> (case r of
      Inl _ \<Rightarrow> cw_files w' = cw_files w
    | Inr (fs, _) \<Rightarrow> cw_files w \<subseteq>\<^sub>m cw_files w' \<and> set fs = dom (cw_files w') - dom (cw_files w) \<and> finite_world w')"
proof -
  have closed: "cw_files v' = cw_files w \<and> entries v' = entries w"
    if "snd (authFilePaths_Close e [f, g] None v) = v'" "cw_files v = (cw_files w)(f \<mapsto> s, g \<mapsto> t)" "entries v = entries w" for v v' s t
  proof -
    have "cw_files v |` (- set [f, g]) = cw_files w" using new that(2) by (auto intro!: ext simp: restrict_map_def)
    then show ?thesis using authFilePaths_Close_spec [of "[f, g]" None v] that(1,3) by auto
  qed
  consider (first) err w3 where "WriteString e f cd w2 = (Some err, w3)"
      "r = Inl err" "snd (authFilePaths_Close e [f, g] None w3) = w'"
    | (second) err w3 w4 where "WriteString e f cd w2 = (None, w3)" "WriteString e g ck w3 = (Some err, w4)"
      "r = Inl err" "snd (authFilePaths_Close e [f, g] None w4) = w'"
    | (written) env w3 where "WriteString e f cd w2 = (None, w3)" "WriteString e g ck w3 = (None, w')" "r = Inr ([f, g], env)"
    using assms(1) unfolding write_cert_files_def by (auto split: prod.splits option.splits)
  then show ?thesis
  proof cases
    case first
    have "cw_files w3 = (cw_files w)(f \<mapsto> [], g \<mapsto> [])" "entries w3 = entries w"
      using assms(2,3) WriteString_Some [OF first(1)] by auto
    from closed [OF first(3) this] show ?thesis using first(2) by simp
  next
    case second
    have "cw_files w4 = (cw_files w)(f \<mapsto> cd, g \<mapsto> [])" "entries w4 = entries w"
      using assms(2,3) new WriteString_None [OF second(1)] WriteString_Some [OF second(2)] by (auto simp: fun_upd_twist)
    from closed [OF second(4) this] show ?thesis using second(3) by simp
  next
    case written
    have 4: "cw_files w' = (cw_files w)(f \<mapsto> cd, g \<mapsto> ck)" "entries w' = entries w"
      using assms(2,3) new WriteString_None [OF written(1)] WriteString_None [OF written(2)] by (auto simp: fun_upd_twist)
    have "cw_files w \<subseteq>\<^sub>m cw_files w'" "set [f, g] = dom (cw_files w') - dom (cw_files w)" using new unfolding 4 by (auto simp: map_le_def)
    then show ?thesis using fin 4 written(3) by (simp add: finite_world_def)
  qed
qed

lemma client_cert_files_cases:
  assumes "client_cert_files e cd ck w = (r, w')"
  obtains (no) "r = Inr ([], [])" "w' = w"
    | (first) err where "os_CreateTemp e w = (Inl err, w')" "r = Inl err"
    | (second) err f w1 w2 where "os_CreateTemp e w = (Inr f, w1)" "os_CreateTemp e w1 = (Inl err, w2)" "r = Inl err" "snd (os_Remove e f w2) = w'"
    | (created) f g w1 w2 where "os_CreateTemp e w = (Inr f, w1)" "os_CreateTemp e w1 = (Inr g, w2)" "write_cert_files e f cd g ck w2 = (r, w')"
proof (cases "cd \<noteq> [] \<and> ck \<noteq> []")
  case True
  obtain a w1 where a: "os_CreateTemp e w = (a, w1)" by fastforce
  obtain b w2 where b: "os_CreateTemp e w1 = (b, w2)" by fastforce
  note eq = assms [unfolded client_cert_files_def]
  show thesis
  proof (cases a)
    case (Inl err)
    then show thesis using eq a True first [of err] by simp
  next
    case (Inr f)
    then show thesis using eq a b True second [of f w1 _ w2] created [of f w1 _ w2] by (cases b) simp_all
  qed
qed (use assms no in \<open>simp add: client_cert_files_def\<close>)

lemma client_cert_files_spec:
  assumes "client_cert_files e cd ck w = (r, w')" and fin: "finite_world w"
  shows "entries w' = entries w \<and> (case r of
      Inl _ \<Rightarrow> cw_files w' = cw_files w
    | Inr (fs, _) \<Rightarrow> cw_files w \<subseteq>\<^sub>m cw_files w' \<and> set fs = dom (cw_files w') - dom (cw_files w) \<and> finite_world w')"
proof -
  consider (no) "r = Inr ([], [])" "w' = w"
    | (first) err where "os_CreateTemp e w = (Inl err, w')" "r = Inl err"
    | (second) err f w1 w2 where "os_CreateTemp e w = (Inr f, w1)" "os_CreateTemp e w1 = (Inl err, w2)" "r = Inl err" "snd (os_Remove e f w2) = w'"
    | (created) f g w1 w2 where "os_CreateTemp e w = (Inr f, w1)" "os_CreateTemp e w1 = (Inr g, w2)" "write_cert_files e f cd g ck w2 = (r, w')"
    using assms(1) by (rule client_cert_files_cases)
  then show ?thesis
  proof cases
    case no
    then show ?thesis using fin by simp
  next
    case first
    then show ?thesis using os_CreateTemp_Inl [OF first(1)] by simp
  next
    case second
    then show ?thesis using os_CreateTemp_Inr [OF second(1) fin] os_CreateTemp_Inl [OF second(2)] os_Remove_spec [OF second(4)] by auto
  next
    case created
    note 1 = os_CreateTemp_Inr [OF created(1) fin]
    then have "finite_world w1" using fin by (auto simp: finite_world_def)
    note 2 = os_CreateTemp_Inr [OF created(2) this]
    show ?thesis by (rule write_cert_files_spec [OF created(3) _ _ _ _ _ fin]) (use 1 2 in \<open>auto split: if_splits\<close>)
  qed
qed

end

text \<open>
  \<open>restored\<close>: \<open>w'\<close> has everything that \<open>w\<close> has, and in whatever later state the closer runs, it reports no error and
  removes exactly what \<open>w'\<close> has in addition.
\<close>

definition restored :: "'x cred_env \<Rightarrow> 'x cred_world CredsStore \<Rightarrow> 'x cred_world \<Rightarrow> 'x cred_world \<Rightarrow> closer \<Rightarrow> bool" where
  "restored e store w w' cl \<longleftrightarrow>
     cw_files w \<subseteq>\<^sub>m cw_files w' \<and> entries w \<subseteq>\<^sub>m entries w' \<and>
     (\<forall>w''. \<exists>w3. closer_Close e store cl w'' = (None, w3) \<and>
        cw_files w3 = undone (cw_files w) (cw_files w') (cw_files w'') \<and> entries w3 = undone (entries w) (entries w') (entries w''))"

definition nothing_left :: "'x cred_env \<Rightarrow> 'x cred_world CredsStore \<Rightarrow> 'x cred_world \<Rightarrow> (closer \<times> string list) result \<Rightarrow> 'x cred_world \<Rightarrow> bool" where
  "nothing_left e store w r w' = (case r of
     Inl _ \<Rightarrow> cw_files w' = cw_files w \<and> entries w' = entries w
   | Inr (cl, _) \<Rightarrow> restored e store w w' cl)"

lemma finite_world_ext [simp]: "finite_world (w\<lparr>cw_ext := x\<rparr>) = finite_world w"
  by (simp add: finite_world_def)

lemma restored_ext [simp]: "restored e store (w\<lparr>cw_ext := x\<rparr>) w' cl = restored e store w w' cl"
  by (simp add: restored_def)

lemma nothing_left_ext [simp]: "nothing_left e store (w\<lparr>cw_ext := x\<rparr>) r w' = nothing_left e store w r w'"
  by (simp add: nothing_left_def split: sum.splits)

locale cred_client = cred_os e + creds_store store for e :: "'x cred_env" and store :: "'x cred_world CredsStore"
begin

lemma store_env_restores:
  assumes "store_env store u p fs env w1 = (r, w')" "entries w1 = entries w" "cw_files w \<subseteq>\<^sub>m cw_files w1"
    "set fs = dom (cw_files w1) - dom (cw_files w)" "finite_world w1"
  shows "nothing_left e store w r w'"
proof -
  obtain n where n: "st_Add store u p w1 = (n, w')" "r = Inr (storeCloser n fs, env @ st_Environ store n)"
    using assms(1) unfolding store_env_def by (auto split: prod.splits)
  note A = Add [OF n(1) assms(5)]
  have "\<exists>w3. closer_Close e store (storeCloser n fs) w'' = (None, w3) \<and>
     cw_files w3 = undone (cw_files w) (cw_files w') (cw_files w'') \<and> entries w3 = undone (entries w) (entries w') (entries w'')" for w''
    using authFilePaths_Close_spec [of fs None "st_Remove store n w''"] Remove_files [of n w''] Remove [OF n(1) assms(5), of w''] A assms(2,4)
    by (simp add: undone_def)
  then show ?thesis using A assms(2,3) unfolding nothing_left_def n(2) restored_def by simp
qed

lemma store_env_alone:
  assumes "store_env store u p [] env (w\<lparr>cw_ext := x\<rparr>) = (r, w')" "finite_world w"
  shows "nothing_left e store w r w'"
  by (rule store_env_restores [OF assms(1)]) (use assms(2) in simp_all)

lemma cert_then_store:
  assumes "client_cert_files e cd ck w = (a, w1)" "finite_world w"
    and "case a of Inl err \<Rightarrow> (r, w') = (Inl err, w1) | Inr (fs, cenv) \<Rightarrow> store_env store u p fs (f cenv) w1 = (r, w')"
  shows "nothing_left e store w r w'"
proof (cases a)
  case (Inl err)
  then show ?thesis using client_cert_files_spec [OF assms(1,2)] assms(3) by (simp add: nothing_left_def)
next
  case (Inr c)
  obtain fs cenv where c: "c = (fs, cenv)" by fastforce
  show ?thesis
    by (rule store_env_restores [of u p fs "f cenv" w1]) (use client_cert_files_spec [OF assms(1,2)] assms(3) Inr c in auto)
qed

lemma HTTPSCreds_Environ_restores:
  assumes "HTTPSCreds_Environ e store c w = (r, w')" "finite_world w"
  shows "nothing_left e store w r w'"
proof -
  obtain a w1 where a: "client_cert_files e (hc_clientCertData c) (hc_clientCertKey c) w = (a, w1)" by fastforce
  show ?thesis
    by (rule cert_then_store [OF a assms(2)])
      (use assms(1) a in \<open>auto simp: HTTPSCreds_Environ_def Let_def split: sum.split prod.split\<close>)
qed

lemma GitHubAppCreds_Environ_restores:
  assumes "GitHubAppCreds_Environ e store g w = (r, w')" "finite_world w"
  shows "nothing_left e store w r w'"
proof (cases "ce_gitHubToken e g (cw_ext w)")
  case (Pair t x)
  obtain a w1 where a: "client_cert_files e (gh_clientCertData g) (gh_clientCertKey g) (w\<lparr>cw_ext := x\<rparr>) = (a, w1)" by fastforce
  show ?thesis
  proof (cases t)
    case (Inl err)
    then show ?thesis using assms(1) Pair by (auto simp: GitHubAppCreds_Environ_def nothing_left_def)
  next
    case (Inr token)
    have "nothing_left e store (w\<lparr>cw_ext := x\<rparr>) r w'"
      by (rule cert_then_store [OF a])
        (use assms a Pair Inr in \<open>auto simp: GitHubAppCreds_Environ_def Let_def split: sum.split prod.split\<close>)
    then show ?thesis by simp
  qed
qed

lemma SSHCreds_Environ_cases:
  assumes "SSHCreds_Environ e c w = (r, w')"
  obtains (temp) err where "os_CreateTemp e w = (Inl err, w')" "r = Inl err"
    | (failed) f err err' w1 w2 where "os_CreateTemp e w = (Inr f, w1)" "WriteString e f (sc_sshPrivateKey c @ [CHR 0x0A]) w1 = (err, w2)"
        "r = Inl err'" "snd (os_Remove e f w2) = w'"
    | (written) f w1 env where "os_CreateTemp e w = (Inr f, w1)" "WriteString e f (sc_sshPrivateKey c @ [CHR 0x0A]) w1 = (None, w')"
        "r = Inr (sshPrivateKeyFile f, env)"
proof -
  obtain a w1 where a: "os_CreateTemp e w = (a, w1)" by fastforce
  note eq = assms [unfolded SSHCreds_Environ_def Let_def]
  show thesis
  proof (cases a)
    case (Inl err)
    then show thesis using eq a temp [of err] by simp
  next
    case (Inr f)
    obtain b w2 where b: "WriteString e f (sc_sshPrivateKey c @ [CHR 0x0A]) w1 = (b, w2)" by fastforce
    show thesis
    proof (cases "b = None \<and> (sc_proxy c = [] \<or> (\<exists>u. ce_url_Parse e (sc_proxy c) = Inr u))")
      case True
      then show thesis using eq a b Inr written [of f w1] by (auto split: option.splits if_splits)
    next
      case False
      then show thesis using eq a b Inr failed [of f w1 b w2] by (cases b; cases "ce_url_Parse e (sc_proxy c)") (simp_all, fastforce+)
    qed
  qed
qed

lemma SSHCreds_Environ_restores:
  assumes "SSHCreds_Environ e c w = (r, w')" "finite_world w"
  shows "nothing_left e store w r w'"
  using assms(1)
proof (cases rule: SSHCreds_Environ_cases)
  case temp
  then show ?thesis using os_CreateTemp_Inl [OF temp(1)] by (simp add: nothing_left_def)
next
  case (failed f err err' w1 w2)
  have "entries w2 = entries w \<and> (cw_files w2)(f := None) = cw_files w"
    using os_CreateTemp_Inr [OF failed(1) assms(2)] WriteString_Some [of f _ w1 _ w2] WriteString_None [of f _ w1 w2] failed(2)
    by (cases err) auto
  then show ?thesis using os_Remove_spec [OF failed(4)] failed(3) by (simp add: nothing_left_def)
next
  case (written f w1 env)
  note 1 = os_CreateTemp_Inr [OF written(1) assms(2)] WriteString_None [OF written(2)]
  have "\<exists>w3. closer_Close e store (sshPrivateKeyFile f) w'' = (None, w3) \<and>
     cw_files w3 = undone (cw_files w) (cw_files w') (cw_files w'') \<and> entries w3 = undone (entries w) (entries w') (entries w'')" for w''
    using os_Remove_spec [of f w'', OF refl] 1 by (auto simp: undone_same undone_added)
  then show ?thesis using 1 unfolding nothing_left_def written(3) restored_def by (auto simp: map_le_def)
qed

lemma GoogleCloudCreds_Environ_restores:
  assumes "GoogleCloudCreds_Environ e store c w = (r, w')" "finite_world w"
  shows "nothing_left e store w r w'"
proof -
  consider err where "r = Inl err" "cw_files w' = cw_files w" "cw_server w' = cw_server w"
    | u token x where "store_env store u token [] [] (w\<lparr>cw_ext := x\<rparr>) = (r, w')"
    using assms(1) unfolding GoogleCloudCreds_Environ_def by (auto split: option.splits sum.splits prod.splits)
  then show ?thesis
    by cases (simp_all add: nothing_left_def [of e store w "Inl _"] store_env_alone [OF _ assms(2)])
qed

lemma AzureWorkloadIdentityCreds_Environ_restores:
  assumes "AzureWorkloadIdentityCreds_Environ e store w = (r, w')" "finite_world w"
  shows "nothing_left e store w r w'"
proof -
  consider err where "r = Inl err" "cw_files w' = cw_files w" "cw_server w' = cw_server w"
    | token x where "store_env store [] token [] [] (w\<lparr>cw_ext := x\<rparr>) = (r, w')"
    using assms(1) unfolding AzureWorkloadIdentityCreds_Environ_def by (auto split: sum.splits prod.splits)
  then show ?thesis
    by cases (simp_all add: nothing_left_def [of e store w "Inl _"] store_env_alone [OF _ assms(2)])
qed

lemmas Environ_restores = HTTPSCreds_Environ_restores SSHCreds_Environ_restores GitHubAppCreds_Environ_restores
  GoogleCloudCreds_Environ_restores AzureWorkloadIdentityCreds_Environ_restores

lemma nop_restores: "nothing_left e store w (Inr (NopCloser, env)) w"
  by (simp add: nothing_left_def restored_def undone_same)

lemma Environ_of_restores:
  assumes "Environ_of e store c w = (r, w')" "finite_world w"
  shows "nothing_left e store w r w'"
  using assms
  by (cases c) (auto intro: Environ_restores nop_restores)

lemma closed_again:
  assumes "Environ_of e store c w = (Inr (cl, env), w')" "finite_world w"
    "cw_files w'' = cw_files w'" "entries w'' = entries w'"
  shows "\<exists>w3. closer_Close e store cl w'' = (None, w3) \<and> cw_files w3 = cw_files w \<and> entries w3 = entries w"
proof -
  have "restored e store w w' cl" using Environ_of_restores [OF assms(1,2)] by (simp add: nothing_left_def)
  moreover from this obtain w3 where "closer_Close e store cl w'' = (None, w3)"
      "cw_files w3 = undone (cw_files w) (cw_files w') (cw_files w'')" "entries w3 = undone (entries w) (entries w') (entries w'')"
    unfolding restored_def by blast
  ultimately show ?thesis using assms(3,4) by (simp add: restored_def undone_refl)
qed

end

section \<open>The stores\<close>

interpretation noop_store: creds_store NoopCredsStore
  by unfold_locales (simp_all add: NoopCredsStore_def undone_same)

text \<open>The store of \<open>util/askpass\<close> with a \<open>uuid\<close> that makes new identifiers.\<close>

locale askpass_env = cred_os e for e :: "'x cred_env" +
  fixes socketPath :: string
  assumes uuid_new: "ce_uuid e w = (n, x) \<Longrightarrow> finite_world w \<Longrightarrow> n \<noteq> [] \<and> entries w n = None"
begin

lemma server_Add_spec:
  assumes "server_Add e u p w = (n, w')" "finite_world w"
  shows "n \<noteq> [] \<and> entries w n = None \<and> cw_files w' = cw_files w \<and> entries w' = (entries w)(n \<mapsto> \<lparr>ap_Username = u, ap_Password = p\<rparr>)"
  using assms uuid_new unfolding server_Add_def by (auto simp: Let_def split: prod.splits)

end

sublocale askpass_env \<subseteq> cred_client e "askpass_store e socketPath"
proof unfold_locales
  fix u p w n w' w''
  assume "st_Add (askpass_store e socketPath) u p w = (n, w')" "finite_world w"
  then have *: "entries w n = None \<and> cw_files w' = cw_files w \<and> entries w' = (entries w)(n \<mapsto> \<lparr>ap_Username = u, ap_Password = p\<rparr>)"
    using server_Add_spec by (simp add: askpass_store_def)
  then show "cw_files w' = cw_files w \<and> entries w \<subseteq>\<^sub>m entries w'" by (auto simp: map_le_def)
  show "entries (st_Remove (askpass_store e socketPath) n w'') = undone (entries w) (entries w') (entries w'')"
    using * by (simp add: askpass_store_def server_Remove_def undone_added)
qed (simp add: askpass_store_def server_Remove_def)

section \<open>Commands with credentials\<close>

text \<open>The git client with these credentials: its world has the closer of the command that is running.\<close>

definition with_creds :: "'x cred_env \<Rightarrow> 'x cred_world CredsStore \<Rightarrow> Creds \<Rightarrow> ('x cred_world \<times> closer) git_env \<Rightarrow> ('x cred_world \<times> closer) git_env" where
  "with_creds e store c env = env\<lparr>
     ge_Environ := (\<lambda>(w, cl). case Environ_of e store c w of
        (Inl err, w1) \<Rightarrow> (Inl err, (w1, cl))
      | (Inr (cl1, environ), w1) \<Rightarrow> (Inr environ, (w1, cl1))),
     ge_closeCreds := (\<lambda>(w, cl). (snd (closer_Close e store cl w), NopCloser))\<rparr>"

context askpass_env
begin

lemma runCredentialedCmd_clean:
  assumes exec: "\<And>prog args dir vars v cl r v' cl'. ge_exec env prog args dir vars (v, cl) = (r, (v', cl')) \<Longrightarrow>
      cw_files v' = cw_files v \<and> entries v' = entries v \<and> cl' = cl"
    and fin: "finite_world w"
    and run: "runCredentialedCmd (with_creds e (askpass_store e socketPath) c env) m args (w, cl) = (err, (w', cl'))"
  shows "cw_files w' = cw_files w \<and> entries w' = entries w"
proof (cases "Environ_of e (askpass_store e socketPath) c w")
  case (Pair r w1)
  show ?thesis
  proof (cases r)
    case (Inl err1)
    then show ?thesis using run Pair Environ_of_restores [OF Pair fin]
      by (simp add: runCredentialedCmd_def with_creds_def nothing_left_def)
  next
    case (Inr ce)
    obtain cl1 environ where ce: "ce = (cl1, environ)" by fastforce
    obtain o1 w2 cl2 where out: "runCmdOutput (with_creds e (askpass_store e socketPath) c env) m ''git'' (auth_args environ args) environ (w1, cl1) = (o1, (w2, cl2))"
      by (metis surj_pair)
    have "ge_exec (with_creds e (askpass_store e socketPath) c env) = ge_exec env" by (simp add: with_creds_def)
    note git = out [unfolded runCmdOutput_def Let_def this]
    have same: "cw_files w2 = cw_files w1 \<and> entries w2 = entries w1 \<and> cl2 = cl1" by (rule exec [OF git])
    have "ge_Environ (with_creds e (askpass_store e socketPath) c env) (w, cl) = (Inr environ, (w1, cl1))"
      using Pair Inr ce by (simp add: with_creds_def)
    with run out have "(w', cl') = ge_closeCreds (with_creds e (askpass_store e socketPath) c env) (w2, cl2)"
      by (cases o1) (simp add: runCredentialedCmd_def)
    then have "w' = snd (closer_Close e (askpass_store e socketPath) cl1 w2)" using same by (simp add: with_creds_def)
    then show ?thesis using closed_again [OF Pair [unfolded Inr ce] fin, of w2] same by auto
  qed
qed

end

text \<open>
  (C11) Credentials do not outlive the command they are for. A credentialed git command, with the credentials
  of any kind and the store of the askpass server, leaves the temporary files and the entries of the server as
  they were, whether the environment can be prepared, git fails or the command succeeds. The hypotheses: temporary
  files and identifiers are new, removing a file succeeds, and git touches neither.
\<close>

theorem git_commands_leave_no_credentials:
  assumes "\<And>v f x. ce_CreateTemp e v = (Inr f, x) \<Longrightarrow> finite_world v \<Longrightarrow> cw_files v f = None"
    and "\<And>f x. fst (ce_RemoveError e f x) = None"
    and "\<And>v n x. ce_uuid e v = (n, x) \<Longrightarrow> finite_world v \<Longrightarrow> n \<noteq> [] \<and> entries v n = None"
    and "\<And>prog args dir vars v cl r v' cl'. ge_exec env prog args dir vars (v, cl) = (r, (v', cl')) \<Longrightarrow>
      cw_files v' = cw_files v \<and> entries v' = entries v \<and> cl' = cl"
    and "finite_world w"
    and "runCredentialedCmd (with_creds e (askpass_store e socketPath) creds env) m args (w, cl) = (err, (w', cl'))"
  shows "cw_files w' = cw_files w \<and> entries w' = entries w"
proof -
  have "askpass_env e" by unfold_locales (use assms(1-3) in blast)+
  from askpass_env.runCredentialedCmd_clean [OF this assms(4-6)] show ?thesis .
qed

text \<open>A process environment for examples: new names are longer than all that are in use.\<close>

definition new_name :: "(string \<rightharpoonup> 'b) \<Rightarrow> string" where
  "new_name m = replicate (Suc (LEAST n. m (replicate (Suc n) CHR ''x'') = None)) CHR ''x''"

lemma new_name_new:
  assumes "finite (dom m)"
  shows "m (new_name m) = None \<and> new_name m \<noteq> []"
proof -
  have "infinite (range (\<lambda>n. replicate (Suc n) CHR ''x''))"
    by (auto dest!: finite_imageD simp: inj_on_def dest: arg_cong [where f = length])
  then obtain n where "m (replicate (Suc n) CHR ''x'') = None"
    using assms by (metis (no_types, lifting) domIff finite_subset image_subsetI)
  then have "m (replicate (Suc (LEAST n. m (replicate (Suc n) CHR ''x'') = None)) CHR ''x'') = None" by (rule LeastI)
  then show ?thesis by (simp add: new_name_def)
qed

definition plain_cred_env :: "unit cred_env" where
  "plain_cred_env = \<lparr>ce_CreateTemp = (\<lambda>w. (Inr (new_name (cw_files w)), ())), ce_WriteError = (\<lambda>f x. (None, ())),
     ce_RemoveError = (\<lambda>f x. (None, ())), ce_uuid = (\<lambda>w. (new_name (entries w), ())), ce_url_Parse = (\<lambda>s. Inl (ErrorString s)),
     ce_Getenv = (\<lambda>s. []), ce_gitHubToken = (\<lambda>g x. (Inr ''token'', ())), ce_googleUsername = (\<lambda>j. Inr ''user''),
     ce_googleToken = (\<lambda>j x. (Inr ''token'', ())), ce_azureToken = (\<lambda>r x. (Inr ''token'', ()))\<rparr>"

interpretation plain_creds: askpass_env plain_cred_env "''/tmp/sock''"
  by unfold_locales (auto simp: plain_cred_env_def finite_world_def new_name_new)

definition plain_world :: "unit cred_world" where
  "plain_world = \<lparr>cw_files = Map.empty, cw_server = NewServer ''/tmp/sock'', cw_ext = ()\<rparr>"

definition failing_git :: "('w) git_env" where
  "failing_git = \<lparr>ge_exec = (\<lambda>prog args dir vars w. (([], Some (ErrorString ''exit 128'')), w)), ge_osEnviron = [], ge_certPath = (\<lambda>u. None),
     ge_Environ = (\<lambda>w. (Inr [], w)), ge_closeCreds = (\<lambda>w. w), ge_hasGitmodules = (\<lambda>r w. False),
     ge_openRepo = (\<lambda>r w. RepoOpened), ge_removeAll = (\<lambda>r w. (None, w)), ge_mkdirAll = (\<lambda>r w. (None, w)),
     ge_plainInit = (\<lambda>r w. (None, w)), ge_createRemote = (\<lambda>u w. (None, w)), ge_newUUID = (\<lambda>w. (Inr ''id'', w)),
     ge_initMemory = (\<lambda>w. (None, w)), ge_newAuth = (\<lambda>u w. (None, w)), ge_listRemote = (\<lambda>u w. (Inr [], w))\<rparr>"

definition key_fetch :: "go_error option \<times> unit cred_world \<times> closer" where
  "key_fetch = runCredentialedCmd (with_creds plain_cred_env (askpass_store plain_cred_env ''/tmp/sock'')
     (SSH (NewSSHCreds ''KEY'' [] False [])) failing_git) sample_client [''fetch''] (plain_world, NopCloser)"

lemma key_fetch_runs: "fst key_fetch = Some (ErrorString ''exit 128'')"
  by (simp add: key_fetch_def runCredentialedCmd_def with_creds_def SSHCreds_Environ_def NewSSHCreds_def os_CreateTemp_def WriteString_def
    plain_cred_env_def failing_git_def runCmdOutput_def Let_def)

theorem git_commands_leave_no_credentials_witness:
  "fst key_fetch = Some (ErrorString ''exit 128'') \<and> cw_files (fst (snd key_fetch)) = Map.empty \<and> entries (fst (snd key_fetch)) = Map.empty"
proof -
  have "cw_files (fst (snd key_fetch)) = cw_files plain_world \<and> entries (fst (snd key_fetch)) = entries plain_world"
  proof (rule git_commands_leave_no_credentials)
    show "runCredentialedCmd (with_creds plain_cred_env (askpass_store plain_cred_env ''/tmp/sock'')
     (SSH (NewSSHCreds ''KEY'' [] False [])) failing_git) sample_client [''fetch''] (plain_world, NopCloser)
       = (fst key_fetch, (fst (snd key_fetch), snd (snd key_fetch)))"
      by (simp add: key_fetch_def)
  qed (auto simp: failing_git_def plain_world_def NewServer_def finite_world_def plain_creds.remove_ok
      dest: plain_creds.temp_new plain_creds.uuid_new)
  then show ?thesis by (simp add: key_fetch_runs plain_world_def NewServer_def)
qed

text \<open>
  The password reaches git through the askpass server only. For credentials with a user name and a password, git finds
  in its environment an identifier for which the server answers with them, and after the closer has run no
  longer does; unless basic authentication is forced, the environment is the same whatever the password is.
\<close>

theorem askpass_hands_over_password:
  assumes "\<And>v f x. ce_CreateTemp e v = (Inr f, x) \<Longrightarrow> finite_world v \<Longrightarrow> cw_files v f = None"
    and "\<And>f x. fst (ce_RemoveError e f x) = None"
    and "\<And>v n x. ce_uuid e v = (n, x) \<Longrightarrow> finite_world v \<Longrightarrow> n \<noteq> [] \<and> entries v n = None"
    and "finite_world w"
    and "HTTPSCreds_Environ e (askpass_store e socketPath) c w = (Inr (cl, env), w')"
  shows "(\<exists>n. ''ARGOCD_GIT_ASKPASS_NONCE='' @ n \<in> set env \<and>
            GetCredentials (cw_server w') n = Inr (if hc_username c \<noteq> [] then hc_username c else ''x-access-token'', hc_password c) \<and>
            GetCredentials (cw_server (snd (closer_Close e (askpass_store e socketPath) cl w'))) n = Inl (StatusError NotFound ''unknown nonce'')) \<and>
         (\<not> hc_forceBasicAuth c \<longrightarrow> fst (HTTPSCreds_Environ e (askpass_store e socketPath) (c\<lparr>hc_password := password\<rparr>) w) = Inr (cl, env))"
proof -
  have env: "askpass_env e" by unfold_locales (use assms(1-3) in blast)+
  then have os: "cred_os e" by (simp add: askpass_env_def)
  obtain fs cenv w1 where cert: "client_cert_files e (hc_clientCertData c) (hc_clientCertKey c) w = (Inr (fs, cenv), w1)"
    using assms(5) by (auto simp: HTTPSCreds_Environ_def split: prod.splits sum.splits)
  have fin: "finite_world w1" using cred_os.client_cert_files_spec [OF os cert assms(4)] by simp
  obtain n w2 where add: "server_Add e (if hc_username c \<noteq> [] then hc_username c else githubAccessTokenUsername) (hc_password c) w1 = (n, w2)" by fastforce
  note spec = askpass_env.server_Add_spec [OF env add fin]
  have r: "w' = w2" "cl = storeCloser n fs" "set (server_Environ socketPath n) \<subseteq> set env"
    using assms(5) cert add by (auto simp: HTTPSCreds_Environ_def Let_def store_env_def askpass_store_def)
  obtain w3 where w3: "closer_Close e (askpass_store e socketPath) cl w2 = (None, w3)" "entries w3 = (entries w2)(n := None)"
    using cred_os.authFilePaths_Close_spec [OF os, of fs None "server_Remove n w2"] unfolding r
    by (auto simp: askpass_store_def server_Remove_def)
  have "''ARGOCD_GIT_ASKPASS_NONCE='' @ n \<in> set env" using r(3) by (auto simp: server_Environ_def)
  moreover have "fst (HTTPSCreds_Environ e (askpass_store e socketPath) (c\<lparr>hc_password := password\<rparr>) w) = Inr (cl, env)" if "\<not> hc_forceBasicAuth c"
    using that assms(5) cert unfolding r(2)
    by (auto simp: HTTPSCreds_Environ_def Let_def store_env_def askpass_store_def server_Add_def BearerAuthHeader_def split: prod.splits)
  ultimately show ?thesis using spec w3 unfolding r(1)
    by (auto intro!: exI [of _ n] simp: GetCredentials_def getCreds_def githubAccessTokenUsername_def)
qed

definition sample_https :: HTTPSCreds where
  "sample_https = NewHTTPSCreds ''joe'' ''secret'' [] [] [] False False"

lemma sample_https_Environ:
  "HTTPSCreds_Environ plain_cred_env (askpass_store plain_cred_env ''/tmp/sock'') sample_https plain_world =
     (Inr (storeCloser ''x'' [], server_Environ ''/tmp/sock'' ''x''), plain_world\<lparr>cw_server :=
       \<lparr>as_creds = [''x'' \<mapsto> \<lparr>ap_Username = ''joe'', ap_Password = ''secret''\<rparr>], as_socketPath = ''/tmp/sock''\<rparr>\<rparr>)"
  by (simp add: HTTPSCreds_Environ_def sample_https_def NewHTTPSCreds_def client_cert_files_def store_env_def askpass_store_def
    server_Add_def plain_cred_env_def new_name_def plain_world_def NewServer_def)

theorem askpass_hands_over_password_witness:
  "(\<exists>n. ''ARGOCD_GIT_ASKPASS_NONCE='' @ n \<in> set (server_Environ ''/tmp/sock'' ''x'')) \<and>
   fst (HTTPSCreds_Environ plain_cred_env (askpass_store plain_cred_env ''/tmp/sock'') (sample_https\<lparr>hc_password := ''other''\<rparr>) plain_world) =
     Inr (storeCloser ''x'' [], server_Environ ''/tmp/sock'' ''x'')"
proof -
  have "finite_world plain_world" by (simp add: plain_world_def NewServer_def finite_world_def)
  from askpass_hands_over_password [OF plain_creds.temp_new plain_creds.remove_ok plain_creds.uuid_new this sample_https_Environ]
  show ?thesis by (auto simp: sample_https_def NewHTTPSCreds_def)
qed

text \<open>
  A repository with a TLS client certificate and nothing else has credentials, but git is run without the certificate:
  only the branches for a password, a bearer token and a GitHub App pass it on.
\<close>

lemma client_cert_alone_is_not_used:
  assumes "repo_Password r = []" "repo_BearerToken r = []" "repo_SSHPrivateKey r = []" "repo_GithubAppPrivateKey r = []"
    "repo_GCPServiceAccountKey r = []" "\<not> repo_UseAzureWorkloadIdentity r" "repo_TLSClientCertData r \<noteq> []"
  shows "HasCredentials r \<and> GetGitCreds caPath google (Some r) = NopCreds"
  using assms by (simp add: HasCredentials_def GetGitCreds_def)

end
