(* ===== verification/RepoTest.thy ===== *)
theory RepoTest
  imports RepoService
begin

text \<open>
  \<open>TestRepository\<close> of \<open>reposerver/repository/repository.go\<close>: whether a repository can be reached, by its type. The test of a git
  repository is \<open>TestRepo\<close>; the clients of Helm and OCI registries are parameters.
\<close>

record 'w registry_clients =
  rg_IsHelmOciRepo :: "string \<Rightarrow> bool"
  rg_TestOCI :: "Repository \<Rightarrow> 'w \<Rightarrow> go_error option \<times> 'w"
  rg_TestHelmOCI :: "Repository \<Rightarrow> 'w \<Rightarrow> go_error option \<times> 'w"
  rg_GetIndex :: "Repository \<Rightarrow> 'w \<Rightarrow> go_error option \<times> 'w"

definition test_git :: "('g, 'v) Service \<Rightarrow> string \<Rightarrow> Repository \<Rightarrow> 'g repo_world \<Rightarrow> go_error option \<times> 'g repo_world" where
  "test_git s TempDir repo w = TestRepo (sv_maxAttemptsCount s) (lift_env (sv_git s)) (sv_semver s) (sv_url_String s) TempDir
     (repo_Repo repo) (IsInsecure repo) (IsLFSEnabled repo) (repo_Proxy repo) (repo_NoProxy repo) w"

text \<open>The function of the map \<open>checks\<close> for a type; calling the nil function of an unknown type panics.\<close>

definition repository_check :: "('g, 'v) Service \<Rightarrow> string \<Rightarrow> 'g repo_world registry_clients \<Rightarrow> Repository \<Rightarrow> 'g repo_world \<Rightarrow>
    (go_error option \<times> 'g repo_world) go" where
  "repository_check s TempDir rg repo w =
     (if repo_Type repo = ''git'' then Ret (test_git s TempDir repo w)
      else if repo_Type repo = ''oci'' then Ret (rg_TestOCI rg repo w)
      else if repo_Type repo = ''helm'' then
        Ret (if repo_EnableOCI repo then
               (if \<not> rg_IsHelmOciRepo rg (repo_Repo repo)
                then (Some (ErrorString ''OCI Helm repository URL should include hostname and port only''), w)
                else rg_TestHelmOCI rg repo w)
             else rg_GetIndex rg repo w)
      else Panic NilDereference)"

text \<open>The result is \<open>VerifiedRepository\<close> and the error.\<close>

definition TestRepository :: "('g, 'v) Service \<Rightarrow> string \<Rightarrow> 'g repo_world registry_clients \<Rightarrow> Repository option \<Rightarrow> 'g repo_world \<Rightarrow>
    ((bool \<times> go_error option) \<times> 'g repo_world) go" where
  "TestRepository s TempDir rg q w = (case q of
     None \<Rightarrow> Panic NilDereference
   | Some repo0 \<Rightarrow>
       let repo = (if repo_Type repo0 = [] then repo0\<lparr>repo_Type := ''git''\<rparr> else repo0)
       in go_bind (repository_check s TempDir rg repo w) (\<lambda>(err, w1).
            Ret (case err of
                Some err \<Rightarrow> ((False, Some (Wrapped ''error testing repository connectivity'' err)), w1)
              | None \<Rightarrow> ((False, None), w1))))"

text \<open>
  A test succeeds without an error exactly if the check of the type does, an empty type is taken for git, and only a repository of
  another type makes the handler panic. The field \<open>VerifiedRepository\<close> is never set.
\<close>

lemma TestRepository_spec:
  "case TestRepository s TempDir rg (Some repo) w of
     Panic _ \<Rightarrow> repo_Type repo \<notin> {[], ''git'', ''oci'', ''helm''}
   | Ret ((verified, err), w') \<Rightarrow> \<not> verified \<and> repo_Type repo \<in> {[], ''git'', ''oci'', ''helm''} \<and>
       (repo_Type repo \<in> {[], ''git''} \<longrightarrow>
          (err = None \<longleftrightarrow> fst (test_git s TempDir repo w) = None) \<and> w' = snd (test_git s TempDir repo w))"
proof -
  have git: "test_git s TempDir (repo\<lparr>repo_Type := t\<rparr>) w = test_git s TempDir repo w" for t
    by (simp add: test_git_def IsInsecure_def IsLFSEnabled_def)
  consider "repo_Type repo \<in> {[], ''git''}" | "repo_Type repo = ''oci''" | "repo_Type repo = ''helm''"
    | "repo_Type repo \<notin> {[], ''git'', ''oci'', ''helm''}" by blast
  then show ?thesis
    by cases (auto simp: TestRepository_def repository_check_def Let_def git split: prod.splits option.splits)
qed

end
