(* ===== verification/Cert.thy ===== *)
theory Cert
  imports GitCreds
begin

text \<open>
  Certificates and known hosts as text: \<open>util/cert/cert.go\<close>. Host names, certificates in PEM blocks, lines of a known
  hosts file, and the certificate file of a server. Decoding a certificate or a key is left to the libraries.
\<close>

section \<open>Regular expressions\<close>

text \<open>What \<open>regexp\<close> accepts, decided by derivatives; bounded repetition is written out.\<close>

datatype regexp = Eps | Chars "char \<Rightarrow> bool" | Seq regexp regexp | Alt regexp regexp | Star regexp | Fail

primrec nullable :: "regexp \<Rightarrow> bool" where
  "nullable Eps = True"
| "nullable (Chars p) = False"
| "nullable (Seq r t) = (nullable r \<and> nullable t)"
| "nullable (Alt r t) = (nullable r \<or> nullable t)"
| "nullable (Star r) = True"
| "nullable Fail = False"

primrec after :: "char \<Rightarrow> regexp \<Rightarrow> regexp" where
  "after c Eps = Fail"
| "after c (Chars p) = (if p c then Eps else Fail)"
| "after c (Seq r t) = (if nullable r then Alt (Seq (after c r) t) (after c t) else Seq (after c r) t)"
| "after c (Alt r t) = Alt (after c r) (after c t)"
| "after c (Star r) = Seq (after c r) (Star r)"
| "after c Fail = Fail"

definition accepts :: "regexp \<Rightarrow> string \<Rightarrow> bool" where
  "accepts r s = nullable (foldl (\<lambda>r c. after c r) r s)"

fun optional :: "nat \<Rightarrow> regexp \<Rightarrow> regexp" where
  "optional 0 r = Eps"
| "optional (Suc n) r = Alt Eps (Seq r (optional n r))"

fun exactly :: "nat \<Rightarrow> regexp \<Rightarrow> regexp" where
  "exactly 0 r = Eps"
| "exactly (Suc n) r = Seq r (exactly n r)"

definition between :: "nat \<Rightarrow> nat \<Rightarrow> regexp \<Rightarrow> regexp" where
  "between m n r = Seq (exactly m r) (optional (n - m) r)"

definition lit :: "char \<Rightarrow> regexp" where "lit c = Chars (\<lambda>d. d = c)"

fun word_re :: "string \<Rightarrow> regexp" where
  "word_re [] = Eps"
| "word_re (c # s) = Seq (lit c) (word_re s)"

fun one_of :: "regexp list \<Rightarrow> regexp" where
  "one_of [] = Fail"
| "one_of [r] = r"
| "one_of (r # rs) = Alt r (one_of rs)"

text \<open>\<open>MatchString\<close> of an expression without anchors: it occurs somewhere.\<close>

definition occurs_in :: "regexp \<Rightarrow> string \<Rightarrow> bool" where
  "occurs_in r s = accepts (Seq (Star (Chars (\<lambda>_. True))) (Seq r (Star (Chars (\<lambda>_. True))))) s"

section \<open>Host names\<close>

definition is_digit :: "char \<Rightarrow> bool" where "is_digit c \<longleftrightarrow> 48 \<le> byte c \<and> byte c \<le> 57"
definition is_letter :: "char \<Rightarrow> bool" where "is_letter c \<longleftrightarrow> 65 \<le> byte c \<and> byte c \<le> 90 \<or> 97 \<le> byte c \<and> byte c \<le> 122"
definition is_hex :: "char \<Rightarrow> bool" where "is_hex c \<longleftrightarrow> is_digit c \<or> 65 \<le> byte c \<and> byte c \<le> 70 \<or> 97 \<le> byte c \<and> byte c \<le> 102"
definition is_alnum :: "char \<Rightarrow> bool" where "is_alnum c \<longleftrightarrow> is_digit c \<or> is_letter c"

definition host_label :: "(char \<Rightarrow> bool) \<Rightarrow> (char \<Rightarrow> bool) \<Rightarrow> (char \<Rightarrow> bool) \<Rightarrow> regexp" where
  "host_label first inner final = Alt (Chars is_alnum) (Seq (Chars first) (Seq (optional 61 (Chars inner)) (Chars final)))"

definition validHostNameRegexp :: regexp where
  "validHostNameRegexp =
     (let u = (\<lambda>c. is_alnum c \<or> c = CHR ''_''); inner = (\<lambda>c. is_alnum c \<or> c = CHR ''-'' \<or> c = CHR ''_'')
      in Seq (host_label u inner u) (Seq (Star (Seq (lit CHR ''.'') (host_label u inner is_alnum))) (optional 1 (lit CHR ''.''))))"

definition validFQDNRegexp :: regexp where
  "validFQDNRegexp =
     (let l = host_label is_alnum (\<lambda>c. is_alnum c \<or> c = CHR ''-'') is_alnum
      in Seq l (Seq (Star (Seq (lit CHR ''.'') l)) (lit CHR ''.'')))"

text \<open>The alternatives of \<open>validIPv6Regexp\<close>, in their order.\<close>

definition validIPv6Regexp :: regexp where
  "validIPv6Regexp =
     (let h = between 1 4 (Chars is_hex); colon = lit CHR '':''; hc = Seq h colon; ch = Seq colon h;
          d = Chars is_digit;
          byte_re = Alt (Seq (word_re ''25'') (Chars (\<lambda>c. 48 \<le> byte c \<and> byte c \<le> 53)))
            (Seq (optional 1 (Alt (Seq (lit CHR ''2'') (Chars (\<lambda>c. 48 \<le> byte c \<and> byte c \<le> 52))) (Seq (optional 1 (lit CHR ''1'')) d))) d);
          ipv4 = Seq (exactly 3 (Seq byte_re (lit CHR ''.''))) byte_re
      in one_of [
        Seq (exactly 7 hc) h,
        Seq (between 1 7 hc) colon,
        Seq (between 1 6 hc) ch,
        Seq (between 1 5 hc) (between 1 2 ch),
        Seq (between 1 4 hc) (between 1 3 ch),
        Seq (between 1 3 hc) (between 1 4 ch),
        Seq (between 1 2 hc) (between 1 5 ch),
        Seq hc (between 1 6 ch),
        Seq colon (Alt (between 1 7 ch) colon),
        Seq (word_re ''fe80:'') (Seq (optional 4 (Seq colon (optional 4 (Chars is_hex)))) (Seq (lit CHR ''%'') (Seq (Chars is_alnum) (Star (Chars is_alnum))))),
        Seq (word_re ''::'') (Seq (optional 1 (Seq (word_re ''ffff'') (Seq (optional 1 (Seq colon (between 1 4 (lit CHR ''0'')))) colon))) ipv4),
        Seq (between 1 4 hc) (Seq colon ipv4)])"

definition IsValidHostname :: "string \<Rightarrow> bool \<Rightarrow> bool" where
  "IsValidHostname hostname fqdn =
     (if \<not> fqdn then accepts validHostNameRegexp hostname \<or> occurs_in validIPv6Regexp hostname
      else accepts validFQDNRegexp hostname)"

section \<open>Lines\<close>

text \<open>
  \<open>bufio.Scanner\<close> with its default split function: lines without their end, which is a newline with or without a carriage
  return before it. A line that does not fit into the buffer of 64 KiB ends the scan, as the end of the data does.
\<close>

definition drop_cr :: "string \<Rightarrow> string" where
  "drop_cr l = (if l \<noteq> [] \<and> List.last l = CHR 0x0D then butlast l else l)"

definition raw_lines :: "string \<Rightarrow> string list" where
  "raw_lines s = (let ls = strings_Split CHR 0x0A s in if List.last ls = [] then butlast ls else ls)"

definition MaxScanTokenSize :: nat where "MaxScanTokenSize = 65536"

definition scan_lines :: "string \<Rightarrow> string list" where
  "scan_lines s = map drop_cr (takeWhile (\<lambda>l. length l < MaxScanTokenSize) (raw_lines s))"

text \<open>For evaluation: the bound as an integer in binary.\<close>

lemma short_line_code [code_unfold]: "length l < MaxScanTokenSize \<longleftrightarrow> int (length l) < 65536"
  by (simp add: MaxScanTokenSize_def)

section \<open>Certificates\<close>

definition CertificateBeginMarker :: string where "CertificateBeginMarker = ''-----BEGIN CERTIFICATE-----''"
definition CertificateEndMarker :: string where "CertificateEndMarker = ''-----END CERTIFICATE-----''"
definition CertificateMaxLines :: nat where "CertificateMaxLines = 128"

text \<open>The state of the loop: \<open>inCertData\<close>, \<open>pemData\<close>, \<open>certLine\<close> and \<open>certificateList\<close>.\<close>

definition pem_line :: "string \<Rightarrow> bool \<times> string \<times> nat \<times> string list \<Rightarrow> bool \<times> string \<times> nat \<times> string list" where
  "pem_line l = (\<lambda>(inCertData, pemData, certLine, certs).
     if \<not> inCertData then
       (if strings_HasPrefix l CertificateBeginMarker then (True, pemData @ l @ [CHR 0x0A], 1, certs) else (inCertData, pemData, certLine, certs))
     else if strings_HasPrefix l CertificateEndMarker then (False, [], Suc certLine, certs @ [pemData @ l @ [CHR 0x0A]])
     else (True, pemData @ l @ [CHR 0x0A], Suc certLine, certs))"

fun pem_loop :: "string list \<Rightarrow> bool \<times> string \<times> nat \<times> string list \<Rightarrow> string list result" where
  "pem_loop [] (inCertData, pemData, certLine, certs) = Inr certs"
| "pem_loop (l # ls) st =
     (case pem_line l st of (inCertData, pemData, certLine, certs) \<Rightarrow>
        if certLine > CertificateMaxLines then Inl (ErrorString ''maximum number of lines exceeded during certificate parsing'')
        else pem_loop ls (inCertData, pemData, certLine, certs))"

definition ParseTLSCertificatesFromData :: "string \<Rightarrow> string list result" where
  "ParseTLSCertificatesFromData data = pem_loop (scan_lines data) (False, [], 0, [])"

text \<open>\<open>pem.Decode\<close>, \<open>x509.ParseCertificate\<close> with subject and algorithm of the key.\<close>

definition DecodePEMCertificateToX509 :: "(string \<Rightarrow> string option) \<Rightarrow> (string \<Rightarrow> (string \<times> string) option) \<Rightarrow> string \<Rightarrow> (string \<times> string) result" where
  "DecodePEMCertificateToX509 pem_Decode x509_Parse pemData = (case pem_Decode pemData of
     None \<Rightarrow> Inl (ErrorString ''could not decode PEM data from input'')
   | Some bytes \<Rightarrow> (case x509_Parse bytes of
       None \<Rightarrow> Inl (ErrorString ''could not parse X509 data from input'')
     | Some cert \<Rightarrow> Inr cert))"

section \<open>Known hosts\<close>

text \<open>\<open>strings.SplitN(s, \" \", 3)\<close>.\<close>

definition split_fields :: "string \<Rightarrow> string list" where
  "split_fields s = (case strings_Cut s CHR '' '' of
     (a, rest, True) \<Rightarrow> a # strings_SplitN2 rest CHR '' ''
   | (_, _, False) \<Rightarrow> [s])"

definition IsValidSSHKnownHostsEntry :: "string \<Rightarrow> bool" where
  "IsValidSSHKnownHostsEntry line =
     (let trimmedEntry = strings_TrimSpace line
      in if trimmedEntry = [] \<or> hd trimmedEntry = CHR ''#'' then False
         else length (split_fields trimmedEntry) = 3)"

definition ParseSSHKnownHostsFromData :: "string \<Rightarrow> string list result" where
  "ParseSSHKnownHostsFromData data = Inr (filter IsValidSSHKnownHostsEntry (scan_lines data))"

definition TokenizeSSHKnownHostsEntry :: "string \<Rightarrow> (string \<times> string \<times> string) result" where
  "TokenizeSSHKnownHostsEntry knownHostsEntry =
     (case split_fields knownHostsEntry of
        [host, subType, keyData] \<Rightarrow> Inr (host, subType, keyData)
      | _ \<Rightarrow> Inl (ErrorString ''error while tokenizing input data''))"

definition nonBracketedPattern :: "string \<Rightarrow> string" where
  "nonBracketedPattern p = concat (map (\<lambda>c. if c = CHR ''['' \<or> c = CHR '']'' then [CHR 0x5C, c] else [c]) p)"

definition MatchHostName :: "string \<Rightarrow> string \<Rightarrow> bool" where
  "MatchHostName hostname p =
     (if p = [] then True else case filepath_Match (nonBracketedPattern p) hostname of None \<Rightarrow> False | Some matched \<Rightarrow> matched)"

text \<open>\<open>sha\<close> is the hash of the wire format of a key.\<close>

definition trim_padding :: "string \<Rightarrow> string" where
  "trim_padding s = rev (dropWhile (\<lambda>c. c = CHR ''='') (rev s))"

definition SSHFingerprintSHA256 :: "(string \<Rightarrow> string) \<Rightarrow> string \<Rightarrow> string" where
  "SSHFingerprintSHA256 sha key = trim_padding (base64_Encode (sha key))"

definition SSHFingerprintSHA256FromString :: "(string \<Rightarrow> string option) \<Rightarrow> (string \<Rightarrow> string) \<Rightarrow> string \<Rightarrow> string" where
  "SSHFingerprintSHA256FromString parseKey sha key = (case parseKey key of None \<Rightarrow> [] | Some pubKey \<Rightarrow> SSHFingerprintSHA256 sha pubKey)"

section \<open>Certificates of servers\<close>

definition GetTLSCertificateDataPath :: "(string \<Rightarrow> string) \<Rightarrow> string" where
  "GetTLSCertificateDataPath getenv = (if getenv ''ARGOCD_TLS_DATA_PATH'' \<noteq> [] then getenv ''ARGOCD_TLS_DATA_PATH'' else ''/app/config/tls'')"

definition ServerNameWithoutPort :: "string \<Rightarrow> string" where
  "ServerNameWithoutPort serverName = hd (strings_Split CHR '':'' serverName)"

text \<open>A file that cannot be opened: it does not exist, or there is another error.\<close>

datatype open_error = NotExist | OpenError go_error

definition ParseTLSCertificatesFromPath :: "(string \<Rightarrow> open_error + string) \<Rightarrow> string \<Rightarrow> open_error + string list" where
  "ParseTLSCertificatesFromPath fs path = (case fs path of
     Inl err \<Rightarrow> Inl err
   | Inr data \<Rightarrow> (case ParseTLSCertificatesFromData data of Inl err \<Rightarrow> Inl (OpenError err) | Inr certs \<Rightarrow> Inr certs))"

text \<open>\<open>absolute\<close> is \<open>filepath.Abs\<close>, which may fail.\<close>

definition GetCertificateForConnect :: "(string \<Rightarrow> string) \<Rightarrow> (string \<Rightarrow> string result) \<Rightarrow> (string \<Rightarrow> open_error + string) \<Rightarrow> string \<Rightarrow> string list result" where
  "GetCertificateForConnect getenv absolute fs serverName =
     (let dataPath = GetTLSCertificateDataPath getenv in
      case absolute (filepath_Join [dataPath, ServerNameWithoutPort serverName]) of
        Inl err \<Rightarrow> Inl err
      | Inr certPath \<Rightarrow>
          if \<not> strings_HasPrefix certPath dataPath then Inl (ErrorString (''could not get certificate for host '' @ serverName))
          else (case ParseTLSCertificatesFromPath fs certPath of
              Inl NotExist \<Rightarrow> Inr []
            | Inl (OpenError err) \<Rightarrow> Inl err
            | Inr certificates \<Rightarrow>
                if length certificates = 0 then Inl (ErrorString ''no certificates found in existing file'') else Inr certificates))"

definition GetCertBundlePathForRepository :: "(string \<Rightarrow> string) \<Rightarrow> (string \<Rightarrow> string result) \<Rightarrow> (string \<Rightarrow> open_error + string) \<Rightarrow> string \<Rightarrow> string" where
  "GetCertBundlePathForRepository getenv absolute fs serverName =
     (case GetCertificateForConnect getenv absolute fs serverName of
        Inl err \<Rightarrow> []
      | Inr certs \<Rightarrow> if length certs = 0 then [] else filepath_Join [GetTLSCertificateDataPath getenv, ServerNameWithoutPort serverName])"

definition ParseSSHKnownHostsFromPath :: "(string \<Rightarrow> open_error + string) \<Rightarrow> string \<Rightarrow> open_error + string list" where
  "ParseSSHKnownHostsFromPath fs path = (case fs path of
     Inl err \<Rightarrow> Inl err
   | Inr data \<Rightarrow> (case ParseSSHKnownHostsFromData data of Inl err \<Rightarrow> Inl (OpenError err) | Inr ls \<Rightarrow> Inr ls))"

text \<open>\<open>parse\<close> is \<open>ssh.ParseKnownHosts\<close>: the hosts and the key of a line.\<close>

definition KnownHostsLineToPublicKey :: "(string \<Rightarrow> (string list \<times> 'key) result) \<Rightarrow> string \<Rightarrow> (string list \<times> 'key) result" where
  "KnownHostsLineToPublicKey parse line = (case parse line of
     Inl err \<Rightarrow> Inl err
   | Inr (hostnames, keyData) \<Rightarrow> Inr (hostnames, keyData))"

definition TokenizedDataToPublicKey ::
    "(string \<Rightarrow> (string list \<times> 'key) result) \<Rightarrow> string \<Rightarrow> string \<Rightarrow> string \<Rightarrow> (string list \<times> 'key) result" where
  "TokenizedDataToPublicKey parse hostname subType rawKeyData =
     (case KnownHostsLineToPublicKey parse (hostname @ '' '' @ subType @ '' '' @ rawKeyData) of
        Inl err \<Rightarrow> Inl err
      | Inr (hostnames, keyData) \<Rightarrow> Inr (hostnames, keyData))"

text \<open>\<open>add\<close> is \<open>AppendCertsFromPEM\<close>, \<open>none\<close> the empty pool.\<close>

definition GetCertPoolFromPEMData :: "('pool \<Rightarrow> string \<Rightarrow> 'pool) \<Rightarrow> 'pool \<Rightarrow> string list \<Rightarrow> 'pool" where
  "GetCertPoolFromPEMData add none pemData = foldl add none pemData"

text \<open>\<open>getCAPath\<close> of \<open>repository_types.go\<close>; \<open>host\<close> is \<open>url.Parse\<close> and \<open>Hostname\<close>.\<close>

definition getCAPath :: "(string \<Rightarrow> string) \<Rightarrow> (string \<Rightarrow> string result) \<Rightarrow> (string \<Rightarrow> open_error + string) \<Rightarrow> (string \<Rightarrow> string option) \<Rightarrow> string \<Rightarrow> string" where
  "getCAPath getenv absolute fs host repoURL =
     (if fst (IsSSHURL repoURL) then []
      else case host (if \<not> strings_Contains repoURL ''://'' then ''protocol://'' @ repoURL else repoURL) of
        None \<Rightarrow> []
      | Some hostname \<Rightarrow> if hostname = [] then [] else GetCertBundlePathForRepository getenv absolute fs hostname)"

section \<open>What the expressions accept\<close>

inductive_set repeated :: "string set \<Rightarrow> string set" for L where
  none: "[] \<in> repeated L"
| more: "a \<in> L \<Longrightarrow> b \<in> repeated L \<Longrightarrow> a @ b \<in> repeated L"

primrec lang :: "regexp \<Rightarrow> string set" where
  "lang Eps = {[]}"
| "lang (Chars p) = {[c] |c. p c}"
| "lang (Seq r t) = {a @ b |a b. a \<in> lang r \<and> b \<in> lang t}"
| "lang (Alt r t) = lang r \<union> lang t"
| "lang (Star r) = repeated (lang r)"
| "lang Fail = {}"

lemma nullable_iff: "nullable r \<longleftrightarrow> [] \<in> lang r"
  by (induction r) (auto intro: repeated.none)

lemma repeated_Cons:
  "c # s \<in> repeated L \<longleftrightarrow> (\<exists>a b. c # a \<in> L \<and> b \<in> repeated L \<and> s = a @ b)"
proof
  show "\<exists>a b. c # a \<in> L \<and> b \<in> repeated L \<and> s = a @ b" if "c # s \<in> repeated L"
    using that by (induction "c # s" arbitrary: s rule: repeated.induct) (auto simp: append_eq_Cons_conv)
qed (use repeated.more in fastforce)

lemma after_lang: "s \<in> lang (after c r) \<longleftrightarrow> c # s \<in> lang r"
proof (induction r arbitrary: s)
  case (Seq r t)
  have "c # s \<in> lang (Seq r t) \<longleftrightarrow> ([] \<in> lang r \<and> c # s \<in> lang t) \<or> (\<exists>a b. c # a \<in> lang r \<and> b \<in> lang t \<and> s = a @ b)"
    by (auto simp: Cons_eq_append_conv) 
  then show ?case using Seq by (auto simp: nullable_iff)
next
  case (Star r)
  then show ?case by (auto simp: repeated_Cons)
qed auto

lemma accepts_iff: "accepts r s \<longleftrightarrow> s \<in> lang r"
proof -
  have "nullable (foldl (\<lambda>r c. after c r) r s) \<longleftrightarrow> s \<in> lang r"
    by (induction s arbitrary: r) (simp_all add: nullable_iff after_lang)
  then show ?thesis by (simp add: accepts_def)
qed

lemma repeated_any: "s \<in> repeated (lang (Chars (\<lambda>_. True)))"
  by (induction s) (auto simp: repeated_Cons intro: repeated.none)

lemma occurs_in_iff: "occurs_in r s \<longleftrightarrow> (\<exists>a b m. s = a @ m @ b \<and> m \<in> lang r)"
  unfolding occurs_in_def accepts_iff using repeated_any by auto

text \<open>The characters an expression can match.\<close>

primrec alphabet :: "regexp \<Rightarrow> char \<Rightarrow> bool" where
  "alphabet Eps c = False"
| "alphabet (Chars p) c = p c"
| "alphabet (Seq r t) c = (alphabet r c \<or> alphabet t c)"
| "alphabet (Alt r t) c = (alphabet r c \<or> alphabet t c)"
| "alphabet (Star r) c = alphabet r c"
| "alphabet Fail c = False"

lemma lang_alphabet: "s \<in> lang r \<Longrightarrow> c \<in> set s \<Longrightarrow> alphabet r c"
proof (induction r arbitrary: s)
  case (Star r)
  have "c \<in> set s \<longrightarrow> alphabet r c" if "s \<in> repeated (lang r)" for s
    using that by induction (use Star.IH in auto)
  then show ?case using Star.prems by simp
next
  case (Seq r t)
  then show ?case by simp (metis UnE set_append)
qed auto

lemma alphabet_optional [simp]: "alphabet (optional n r) c \<longleftrightarrow> n \<noteq> 0 \<and> alphabet r c"
  by (induction n) auto

lemma host_name_characters:
  assumes "accepts validHostNameRegexp s" "c \<in> set s"
  shows "is_alnum c \<or> c \<in> {CHR ''-'', CHR ''_'', CHR ''.''}"
  using lang_alphabet [of s validHostNameRegexp c] assms unfolding accepts_iff
  by (auto simp: validHostNameRegexp_def host_label_def lit_def Let_def simp del: optional.simps)

text \<open>Names of labels with up to 63 letters and digits each are host names.\<close>

lemma Seq_I: "a \<in> lang r \<Longrightarrow> b \<in> lang t \<Longrightarrow> a @ b \<in> lang (Seq r t)"
  by auto

lemma in_optional: "length s \<le> n \<Longrightarrow> \<forall>c \<in> set s. p c \<Longrightarrow> s \<in> lang (optional n (Chars p))"
proof (induction n arbitrary: s)
  case (Suc n)
  show ?case
  proof (cases s)
    case (Cons a t)
    then have "t \<in> lang (optional n (Chars p))" "p a" using Suc by auto
    moreover have "s = [a] @ t" using Cons by simp
    ultimately have "s \<in> lang (Seq (Chars p) (optional n (Chars p)))" unfolding lang.simps by blast
    then show ?thesis by simp
  qed simp
qed simp

lemma in_host_label:
  assumes "s \<noteq> []" "length s \<le> 63" "\<forall>c \<in> set s. is_alnum c" "\<And>c. is_alnum c \<Longrightarrow> f c \<and> i c \<and> l c"
  shows "s \<in> lang (host_label f i l)"
proof (cases "length s = 1")
  case True
  then show ?thesis using assms(3) by (cases s) (auto simp: host_label_def)
next
  case False
  then obtain a m b where s: "s = [a] @ m @ [b]" using assms(1) by (cases s; cases "tl s" rule: rev_cases) auto
  then have "m \<in> lang (optional 61 (Chars i))" using assms(2-4) by (intro in_optional) auto
  moreover have "f a" "l b" using assms(3,4) s by auto
  ultimately have "s \<in> lang (Seq (Chars f) (Seq (optional 61 (Chars i)) (Chars l)))" unfolding lang.simps s by blast
  then show ?thesis by (simp add: host_label_def)
qed

lemma dotted_names_are_hostnames:
  assumes "ls \<noteq> []" "\<forall>l \<in> set ls. l \<noteq> [] \<and> length l \<le> 63 \<and> (\<forall>c \<in> set l. is_alnum c)"
  shows "IsValidHostname (strings_Join ls ''.'') False"
proof -
  let ?u = "\<lambda>c. is_alnum c \<or> c = CHR ''_''" and ?inner = "\<lambda>c. is_alnum c \<or> c = CHR ''-'' \<or> c = CHR ''_''"
  let ?rest = "Seq (lit CHR ''.'') (host_label ?u ?inner is_alnum)"
  have label: "l \<in> lang (host_label ?u ?inner ?u)" "l \<in> lang (host_label ?u ?inner is_alnum)" if "l \<in> set ls" for l
    using assms(2) that by (auto intro!: in_host_label)
  obtain x xs where ls: "ls = x # xs" using assms(1) by (cases ls) auto
  have tail: "concat (map (\<lambda>l. ''.'' @ l) ys) \<in> repeated (lang ?rest)" if "set ys \<subseteq> set ls" for ys
    using that
  proof (induction ys)
    case (Cons y ys)
    then have y: "''.'' @ y \<in> lang ?rest" using label(2) [of y] unfolding lang.simps lit_def by auto
    have "concat (map (\<lambda>l. ''.'' @ l) ys) \<in> repeated (lang ?rest)" using Cons by simp
    from repeated.more [OF y this] show ?case unfolding list.map concat.simps append_assoc .
  qed (simp add: repeated.none)
  have join: "strings_Join (x # ys) ''.'' = x @ concat (map (\<lambda>l. ''.'' @ l) ys)" for x ys
    by (induction ys arbitrary: x) simp_all
  have "[] \<in> lang (optional 1 (lit CHR ''.''))" by simp
  moreover have "concat (map (\<lambda>l. ''.'' @ l) xs) \<in> lang (Star ?rest)" using tail [of xs] ls unfolding lang.simps(5) by auto
  ultimately have "x @ concat (map (\<lambda>l. ''.'' @ l) xs) @ [] \<in> lang validHostNameRegexp"
    using label(1) [of x] ls unfolding validHostNameRegexp_def Let_def by (intro Seq_I) simp_all
  then have "strings_Join ls ''.'' \<in> lang validHostNameRegexp" unfolding ls join append_Nil2 .
  then show ?thesis by (simp add: IsValidHostname_def accepts_iff)
qed

text \<open>The expression for IPv6 addresses is not anchored: whatever contains two colons is taken for a host name.\<close>

lemma two_colons_make_a_hostname: "IsValidHostname (a @ ''::'' @ b) False"
proof -
  have "''::'' \<in> lang (Seq (lit CHR '':'') (Alt (between 1 7 (Seq (lit CHR '':'') (between 1 4 (Chars is_hex)))) (lit CHR '':'')))"
    by (auto simp: lit_def)
  then have "''::'' \<in> lang validIPv6Regexp" by (simp add: validIPv6Regexp_def Let_def)
  then show ?thesis unfolding IsValidHostname_def occurs_in_iff by auto
qed

section \<open>Lines and fields\<close>

lemma Join_snoc_Nil: "ls \<noteq> [] \<Longrightarrow> strings_Join (ls @ [[]]) sep = strings_Join ls sep @ sep"
proof (induction ls)
  case (Cons l ls)
  then show ?case by (cases "ls = []") (simp_all add: strings_Join_Cons)
qed simp

lemma raw_lines_Join:
  assumes "\<forall>l \<in> set ls. CHR 0x0A \<notin> set l" "ls \<noteq> []"
  shows "raw_lines (strings_Join ls [CHR 0x0A] @ [CHR 0x0A]) = ls"
proof -
  have "strings_Split CHR 0x0A (strings_Join (ls @ [[]]) [CHR 0x0A]) = ls @ [[]]" using assms(1) by (intro Split_Join) auto
  then have "strings_Split CHR 0x0A (strings_Join ls [CHR 0x0A] @ [CHR 0x0A]) = ls @ [[]]" unfolding Join_snoc_Nil [OF assms(2)] .
  then show ?thesis by (simp add: raw_lines_def)
qed

text \<open>A line that is read back as it was written.\<close>

definition plain_line :: "string \<Rightarrow> bool" where
  "plain_line l \<longleftrightarrow> CHR 0x0A \<notin> set l \<and> drop_cr l = l \<and> length l < MaxScanTokenSize"

lemma scan_lines_Join:
  assumes "\<forall>l \<in> set ls. plain_line l" "ls \<noteq> []"
  shows "scan_lines (strings_Join ls [CHR 0x0A] @ [CHR 0x0A]) = ls"
proof -
  have "takeWhile (\<lambda>l. length l < MaxScanTokenSize) ls = ls" using assms(1) by (simp add: takeWhile_eq_all_conv plain_line_def)
  moreover have "map drop_cr ls = ls" using assms(1) by (intro map_idI) (simp add: plain_line_def)
  moreover have "raw_lines (strings_Join ls [CHR 0x0A] @ [CHR 0x0A]) = ls" using assms by (intro raw_lines_Join) (auto simp: plain_line_def)
  ultimately show ?thesis unfolding scan_lines_def by metis
qed

lemma scan_lines_newline: "scan_lines [CHR 0x0A] = [[]]"
  by (simp add: scan_lines_def raw_lines_def drop_cr_def MaxScanTokenSize_def)

lemma split_fields_line:
  assumes "CHR '' '' \<notin> set h" "CHR '' '' \<notin> set t"
  shows "split_fields (h @ '' '' @ t @ '' '' @ d) = [h, t, d]"
proof -
  have "strings_Cut (h @ CHR '' '' # (t @ CHR '' '' # d)) CHR '' '' = (h, t @ CHR '' '' # d, True)" by (rule Cut_found [OF assms(1)])
  then show ?thesis by (simp add: split_fields_def SplitN2_found [OF assms(2)])
qed

section \<open>Certificates\<close>

text \<open>A PEM block as the loop collects it: from a line with the begin marker to the first with the end marker.\<close>

definition block_lines :: "string list \<Rightarrow> bool" where
  "block_lines ls \<longleftrightarrow> (\<exists>b ms e. ls = b # ms @ [e] \<and> strings_HasPrefix b CertificateBeginMarker \<and> strings_HasPrefix e CertificateEndMarker \<and>
     (\<forall>m \<in> set ms. \<not> strings_HasPrefix m CertificateEndMarker)) \<and> length ls \<le> CertificateMaxLines"

definition text_of :: "string list \<Rightarrow> string" where
  "text_of ls = concat (map (\<lambda>l. l @ [CHR 0x0A]) ls)"

lemma text_of_Join: "ls \<noteq> [] \<Longrightarrow> text_of ls = strings_Join ls [CHR 0x0A] @ [CHR 0x0A]"
proof (induction ls)
  case (Cons l ls)
  then show ?case by (cases "ls = []") (simp_all add: text_of_def strings_Join_Cons)
qed simp

lemma pem_middle:
  assumes "\<forall>m \<in> set ms. \<not> strings_HasPrefix m CertificateEndMarker" "k + length ms \<le> CertificateMaxLines"
  shows "pem_loop (ms @ rest) (True, pem, k, certs) = pem_loop rest (True, pem @ text_of ms, k + length ms, certs)"
  using assms by (induction ms arbitrary: pem k) (simp_all add: pem_line_def text_of_def)

lemma pem_block:
  assumes "block_lines ls"
  shows "\<exists>n \<le> CertificateMaxLines. pem_loop (ls @ rest) (False, [], k, certs) = pem_loop rest (False, [], n, certs @ [text_of ls])"
proof -
  obtain b ms e where ls: "ls = b # ms @ [e]" and b: "strings_HasPrefix b CertificateBeginMarker" and e: "strings_HasPrefix e CertificateEndMarker"
    and ms: "\<forall>m \<in> set ms. \<not> strings_HasPrefix m CertificateEndMarker" and len: "length ls \<le> CertificateMaxLines"
    using assms unfolding block_lines_def by blast
  have "pem_loop (ls @ rest) (False, [], k, certs) = pem_loop (ms @ e # rest) (True, b @ [CHR 0x0A], 1, certs)"
    using b unfolding ls by (simp add: pem_line_def CertificateMaxLines_def)
  also have "\<dots> = pem_loop (e # rest) (True, (b @ [CHR 0x0A]) @ text_of ms, 1 + length ms, certs)"
    by (rule pem_middle [OF ms]) (use len ls in simp)
  also have "\<dots> = pem_loop rest (False, [], Suc (1 + length ms), certs @ [text_of ls])"
    using e len unfolding ls by (simp add: pem_line_def text_of_def)
  finally show ?thesis using len ls by (intro exI [of _ "Suc (1 + length ms)"]) simp
qed

lemma pem_blocks:
  assumes "\<forall>ls \<in> set bs. block_lines ls"
  shows "pem_loop (concat bs) (False, [], k, certs) = Inr (certs @ map text_of bs)"
  using assms
proof (induction bs arbitrary: k certs)
  case (Cons ls bs)
  then show ?case using pem_block [of ls "concat bs" k certs] by auto
qed simp

lemma text_of_concat: "text_of (concat bs) = concat (map text_of bs)"
  by (induction bs) (simp_all add: text_of_def)

text \<open>A bundle of certificates is taken apart into the certificates it was put together from.\<close>

lemma certificate_bundle_round_trip:
  assumes "\<forall>ls \<in> set bs. block_lines ls \<and> (\<forall>l \<in> set ls. plain_line l)"
  shows "ParseTLSCertificatesFromData (concat (map text_of bs)) = Inr (map text_of bs)"
proof (cases "concat bs = []")
  case True
  then have "bs = []" using assms by (cases bs) (auto simp: block_lines_def)
  then show ?thesis by (simp add: ParseTLSCertificatesFromData_def scan_lines_def raw_lines_def)
next
  case False
  have "scan_lines (concat (map text_of bs)) = concat bs"
    unfolding text_of_concat [symmetric] text_of_Join [OF False] by (rule scan_lines_Join) (use assms False in auto)
  then show ?thesis using pem_blocks [of bs 0 "[]"] assms by (simp add: ParseTLSCertificatesFromData_def)
qed

section \<open>Host names without wildcards\<close>

definition literal :: "string \<Rightarrow> bool" where
  "literal p \<longleftrightarrow> (\<forall>c \<in> set p. c \<noteq> CHR ''*'' \<and> c \<noteq> CHR ''?'' \<and> c \<noteq> CHR 0x5C)"

lemma nonBracketedPattern_simps [simp]:
  "nonBracketedPattern [] = []"
  "nonBracketedPattern (c # p) = (if c = CHR ''['' \<or> c = CHR '']'' then CHR 0x5C # c # nonBracketedPattern p else c # nonBracketedPattern p)"
  by (simp_all add: nonBracketedPattern_def)

lemma scan_rest_literal: "literal p \<Longrightarrow> scan_rest False (nonBracketedPattern p) = (nonBracketedPattern p, [])"
proof (induction p)
  case (Cons c p)
  then have IH: "scan_rest False (nonBracketedPattern p) = (nonBracketedPattern p, [])" by (simp add: literal_def)
  have c: "c \<noteq> CHR ''*''" "c \<noteq> CHR 0x5C" using Cons.prems by (auto simp: literal_def)
  show ?case
  proof (cases "c = CHR ''['' \<or> c = CHR '']''")
    case True
    then show ?thesis by (simp add: IH)
  next
    case False
    then show ?thesis using c IH by (cases "nonBracketedPattern p") simp_all
  qed
qed simp

lemma scanChunk_literal:
  assumes "literal p" "p \<noteq> []"
  shows "scanChunk (nonBracketedPattern p) = (False, nonBracketedPattern p, [])"
proof -
  obtain c q where p: "p = c # q" using assms(2) by (cases p) auto
  have "scan_stars (nonBracketedPattern p) = (False, nonBracketedPattern p)" using assms(1) unfolding p by (simp add: literal_def)
  then show ?thesis by (simp add: scanChunk_def scan_rest_literal [OF assms(1)])
qed

lemma matchChunk_literal:
  "literal p \<Longrightarrow> matchChunk (nonBracketedPattern p) s failed =
     Some (if \<not> failed \<and> strings_HasPrefix s p then Some (drop (length p) s) else None)"
proof (induction p arbitrary: s failed)
  case (Cons c p)
  then have l: "literal p" and c: "c \<noteq> CHR ''?''" "c \<noteq> CHR 0x5C" by (auto simp: literal_def)
  show ?case
    using c by (cases s) (simp_all add: matchChunk.simps [of "_ # _"] Cons.IH [OF l] Let_def)
qed (simp add: matchChunk.simps)

lemma MatchHostName_literal:
  assumes "literal p" "p \<noteq> []"
  shows "MatchHostName h p \<longleftrightarrow> h = p"
proof -
  have ne: "nonBracketedPattern p \<noteq> []" using assms(2) by (cases p) auto
  have "filepath_Match (nonBracketedPattern p) h = Some (h = p)"
    using ne by (subst filepath_Match.simps)
      (auto simp: Let_def scanChunk_literal [OF assms] matchChunk_literal [OF assms(1)] HasPrefix_iff well_formed_rest.simps filepath_Match.simps [of "[]"])
  then show ?thesis using assms(2) by (simp add: MatchHostName_def)
qed

end
