(* ===== verification/CertDB.thy ===== *)
theory CertDB
  imports Cert Secrets
begin

text \<open>
  The certificates and known hosts of the installation: \<open>util/db/certificate.go\<close> over two config maps, with the
  access to config maps of \<open>util/settings/settings.go\<close>. The entries of a Go map are a list with distinct keys; the order in which
  the program meets them is a function of the environment, as are the libraries for keys and certificates.
\<close>

section \<open>Config maps\<close>

record ConfigMap =
  cm_Name :: string
  cm_Data :: "(string \<times> string) list"

text \<open>
  \<open>cv_configmaps\<close> is the content of the cache of an informer. \<open>cv_ParseKnownHosts\<close> gives the hosts and the key of a line,
  \<open>cv_sha\<close> the hash of the wire format of a key.
\<close>

record 'k cert_env =
  cv_kube :: "'k kube_env"
  cv_configmaps :: "nat \<Rightarrow> 'k \<Rightarrow> ConfigMap list"
  cv_NotFound :: "string \<Rightarrow> go_error"
  cv_Update :: "ConfigMap \<Rightarrow> 'k \<Rightarrow> go_error option \<times> 'k"
  cv_order :: "(string \<times> string) list \<Rightarrow> (string \<times> string) list"
  cv_ParseKnownHosts :: "string \<Rightarrow> (string list \<times> string) result"
  cv_ParseAuthorizedKey :: "string \<Rightarrow> string option"
  cv_sha :: "string \<Rightarrow> string"
  cv_pem_Decode :: "string \<Rightarrow> string option"
  cv_x509_Parse :: "string \<Rightarrow> (string \<times> string) option"

definition ArgoCDKnownHostsConfigMapName :: string where "ArgoCDKnownHostsConfigMapName = ''argocd-ssh-known-hosts-cm''"
definition ArgoCDTLSCertsConfigMapName :: string where "ArgoCDTLSCertsConfigMapName = ''argocd-tls-certs-cm''"

definition known_configmaps :: "'k cert_env \<Rightarrow> 'k db_world \<Rightarrow> ConfigMap list" where
  "known_configmaps e w = (case sm_configmaps (dw_mgr w) of None \<Rightarrow> [] | Some h \<Rightarrow> cv_configmaps e h (dw_kube w))"

definition GetConfigMapByName :: "'k cert_env \<Rightarrow> string \<Rightarrow> 'k db_world \<Rightarrow> ConfigMap result \<times> 'k db_world" where
  "GetConfigMapByName e configMapName w = (case ensureSynced (cv_kube e) False w of
     (Some err, w1) \<Rightarrow> (Inl err, w1)
   | (None, w1) \<Rightarrow>
       (case List.find (\<lambda>cm. cm_Name cm = configMapName) (known_configmaps e w1) of
          None \<Rightarrow> Inl (cv_NotFound e configMapName)
        | Some cm \<Rightarrow> Inr cm, w1))"

text \<open>Assignment to a key of a map.\<close>

definition map_set :: "string \<Rightarrow> string \<Rightarrow> (string \<times> string) list \<Rightarrow> (string \<times> string) list" where
  "map_set key val m = (key, val) # filter (\<lambda>p. fst p \<noteq> key) m"

definition update_configmap :: "'k cert_env \<Rightarrow> ConfigMap \<Rightarrow> 'k db_world \<Rightarrow> go_error option \<times> 'k db_world" where
  "update_configmap e cm w = (case cv_Update e cm (dw_kube w) of
     (Some err, k) \<Rightarrow> (Some err, w\<lparr>dw_kube := k\<rparr>)
   | (None, k) \<Rightarrow> ResyncInformers (cv_kube e) (w\<lparr>dw_kube := k\<rparr>))"

definition SaveSSHKnownHostsData :: "'k cert_env \<Rightarrow> string list \<Rightarrow> 'k db_world \<Rightarrow> go_error option \<times> 'k db_world" where
  "SaveSSHKnownHostsData e knownHostsList w = (case GetConfigMapByName e ArgoCDKnownHostsConfigMapName w of
     (Inl err, w1) \<Rightarrow> (Some err, w1)
   | (Inr certCM, w1) \<Rightarrow>
       update_configmap e (certCM\<lparr>cm_Data := map_set ''ssh_known_hosts'' (strings_Join knownHostsList [CHR 0x0A] @ [CHR 0x0A]) (cm_Data certCM)\<rparr>) w1)"

definition SaveTLSCertificateData :: "'k cert_env \<Rightarrow> (string \<times> string) list \<Rightarrow> 'k db_world \<Rightarrow> go_error option \<times> 'k db_world" where
  "SaveTLSCertificateData e tlsCertificates w = (case GetConfigMapByName e ArgoCDTLSCertsConfigMapName w of
     (Inl err, w1) \<Rightarrow> (Some err, w1)
   | (Inr certCM, w1) \<Rightarrow> update_configmap e (certCM\<lparr>cm_Data := tlsCertificates\<rparr>) w1)"

section \<open>Entries\<close>

record SSHKnownHostsEntry =
  sh_Host :: string
  sh_SubType :: string
  sh_Data :: string
  sh_Fingerprint :: string

record TLSCertificate =
  tc_Subject :: string
  tc_Issuer :: string
  tc_Data :: string

record CertificateListSelector =
  cs_HostNamePattern :: string
  cs_CertType :: string
  cs_CertSubType :: string

definition host_line :: "SSHKnownHostsEntry \<Rightarrow> string" where
  "host_line entry = sh_Host entry @ '' '' @ sh_SubType entry @ '' '' @ sh_Data entry"

definition knownHostsDataToStrings :: "SSHKnownHostsEntry list \<Rightarrow> string list" where
  "knownHostsDataToStrings knownHostsList = map host_line knownHostsList"

definition tlsCertificatesToMap :: "TLSCertificate list \<Rightarrow> (string \<times> string) list" where
  "tlsCertificatesToMap tlsCertificates = foldl (\<lambda>m entry. map_set (tc_Subject entry) (tc_Data entry) m) [] tlsCertificates"

definition getTLSCertificateData :: "'k cert_env \<Rightarrow> 'k db_world \<Rightarrow> TLSCertificate list result \<times> 'k db_world" where
  "getTLSCertificateData e w = (case GetConfigMapByName e ArgoCDTLSCertsConfigMapName w of
     (Inl err, w1) \<Rightarrow> (Inl err, w1)
   | (Inr certCM, w1) \<Rightarrow> (Inr (map (\<lambda>(k, v). \<lparr>tc_Subject = k, tc_Issuer = [], tc_Data = v\<rparr>) (cv_order e (cm_Data certCM))), w1))"

fun tokenize_entries :: "string list \<Rightarrow> SSHKnownHostsEntry list result" where
  "tokenize_entries [] = Inr []"
| "tokenize_entries (l # ls) = (case TokenizeSSHKnownHostsEntry l of
     Inl err \<Rightarrow> Inl err
   | Inr (hostname, subType, keyData) \<Rightarrow> (case tokenize_entries ls of
       Inl err \<Rightarrow> Inl err
     | Inr es \<Rightarrow> Inr (\<lparr>sh_Host = hostname, sh_SubType = subType, sh_Data = keyData, sh_Fingerprint = []\<rparr> # es)))"

definition read_known_hosts :: "ConfigMap \<Rightarrow> SSHKnownHostsEntry list result" where
  "read_known_hosts cm =
     (case ParseSSHKnownHostsFromData (case map_of (cm_Data cm) ''ssh_known_hosts'' of None \<Rightarrow> [] | Some s \<Rightarrow> s) of
        Inl err \<Rightarrow> Inl err
      | Inr ls \<Rightarrow> tokenize_entries ls)"

definition getSSHKnownHostsData :: "'k cert_env \<Rightarrow> 'k db_world \<Rightarrow> SSHKnownHostsEntry list result \<times> 'k db_world" where
  "getSSHKnownHostsData e w = (case GetConfigMapByName e ArgoCDKnownHostsConfigMapName w of
     (Inl err, w1) \<Rightarrow> (Inl err, w1)
   | (Inr certCM, w1) \<Rightarrow> (read_known_hosts certCM, w1))"

definition selects_ssh :: "CertificateListSelector \<Rightarrow> bool" where
  "selects_ssh selector \<longleftrightarrow> cs_CertType selector = [] \<or> cs_CertType selector = ''*'' \<or> cs_CertType selector = ''ssh''"

definition selects_tls :: "CertificateListSelector \<Rightarrow> bool" where
  "selects_tls selector \<longleftrightarrow> cs_CertType selector = [] \<or> cs_CertType selector = ''*'' \<or> cs_CertType selector = ''https'' \<or> cs_CertType selector = ''tls''"

definition matchSSHKnownHostsEntry :: "SSHKnownHostsEntry \<Rightarrow> CertificateListSelector \<Rightarrow> bool" where
  "matchSSHKnownHostsEntry entry selector \<longleftrightarrow> MatchHostName (sh_Host entry) (cs_HostNamePattern selector) \<and>
     (cs_CertSubType selector = [] \<or> cs_CertSubType selector = ''*'' \<or> cs_CertSubType selector = sh_SubType entry)"

section \<open>Listing\<close>

definition listed_ssh :: "'k cert_env \<Rightarrow> SSHKnownHostsEntry \<Rightarrow> RepositoryCertificate" where
  "listed_ssh e entry = \<lparr>cert_ServerName = sh_Host entry, cert_CertType = ''ssh'', cert_CertSubType = sh_SubType entry, cert_CertData = [],
     cert_CertInfo = ''SHA256:'' @ SSHFingerprintSHA256FromString (cv_ParseAuthorizedKey e) (cv_sha e) (sh_Host entry @ '' '' @ sh_Data entry)\<rparr>"

definition listed_tls :: "'k cert_env \<Rightarrow> string \<Rightarrow> string \<Rightarrow> RepositoryCertificate" where
  "listed_tls e subject pemEntry =
     (let (certInfo, certSubType) = (case DecodePEMCertificateToX509 (cv_pem_Decode e) (cv_x509_Parse e) pemEntry of
            Inl err \<Rightarrow> (error_Error err, ''invalid'')
          | Inr (subj, algorithm) \<Rightarrow> (subj, algorithm))
      in \<lparr>cert_ServerName = subject, cert_CertType = ''https'', cert_CertSubType = map ascii_lower certSubType, cert_CertData = [],
          cert_CertInfo = certInfo\<rparr>)"

definition listed_bundle :: "'k cert_env \<Rightarrow> TLSCertificate \<Rightarrow> RepositoryCertificate list" where
  "listed_bundle e entry = (case ParseTLSCertificatesFromData (tc_Data entry) of
     Inl err \<Rightarrow> []
   | Inr pemEntries \<Rightarrow> map (listed_tls e (tc_Subject entry)) pemEntries)"

definition ListRepoCertificates :: "'k cert_env \<Rightarrow> CertificateListSelector option \<Rightarrow> 'k db_world \<Rightarrow> RepositoryCertificate list result \<times> 'k db_world" where
  "ListRepoCertificates e selector0 w =
     (let selector = (case selector0 of Some s \<Rightarrow> s | None \<Rightarrow> \<lparr>cs_HostNamePattern = [], cs_CertType = [], cs_CertSubType = []\<rparr>) in
      case (if selects_ssh selector then getSSHKnownHostsData e w else (Inr [], w)) of
        (Inl err, w1) \<Rightarrow> (Inl err, w1)
      | (Inr sshKnownHosts, w1) \<Rightarrow>
          (case (if selects_tls selector then getTLSCertificateData e w1 else (Inr [], w1)) of
             (Inl err, w2) \<Rightarrow> (Inl err, w2)
           | (Inr tlsCertificates, w2) \<Rightarrow>
               (Inr (map (listed_ssh e) (filter (\<lambda>entry. matchSSHKnownHostsEntry entry selector) sshKnownHosts) @
                     concat (map (listed_bundle e) (filter (\<lambda>entry. MatchHostName (tc_Subject entry) (cs_HostNamePattern selector)) tlsCertificates))), w2)))"

definition GetRepoCertificate :: "'k cert_env \<Rightarrow> string \<Rightarrow> string \<Rightarrow> 'k db_world \<Rightarrow> RepositoryCertificate option result \<times> 'k db_world" where
  "GetRepoCertificate e serverType serverName w =
     (if serverType = ''ssh'' then
        (case getSSHKnownHostsData e w of
           (Inl err, w1) \<Rightarrow> (Inl err, w1)
         | (Inr sshKnownHostsList, w1) \<Rightarrow>
             (Inr (map_option (\<lambda>entry. \<lparr>cert_ServerName = sh_Host entry, cert_CertType = ''ssh'', cert_CertSubType = sh_SubType entry,
                cert_CertData = sh_Data entry, cert_CertInfo = sh_Fingerprint entry\<rparr>)
                (List.find (\<lambda>entry. sh_Host entry = serverName) sshKnownHostsList)), w1))
      else (Inr None, w))"

section \<open>Creating\<close>

text \<open>\<open>mayUpdate\<close> is the parameter \<open>upsert\<close>.\<close>

text \<open>The host of a name of the form \<open>[host]:port\<close>.\<close>

definition bracketed_host :: "string \<Rightarrow> string option" where
  "bracketed_host s =
     (let digits = takeWhile is_digit (rev s); rest = dropWhile is_digit (rev s); m = drop 2 rest; inner = rev (butlast m)
      in if digits \<noteq> [] \<and> take 2 rest = '':]'' \<and> m \<noteq> [] \<and> List.last m = CHR ''['' \<and> CHR 0x0A \<notin> set inner then Some inner else None)"

definition hostname_error :: "RepositoryCertificate \<Rightarrow> go_error option" where
  "hostname_error c =
     (if cert_CertType c = ''https'' \<and> \<not> IsValidHostname (cert_ServerName c) False
      then Some (ErrorString (''invalid hostname in request: '' @ cert_ServerName c))
      else if cert_CertType c = ''ssh'' then
        (let hostnameToCheck = (case bracketed_host (cert_ServerName c) of None \<Rightarrow> cert_ServerName c | Some h \<Rightarrow> h)
         in if \<not> IsValidHostname hostnameToCheck False then Some (ErrorString (''invalid hostname in request: '' @ hostnameToCheck)) else None)
      else None)"

text \<open>The variables of the loop.\<close>

record create_state =
  cr_ssh :: "SSHKnownHostsEntry list"
  cr_tls :: "TLSCertificate list"
  cr_created :: "RepositoryCertificate list"
  cr_saveSSH :: bool
  cr_saveTLS :: bool

definition create_ssh :: "'k cert_env \<Rightarrow> bool \<Rightarrow> RepositoryCertificate \<Rightarrow> create_state \<Rightarrow> create_state result go" where
  "create_ssh e mayUpdate c st =
     (let found = find_index (\<lambda>entry. sh_Host entry = cert_ServerName c \<and> sh_SubType entry = cert_CertSubType c) (cr_ssh st);
          newEntry = (found = None);
          differs = (case found of None \<Rightarrow> False | Some i \<Rightarrow> sh_Data (cr_ssh st ! i) \<noteq> cert_CertData c);
          ssh1 = (case found of None \<Rightarrow> cr_ssh st | Some i \<Rightarrow> (cr_ssh st)[i := (cr_ssh st ! i)\<lparr>sh_Data := cert_CertData c\<rparr>])
      in if \<not> mayUpdate \<and> differs
         then Ret (Inl (ErrorString (''key for '' @ apos @ cert_ServerName c @ apos @ '' (subtype: '' @ apos @ cert_CertSubType c @ apos @
           '') already exists, and upsert was not specified'')))
         else case cv_ParseKnownHosts e (cert_ServerName c @ '' '' @ cert_CertSubType c @ '' '' @ cert_CertData c) of
           Inl err \<Rightarrow> Ret (Inl err)
         | Inr (hostnames, rawKeyData) \<Rightarrow>
             if newEntry \<and> hostnames = [] then Panic IndexOutOfRange
             else
               let ssh2 = (if newEntry then ssh1 @ [\<lparr>sh_Host = hostnames ! 0, sh_SubType = cert_CertSubType c, sh_Data = cert_CertData c, sh_Fingerprint = []\<rparr>] else ssh1)
               in Ret (Inr (if newEntry \<or> differs
                    then st\<lparr>cr_ssh := ssh2, cr_created := cr_created st @ [c\<lparr>cert_CertInfo := SSHFingerprintSHA256 (cv_sha e) rawKeyData\<rparr>], cr_saveSSH := True\<rparr>
                    else st\<lparr>cr_ssh := ssh2\<rparr>)))"

text \<open>The first certificate of a bundle that cannot be decoded.\<close>

fun bundle_error :: "'k cert_env \<Rightarrow> string list \<Rightarrow> go_error option" where
  "bundle_error e [] = None"
| "bundle_error e (pemEntry # pems) = (case DecodePEMCertificateToX509 (cv_pem_Decode e) (cv_x509_Parse e) pemEntry of
     Inl err \<Rightarrow> Some err
   | Inr cert \<Rightarrow> bundle_error e pems)"

definition created_tls :: "string \<Rightarrow> string \<Rightarrow> RepositoryCertificate" where
  "created_tls serverName pemEntry = \<lparr>cert_ServerName = serverName, cert_CertType = ''https'', cert_CertSubType = [], cert_CertData = pemEntry, cert_CertInfo = []\<rparr>"

definition create_tls :: "'k cert_env \<Rightarrow> bool \<Rightarrow> RepositoryCertificate \<Rightarrow> create_state \<Rightarrow> create_state result" where
  "create_tls e mayUpdate c st =
     (let found = find_index (\<lambda>entry. tc_Subject entry = cert_ServerName c) (cr_tls st);
          differs = (case found of None \<Rightarrow> False | Some i \<Rightarrow> tc_Data (cr_tls st ! i) \<noteq> cert_CertData c)
      in if differs \<and> \<not> mayUpdate
         then Inl (ErrorString (''TLS certificate for server '' @ apos @ cert_ServerName c @ apos @ '' already exists, and upsert was not specified''))
         else case ParseTLSCertificatesFromData (cert_CertData c) of
           Inl err \<Rightarrow> Inl err
         | Inr pemData \<Rightarrow>
             if length pemData = 0 then Inl (ErrorString ''no valid PEM data received'')
             else case bundle_error e pemData of
               Some err \<Rightarrow> Inl err
             | None \<Rightarrow>
                 let tls1 = (case found of
                       None \<Rightarrow> cr_tls st @ [\<lparr>tc_Subject = cert_ServerName c, tc_Issuer = [], tc_Data = cert_CertData c\<rparr>]
                     | Some i \<Rightarrow> (cr_tls st)[i := (cr_tls st ! i)\<lparr>tc_Data := cert_CertData c\<rparr>])
                 in Inr (if found = None \<or> differs
                      then st\<lparr>cr_tls := tls1, cr_created := cr_created st @ map (created_tls (cert_ServerName c)) pemData, cr_saveTLS := True\<rparr>
                      else st\<lparr>cr_tls := tls1\<rparr>))"

definition create_one :: "'k cert_env \<Rightarrow> bool \<Rightarrow> RepositoryCertificate \<Rightarrow> create_state \<Rightarrow> create_state result go" where
  "create_one e mayUpdate c st = (case hostname_error c of
     Some err \<Rightarrow> Ret (Inl err)
   | None \<Rightarrow>
       if cert_CertType c = ''ssh'' then create_ssh e mayUpdate c st
       else if cert_CertType c = ''https'' then Ret (create_tls e mayUpdate c st)
       else Ret (Inl (ErrorString (''unknown certificate type: '' @ cert_CertType c))))"

fun create_loop :: "'k cert_env \<Rightarrow> bool \<Rightarrow> RepositoryCertificate list \<Rightarrow> create_state \<Rightarrow> create_state result go" where
  "create_loop e mayUpdate [] st = Ret (Inr st)"
| "create_loop e mayUpdate (c # cs) st = go_bind (create_one e mayUpdate c st) (\<lambda>r. case r of
     Inl err \<Rightarrow> Ret (Inl err)
   | Inr st1 \<Rightarrow> create_loop e mayUpdate cs st1)"

text \<open>The end of \<open>CreateRepoCertificate\<close>: what has changed is saved.\<close>

definition save_created :: "'k cert_env \<Rightarrow> create_state \<Rightarrow> 'k db_world \<Rightarrow> RepositoryCertificate list result \<times> 'k db_world" where
  "save_created e st w =
     (case (if cr_saveSSH st then SaveSSHKnownHostsData e (knownHostsDataToStrings (cr_ssh st)) w else (None, w)) of
        (Some err, w1) \<Rightarrow> (Inl err, w1)
      | (None, w1) \<Rightarrow>
          (case (if cr_saveTLS st then SaveTLSCertificateData e (tlsCertificatesToMap (cr_tls st)) w1 else (None, w1)) of
             (Some err, w2) \<Rightarrow> (Inl err, w2)
           | (None, w2) \<Rightarrow> (Inr (cr_created st), w2)))"

definition CreateRepoCertificate :: "'k cert_env \<Rightarrow> RepositoryCertificate list \<Rightarrow> bool \<Rightarrow> 'k db_world \<Rightarrow> (RepositoryCertificate list result \<times> 'k db_world) go" where
  "CreateRepoCertificate e certificates mayUpdate w = (case getSSHKnownHostsData e w of
     (Inl err, w1) \<Rightarrow> Ret (Inl err, w1)
   | (Inr sshKnownHostsList, w1) \<Rightarrow> (case getTLSCertificateData e w1 of
       (Inl err, w2) \<Rightarrow> Ret (Inl err, w2)
     | (Inr tlsCertificates, w2) \<Rightarrow>
         go_bind (create_loop e mayUpdate certificates \<lparr>cr_ssh = sshKnownHostsList, cr_tls = tlsCertificates, cr_created = [], cr_saveSSH = False, cr_saveTLS = False\<rparr>)
           (\<lambda>r. case r of Inl err \<Rightarrow> Ret (Inl err, w2) | Inr st \<Rightarrow> Ret (save_created e st w2))))"

section \<open>Removing\<close>

definition removed_ssh :: "SSHKnownHostsEntry \<Rightarrow> RepositoryCertificate" where
  "removed_ssh entry = \<lparr>cert_ServerName = sh_Host entry, cert_CertType = ''ssh'', cert_CertSubType = sh_SubType entry, cert_CertData = sh_Data entry, cert_CertInfo = []\<rparr>"

text \<open>The loop over the TLS certificates: what is removed and what is left.\<close>

fun remove_tls :: "string \<Rightarrow> TLSCertificate list \<Rightarrow> (RepositoryCertificate list \<times> TLSCertificate list) result" where
  "remove_tls p [] = Inr ([], [])"
| "remove_tls p (entry # es) =
     (if MatchHostName (tc_Subject entry) p then
        (case ParseTLSCertificatesFromData (tc_Data entry) of
           Inl err \<Rightarrow> Inl err
         | Inr pems \<Rightarrow> map_sum id (\<lambda>(removed, left). (map (created_tls (tc_Subject entry)) pems @ removed, left)) (remove_tls p es))
      else map_sum id (\<lambda>(removed, left). (removed, entry # left)) (remove_tls p es))"

definition RemoveRepoCertificates :: "'k cert_env \<Rightarrow> CertificateListSelector option \<Rightarrow> 'k db_world \<Rightarrow> (RepositoryCertificate list result \<times> 'k db_world) go" where
  "RemoveRepoCertificates e sel w = go_bind (deref sel) (\<lambda>selector. Ret (
     case (if selects_ssh selector then getSSHKnownHostsData e w else (Inr [], w)) of
       (Inl err, w1) \<Rightarrow> (Inl err, w1)
     | (Inr knownHostsOld, w1) \<Rightarrow>
         let knownHostsNew = filter (\<lambda>entry. \<not> matchSSHKnownHostsEntry entry selector) knownHostsOld;
             removedHosts = map removed_ssh (filter (\<lambda>entry. matchSSHKnownHostsEntry entry selector) knownHostsOld)
         in case (if selects_tls selector then getTLSCertificateData e w1 else (Inr [], w1)) of
              (Inl err, w2) \<Rightarrow> (Inl err, w2)
            | (Inr tlsCertificatesOld, w2) \<Rightarrow> (case remove_tls (cs_HostNamePattern selector) tlsCertificatesOld of
                Inl err \<Rightarrow> (Inl err, w2)
              | Inr (removedTLS, tlsCertificatesNew) \<Rightarrow>
                  (case (if length knownHostsNew < length knownHostsOld then SaveSSHKnownHostsData e (knownHostsDataToStrings knownHostsNew) w2 else (None, w2)) of
                     (Some err, w3) \<Rightarrow> (Inl err, w3)
                   | (None, w3) \<Rightarrow>
                       (case (if length tlsCertificatesNew < length tlsCertificatesOld then SaveTLSCertificateData e (tlsCertificatesToMap tlsCertificatesNew) w3 else (None, w3)) of
                          (Some err, w4) \<Rightarrow> (Inl err, w4)
                        | (None, w4) \<Rightarrow> (Inr (removedHosts @ removedTLS), w4))))))"

end
