(* ===== verification/CertStore.thy ===== *)
theory CertStore
  imports CertDB
begin

text \<open>
  The certificate database over a cluster that keeps what is written: creating and removing certificates updates a map from hosts
  and types to keys and a map from servers to certificates, and what is written can be read back.
\<close>

section \<open>Lists as maps\<close>

lemma find_index_Cons_Some:
  "find_index P (x # xs) = Some i \<longleftrightarrow> (if P x then i = 0 else \<exists>j. i = Suc j \<and> find_index P xs = Some j)"
  by auto

lemma map_of_update_first:
  assumes "find_index (\<lambda>x. key x = k) xs = Some i" "key y = k"
  shows "map_of (map (\<lambda>x. (key x, val x)) (xs[i := y])) = (map_of (map (\<lambda>x. (key x, val x)) xs))(k \<mapsto> val y)"
  using assms
proof (induction xs arbitrary: i)
  case (Cons x xs)
  then show ?case by (cases "key x = k") (auto simp del: find_index.simps simp: find_index_Cons_Some fun_upd_twist)
qed simp

lemma map_of_snoc_new:
  assumes "find_index (\<lambda>x. key x = k) xs = None" "key y = k"
  shows "map_of (map (\<lambda>x. (key x, val x)) (xs @ [y])) = (map_of (map (\<lambda>x. (key x, val x)) xs))(k \<mapsto> val y)"
  using assms by (induction xs) (auto split: if_splits simp: fun_upd_twist)

lemma map_of_first:
  "find_index (\<lambda>x. key x = k) xs = Some i \<Longrightarrow> map_of (map (\<lambda>x. (key x, val x)) xs) k = Some (val (xs ! i))"
  by (induction xs arbitrary: i) (auto split: if_splits)

lemma distinct_update_key: "i < length xs \<Longrightarrow> key y = key (xs ! i) \<Longrightarrow> map key (xs[i := y]) = map key xs"
  by (simp add: map_update list_update_same_conv)

lemma map_of_map_set: "map_of (map_set k v m) = (map_of m)(k \<mapsto> v)"
proof -
  have "map_of (filter (\<lambda>p. fst p \<noteq> k) m) x = map_of m x" if "x \<noteq> k" for x
    using that by (induction m) auto
  then show ?thesis by (auto simp: map_set_def)
qed

lemma distinct_map_set: "distinct (map fst m) \<Longrightarrow> distinct (map fst (map_set k v m))"
  by (auto simp: map_set_def distinct_map_filter)

lemma map_of_rearranged:
  assumes "mset xs = mset ys" "distinct (map fst ys)"
  shows "map_of xs = map_of ys"
proof -
  have "set xs = set ys" using assms(1) by (rule mset_eq_setD)
  moreover have "mset (map fst xs) = mset (map fst ys)" using assms(1) by simp
  then have "distinct (map fst xs)" using assms(2) by (metis mset_eq_imp_distinct_iff)
  ultimately show ?thesis using assms(2) by (simp add: map_of_inject_set)
qed

text \<open>The keys of the known hosts and the certificates of servers.\<close>

definition host_map :: "SSHKnownHostsEntry list \<Rightarrow> (string \<times> string) \<rightharpoonup> string" where
  "host_map es = map_of (map (\<lambda>s. ((sh_Host s, sh_SubType s), sh_Data s)) es)"

definition tls_map :: "TLSCertificate list \<Rightarrow> string \<rightharpoonup> string" where
  "tls_map ts = map_of (map (\<lambda>t. (tc_Subject t, tc_Data t)) ts)"

lemma tlsCertificatesToMap_spec:
  assumes "distinct (map tc_Subject ts)"
  shows "map_of (tlsCertificatesToMap ts) = tls_map ts" "distinct (map fst (tlsCertificatesToMap ts))"
proof -
  have fold: "map_of (foldl (\<lambda>m t. map_set (tc_Subject t) (tc_Data t) m) m ts) = map_of m ++ tls_map ts \<and>
      (distinct (map fst m) \<longrightarrow> distinct (map fst (foldl (\<lambda>m t. map_set (tc_Subject t) (tc_Data t) m) m ts)))"
    if "distinct (map tc_Subject ts)" for m ts
    using that
  proof (induction ts arbitrary: m)
    case (Cons t ts)
    have "tls_map ts (tc_Subject t) = None" using Cons.prems by (auto simp: tls_map_def map_of_eq_None_iff)
    then have "(map_of m)(tc_Subject t \<mapsto> tc_Data t) ++ tls_map ts = map_of m ++ tls_map (t # ts)"
      by (auto intro!: ext simp: tls_map_def map_add_def split: option.splits)
    then show ?case using Cons by (simp add: map_of_map_set distinct_map_set)
  qed (simp add: tls_map_def)
  show "map_of (tlsCertificatesToMap ts) = tls_map ts" "distinct (map fst (tlsCertificatesToMap ts))"
    using fold [OF assms, of "[]"] by (simp_all add: tlsCertificatesToMap_def)
qed

section \<open>Known hosts files\<close>

text \<open>An entry whose line is read back as the entry.\<close>

definition storable :: "SSHKnownHostsEntry \<Rightarrow> bool" where
  "storable s \<longleftrightarrow> plain_line (host_line s) \<and> IsValidSSHKnownHostsEntry (host_line s) \<and>
     TokenizeSSHKnownHostsEntry (host_line s) = Inr (sh_Host s, sh_SubType s, sh_Data s) \<and> sh_Fingerprint s = []"

lemma storableI:
  assumes "sh_Host s \<noteq> []" "hd (sh_Host s) \<noteq> CHR ''#''" "CHR '' '' \<notin> set (sh_Host s)" "CHR '' '' \<notin> set (sh_SubType s)"
    and "plain_line (host_line s)" "strings_TrimSpace (host_line s) = host_line s" "sh_Fingerprint s = []"
  shows "storable s"
proof -
  have f: "split_fields (host_line s) = [sh_Host s, sh_SubType s, sh_Data s]"
    unfolding host_line_def by (rule split_fields_line [OF assms(3,4)])
  have "hd (host_line s) = hd (sh_Host s)" "host_line s \<noteq> []" using assms(1) by (simp_all add: host_line_def)
  then show ?thesis using assms f by (simp add: storable_def IsValidSSHKnownHostsEntry_def TokenizeSSHKnownHostsEntry_def)
qed

lemma tokenize_entries_lines: "\<forall>s \<in> set es. storable s \<Longrightarrow> tokenize_entries (map host_line es) = Inr es"
  by (induction es) (auto simp: storable_def)

text \<open>Known hosts that are written are read back.\<close>

lemma known_hosts_round_trip:
  assumes "\<forall>s \<in> set es. storable s"
    "map_of (cm_Data cm) ''ssh_known_hosts'' = Some (strings_Join (knownHostsDataToStrings es) [CHR 0x0A] @ [CHR 0x0A])"
  shows "read_known_hosts cm = Inr es"
proof (cases "es = []")
  case True
  have "strings_TrimSpace [] = []" by code_simp
  then show ?thesis using assms(2) True
    by (simp add: read_known_hosts_def knownHostsDataToStrings_def ParseSSHKnownHostsFromData_def scan_lines_newline IsValidSSHKnownHostsEntry_def)
next
  case False
  have "scan_lines (strings_Join (map host_line es) [CHR 0x0A] @ [CHR 0x0A]) = map host_line es"
    by (rule scan_lines_Join) (use assms(1) False in \<open>auto simp: storable_def\<close>)
  moreover have "filter IsValidSSHKnownHostsEntry (map host_line es) = map host_line es"
    using assms(1) by (simp add: filter_id_conv storable_def)
  ultimately show ?thesis
    using assms(2) tokenize_entries_lines [OF assms(1)] by (simp add: read_known_hosts_def knownHostsDataToStrings_def ParseSSHKnownHostsFromData_def)
qed

section \<open>The loop of creation\<close>

definition put_host :: "(string \<times> string \<rightharpoonup> string) \<Rightarrow> RepositoryCertificate \<Rightarrow> (string \<times> string \<rightharpoonup> string)" where
  "put_host m c = (if cert_CertType c = ''ssh'' then m((cert_ServerName c, cert_CertSubType c) \<mapsto> cert_CertData c) else m)"

definition put_tls :: "(string \<rightharpoonup> string) \<Rightarrow> RepositoryCertificate \<Rightarrow> (string \<rightharpoonup> string)" where
  "put_tls m c = (if cert_CertType c = ''https'' then m(cert_ServerName c \<mapsto> cert_CertData c) else m)"

text \<open>The entry for a certificate in a request.\<close>

definition host_entry :: "RepositoryCertificate \<Rightarrow> SSHKnownHostsEntry" where
  "host_entry c = \<lparr>sh_Host = cert_ServerName c, sh_SubType = cert_CertSubType c, sh_Data = cert_CertData c, sh_Fingerprint = []\<rparr>"

text \<open>\<open>ssh.ParseKnownHosts\<close> finds the host that the line begins with.\<close>

definition finds_host :: "'k cert_env \<Rightarrow> RepositoryCertificate \<Rightarrow> bool" where
  "finds_host e c \<longleftrightarrow> (\<forall>hs k. cv_ParseKnownHosts e (cert_ServerName c @ '' '' @ cert_CertSubType c @ '' '' @ cert_CertData c) = Inr (hs, k) \<longrightarrow>
     hs = [cert_ServerName c])"

text \<open>
  What one certificate does to the lists: the map gets its key, the other map is left alone; without permission to update only a
  new key or the value that is there; nothing to save means nothing changed.
\<close>

definition stored_in :: "bool \<Rightarrow> RepositoryCertificate \<Rightarrow> create_state \<Rightarrow> create_state \<Rightarrow> bool" where
  "stored_in mayUpdate c st st' \<longleftrightarrow>
     host_map (cr_ssh st') = put_host (host_map (cr_ssh st)) c \<and> tls_map (cr_tls st') = put_tls (tls_map (cr_tls st)) c \<and>
     (\<not> mayUpdate \<longrightarrow> host_map (cr_ssh st) \<subseteq>\<^sub>m host_map (cr_ssh st') \<and> tls_map (cr_tls st) \<subseteq>\<^sub>m tls_map (cr_tls st')) \<and>
     (distinct (map tc_Subject (cr_tls st)) \<longrightarrow> distinct (map tc_Subject (cr_tls st'))) \<and>
     (storable (host_entry c) \<or> cert_CertType c \<noteq> ''ssh'' \<longrightarrow> (\<forall>s \<in> set (cr_ssh st). storable s) \<longrightarrow> (\<forall>s \<in> set (cr_ssh st'). storable s)) \<and>
     (cr_saveSSH st \<longrightarrow> cr_saveSSH st') \<and> (cr_saveTLS st \<longrightarrow> cr_saveTLS st') \<and>
     (\<not> cr_saveSSH st' \<longrightarrow> cr_ssh st' = cr_ssh st) \<and> (\<not> cr_saveTLS st' \<longrightarrow> cr_tls st' = cr_tls st)"

lemma create_ssh_stores:
  assumes "create_ssh e mayUpdate c st = Ret (Inr st')" "finds_host e c" "cert_CertType c = ''ssh''"
  shows "stored_in mayUpdate c st st'"
proof -
  let ?key = "\<lambda>s. (sh_Host s, sh_SubType s)" and ?k = "(cert_ServerName c, cert_CertSubType c)"
  let ?P = "\<lambda>entry. sh_Host entry = cert_ServerName c \<and> sh_SubType entry = cert_CertSubType c"
  have P: "?P = (\<lambda>s. ?key s = ?k)" by auto
  obtain hs raw where parse: "cv_ParseKnownHosts e (cert_ServerName c @ '' '' @ cert_CertSubType c @ '' '' @ cert_CertData c) = Inr (hs, raw)"
    using assms(1) by (auto simp: create_ssh_def Let_def split: if_splits sum.splits)
  with assms(2) have hs: "hs = [cert_ServerName c]" by (simp add: finds_host_def)
  note eq = assms(1) [unfolded create_ssh_def Let_def P]
  show ?thesis
  proof (cases "find_index (\<lambda>s. ?key s = ?k) (cr_ssh st)")
    case None
    then have st': "cr_ssh st' = cr_ssh st @ [host_entry c]" "cr_tls st' = cr_tls st" "cr_saveSSH st'" "cr_saveTLS st' = cr_saveTLS st"
      using eq parse hs by (auto simp: host_entry_def)
    have m: "host_map (cr_ssh st') = (host_map (cr_ssh st))(?k \<mapsto> cert_CertData c)"
      unfolding host_map_def st'(1) using map_of_snoc_new [OF None, of "host_entry c" sh_Data] by (simp add: host_entry_def)
    have "host_map (cr_ssh st) ?k = None" using None by (auto simp: host_map_def map_of_eq_None_iff find_index_None)
    then show ?thesis using m st' assms(3) by (auto simp: stored_in_def put_host_def put_tls_def map_le_def)
  next
    case (Some i)
    note i = find_index_Some [OF Some]
    let ?y = "(cr_ssh st ! i)\<lparr>sh_Data := cert_CertData c\<rparr>"
    have st': "cr_ssh st' = (cr_ssh st)[i := ?y]" "cr_tls st' = cr_tls st" "cr_saveTLS st' = cr_saveTLS st"
      "cr_saveSSH st' = (cr_saveSSH st \<or> sh_Data (cr_ssh st ! i) \<noteq> cert_CertData c)"
      "\<not> mayUpdate \<Longrightarrow> sh_Data (cr_ssh st ! i) = cert_CertData c"
      using eq parse Some by (auto split: if_splits)
    have m: "host_map (cr_ssh st') = (host_map (cr_ssh st))(?k \<mapsto> cert_CertData c)"
      unfolding host_map_def st'(1) using map_of_update_first [OF Some, of ?y sh_Data] i by simp
    have old: "host_map (cr_ssh st) ?k = Some (sh_Data (cr_ssh st ! i))"
      unfolding host_map_def by (rule map_of_first [OF Some])
    have same: "cr_ssh st' = cr_ssh st" if "sh_Data (cr_ssh st ! i) = cert_CertData c"
      unfolding st'(1) that [symmetric] by simp
    have entry: "?y = host_entry c" if "\<forall>s \<in> set (cr_ssh st). storable s"
    proof -
      have "storable (cr_ssh st ! i)" using that i by simp
      then show ?thesis using i by (cases "cr_ssh st ! i") (simp add: storable_def host_entry_def)
    qed
    have "\<forall>s \<in> set (cr_ssh st'). storable s" if "storable (host_entry c)" "\<forall>s \<in> set (cr_ssh st). storable s"
      using that entry [OF that(2)] set_update_subset_insert [of "cr_ssh st" i ?y] unfolding st'(1) by auto
    moreover have "host_map (cr_ssh st) \<subseteq>\<^sub>m host_map (cr_ssh st')" if "\<not> mayUpdate"
      using old st'(5) [OF that] unfolding m by (auto simp: map_le_def)
    ultimately show ?thesis using m st'(2-4) same assms(3) by (auto simp: stored_in_def put_host_def put_tls_def)
  qed
qed

lemma create_tls_stores:
  assumes "create_tls e mayUpdate c st = Inr st'" "cert_CertType c = ''https''"
  shows "stored_in mayUpdate c st st'"
proof -
  note eq = assms(1) [unfolded create_tls_def Let_def]
  obtain pems where pems: "ParseTLSCertificatesFromData (cert_CertData c) = Inr pems" "length pems \<noteq> 0" "bundle_error e pems = None"
    using eq by (auto split: if_splits sum.splits option.splits)
  let ?k = "cert_ServerName c" and ?y = "\<lparr>tc_Subject = cert_ServerName c, tc_Issuer = [], tc_Data = cert_CertData c\<rparr>"
  show ?thesis
  proof (cases "find_index (\<lambda>t. tc_Subject t = ?k) (cr_tls st)")
    case None
    then have st': "cr_tls st' = cr_tls st @ [?y]" "cr_ssh st' = cr_ssh st" "cr_saveTLS st'" "cr_saveSSH st' = cr_saveSSH st"
      using eq pems by auto
    have m: "tls_map (cr_tls st') = (tls_map (cr_tls st))(?k \<mapsto> cert_CertData c)"
      unfolding tls_map_def st'(1) using map_of_snoc_new [OF None, of ?y tc_Data] by simp
    have new: "?k \<notin> set (map tc_Subject (cr_tls st))" using None by (auto simp: find_index_None)
    then have "tls_map (cr_tls st) ?k = None" by (auto simp: tls_map_def map_of_eq_None_iff)
    then show ?thesis using m st' assms(2) new by (auto simp: stored_in_def put_host_def put_tls_def map_le_def)
  next
    case (Some i)
    note i = find_index_Some [OF Some]
    let ?z = "(cr_tls st ! i)\<lparr>tc_Data := cert_CertData c\<rparr>"
    have st': "cr_tls st' = (cr_tls st)[i := ?z]" "cr_ssh st' = cr_ssh st" "cr_saveSSH st' = cr_saveSSH st"
      "cr_saveTLS st' = (cr_saveTLS st \<or> tc_Data (cr_tls st ! i) \<noteq> cert_CertData c)"
      "\<not> mayUpdate \<Longrightarrow> tc_Data (cr_tls st ! i) = cert_CertData c"
      using eq pems Some by (auto split: if_splits)
    have m: "tls_map (cr_tls st') = (tls_map (cr_tls st))(?k \<mapsto> cert_CertData c)"
      unfolding tls_map_def st'(1) using map_of_update_first [OF Some, of ?z tc_Data] i by simp
    have old: "tls_map (cr_tls st) ?k = Some (tc_Data (cr_tls st ! i))"
      unfolding tls_map_def by (rule map_of_first [OF Some])
    have same: "cr_tls st' = cr_tls st" if "tc_Data (cr_tls st ! i) = cert_CertData c"
      unfolding st'(1) that [symmetric] by simp
    have keys: "map tc_Subject (cr_tls st') = map tc_Subject (cr_tls st)"
      unfolding st'(1) using i by (intro distinct_update_key) simp_all
    have "tls_map (cr_tls st) \<subseteq>\<^sub>m tls_map (cr_tls st')" if "\<not> mayUpdate"
      using old st'(5) [OF that] unfolding m by (auto simp: map_le_def)
    then show ?thesis using m st'(2-4) same keys assms(2) by (auto simp: stored_in_def put_host_def put_tls_def)
  qed
qed

lemma create_one_stores:
  assumes "create_one e mayUpdate c st = Ret (Inr st')" "cert_CertType c = ''ssh'' \<longrightarrow> finds_host e c"
  shows "stored_in mayUpdate c st st'" "cert_CertType c \<in> {''ssh'', ''https''}"
proof -
  have *: "cert_CertType c = ''ssh'' \<and> create_ssh e mayUpdate c st = Ret (Inr st') \<or> cert_CertType c = ''https'' \<and> create_tls e mayUpdate c st = Inr st'"
    using assms(1) by (auto simp: create_one_def split: option.splits if_splits)
  then show "stored_in mayUpdate c st st'" using create_ssh_stores [of e mayUpdate c st st'] create_tls_stores [of e mayUpdate c st st'] assms(2) by blast
  show "cert_CertType c \<in> {''ssh'', ''https''}" using * by blast
qed

text \<open>The whole loop.\<close>

lemma create_loop_stores:
  assumes "create_loop e mayUpdate cs st = Ret (Inr st')" "\<forall>c \<in> set cs. cert_CertType c = ''ssh'' \<longrightarrow> finds_host e c \<and> storable (host_entry c)"
    and "distinct (map tc_Subject (cr_tls st))" "\<forall>s \<in> set (cr_ssh st). storable s"
  shows "host_map (cr_ssh st') = foldl put_host (host_map (cr_ssh st)) cs \<and> tls_map (cr_tls st') = foldl put_tls (tls_map (cr_tls st)) cs \<and>
     (\<not> mayUpdate \<longrightarrow> host_map (cr_ssh st) \<subseteq>\<^sub>m host_map (cr_ssh st') \<and> tls_map (cr_tls st) \<subseteq>\<^sub>m tls_map (cr_tls st')) \<and>
     distinct (map tc_Subject (cr_tls st')) \<and> (\<forall>s \<in> set (cr_ssh st'). storable s) \<and>
     (cr_saveSSH st \<longrightarrow> cr_saveSSH st') \<and> (cr_saveTLS st \<longrightarrow> cr_saveTLS st') \<and>
     (\<not> cr_saveSSH st' \<longrightarrow> cr_ssh st' = cr_ssh st) \<and> (\<not> cr_saveTLS st' \<longrightarrow> cr_tls st' = cr_tls st)"
  using assms
proof (induction cs arbitrary: st)
  case (Cons c cs)
  obtain st1 where one: "create_one e mayUpdate c st = Ret (Inr st1)" and rest: "create_loop e mayUpdate cs st1 = Ret (Inr st')"
    using Cons.prems(1) by (cases "create_one e mayUpdate c st") (auto split: sum.splits)
  have s: "stored_in mayUpdate c st st1" using create_one_stores(1) [OF one] Cons.prems(2) by simp
  then have d: "distinct (map tc_Subject (cr_tls st1))" "\<forall>s \<in> set (cr_ssh st1). storable s"
    using Cons.prems(2-4) unfolding stored_in_def by (simp, auto)
  have "\<forall>c \<in> set cs. cert_CertType c = ''ssh'' \<longrightarrow> finds_host e c \<and> storable (host_entry c)" using Cons.prems(2) by simp
  note IH = Cons.IH [OF rest this d]
  note one_step = s [unfolded stored_in_def]
  have le: "host_map (cr_ssh st) \<subseteq>\<^sub>m host_map (cr_ssh st')" "tls_map (cr_tls st) \<subseteq>\<^sub>m tls_map (cr_tls st')" if "\<not> mayUpdate"
  proof -
    have "host_map (cr_ssh st) \<subseteq>\<^sub>m host_map (cr_ssh st1)" "tls_map (cr_tls st) \<subseteq>\<^sub>m tls_map (cr_tls st1)"
      "host_map (cr_ssh st1) \<subseteq>\<^sub>m host_map (cr_ssh st')" "tls_map (cr_tls st1) \<subseteq>\<^sub>m tls_map (cr_tls st')"
      using one_step IH that by blast+
    then show "host_map (cr_ssh st) \<subseteq>\<^sub>m host_map (cr_ssh st')" "tls_map (cr_tls st) \<subseteq>\<^sub>m tls_map (cr_tls st')"
      by (blast intro: map_le_trans)+
  qed
  have "host_map (cr_ssh st') = foldl put_host (host_map (cr_ssh st)) (c # cs)" "tls_map (cr_tls st') = foldl put_tls (tls_map (cr_tls st)) (c # cs)"
    using one_step IH by simp_all
  moreover have "cr_saveSSH st \<longrightarrow> cr_saveSSH st'" "cr_saveTLS st \<longrightarrow> cr_saveTLS st'"
    "\<not> cr_saveSSH st' \<longrightarrow> cr_ssh st' = cr_ssh st" "\<not> cr_saveTLS st' \<longrightarrow> cr_tls st' = cr_tls st"
    using one_step IH by metis+
  ultimately show ?case using le IH by blast
qed simp

section \<open>Removing from lists\<close>

lemma map_of_filter_keys: "map_of (filter (\<lambda>p. Q (fst p)) xs) = map_of xs |` {k. Q k}"
  by (induction xs) (auto simp: restrict_map_def fun_eq_iff)

definition selects_host :: "CertificateListSelector \<Rightarrow> string \<times> string \<Rightarrow> bool" where
  "selects_host selector k \<longleftrightarrow> MatchHostName (fst k) (cs_HostNamePattern selector) \<and>
     (cs_CertSubType selector = [] \<or> cs_CertSubType selector = ''*'' \<or> cs_CertSubType selector = snd k)"

lemma host_map_filter:
  "host_map (filter (\<lambda>s. \<not> matchSSHKnownHostsEntry s selector) es) = host_map es |` {k. \<not> selects_host selector k}"
proof -
  let ?f = "\<lambda>s. ((sh_Host s, sh_SubType s), sh_Data s)"
  have "map ?f (filter (\<lambda>s. \<not> matchSSHKnownHostsEntry s selector) es) = filter (\<lambda>p. \<not> selects_host selector (fst p)) (map ?f es)"
    by (simp add: filter_map comp_def matchSSHKnownHostsEntry_def selects_host_def)
  then show ?thesis using map_of_filter_keys [of "\<lambda>k. \<not> selects_host selector k" "map ?f es"] by (simp add: host_map_def)
qed

lemma tls_map_filter: "tls_map (filter (\<lambda>t. \<not> MatchHostName (tc_Subject t) p) ts) = tls_map ts |` {s. \<not> MatchHostName s p}"
proof -
  let ?f = "\<lambda>t. (tc_Subject t, tc_Data t)"
  have "map ?f (filter (\<lambda>t. \<not> MatchHostName (tc_Subject t) p) ts) = filter (\<lambda>q. \<not> MatchHostName (fst q) p) (map ?f ts)"
    by (simp add: filter_map comp_def)
  then show ?thesis using map_of_filter_keys [of "\<lambda>k. \<not> MatchHostName k p" "map ?f ts"] by (simp add: tls_map_def)
qed

lemma remove_tls_left: "remove_tls p ts = Inr (removed, left) \<Longrightarrow> left = filter (\<lambda>t. \<not> MatchHostName (tc_Subject t) p) ts"
proof (induction ts arbitrary: removed left)
  case (Cons t ts)
  then show ?case by (cases "remove_tls p ts") (auto split: if_splits sum.splits)
qed simp

lemma filter_not_shorter: "\<not> length (filter P xs) < length xs \<Longrightarrow> filter P xs = xs"
  by (metis filter_id_conv length_filter_less)

section \<open>A cluster that keeps config maps\<close>

definition seen_data :: "'k cert_env \<Rightarrow> 'k db_world \<Rightarrow> string \<Rightarrow> (string \<times> string) list option" where
  "seen_data e w n = map_option cm_Data (List.find (\<lambda>cm. cm_Name cm = n) (known_configmaps e w))"

text \<open>The manager's informers run, and show the config maps of the cluster, the two for certificates among them.\<close>

definition in_step :: "'k cert_env \<Rightarrow> ('k \<Rightarrow> string \<Rightarrow> (string \<times> string) list option) \<Rightarrow> 'k db_world \<Rightarrow> bool" where
  "in_step e cluster w \<longleftrightarrow> sm_secrets (dw_mgr w) \<noteq> None \<and> sm_configmaps (dw_mgr w) \<noteq> None \<and> seen_data e w = cluster (dw_kube w)"

text \<open>The abstract state: the keys of hosts and the certificates of servers that the operations would read.\<close>

definition cert_state :: "'k cert_env \<Rightarrow> ('k \<Rightarrow> string \<Rightarrow> (string \<times> string) list option) \<Rightarrow> 'k db_world \<Rightarrow> SSHKnownHostsEntry list \<Rightarrow> TLSCertificate list \<Rightarrow> bool" where
  "cert_state e cluster w es ts \<longleftrightarrow> in_step e cluster w \<and> getSSHKnownHostsData e w = (Inr es, w) \<and> (\<forall>s \<in> set es. storable s) \<and>
     getTLSCertificateData e w = (Inr ts, w) \<and> distinct (map tc_Subject ts)"

definition cert_abs :: "'k cert_env \<Rightarrow> ('k \<Rightarrow> string \<Rightarrow> (string \<times> string) list option) \<Rightarrow> 'k db_world \<Rightarrow>
    (string \<times> string \<rightharpoonup> string) \<Rightarrow> (string \<rightharpoonup> string) \<Rightarrow> bool" where
  "cert_abs e cluster w hosts servers \<longleftrightarrow> (\<exists>es ts. cert_state e cluster w es ts \<and> host_map es = hosts \<and> tls_map ts = servers)"

locale configmap_store =
  fixes e :: "'k cert_env" and cluster :: "'k \<Rightarrow> string \<Rightarrow> (string \<times> string) list option"
  assumes update: "cv_Update e cm k = (None, k') \<Longrightarrow> cluster k' = (cluster k)(cm_Name cm \<mapsto> cm_Data cm)"
    and update_fails: "cv_Update e cm k = (Some err, k') \<Longrightarrow> cluster k' = cluster k"
    and run: "ke_runInformers (cv_kube e) k = ((h, True), k') \<Longrightarrow>
      cluster k' = cluster k \<and> (\<lambda>n. map_option cm_Data (List.find (\<lambda>cm. cm_Name cm = n) (cv_configmaps e h k'))) = cluster k"
    and stop: "cluster (ke_stopInformers (cv_kube e) k) = cluster k"
    and order: "mset (cv_order e m) = mset m"
begin

lemma synced_Get:
  assumes "in_step e cluster w"
  shows "GetConfigMapByName e n w =
    (case cluster (dw_kube w) n of None \<Rightarrow> Inl (cv_NotFound e n) | Some d \<Rightarrow> Inr \<lparr>cm_Name = n, cm_Data = d\<rparr>, w)"
proof -
  have s: "ensureSynced (cv_kube e) False w = (None, w)" using assms by (auto simp: in_step_def ensureSynced_def)
  have c: "cluster (dw_kube w) n = map_option cm_Data (List.find (\<lambda>cm. cm_Name cm = n) (known_configmaps e w))"
    using assms by (simp add: in_step_def seen_data_def [abs_def] fun_eq_iff)
  show ?thesis
  proof (cases "List.find (\<lambda>cm. cm_Name cm = n) (known_configmaps e w)")
    case None
    then show ?thesis using s c by (simp add: GetConfigMapByName_def)
  next
    case (Some cm)
    then have "cm_Name cm = n" by (auto simp: find_Some_iff)
    then have "cm = \<lparr>cm_Name = n, cm_Data = cm_Data cm\<rparr>" by (cases cm) simp
    then show ?thesis using s c Some by (simp add: GetConfigMapByName_def)
  qed
qed

lemma update_configmap_stores:
  assumes "update_configmap e cm w = (None, w')"
  shows "in_step e cluster w' \<and> cluster (dw_kube w') = (cluster (dw_kube w))(cm_Name cm \<mapsto> cm_Data cm)"
proof -
  obtain k where k: "cv_Update e cm (dw_kube w) = (None, k)" "ResyncInformers (cv_kube e) (w\<lparr>dw_kube := k\<rparr>) = (None, w')"
    using assms by (auto simp: update_configmap_def split: prod.splits option.splits)
  have "in_step e cluster w' \<and> cluster (dw_kube w') = cluster k"
    using k(2) stop [of k] run
    by (auto simp: ResyncInformers_def ensureSynced_def mgr_initialize_def in_step_def seen_data_def [abs_def] known_configmaps_def Let_def
        split: prod.splits if_splits)
  then show ?thesis using update [OF k(1)] by simp
qed

lemma SaveSSH_stores:
  assumes "SaveSSHKnownHostsData e ls w = (None, w')" "in_step e cluster w"
  shows "in_step e cluster w' \<and> (\<exists>d. cluster (dw_kube w') =
    (cluster (dw_kube w))(ArgoCDKnownHostsConfigMapName \<mapsto> map_set ''ssh_known_hosts'' (strings_Join ls [CHR 0x0A] @ [CHR 0x0A]) d))"
proof (cases "cluster (dw_kube w) ArgoCDKnownHostsConfigMapName")
  case None
  then show ?thesis using assms(1) synced_Get [OF assms(2)] by (simp add: SaveSSHKnownHostsData_def)
next
  case (Some d)
  then show ?thesis using assms(1) synced_Get [OF assms(2), of ArgoCDKnownHostsConfigMapName]
      update_configmap_stores [of "\<lparr>cm_Name = ArgoCDKnownHostsConfigMapName,
        cm_Data = map_set ''ssh_known_hosts'' (strings_Join ls [CHR 0x0A] @ [CHR 0x0A]) d\<rparr>" w w']
    by (auto simp: SaveSSHKnownHostsData_def)
qed

lemma SaveTLS_stores:
  assumes "SaveTLSCertificateData e d w = (None, w')" "in_step e cluster w"
  shows "in_step e cluster w' \<and> cluster (dw_kube w') = (cluster (dw_kube w))(ArgoCDTLSCertsConfigMapName \<mapsto> d)"
proof (cases "cluster (dw_kube w) ArgoCDTLSCertsConfigMapName")
  case None
  then show ?thesis using assms(1) synced_Get [OF assms(2)] by (simp add: SaveTLSCertificateData_def)
next
  case (Some d0)
  then show ?thesis using assms(1) synced_Get [OF assms(2), of ArgoCDTLSCertsConfigMapName]
      update_configmap_stores [of "\<lparr>cm_Name = ArgoCDTLSCertsConfigMapName, cm_Data = d\<rparr>" w w']
    by (simp add: SaveTLSCertificateData_def)
qed

text \<open>Reading.\<close>

lemma read_hosts:
  assumes "in_step e cluster w" "cluster (dw_kube w) ArgoCDKnownHostsConfigMapName = Some d"
  shows "getSSHKnownHostsData e w = (read_known_hosts \<lparr>cm_Name = ArgoCDKnownHostsConfigMapName, cm_Data = d\<rparr>, w)"
  using assms(2) synced_Get [OF assms(1)] by (simp add: getSSHKnownHostsData_def)

lemma read_servers:
  assumes "in_step e cluster w" "cluster (dw_kube w) ArgoCDTLSCertsConfigMapName = Some d" "distinct (map fst d)"
  shows "\<exists>ts. getTLSCertificateData e w = (Inr ts, w) \<and> tls_map ts = map_of d \<and> distinct (map tc_Subject ts)"
proof -
  let ?ts = "map (\<lambda>(k, v). \<lparr>tc_Subject = k, tc_Issuer = [], tc_Data = v\<rparr>) (cv_order e d)"
  have "getTLSCertificateData e w = (Inr ?ts, w)"
    using assms(2) synced_Get [OF assms(1)] by (simp add: getTLSCertificateData_def)
  moreover have "map (\<lambda>t. (tc_Subject t, tc_Data t)) ?ts = cv_order e d" by (simp add: case_prod_beta' comp_def)
  then have "tls_map ?ts = map_of d" using map_of_rearranged [OF order assms(3)] by (simp add: tls_map_def)
  moreover have "map tc_Subject ?ts = map fst (cv_order e d)" by (simp add: case_prod_beta' comp_def)
  moreover have "mset (map fst (cv_order e d)) = mset (map fst d)" using order [of d] by simp
  then have "distinct (map fst (cv_order e d))" using assms(3) by (metis mset_eq_imp_distinct_iff)
  ultimately show ?thesis by metis
qed

lemma get_same_hosts:
  assumes "in_step e cluster w" "in_step e cluster w'" "getSSHKnownHostsData e w = (Inr es, w)"
    and "cluster (dw_kube w') ArgoCDKnownHostsConfigMapName = cluster (dw_kube w) ArgoCDKnownHostsConfigMapName"
  shows "getSSHKnownHostsData e w' = (Inr es, w')"
  using assms(3,4) synced_Get [OF assms(1), of ArgoCDKnownHostsConfigMapName] synced_Get [OF assms(2), of ArgoCDKnownHostsConfigMapName]
  by (auto simp: getSSHKnownHostsData_def split: option.splits)

lemma get_same_servers:
  assumes "in_step e cluster w" "in_step e cluster w'" "getTLSCertificateData e w = (Inr ts, w)"
    and "cluster (dw_kube w') ArgoCDTLSCertsConfigMapName = cluster (dw_kube w) ArgoCDTLSCertsConfigMapName"
  shows "getTLSCertificateData e w' = (Inr ts, w')"
  using assms(3,4) synced_Get [OF assms(1), of ArgoCDTLSCertsConfigMapName] synced_Get [OF assms(2), of ArgoCDTLSCertsConfigMapName]
  by (auto simp: getTLSCertificateData_def split: option.splits)

lemma saved_hosts_are_read:
  assumes "in_step e cluster w" "getSSHKnownHostsData e w = (Inr es, w)" "\<forall>s \<in> set es'. storable s"
    and "if b then SaveSSHKnownHostsData e (knownHostsDataToStrings es') w = (None, w') else w' = w \<and> es' = es"
  shows "in_step e cluster w'" "getSSHKnownHostsData e w' = (Inr es', w')"
    "cluster (dw_kube w') ArgoCDTLSCertsConfigMapName = cluster (dw_kube w) ArgoCDTLSCertsConfigMapName"
proof -
  have "in_step e cluster w' \<and> getSSHKnownHostsData e w' = (Inr es', w') \<and>
    cluster (dw_kube w') ArgoCDTLSCertsConfigMapName = cluster (dw_kube w) ArgoCDTLSCertsConfigMapName"
  proof (cases b)
    case True
    then obtain d where step: "in_step e cluster w'" and c: "cluster (dw_kube w') = (cluster (dw_kube w))(ArgoCDKnownHostsConfigMapName \<mapsto>
        map_set ''ssh_known_hosts'' (strings_Join (knownHostsDataToStrings es') [CHR 0x0A] @ [CHR 0x0A]) d)"
      using SaveSSH_stores [OF _ assms(1), of "knownHostsDataToStrings es'" w'] assms(4) by auto
    have "ArgoCDTLSCertsConfigMapName \<noteq> ArgoCDKnownHostsConfigMapName"
      by (simp add: ArgoCDTLSCertsConfigMapName_def ArgoCDKnownHostsConfigMapName_def)
    then have other: "cluster (dw_kube w') ArgoCDTLSCertsConfigMapName = cluster (dw_kube w) ArgoCDTLSCertsConfigMapName"
      unfolding c by simp
    have "getSSHKnownHostsData e w' = (Inr es', w')"
      using read_hosts [OF step] c known_hosts_round_trip [OF assms(3)] by (simp add: map_of_map_set)
    then show ?thesis using step other by blast
  qed (use assms in simp)
  then show "in_step e cluster w'" "getSSHKnownHostsData e w' = (Inr es', w')"
    "cluster (dw_kube w') ArgoCDTLSCertsConfigMapName = cluster (dw_kube w) ArgoCDTLSCertsConfigMapName" by blast+
qed

lemma saved_servers_are_read:
  assumes "in_step e cluster w" "getTLSCertificateData e w = (Inr ts, w)" "distinct (map tc_Subject ts')"
    and "if b then SaveTLSCertificateData e (tlsCertificatesToMap ts') w = (None, w') else w' = w \<and> ts' = ts"
  shows "in_step e cluster w'" "\<exists>us. getTLSCertificateData e w' = (Inr us, w') \<and> tls_map us = tls_map ts' \<and> distinct (map tc_Subject us)"
    "cluster (dw_kube w') ArgoCDKnownHostsConfigMapName = cluster (dw_kube w) ArgoCDKnownHostsConfigMapName"
proof -
  have "in_step e cluster w' \<and> (\<exists>us. getTLSCertificateData e w' = (Inr us, w') \<and> tls_map us = tls_map ts' \<and> distinct (map tc_Subject us)) \<and>
    cluster (dw_kube w') ArgoCDKnownHostsConfigMapName = cluster (dw_kube w) ArgoCDKnownHostsConfigMapName"
  proof (cases b)
    case True
    then have step: "in_step e cluster w'" and c: "cluster (dw_kube w') = (cluster (dw_kube w))(ArgoCDTLSCertsConfigMapName \<mapsto> tlsCertificatesToMap ts')"
      using SaveTLS_stores [OF _ assms(1), of "tlsCertificatesToMap ts'" w'] assms(4) by auto
    have "ArgoCDTLSCertsConfigMapName \<noteq> ArgoCDKnownHostsConfigMapName"
      by (simp add: ArgoCDTLSCertsConfigMapName_def ArgoCDKnownHostsConfigMapName_def)
    then have other: "cluster (dw_kube w') ArgoCDKnownHostsConfigMapName = cluster (dw_kube w) ArgoCDKnownHostsConfigMapName"
      unfolding c by simp
    have "cluster (dw_kube w') ArgoCDTLSCertsConfigMapName = Some (tlsCertificatesToMap ts')" unfolding c by simp
    from read_servers [OF step this] show ?thesis using tlsCertificatesToMap_spec [OF assms(3)] step other by simp
  qed (use assms in auto)
  then show "in_step e cluster w'" "\<exists>us. getTLSCertificateData e w' = (Inr us, w') \<and> tls_map us = tls_map ts' \<and> distinct (map tc_Subject us)"
    "cluster (dw_kube w') ArgoCDKnownHostsConfigMapName = cluster (dw_kube w) ArgoCDKnownHostsConfigMapName" by blast+
qed

lemma both_saved:
  assumes "cert_state e cluster w es ts" "\<forall>s \<in> set es'. storable s" "distinct (map tc_Subject ts')"
    and "if b then SaveSSHKnownHostsData e (knownHostsDataToStrings es') w = (None, w1) else w1 = w \<and> es' = es"
    and "if b2 then SaveTLSCertificateData e (tlsCertificatesToMap ts') w1 = (None, w2) else w2 = w1 \<and> ts' = ts"
  shows "cert_abs e cluster w2 (host_map es') (tls_map ts')"
proof -
  note st = assms(1) [unfolded cert_state_def]
  have i: "in_step e cluster w" and h: "getSSHKnownHostsData e w = (Inr es, w)" and t: "getTLSCertificateData e w = (Inr ts, w)" using st by blast+
  note one = saved_hosts_are_read [OF i h assms(2,4)]
  have t1: "getTLSCertificateData e w1 = (Inr ts, w1)" by (rule get_same_servers [OF i one(1) t one(3)])
  note two = saved_servers_are_read [OF one(1) t1 assms(3,5)]
  have h2: "getSSHKnownHostsData e w2 = (Inr es', w2)" by (rule get_same_hosts [OF one(1) two(1) one(2) two(3)])
  show ?thesis using two(1,2) h2 assms(2) unfolding cert_abs_def cert_state_def by blast
qed

lemma create_refines:
  assumes "cert_abs e cluster w hosts servers" "CreateRepoCertificate e cs mayUpdate w = Ret (Inr created, w')"
    and "\<forall>c \<in> set cs. cert_CertType c = ''ssh'' \<longrightarrow> finds_host e c \<and> storable (host_entry c)"
  shows "cert_abs e cluster w' (foldl put_host hosts cs) (foldl put_tls servers cs)"
    "\<not> mayUpdate \<Longrightarrow> hosts \<subseteq>\<^sub>m foldl put_host hosts cs \<and> servers \<subseteq>\<^sub>m foldl put_tls servers cs"
proof -
  obtain es ts where st: "cert_state e cluster w es ts" and m: "host_map es = hosts" "tls_map ts = servers"
    using assms(1) unfolding cert_abs_def by blast
  let ?st = "\<lparr>cr_ssh = es, cr_tls = ts, cr_created = [], cr_saveSSH = False, cr_saveTLS = False\<rparr>"
  have rd: "getSSHKnownHostsData e w = (Inr es, w)" "getTLSCertificateData e w = (Inr ts, w)" using st by (simp_all add: cert_state_def)
  obtain st' where loop: "create_loop e mayUpdate cs ?st = Ret (Inr st')" and save: "save_created e st' w = (Inr created, w')"
    using assms(2) rd by (cases "create_loop e mayUpdate cs ?st") (auto simp: CreateRepoCertificate_def split: sum.splits)
  have d: "distinct (map tc_Subject (cr_tls ?st))" "\<forall>s \<in> set (cr_ssh ?st). storable s" using st by (simp_all add: cert_state_def)
  note L = create_loop_stores [OF loop assms(3) d]
  obtain w1 where
    "if cr_saveSSH st' then SaveSSHKnownHostsData e (knownHostsDataToStrings (cr_ssh st')) w = (None, w1) else w1 = w \<and> cr_ssh st' = es"
    "if cr_saveTLS st' then SaveTLSCertificateData e (tlsCertificatesToMap (cr_tls st')) w1 = (None, w') else w' = w1 \<and> cr_tls st' = ts"
    using save L by (auto simp: save_created_def split: prod.splits option.splits if_splits)
  from both_saved [OF st _ _ this] L m
  show "cert_abs e cluster w' (foldl put_host hosts cs) (foldl put_tls servers cs)" by simp
  show "hosts \<subseteq>\<^sub>m foldl put_host hosts cs \<and> servers \<subseteq>\<^sub>m foldl put_tls servers cs" if "\<not> mayUpdate"
    using L m that by auto
qed

lemma remove_refines:
  assumes "cert_abs e cluster w hosts servers" "RemoveRepoCertificates e (Some selector) w = Ret (Inr removed, w')"
  shows "cert_abs e cluster w' (if selects_ssh selector then hosts |` {k. \<not> selects_host selector k} else hosts)
    (if selects_tls selector then servers |` {s. \<not> MatchHostName s (cs_HostNamePattern selector)} else servers)"
proof -
  obtain es ts where st: "cert_state e cluster w es ts" and m: "host_map es = hosts" "tls_map ts = servers"
    using assms(1) unfolding cert_abs_def by blast
  let ?es = "if selects_ssh selector then filter (\<lambda>s. \<not> matchSSHKnownHostsEntry s selector) es else es"
  let ?ts = "if selects_tls selector then filter (\<lambda>t. \<not> MatchHostName (tc_Subject t) (cs_HostNamePattern selector)) ts else ts"
  have rd: "getSSHKnownHostsData e w = (Inr es, w)" "getTLSCertificateData e w = (Inr ts, w)" using st by (simp_all add: cert_state_def)
  let ?old = "if selects_ssh selector then es else []" and ?oldT = "if selects_tls selector then ts else []"
  have reads: "(if selects_ssh selector then getSSHKnownHostsData e w else (Inr [], w)) = (Inr ?old, w)"
    "(if selects_tls selector then getTLSCertificateData e w else (Inr [], w)) = (Inr ?oldT, w)" using rd by simp_all
  let ?new = "filter (\<lambda>s. \<not> matchSSHKnownHostsEntry s selector) ?old"
  let ?saveSSH = "if length ?new < length ?old then SaveSSHKnownHostsData e (knownHostsDataToStrings ?new) w else (None, w)"
  note eq = assms(2) [unfolded RemoveRepoCertificates_def deref_simps go_bind.simps reads prod.case sum.case Let_def go.inject]
  obtain r left where rem: "remove_tls (cs_HostNamePattern selector) ?oldT = Inr (r, left)"
    by (cases "remove_tls (cs_HostNamePattern selector) ?oldT") (use eq in \<open>auto split: sum.splits\<close>)
  note left = remove_tls_left [OF rem]
  note eq1 = eq [unfolded rem prod.case sum.case]
  obtain w1 where a: "?saveSSH = (None, w1)"
  proof (cases ?saveSSH)
    case (Pair err w1)
    then show ?thesis using eq1 [unfolded Pair prod.case] that by (cases err) simp_all
  qed
  note eq2 = eq1 [unfolded a prod.case option.case]
  have b: "(if length left < length ?oldT then SaveTLSCertificateData e (tlsCertificatesToMap left) w1 else (None, w1)) = (None, w')"
  proof (cases "if length left < length ?oldT then SaveTLSCertificateData e (tlsCertificatesToMap left) w1 else (None, w1)")
    case (Pair err w2)
    then show ?thesis using eq2 [unfolded Pair prod.case] by (cases err) simp_all
  qed
  have "if selects_ssh selector \<and> length ?es < length es then SaveSSHKnownHostsData e (knownHostsDataToStrings ?es) w = (None, w1) else w1 = w \<and> ?es = es"
    using a filter_not_shorter [of "\<lambda>s. \<not> matchSSHKnownHostsEntry s selector" es] by (auto split: if_splits)
  moreover have "if selects_tls selector \<and> length ?ts < length ts then SaveTLSCertificateData e (tlsCertificatesToMap ?ts) w1 = (None, w') else w' = w1 \<and> ?ts = ts"
    using b left filter_not_shorter [of "\<lambda>t. \<not> MatchHostName (tc_Subject t) (cs_HostNamePattern selector)" ts] by (auto split: if_splits)
  moreover have "\<forall>s \<in> set ?es. storable s" "distinct (map tc_Subject ?ts)"
    using st by (simp_all add: cert_state_def distinct_map_filter)
  ultimately have "cert_abs e cluster w' (host_map ?es) (tls_map ?ts)" using both_saved [OF st] by blast
  moreover have "host_map ?es = (if selects_ssh selector then hosts |` {k. \<not> selects_host selector k} else hosts)"
    by (simp add: host_map_filter m)
  moreover have "tls_map ?ts = (if selects_tls selector then servers |` {s. \<not> MatchHostName s (cs_HostNamePattern selector)} else servers)"
    by (simp add: tls_map_filter m)
  ultimately show ?thesis by simp
qed

end

section \<open>A cluster in memory\<close>

text \<open>An API server with a list of config maps; informers take a copy when they are started.\<close>

record mem_configs =
  mf_maps :: "ConfigMap list"
  mf_caches :: "nat \<Rightarrow> ConfigMap list"
  mf_next :: nat

definition mem_config_kube :: "mem_configs kube_env" where
  "mem_config_kube = \<lparr>
     ke_runInformers = (\<lambda>k. ((mf_next k, True), k\<lparr>mf_caches := (mf_caches k)(mf_next k := mf_maps k), mf_next := Suc (mf_next k)\<rparr>)),
     ke_stopInformers = id, ke_secrets = (\<lambda>h k. []),
     ke_NotFound = (\<lambda>n. ErrorString n), ke_IsNotFound = (\<lambda>err. True), ke_IsAlreadyExists = (\<lambda>err. False),
     ke_Create = (\<lambda>s k. (Inl (ErrorString ''forbidden''), k)), ke_Update = (\<lambda>s k. (Inl (ErrorString ''forbidden''), k)),
     ke_Delete = (\<lambda>n k. (Some (ErrorString ''forbidden''), k))\<rparr>"

definition mem_certs :: "mem_configs cert_env" where
  "mem_certs = \<lparr>cv_kube = mem_config_kube, cv_configmaps = (\<lambda>h k. mf_caches k h), cv_NotFound = ErrorString,
     cv_Update = (\<lambda>cm k. if list_ex (\<lambda>c. cm_Name c = cm_Name cm) (mf_maps k)
       then (None, k\<lparr>mf_maps := cm # filter (\<lambda>c. cm_Name c \<noteq> cm_Name cm) (mf_maps k)\<rparr>) else (Some (ErrorString (cm_Name cm)), k)),
     cv_order = rev, cv_ParseKnownHosts = (\<lambda>l. Inr ([hd (split_fields l)], l)),
     cv_ParseAuthorizedKey = Some, cv_sha = id, cv_pem_Decode = Some, cv_x509_Parse = (\<lambda>d. Some (d, ''RSA''))\<rparr>"

definition mem_data :: "mem_configs \<Rightarrow> string \<Rightarrow> (string \<times> string) list option" where
  "mem_data k n = map_option cm_Data (List.find (\<lambda>cm. cm_Name cm = n) (mf_maps k))"

lemma find_filtered: "x \<noteq> n \<Longrightarrow> List.find (\<lambda>cm. cm_Name cm = x) (filter (\<lambda>c. cm_Name c \<noteq> n) cms) = List.find (\<lambda>cm. cm_Name cm = x) cms"
  by (induction cms) auto

interpretation mem_certs: configmap_store mem_certs mem_data
proof
  fix cm k k'
  assume "cv_Update mem_certs cm k = (None, k')"
  then have "k' = k\<lparr>mf_maps := cm # filter (\<lambda>c. cm_Name c \<noteq> cm_Name cm) (mf_maps k)\<rparr>"
    by (auto simp: mem_certs_def split: if_splits)
  then show "mem_data k' = (mem_data k)(cm_Name cm \<mapsto> cm_Data cm)"
    by (auto simp: mem_data_def [abs_def] fun_eq_iff find_filtered)
qed (auto simp: mem_certs_def mem_config_kube_def mem_data_def [abs_def] split: if_splits)

section \<open>Properties\<close>

text \<open>
  (C12) The certificate database is a map from hosts and key types to keys and a map from servers to certificates. Over a cluster
  that keeps the config maps that are written, from a state in which the informers are in step and the known hosts can be
  written and read: a creation that succeeds stores every key and certificate of the request in its map, in order, leaves all
  other entries alone, and changes no entry that was there unless updating was asked for; a removal that succeeds takes out
  exactly the entries that the selector names; afterwards the state is again such a state, and the maps are what the
  operations read from it.
\<close>

theorem certificates_refine_maps:
  fixes e :: "'k cert_env"
  assumes "configmap_store e cluster" "cert_abs e cluster w hosts servers"
  shows "(\<forall>created w'. CreateRepoCertificate e cs mayUpdate w = Ret (Inr created, w') \<and>
        (\<forall>c \<in> set cs. cert_CertType c = ''ssh'' \<longrightarrow> finds_host e c \<and> storable (host_entry c)) \<longrightarrow>
      cert_abs e cluster w' (foldl put_host hosts cs) (foldl put_tls servers cs) \<and>
      (mayUpdate \<or> hosts \<subseteq>\<^sub>m foldl put_host hosts cs \<and> servers \<subseteq>\<^sub>m foldl put_tls servers cs)) \<and>
    (\<forall>removed w'. RemoveRepoCertificates e (Some selector) w = Ret (Inr removed, w') \<longrightarrow>
      cert_abs e cluster w' (if selects_ssh selector then hosts |` {k. \<not> selects_host selector k} else hosts)
        (if selects_tls selector then servers |` {s. \<not> MatchHostName s (cs_HostNamePattern selector)} else servers))"
proof (intro conjI allI impI)
  fix created w'
  assume "CreateRepoCertificate e cs mayUpdate w = Ret (Inr created, w') \<and>
    (\<forall>c \<in> set cs. cert_CertType c = ''ssh'' \<longrightarrow> finds_host e c \<and> storable (host_entry c))"
  note step = this [THEN conjunct1] this [THEN conjunct2]
  show "cert_abs e cluster w' (foldl put_host hosts cs) (foldl put_tls servers cs)"
    by (rule configmap_store.create_refines(1) [OF assms step])
  show "mayUpdate \<or> hosts \<subseteq>\<^sub>m foldl put_host hosts cs \<and> servers \<subseteq>\<^sub>m foldl put_tls servers cs"
    by (cases mayUpdate) (simp, rule disjI2, rule configmap_store.create_refines(2) [OF assms step])
next
  fix removed w'
  assume "RemoveRepoCertificates e (Some selector) w = Ret (Inr removed, w')"
  then show "cert_abs e cluster w' (if selects_ssh selector then hosts |` {k. \<not> selects_host selector k} else hosts)
        (if selects_tls selector then servers |` {s. \<not> MatchHostName s (cs_HostNamePattern selector)} else servers)"
    by (rule configmap_store.remove_refines [OF assms])
qed

text \<open>A database with a key for one host; a key for another host and a certificate are created.\<close>

definition sample_certs :: "mem_configs db_world" where
  "sample_certs = snd (ResyncInformers mem_config_kube \<lparr>dw_mgr = NewSettingsManager, dw_kube = \<lparr>mf_maps =
     [\<lparr>cm_Name = ArgoCDKnownHostsConfigMapName, cm_Data = [(''ssh_known_hosts'', ''github.com ssh-rsa AAAA'' @ [CHR 0x0A])]\<rparr>,
      \<lparr>cm_Name = ArgoCDTLSCertsConfigMapName, cm_Data = []\<rparr>], mf_caches = (\<lambda>_. []), mf_next = 0\<rparr>\<rparr>)"

definition sample_host :: RepositoryCertificate where
  "sample_host = \<lparr>cert_ServerName = ''git.example.org'', cert_CertType = ''ssh'', cert_CertSubType = ''ssh-rsa'', cert_CertData = ''BBBB'', cert_CertInfo = []\<rparr>"

definition sample_server :: RepositoryCertificate where
  "sample_server = \<lparr>cert_ServerName = ''git.example.org'', cert_CertType = ''https'', cert_CertSubType = [],
     cert_CertData = ''-----BEGIN CERTIFICATE-----'' @ [CHR 0x0A] @ ''CCCC'' @ [CHR 0x0A] @ ''-----END CERTIFICATE-----'', cert_CertInfo = []\<rparr>"

definition sample_known :: SSHKnownHostsEntry where
  "sample_known = \<lparr>sh_Host = ''github.com'', sh_SubType = ''ssh-rsa'', sh_Data = ''AAAA'', sh_Fingerprint = []\<rparr>"

lemma sample_certs_data:
  "in_step mem_certs mem_data sample_certs"
  "mem_data (dw_kube sample_certs) ArgoCDKnownHostsConfigMapName = Some [(''ssh_known_hosts'', ''github.com ssh-rsa AAAA'' @ [CHR 0x0A])]"
  "mem_data (dw_kube sample_certs) ArgoCDTLSCertsConfigMapName = Some []"
  by (simp_all add: in_step_def seen_data_def [abs_def] known_configmaps_def mem_data_def [abs_def] sample_certs_def ResyncInformers_def ensureSynced_def
      mgr_initialize_def NewSettingsManager_def mem_certs_def mem_config_kube_def ArgoCDTLSCertsConfigMapName_def ArgoCDKnownHostsConfigMapName_def)

lemma sample_storable: "storable sample_known" "storable (host_entry sample_host)"
  by code_simp+

lemma sample_reads:
  "getSSHKnownHostsData mem_certs sample_certs = (Inr [sample_known], sample_certs)"
  "getTLSCertificateData mem_certs sample_certs = (Inr [], sample_certs)"
proof -
  have "read_known_hosts \<lparr>cm_Name = ArgoCDKnownHostsConfigMapName, cm_Data = [(''ssh_known_hosts'', ''github.com ssh-rsa AAAA'' @ [CHR 0x0A])]\<rparr> = Inr [sample_known]"
    by code_simp
  then show "getSSHKnownHostsData mem_certs sample_certs = (Inr [sample_known], sample_certs)"
    using mem_certs.read_hosts [OF sample_certs_data(1,2)] by simp
  show "getTLSCertificateData mem_certs sample_certs = (Inr [], sample_certs)"
    using sample_certs_data(3) mem_certs.synced_Get [OF sample_certs_data(1)] by (simp add: getTLSCertificateData_def mem_certs_def)
qed

lemma sample_abs: "cert_abs mem_certs mem_data sample_certs [(''github.com'', ''ssh-rsa'') \<mapsto> ''AAAA''] Map.empty"
proof -
  have "cert_state mem_certs mem_data sample_certs [sample_known] []"
    using sample_reads sample_certs_data(1) sample_storable by (simp add: cert_state_def)
  moreover have "host_map [sample_known] = [(''github.com'', ''ssh-rsa'') \<mapsto> ''AAAA'']" "tls_map [] = Map.empty"
    by (simp_all add: host_map_def tls_map_def sample_known_def)
  ultimately show ?thesis unfolding cert_abs_def by blast
qed

definition sample_created :: "mem_configs db_world" where
  "sample_created = (case CreateRepoCertificate mem_certs [sample_host, sample_server] False sample_certs of Ret (r, w) \<Rightarrow> w | _ \<Rightarrow> sample_certs)"

lemma sample_creation: "\<exists>created. CreateRepoCertificate mem_certs [sample_host, sample_server] False sample_certs = Ret (Inr created, sample_created)"
proof -
  have "IsValidHostname (strings_Join [''git'', ''example'', ''org''] ''.'') False"
    by (rule dotted_names_are_hostnames) (simp_all add: is_alnum_def is_letter_def is_digit_def)
  then have "hostname_error sample_host = None" "hostname_error sample_server = None"
    by (simp_all add: hostname_error_def sample_host_def sample_server_def bracketed_host_def is_digit_def)
  then have one: "create_one mem_certs False sample_host st = create_ssh mem_certs False sample_host st"
    "create_one mem_certs False sample_server st = Ret (create_tls mem_certs False sample_server st)" for st
    by (simp_all add: create_one_def sample_host_def sample_server_def)
  have "case (case create_ssh mem_certs False sample_host \<lparr>cr_ssh = [sample_known], cr_tls = [], cr_created = [], cr_saveSSH = False, cr_saveTLS = False\<rparr> of
      Ret (Inr st) \<Rightarrow> create_tls mem_certs False sample_server st | _ \<Rightarrow> Inl (ErrorString [])) of
    Inr st \<Rightarrow> (case save_created mem_certs st sample_certs of (Inr created, w) \<Rightarrow> length created = 2 | _ \<Rightarrow> False) | _ \<Rightarrow> False"
    by code_simp
  then obtain st1 st2 created w where "create_ssh mem_certs False sample_host \<lparr>cr_ssh = [sample_known], cr_tls = [], cr_created = [], cr_saveSSH = False, cr_saveTLS = False\<rparr> = Ret (Inr st1)"
    "create_tls mem_certs False sample_server st1 = Inr st2" "save_created mem_certs st2 sample_certs = (Inr created, w)"
    by (auto split: go.splits sum.splits prod.splits)
  then show ?thesis using sample_reads one by (simp add: sample_created_def CreateRepoCertificate_def)
qed

lemma sample_finds_host: "finds_host mem_certs sample_host"
proof -
  have "hd (split_fields (cert_ServerName sample_host @ '' '' @ cert_CertSubType sample_host @ '' '' @ cert_CertData sample_host)) = cert_ServerName sample_host"
    by code_simp
  then show ?thesis by (simp add: finds_host_def mem_certs_def)
qed

theorem certificates_refine_maps_witness:
  "cert_abs mem_certs mem_data sample_created
     [(''github.com'', ''ssh-rsa'') \<mapsto> ''AAAA'', (''git.example.org'', ''ssh-rsa'') \<mapsto> ''BBBB''] [''git.example.org'' \<mapsto> cert_CertData sample_server]"
proof -
  obtain created where c: "CreateRepoCertificate mem_certs [sample_host, sample_server] False sample_certs = Ret (Inr created, sample_created)"
    using sample_creation by blast
  have "\<forall>c \<in> set [sample_host, sample_server]. cert_CertType c = ''ssh'' \<longrightarrow> finds_host mem_certs c \<and> storable (host_entry c)"
    using sample_finds_host sample_storable(2) by (simp add: sample_server_def)
  with c have "cert_abs mem_certs mem_data sample_created
      (foldl put_host [(''github.com'', ''ssh-rsa'') \<mapsto> ''AAAA''] [sample_host, sample_server]) (foldl put_tls Map.empty [sample_host, sample_server])"
    using certificates_refine_maps [OF mem_certs.configmap_store_axioms sample_abs, of "[sample_host, sample_server]" False] by blast
  moreover have "foldl put_host [(''github.com'', ''ssh-rsa'') \<mapsto> ''AAAA''] [sample_host, sample_server] =
      [(''github.com'', ''ssh-rsa'') \<mapsto> ''AAAA'', (''git.example.org'', ''ssh-rsa'') \<mapsto> ''BBBB'']"
    "foldl put_tls Map.empty [sample_host, sample_server] = [''git.example.org'' \<mapsto> cert_CertData sample_server]"
    by (simp_all add: put_host_def put_tls_def sample_host_def sample_server_def)
  ultimately show ?thesis by simp
qed

end
