(* ===== verification/RedisCache.thy ===== *)
theory RedisCache
  imports RepoCache Env Metrics GoJSON
begin

text \<open>
  The cache client of the installation, \<open>util/cache/redis.go\<close>: items are encoded, compressed if so configured, and kept in
  Redis under a key with a prefix. The client keeps the contract of cache clients for the values that survive encoding, so what is proved for any
  client holds over Redis, alone and behind the two-level client. The hooks of \<open>redis.go\<close> and \<open>redis_hook.go\<close> count the requests and
  reconnect.
\<close>

section \<open>The client\<close>

text \<open>
  The libraries: \<open>rd_Set\<close> (key, value, time to live, only if absent), \<open>rd_Get\<close>, \<open>rd_Delete\<close>, \<open>rd_Rename\<close> and \<open>rd_Publish\<close> act on
  the server. \<open>rd_encode\<close> and \<open>rd_decode\<close> are the encoder of \<open>encoding/json\<close> and its decoder into an object of a given type:
  the data does not say its type. \<open>rd_header\<close> is the error of
  \<open>gzip.NewReader\<close>, \<open>rd_gunzip\<close> what the decoder reads through it.
\<close>

record 'w redis_env =
  rd_Set :: "string \<Rightarrow> string \<Rightarrow> int \<Rightarrow> bool \<Rightarrow> 'w \<Rightarrow> go_error option \<times> 'w"
  rd_Get :: "string \<Rightarrow> 'w \<Rightarrow> string result \<times> 'w"
  rd_Delete :: "string \<Rightarrow> 'w \<Rightarrow> go_error option \<times> 'w"
  rd_Rename :: "string \<Rightarrow> string \<Rightarrow> 'w \<Rightarrow> go_error option \<times> 'w"
  rd_Publish :: "string \<Rightarrow> string \<Rightarrow> 'w \<Rightarrow> go_error option \<times> 'w"
  rd_IsCacheMiss :: "go_error \<Rightarrow> bool"
  rd_IsNil :: "go_error \<Rightarrow> bool"
  rd_encode :: "cache_value \<Rightarrow> string result"
  rd_decode :: "value_type \<Rightarrow> string \<Rightarrow> cache_value result"
  rd_gzip :: "string \<Rightarrow> string"
  rd_header :: "string \<Rightarrow> go_error option"
  rd_gunzip :: "string \<Rightarrow> string result"

definition RedisCompressionNone :: string where "RedisCompressionNone = ''none''"
definition RedisCompressionGZip :: string where "RedisCompressionGZip = ''gzip''"
definition redisNoSuchKeyErr :: string where "redisNoSuchKeyErr = ''ERR no such key''"

definition CompressionTypeFromString :: "string \<Rightarrow> string result" where
  "CompressionTypeFromString s =
     (if s = RedisCompressionNone then Inr RedisCompressionNone
      else if s = RedisCompressionGZip then Inr RedisCompressionGZip
      else Inl (ErrorString (''unknown compression type: '' @ s)))"

record redisCache =
  rx_expiration :: int
  rx_redisCompressionType :: string
  rx_prefix :: string

definition NewRedisCache :: "environ \<Rightarrow> int \<Rightarrow> string \<Rightarrow> redisCache" where
  "NewRedisCache e expiration compressionType =
     \<lparr>rx_expiration = expiration, rx_redisCompressionType = compressionType, rx_prefix = StringFromEnv e ''ARGOCD_REDIS_KEY_PREFIX'' [] []\<rparr>"

definition redis_getKey :: "redisCache \<Rightarrow> string \<Rightarrow> string" where
  "redis_getKey r key =
     (let prefixedKey = rx_prefix r @ key
      in if rx_redisCompressionType r = RedisCompressionGZip then prefixedKey @ ''.gz'' else prefixedKey)"

definition redis_marshal :: "'w redis_env \<Rightarrow> redisCache \<Rightarrow> cache_value \<Rightarrow> string result" where
  "redis_marshal e r obj = (case rd_encode e obj of
     Inl err \<Rightarrow> Inl err
   | Inr data \<Rightarrow> Inr (if rx_redisCompressionType r = RedisCompressionGZip then rd_gzip e data else data))"

definition redis_unmarshal :: "'w redis_env \<Rightarrow> redisCache \<Rightarrow> value_type \<Rightarrow> string \<Rightarrow> cache_value result" where
  "redis_unmarshal e r ty data =
     (let decode = (\<lambda>read. case read of
            Inl err \<Rightarrow> Inl (Wrapped ''failed to decode cached data'' err)
          | Inr json \<Rightarrow> (case rd_decode e ty json of Inl err \<Rightarrow> Inl (Wrapped ''failed to decode cached data'' err) | Inr obj \<Rightarrow> Inr obj))
      in if rx_redisCompressionType r = RedisCompressionGZip
         then (case rd_header e data of Some err \<Rightarrow> Inl err | None \<Rightarrow> decode (rd_gunzip e data))
         else decode (Inr data))"

definition redis_Rename :: "'w redis_env \<Rightarrow> redisCache \<Rightarrow> string \<Rightarrow> string \<Rightarrow> int \<Rightarrow> 'w \<Rightarrow> go_error option \<times> 'w" where
  "redis_Rename e r oldKey newKey expiration w = (case rd_Rename e (redis_getKey r oldKey) (redis_getKey r newKey) w of
     (None, w') \<Rightarrow> (None, w')
   | (Some err, w') \<Rightarrow> (Some (if error_Error err = redisNoSuchKeyErr then ErrCacheMiss else err), w'))"

definition redis_Set :: "'w redis_env \<Rightarrow> redisCache \<Rightarrow> Item \<Rightarrow> 'w \<Rightarrow> go_error option \<times> 'w" where
  "redis_Set e r item w =
     (let expiration = (if cao_Expiration (it_Opts item) = 0 then rx_expiration r else cao_Expiration (it_Opts item)) in
      case redis_marshal e r (it_Object item) of
        Inl err \<Rightarrow> (Some err, w)
      | Inr val \<Rightarrow> rd_Set e (redis_getKey r (it_Key item)) val expiration (cao_DisableOverwrite (it_Opts item)) w)"

definition redis_Get :: "'w redis_env \<Rightarrow> redisCache \<Rightarrow> value_type \<Rightarrow> string \<Rightarrow> 'w \<Rightarrow> cache_value result \<times> 'w" where
  "redis_Get e r ty key w = (case rd_Get e (redis_getKey r key) w of
     (Inl err, w') \<Rightarrow> (Inl (if rd_IsCacheMiss e err then ErrCacheMiss else err), w')
   | (Inr data, w') \<Rightarrow> (redis_unmarshal e r ty data, w'))"

definition redis_Delete :: "'w redis_env \<Rightarrow> redisCache \<Rightarrow> string \<Rightarrow> 'w \<Rightarrow> go_error option \<times> 'w" where
  "redis_Delete e r key w = rd_Delete e (redis_getKey r key) w"

definition redisClient :: "'w redis_env \<Rightarrow> redisCache \<Rightarrow> 'w CacheClient" where
  "redisClient e r = \<lparr>cc_Set = redis_Set e r, cc_Rename = redis_Rename e r, cc_Get = redis_Get e r, cc_Delete = redis_Delete e r\<rparr>"

text \<open>
  Subscriptions. \<open>OnUpdated\<close> waits for messages until the context is done or the callback fails: the events it meets are a list, \<open>True\<close> for
  a message, and \<open>None\<close> says that it still waits.
\<close>

fun redis_OnUpdated :: "('w \<Rightarrow> go_error option \<times> 'w) \<Rightarrow> bool list \<Rightarrow> 'w \<Rightarrow> go_error option option \<times> 'w" where
  "redis_OnUpdated callback [] w = (None, w)"
| "redis_OnUpdated callback (message # es) w =
     (if \<not> message then (Some None, w)
      else case callback w of (Some err, w') \<Rightarrow> (Some (Some err), w') | (None, w') \<Rightarrow> redis_OnUpdated callback es w')"

definition redis_NotifyUpdated :: "'w redis_env \<Rightarrow> string \<Rightarrow> 'w \<Rightarrow> go_error option \<times> 'w" where
  "redis_NotifyUpdated e key w = rd_Publish e key [] w"

section \<open>Hooks\<close>

definition ignoredRedisCommandNames :: "string set" where
  "ignoredRedisCommandNames = {''hello'', ''client''}"

definition redisCmdName :: "string \<Rightarrow> string" where
  "redisCmdName name = map ascii_lower (strings_TrimSpace name)"

definition shouldIgnoreRedisCmd :: "string \<Rightarrow> bool" where
  "shouldIgnoreRedisCmd name \<longleftrightarrow> redisCmdName name \<in> ignoredRedisCommandNames"

definition isBenignRedisMiss :: "'w redis_env \<Rightarrow> go_error option \<Rightarrow> bool" where
  "isBenignRedisMiss e err = (case err of None \<Rightarrow> False | Some x \<Rightarrow> rd_IsNil e x \<or> error_Error x = redisNoSuchKeyErr)"

text \<open>\<open>next\<close> runs the command; the metrics are those of the repository server.\<close>

definition redisHook_ProcessHook ::
    "'w redis_env \<Rightarrow> ('w \<Rightarrow> go_error option \<times> 'w) \<Rightarrow> string \<Rightarrow> 'w \<times> RepoMetricsServer \<Rightarrow> go_error option \<times> 'w \<times> RepoMetricsServer" where
  "redisHook_ProcessHook e run name wm =
     (let (w, m) = wm; (err, w') = run w in
      if shouldIgnoreRedisCmd name then (err, (w', m))
      else (err, (w', ObserveRedisRequestDuration (IncRedisRequest (redisCmdName name) (err \<noteq> None \<and> \<not> isBenignRedisMiss e err) m))))"

text \<open>\<open>isDNS\<close> says whether an error is a DNS error.\<close>

definition argoRedisHooks_ProcessHook :: "(go_error \<Rightarrow> bool) \<Rightarrow> ('w \<Rightarrow> 'w) \<Rightarrow> ('w \<Rightarrow> go_error option \<times> 'w) \<Rightarrow> 'w \<Rightarrow> go_error option \<times> 'w" where
  "argoRedisHooks_ProcessHook isDNS reconnectCallback run w =
     (let (err, w') = run w in
      (err, case err of None \<Rightarrow> w' | Some x \<Rightarrow> if isDNS x then reconnectCallback w' else w'))"

section \<open>The contract over a Redis server\<close>

text \<open>
  What the client relies on: \<open>raw\<close> is the data the server may still return. It makes no data up, the decoder fills in an object of the type
  it is given, and compression can be undone. Nothing is assumed about how values are encoded: \<open>json_stable\<close> are those that decode to
  themselves. A list with text that is not UTF-8 is not (git quotes such names), and the data of an empty list decodes at other types too.
\<close>

locale redis_server =
  fixes e :: "'w redis_env" and r :: redisCache and raw :: "'w \<Rightarrow> string \<Rightarrow> string option"
  assumes server_get: "rd_Get e k w = (Inr d, w') \<Longrightarrow> raw w k = Some d"
    and server_get_keeps: "rd_Get e k w = (res, w') \<Longrightarrow> raw w' k' = Some d \<Longrightarrow> raw w k' = Some d"
    and server_set: "rd_Set e k d ttl nx w = (err, w') \<Longrightarrow> raw w' k' = Some d' \<Longrightarrow> raw w k' = Some d' \<or> k' = k \<and> d' = d"
    and server_rename: "rd_Rename e old new w = (err, w') \<Longrightarrow> raw w' k = Some d \<Longrightarrow> raw w k = Some d \<or> k = new \<and> raw w old = Some d"
    and server_delete: "rd_Delete e k w = (err, w') \<Longrightarrow> raw w' k' = Some d \<Longrightarrow> raw w k' = Some d"
    and decode_type: "rd_decode e ty d = Inr v \<Longrightarrow> type_of v = ty"
    and zip: "rd_gunzip e (rd_gzip e d) = Inr d"

definition json_stable :: "'w redis_env \<Rightarrow> cache_value \<Rightarrow> bool" where
  "json_stable e v \<longleftrightarrow> (\<forall>d. rd_encode e v = Inr d \<longrightarrow> rd_decode e (type_of v) d = Inr v)"

definition redis_holds :: "'w redis_env \<Rightarrow> redisCache \<Rightarrow> ('w \<Rightarrow> string \<Rightarrow> string option) \<Rightarrow> 'w \<Rightarrow> string \<Rightarrow> cache_value \<Rightarrow> bool" where
  "redis_holds e r raw w k v \<longleftrightarrow> (\<exists>d. raw w (redis_getKey r k) = Some d \<and> redis_unmarshal e r (type_of v) d = Inr v)"

lemma redis_getKey_eq [simp]: "redis_getKey r k = redis_getKey r k' \<longleftrightarrow> k = k'"
  by (simp add: redis_getKey_def Let_def)

context redis_server
begin

lemma unmarshal_decode:
  "redis_unmarshal e r ty d = Inr v \<Longrightarrow> \<exists>json. (if rx_redisCompressionType r = RedisCompressionGZip then rd_gunzip e d else Inr d) = Inr json \<and>
     rd_decode e ty json = Inr v"
  by (auto simp: redis_unmarshal_def Let_def split: sum.splits if_splits option.splits)

lemma unmarshal_type: "redis_unmarshal e r ty d = Inr v \<Longrightarrow> type_of v = ty"
  using unmarshal_decode decode_type by blast

lemma marshal_encode:
  "redis_marshal e r obj = Inr d \<Longrightarrow> \<exists>json. rd_encode e obj = Inr json \<and> d = (if rx_redisCompressionType r = RedisCompressionGZip then rd_gzip e json else json)"
  by (auto simp: redis_marshal_def split: sum.splits)

lemma unmarshal_marshal:
  assumes "redis_marshal e r obj = Inr d" "redis_unmarshal e r (type_of v) d = Inr v"
  shows "stored_as (json_stable e) obj v"
proof -
  obtain json where j: "rd_encode e obj = Inr json" "d = (if rx_redisCompressionType r = RedisCompressionGZip then rd_gzip e json else json)"
    using marshal_encode [OF assms(1)] by blast
  obtain json' where "(if rx_redisCompressionType r = RedisCompressionGZip then rd_gunzip e d else Inr d) = Inr json'"
    and v: "rd_decode e (type_of v) json' = Inr v"
    using unmarshal_decode [OF assms(2)] by blast
  then have "json' = json" using zip [of json] by (cases "rx_redisCompressionType r = RedisCompressionGZip") (simp_all add: j(2))
  show ?thesis unfolding stored_as_def
  proof
    assume "json_stable e obj \<and> type_of v = type_of obj"
    then have "rd_decode e (type_of v) json = Inr obj" using j(1) unfolding json_stable_def by simp
    then show "v = obj" using v \<open>json' = json\<close> by simp
  qed
qed

lemma redis_Set_holds:
  assumes "redis_Set e r item w = (err, w')" "redis_holds e r raw w' k v"
  shows "redis_holds e r raw w k v \<or> k = it_Key item \<and> stored_as (json_stable e) (it_Object item) v"
proof (cases "redis_marshal e r (it_Object item)")
  case (Inl x)
  then show ?thesis using assms by (simp add: redis_Set_def)
next
  case (Inr val)
  obtain d where d: "raw w' (redis_getKey r k) = Some d" "redis_unmarshal e r (type_of v) d = Inr v"
    using assms(2) by (auto simp: redis_holds_def)
  have "raw w (redis_getKey r k) = Some d \<or> redis_getKey r k = redis_getKey r (it_Key item) \<and> d = val"
    by (rule server_set [OF _ d(1)]) (use assms(1) Inr in \<open>simp add: redis_Set_def Let_def\<close>)
  then show ?thesis using d(2) unmarshal_marshal [OF Inr] by (auto simp: redis_holds_def)
qed

lemma redis_Get_cases:
  assumes "redis_Get e r ty k w = (Inr v, w')"
  obtains d where "rd_Get e (redis_getKey r k) w = (Inr d, w')" "redis_unmarshal e r ty d = Inr v"
  using assms by (auto simp: redis_Get_def split: prod.splits sum.splits)

end

sublocale redis_server \<subseteq> cache_client "redisClient e r" "redis_holds e r raw" "json_stable e"
proof
  fix ty k w v w'
  assume "cc_Get (redisClient e r) ty k w = (Inr v, w')"
  then obtain d where d: "rd_Get e (redis_getKey r k) w = (Inr d, w')" "redis_unmarshal e r ty d = Inr v"
    by (auto simp: redisClient_def elim: redis_Get_cases)
  then show "redis_holds e r raw w k v" using server_get [OF d(1)] unmarshal_type [OF d(2)] by (simp add: redis_holds_def)
next
  fix ty k w res w' k' v
  assume "cc_Get (redisClient e r) ty k w = (res, w')" "redis_holds e r raw w' k' v"
  then show "redis_holds e r raw w k' v"
    by (auto simp: redisClient_def redis_Get_def redis_holds_def split: prod.splits sum.splits dest: server_get_keeps)
next
  fix item w err w' k v
  assume "cc_Set (redisClient e r) item w = (err, w')" "redis_holds e r raw w' k v"
  then show "redis_holds e r raw w k v \<or> k = it_Key item \<and> stored_as (json_stable e) (it_Object item) v"
    by (auto simp: redisClient_def dest: redis_Set_holds)
next
  fix old new x w err w' k v
  assume "cc_Rename (redisClient e r) old new x w = (err, w')" "redis_holds e r raw w' k v"
  then show "redis_holds e r raw w k v \<or> k = new \<and> redis_holds e r raw w old v"
    by (fastforce simp: redisClient_def redis_Rename_def redis_holds_def split: prod.splits option.splits dest: server_rename)
next
  fix k w err w' k' v
  assume "cc_Delete (redisClient e r) k w = (err, w')" "redis_holds e r raw w' k' v"
  then show "redis_holds e r raw w k' v"
    by (auto simp: redisClient_def redis_Delete_def redis_holds_def dest: server_delete)
qed

sublocale redis_server \<subseteq> behind: two_level "redisClient e r" "redis_holds e r raw" "json_stable e"
  by unfold_locales

context redis_server
begin

lemmas keeps_contract = cache_client_axioms
lemmas two_level_keeps_contract = behind.cache_client_axioms

end

text \<open>
  A server whose entries stay: none expires, a store that reports no error is done, a conditional store does not overwrite, and a failed
  lookup of an entry that is there is not taken for a miss. Over such a server the client satisfies the interface of the lock on git
  references.
\<close>

locale redis_live = redis_server e r raw for e :: "'w redis_env" and r raw +
  assumes live_get: "rd_Get e k w = (res, w') \<Longrightarrow> raw w' = raw w"
    and live_miss: "rd_Get e k w = (Inl miss, w') \<Longrightarrow> raw w k \<noteq> None \<Longrightarrow> \<not> rd_IsCacheMiss e miss \<and> \<not> errors_Is miss ErrCacheMiss"
    and live_set: "rd_Set e k d ttl nx w = (err, w') \<Longrightarrow> raw w' \<in> {raw w, (raw w)(k \<mapsto> d)}"
    and live_set_done: "rd_Set e k d ttl False w = (None, w') \<Longrightarrow> raw w' = (raw w)(k \<mapsto> d)"
    and live_keep: "rd_Set e k d ttl True w = (err, w') \<Longrightarrow> raw w k \<noteq> None \<Longrightarrow> raw w' = raw w"
    and header: "rd_header e (rd_gzip e d) = None"

definition redis_view :: "'w redis_env \<Rightarrow> redisCache \<Rightarrow> ('w \<Rightarrow> string \<Rightarrow> string option) \<Rightarrow> 'w \<Rightarrow> value_type \<Rightarrow> string \<Rightarrow> cache_value option" where
  "redis_view e r raw w ty k = (case raw w (redis_getKey r k) of None \<Rightarrow> None
     | Some d \<Rightarrow> (case redis_unmarshal e r ty d of Inl _ \<Rightarrow> None | Inr v \<Rightarrow> Some v))"

context redis_live
begin

lemma unmarshal_stable:
  assumes "redis_marshal e r obj = Inr d" "json_stable e obj"
  shows "redis_unmarshal e r (type_of obj) d = Inr obj"
  using marshal_encode [OF assms(1)] assms(2) zip header by (auto simp: redis_unmarshal_def json_stable_def)

lemma view_raw: "raw w' = raw w \<Longrightarrow> redis_view e r raw w' = redis_view e r raw w"
  by (simp add: redis_view_def [abs_def])

lemma view_stored:
  assumes "raw w' = (raw w)(redis_getKey r k \<mapsto> d)" "redis_marshal e r obj = Inr d" "json_stable e obj"
  shows "redis_view e r raw w' (type_of obj) k = Some obj"
  by (simp add: redis_view_def assms(1) unmarshal_stable [OF assms(2,3)])

lemma redis_Set_marshal:
  "redis_marshal e r (it_Object item) = Inr d \<Longrightarrow> redis_Set e r item w = (err, w') \<Longrightarrow>
   \<exists>ttl. rd_Set e (redis_getKey r (it_Key item)) d ttl (cao_DisableOverwrite (it_Opts item)) w = (err, w')"
  by (auto simp: redis_Set_def Let_def)

end

sublocale redis_live \<subseteq> live: lock_client "redisClient e r" "redis_view e r raw" "json_stable e"
proof
  fix ty k w res w'
  assume "cc_Get (redisClient e r) ty k w = (res, w')"
  then have g: "redis_Get e r ty k w = (res, w')" by (simp add: redisClient_def)
  obtain x where x: "rd_Get e (redis_getKey r k) w = (x, w')" using g by (auto simp: redis_Get_def split: prod.splits sum.splits)
  have "redis_view e r raw w ty k = Some v" if "res = Inr v" for v
    using g [unfolded that] by (rule redis_Get_cases) (simp add: redis_view_def server_get)
  then show "redis_view e r raw w' = redis_view e r raw w \<and> (\<forall>v. res = Inr v \<longrightarrow> redis_view e r raw w ty k = Some v)"
    using view_raw [OF live_get [OF x]] by blast
next
  fix ty k w err w' v
  assume "cc_Get (redisClient e r) ty k w = (Inl err, w')" "redis_view e r raw w ty k = Some v"
  then have g: "redis_Get e r ty k w = (Inl err, w')" and v: "redis_view e r raw w ty k = Some v" by (simp_all add: redisClient_def)
  from v obtain d where d: "raw w (redis_getKey r k) = Some d" "redis_unmarshal e r ty d = Inr v"
    by (auto simp: redis_view_def split: option.splits sum.splits)
  obtain x w1 where x: "rd_Get e (redis_getKey r k) w = (x, w1)" by (rule prod.exhaust)
  show "\<not> errors_Is err ErrCacheMiss"
  proof (cases x)
    case (Inl er)
    then show ?thesis using live_miss [OF x [unfolded Inl]] d(1) g x by (simp add: redis_Get_def)
  next
    case (Inr d')
    then show ?thesis using server_get [OF x [unfolded Inr]] d g x by (simp add: redis_Get_def)
  qed
next
  fix item w err w' ty
  assume a: "cc_Set (redisClient e r) item w = (err, w')" "cao_DisableOverwrite (it_Opts item)" "redis_view e r raw w ty (it_Key item) \<noteq> None"
  from a(3) have "raw w (redis_getKey r (it_Key item)) \<noteq> None" by (auto simp: redis_view_def split: option.splits)
  with a(1,2) show "redis_view e r raw w' = redis_view e r raw w"
    by (cases "redis_marshal e r (it_Object item)")
      (auto simp: redisClient_def redis_Set_def Let_def intro!: view_raw dest: live_keep)
next
  fix item w err w'
  assume a: "cc_Set (redisClient e r) item w = (err, w')" and s: "json_stable e (it_Object item)"
  show "redis_view e r raw w' (type_of (it_Object item)) (it_Key item) \<in>
      {redis_view e r raw w (type_of (it_Object item)) (it_Key item), Some (it_Object item)}"
  proof (cases "redis_marshal e r (it_Object item)")
    case (Inl x)
    then show ?thesis using a by (simp add: redisClient_def redis_Set_def)
  next
    case (Inr d)
    from redis_Set_marshal [OF Inr, of w err w'] a obtain ttl where
      "rd_Set e (redis_getKey r (it_Key item)) d ttl (cao_DisableOverwrite (it_Opts item)) w = (err, w')" by (auto simp: redisClient_def)
    from live_set [OF this] consider "raw w' = raw w" | "raw w' = (raw w)(redis_getKey r (it_Key item) \<mapsto> d)" by blast
    then show ?thesis
    proof cases
      case 1
      then show ?thesis using view_raw [OF 1] by simp
    next
      case 2
      then show ?thesis using view_stored [OF 2 Inr s] by simp
    qed
  qed
next
  fix item w w'
  assume a: "cc_Set (redisClient e r) item w = (None, w')" "\<not> cao_DisableOverwrite (it_Opts item)" and s: "json_stable e (it_Object item)"
  then obtain d where d: "redis_marshal e r (it_Object item) = Inr d"
    by (cases "redis_marshal e r (it_Object item)") (auto simp: redisClient_def redis_Set_def)
  from redis_Set_marshal [OF d, of w None w'] a obtain ttl where
    "rd_Set e (redis_getKey r (it_Key item)) d ttl False w = (None, w')" by (auto simp: redisClient_def)
  from live_set_done [OF this] show "redis_view e r raw w' (type_of (it_Object item)) (it_Key item) = Some (it_Object item)"
    by (rule view_stored [OF _ d s])
qed

context redis_live
begin

lemmas keeps_lock_contract = live.lock_client_axioms

end

section \<open>A Redis server in memory\<close>

text \<open>Pairs are encoded as one array, so that the data of an empty list is the same for both types.\<close>

fun pairs_of :: "string list \<Rightarrow> (string \<times> string) list" where
  "pairs_of (a # b # xs) = (a, b) # pairs_of xs"
| "pairs_of _ = []"

fun mem_encoded :: "cache_value \<Rightarrow> string" where
  "mem_encoded (StringList xs) = json_Marshal xs"
| "mem_encoded (PairList ps) = json_Marshal (concat (map (\<lambda>(a, b). [a, b]) ps))"
| "mem_encoded (Encoded s) = s"

fun mem_decode :: "value_type \<Rightarrow> string \<Rightarrow> cache_value result" where
  "mem_decode Strings d = Inr (StringList (json_Unmarshal d))"
| "mem_decode Pairs d = Inr (PairList (pairs_of (json_Unmarshal d)))"
| "mem_decode Bytes d = Inr (Encoded d)"

definition mem_redis :: "(string \<rightharpoonup> string) redis_env" where
  "mem_redis = \<lparr>
     rd_Set = (\<lambda>k d ttl nx w. (None, if nx \<and> w k \<noteq> None then w else w(k \<mapsto> d))),
     rd_Get = (\<lambda>k w. (case w k of None \<Rightarrow> Inl (ErrorString ''cache: key is missing'') | Some d \<Rightarrow> Inr d, w)),
     rd_Delete = (\<lambda>k w. (None, w(k := None))),
     rd_Rename = (\<lambda>old new w. case w old of None \<Rightarrow> (Some (ErrorString redisNoSuchKeyErr), w) | Some d \<Rightarrow> (None, (w(old := None))(new \<mapsto> d))),
     rd_Publish = (\<lambda>k t w. (None, w)),
     rd_IsCacheMiss = (\<lambda>err. err = ErrorString ''cache: key is missing''), rd_IsNil = (\<lambda>err. err = ErrorString ''redis: nil''),
     rd_encode = (\<lambda>v. Inr (mem_encoded v)), rd_decode = mem_decode,
     rd_gzip = (\<lambda>d. CHR 0x1F # d), rd_header = (\<lambda>d. if d \<noteq> [] \<and> hd d = CHR 0x1F then None else Some (ErrorString ''gzip: invalid header'')),
     rd_gunzip = (\<lambda>d. Inr (tl d))\<rparr>"

lemma mem_decode_type: "mem_decode ty d = Inr v \<Longrightarrow> type_of v = ty"
  by (cases ty) auto

interpretation mem_redis: redis_live mem_redis r "\<lambda>w. w" for r
  by unfold_locales (auto simp: mem_redis_def mem_decode_type split: option.splits if_splits)

lemma ascii_lists_are_stable:
  assumes "\<forall>x \<in> set xs. ascii x"
  shows "json_stable mem_redis (StringList xs)"
  using json_Unmarshal_Marshal [of xs] assms by (simp add: json_stable_def mem_redis_def)

section \<open>Properties\<close>

text \<open>
  (C6) The Redis client keeps the contract of cache clients, compressed or not and behind the two-level client too: what it returns for a
  key was already there, was moved to it, or was stored under it, where a value read at the type it was stored at is the stored value,
  provided its JSON decodes to itself; whatever entries the server has lost and whatever fails. So the
  theorems about any cache client hold for the caches of an installation.
\<close>

theorem redis_keeps_cache_contract:
  assumes "redis_server e raw"
  shows "cache_client (redisClient e r) (redis_holds e r raw) (json_stable e) \<and>
    cache_client (twoLevelClient (redisClient e r)) (two_holds (redis_holds e r raw)) (json_stable e)"
  using redis_server.keeps_contract [OF assms] redis_server.two_level_keeps_contract [OF assms] by blast

text \<open>A server with compression: a list is stored, read and moved.\<close>

definition zipped :: redisCache where
  "zipped = NewRedisCache (\<lambda>v. if v = ''ARGOCD_REDIS_KEY_PREFIX'' then Some ''argocd-'' else None) 60 RedisCompressionGZip"

theorem redis_keeps_cache_contract_witness:
  "cache_client (redisClient mem_redis zipped) (redis_holds mem_redis zipped (\<lambda>w. w)) (json_stable mem_redis) \<and>
   json_stable mem_redis (StringList [''a'', ''b'']) \<and>
   redis_holds mem_redis zipped (\<lambda>w. w)
     (snd (redis_Set mem_redis zipped \<lparr>it_Key = ''k'', it_Object = StringList [''a'', ''b''], it_Opts = zero_CacheActionOpts\<rparr> Map.empty)) ''k''
     (StringList [''a'', ''b''])"
proof (intro conjI)
  show "cache_client (redisClient mem_redis zipped) (redis_holds mem_redis zipped (\<lambda>w. w)) (json_stable mem_redis)"
    using redis_keeps_cache_contract [OF mem_redis.redis_server_axioms] by blast
  show stable: "json_stable mem_redis (StringList [''a'', ''b''])" by (rule ascii_lists_are_stable) simp
  then have "json_Unmarshal (json_Marshal [''a'', ''b'']) = [''a'', ''b'']" by (simp add: json_stable_def mem_redis_def)
  then have m: "redis_marshal mem_redis zipped (StringList [''a'', ''b'']) = Inr (CHR 0x1F # mem_encoded (StringList [''a'', ''b'']))"
    "redis_unmarshal mem_redis zipped Strings (CHR 0x1F # mem_encoded (StringList [''a'', ''b''])) = Inr (StringList [''a'', ''b''])"
    by (simp_all add: redis_marshal_def redis_unmarshal_def mem_redis_def zipped_def NewRedisCache_def)
  then show "redis_holds mem_redis zipped (\<lambda>w. w)
     (snd (redis_Set mem_redis zipped \<lparr>it_Key = ''k'', it_Object = StringList [''a'', ''b''], it_Opts = zero_CacheActionOpts\<rparr> Map.empty)) ''k''
     (StringList [''a'', ''b''])"
    unfolding redis_holds_def redis_Set_def Let_def by (simp add: m) (simp add: mem_redis_def)
qed

text \<open>The data of an empty list of pairs can be read as an empty list of strings, which is why lookups are typed.\<close>

lemma empty_lists_share_their_data:
  "mem_encoded (PairList []) = mem_encoded (StringList []) \<and>
   fst (redis_Get mem_redis (NewRedisCache (\<lambda>v. None) 60 RedisCompressionNone) Strings ''k''
     (snd (redis_Set mem_redis (NewRedisCache (\<lambda>v. None) 60 RedisCompressionNone)
        \<lparr>it_Key = ''k'', it_Object = PairList [], it_Opts = zero_CacheActionOpts\<rparr> Map.empty))) = Inr (StringList (json_Unmarshal (json_Marshal [])))"
  by (simp add: redis_Set_def redis_Get_def redis_marshal_def redis_unmarshal_def mem_redis_def NewRedisCache_def Let_def
      RedisCompressionNone_def RedisCompressionGZip_def)

text \<open>Two servers over one Redis whose entries stay never both own the lock on a repository's references.\<close>

lemma redis_refs_lock_has_one_owner:
  assumes "redis_live e raw" "ca_cache c = redisClient e r"
    and "\<And>refs. stores refs \<Longrightarrow> json_stable e (PairList (map (rc_Strings codec) refs)) \<and> lock_of (Some (PairList (map (rc_Strings codec) refs))) = None"
    and "(lock_step codec c repo stores)\<^sup>*\<^sup>* (w0, {}, {}) (w, own, late)" "a \<in> own" "b \<in> own"
  shows "a = b"
  using lock_client.one_owner_run [OF redis_live.keeps_lock_contract [OF assms(1)] assms(4,2,3)] assms(5,6)
  unfolding lock_client.one_owner_def [OF redis_live.keeps_lock_contract [OF assms(1)]] by fastforce

end
