(* ===== verification/Spec2Isabelle.thy ===== *)
theory Spec2Isabelle
  imports Deployed Env ProjectLaws AppTree Server GitAuth RepoTest CertStore RedisCache
begin

text \<open>
  \<^bold>\<open>Verification of the Argo CD monorepo controller.\<close>

  \<^bold>\<open>The program.\<close> Argo CD deploys an application from a revision of a repository. In a repository with
  many applications most commits do not concern a given one. The monorepo controller annotates every
  application that has the annotation \<open>argocd.argoproj.io/manifest-generate-paths\<close> with the newest commit
  that changed a file under those paths. It consists of two processes.

    \<^item> The \<^emph>\<open>controller\<close> (\<open>src/mrp_controller\<close>). An informer calls the broadcaster (\<open>eventhandler.go\<close>); the
      subscription made by \<open>Run\<close> (\<open>controller.go\<close>) filters the events and puts the manifests into a keyed
      queue; a dispatcher and a pool of workers (\<open>appqueue.go\<close>) take them out and reconcile them
      (\<open>service/mrp_service.go\<close>): read the revisions from the status and the annotations, ask the repository
      server for the change revision of every source, write the annotations that differ.
    \<^item> The \<^emph>\<open>repository server\<close> (\<open>src/reposerver\<close>). \<open>GetChangeRevision\<close> resolves the revision, locks and checks out
      the clone (\<open>repository/lock.go\<close>, \<open>util/git\<close>), lists the commits between two revisions and returns the
      first whose files match the refresh paths (\<open>util/app/path\<close>); lists of commits, lists of files and git
      references are cached (\<open>reposerver/cache\<close>, \<open>util/cache\<close>).

  \<^bold>\<open>Shared theories.\<close>
    \<^item> \<open>Prelude\<close>: the outcome of a Go call that may panic (\<open>Ret\<close>/\<open>Panic\<close>), Go errors as a datatype with wrapping
      and gRPC codes, slices with their bounds check, and the lemmas shared by the components.
    \<^item> \<open>GoStrings\<close>, \<open>GoStrconv\<close>, \<open>GoFilepath\<close>, \<open>GoJSON\<close>: what the code uses of the packages \<open>strings\<close>, \<open>strconv\<close>,
      \<open>path/filepath\<close> (Unix) and \<open>encoding/json\<close> (encoding and decoding of a list of strings, with its round trip).
      \<open>GitURL\<close>: commit ids and the normalisation of repository URLs (\<open>util/git/git.go\<close>). \<open>Glob\<close>: glob, list and regular
      expression matching over the libraries that compile patterns, names and namespaces (\<open>util/glob\<close>, \<open>util/regex\<close>,
      \<open>util/security\<close>).
    \<^item> \<open>AppTypes\<close>, \<open>RepoTypes\<close>: the structs of \<open>types.go\<close> and \<open>repository_types.go\<close> under
      \<open>src/pkg/apis/application/v1alpha1\<close>, one record each; a pointer is an option, a map a partial function.
      \<open>AppSpec\<close> and \<open>RepoTypes\<close> hold the methods on them, \<open>AppTree\<close> the resource tree with its division into shards,
      \<open>Clusters\<close> the cluster types.

  \<^bold>\<open>Controller theories.\<close>
    \<^item> \<open>WorkQueue\<close>: the contract \<open>keyed_workqueue\<close> of a coalescing queue (locale), and what follows from it for any
      run of operations. \<open>AppQueue\<close>: \<open>KeyedAppQueue\<close> and its invariant; the contract is interpreted on it.
      Theorems: no update is lost, a worker gets the newest manifest, keys are served in order of arrival,
      wake-ups and the length gauge are right.
    \<^item> \<open>WorkerPool\<close>: dispatcher and workers as a step relation. Theorems: an application is handled by one worker
      at a time; the pool drains the queue; a stopped idle pool stays blocked (a defect).
    \<^item> \<open>EventHandler\<close>, \<open>Controller\<close>: broadcaster, filter, \<open>Run\<close>. Theorem: in every interleaving of informer calls
      and workers, a worker is handed the newest relevant manifest of its application.
    \<^item> \<open>MRPService\<close>, \<open>Metrics\<close>: reconciliation and the counters. The Kubernetes API, the repository database and the
      repository server are the functions of a record \<open>mrp_env\<close>. Theorems: a second reconciliation changes
      nothing, every source is recorded, lookup in the history, every error path, one outcome is counted.
    \<^item> \<open>Server\<close>: the options of the process, the namespaces that are watched and the order of start-up
      (\<open>mrp_controller/server.go\<close>).
    \<^item> \<open>System\<close>: the locale \<open>repo_server_client\<close>, what the controller relies on in the repository server, interpreted on the
      handler itself; with it the theorem of this file on the two processes together. \<open>Deployed\<close>: an
      application on which the whole system is evaluated.

  \<^bold>\<open>Repository server theories.\<close>
    \<^item> \<open>AppPath\<close>: refresh paths, matching of changed files, containment checks of paths and resolution of
      symbolic links over a file system given as a function.
    \<^item> \<open>GitClient\<close>: the operations of \<open>nativeGitClient\<close> over a record \<open>git_env\<close> of git commands, go-git calls and
      credentials; \<open>MaxVersion\<close> over a semantic version library given as a parameter. Theorems: only commit ids
      reach the command line, symbolic references are resolved as specified. \<open>GitInvariant\<close>: a locale for what
      all operations keep of the world.
    \<^item> \<open>RepoCache\<close>: cache clients with a locale \<open>cache_client\<close>, interpreted on the in-memory client and, through a
      sublocale, on the two-level client; a locale \<open>cached_git\<close> for git operations over such a client. Theorems:
      cached and uncached answers are equal, keys do not collide, the lock on references has one owner,
      references survive encoding and decoding. \<open>RedisCache\<close>: the Redis client, which keeps the contract, and its hooks.
    \<^item> \<open>RepoLock\<close>: the critical sections of \<open>Lock\<close> and its closer as functions and the goroutines that run them as
      a step relation. Theorems: holders of a path agree on the revision; no sleeper is forgotten.
    \<^item> \<open>RepoService\<close>: clone directories (\<open>util/io/paths.go\<close>), URLs, \<open>NewClient\<close>, checkout and the whole handler
      \<open>GetChangeRevision\<close>; the locale \<open>coherent_server\<close> combines cache, git client and lock. Theorems: the handler
      refines the abstract search over commits, keeps gauge, lock and semaphore balanced on every branch,
      waits only for other requests, and never gives two repositories one directory.
    \<^item> \<open>RepoTest\<close>: \<open>TestRepository\<close>, with the helm and OCI clients as parameters.
    \<^item> \<open>Env\<close>: the readers of \<open>util/env/env.go\<close>; results are within their bounds or the default.

  \<^bold>\<open>Credentials and settings.\<close>
    \<^item> \<open>GitCreds\<close>: the credentials of \<open>util/git/creds.go\<close>, their temporary files and closers, the askpass server. Theorems: a
      git command leaves no file and no entry behind on any outcome; git gets user and password until it
      has ended. \<open>GitAuth\<close>: tokens of GitHub, Google and Azure with their caches, the HTTP client and the authentication of
      go-git. Theorem: git and go-git log in with the same credentials.
    \<^item> \<open>Secrets\<close>, \<open>RepoDB\<close>, \<open>RepoStore\<close>: the settings manager's informers, secrets, and the repository database over them
      (\<open>util/settings\<close>, \<open>util/db\<close>). The locale \<open>secret_store\<close> is what the database relies on in the cluster; it is
      interpreted on a cluster in memory. Theorems: the database is a map from kind, URL and project to
      repositories; credentials are inherited within their scope only.
    \<^item> \<open>Cert\<close>: host names as regular expressions with derivatives and the language they accept, PEM bundles, known hosts
      (\<open>util/cert/cert.go\<close>). \<open>CertDB\<close>, \<open>CertStore\<close>: the certificate database over two config maps (\<open>util/db/certificate.go\<close>).
      The locale \<open>configmap_store\<close> is what it relies on; theorem: it is a pair of maps, to which creation adds and from
      which removal takes exactly what was asked for.

  \<^bold>\<open>Projects.\<close>
    \<^item> \<open>SyncWindows\<close>: schedules, time zones and durations of sync windows, and the decision whether an application
      may be synced. \<open>AppProject\<close>, \<open>ProjectLaws\<close>: projects, their validation, permitted sources and destinations, policies
      and tokens (\<open>app_project_types.go\<close>).

  \<^bold>\<open>State and effects.\<close> Stateful code takes and returns its state. Code that calls out of the process is
  polymorphic in the state of the outside world (\<open>'w\<close>, \<open>'g\<close>), so that an outside call may change it in any way;
  theorems that need more state it as a hypothesis with a witness. Mutexes are the atomicity of a step; code
  between two critical sections may be interleaved. Go's \<open>int\<close> is \<open>int\<close>; where the width matters
  (\<open>strconv.ParseInt\<close>, conversion to \<open>int32\<close>/\<open>int64\<close>) the bounds are written out.

  \<^bold>\<open>Bounds and fuel.\<close>
    \<^item> \<open>lock_rounds\<close>: the loop that waits for the lock on git references ends at a deadline; its argument
      counts the rounds before the deadline and theorems hold for every count.
    \<^item> \<open>LsRemote\<close> recurses over the attempts that are left, as the loop of the source does.
    \<^item> The resolution of symbolic links recurses over the depth limit of the source, so no fuel is added.
    \<^item> \<open>repoLock_Lock\<close> returns \<open>None\<close> when the caller would sleep; \<open>request_waits_for_others_only\<close> states exactly when.
    \<^item> \<open>GetShards\<close> is a partial function: its loop does not end for a negative size, and ends for every positive one.

  \<^bold>\<open>Not modelled.\<close> Generated code (openapi, deepcopy); command line parsing and process start; sockets, TLS and the
  registration of metrics; the expiry of cache items; the helm, OCI and Kustomize clients, which are
  parameters where they are called; the settings of the API server in \<open>settings.go\<close>, the cluster and GnuPG parts of
  \<open>util/db\<close>, application sets, OIDC and the enforcement of RBAC, which the repository inherits from Argo CD and the two
  processes do not use for their own work.
\<close>

section \<open>The whole system\<close>

text \<open>
  (C1) The annotations name the commits that changed the application. Let the controller be connected to
  a repository server over the interface \<open>repo_server_client\<close>, and let the server's caches be coherent when a
  reconciliation starts. If the reconciliation gets to a patch, the patched application
  carries one change revision per source, decided by the calculation the reconciliation makes for the source. If that
  calculation succeeds it is the newest commit after
  the previously deployed revision, up to the current one, that touches a refresh path of the
  source, or the recorded one (the current revision if none is recorded) if no commit does; if the calculation fails, which then is
  no timeout, it is the recorded one. For sources without a known revision or that are up to date no calculation is
  made and they keep theirs; a Helm source gets the previously recorded git revision.
\<close>

theorem annotations_name_newest_change:
  assumes "repo_server_client env s holds plain answer server" "coherent holds answer (rw_ext (server w))"
    and "makeChangeRevisionPatch env a (w, m) = Ret (Inr p, st')" "getSourcesRevisions a = Ret revs"
    and "env_Get env (app_Namespace a) (app_Name a) w = (Inr app, w1)"
  shows "\<exists>cs. length cs = length revs \<and> app_Annotations (patched a p) CHANGE_REVISION_ANN = Some (cs ! 0) \<and>
    app_Annotations (patched a p) CHANGE_REVISIONS_ANN = Some (json_Marshal cs) \<and>
    (\<forall>i < length revs.
      if calculated (revs ! i)
      then case fst (source_calculation env app (revs ! i) (source_state env app revs (w1, m) i)) of
          Inr x \<Rightarrow> cs ! i = recorded (revs ! i) x \<and>
            right_answer answer (GetSourceRefreshPaths app (rv_path (revs ! i))) (rv_previousRevision (revs ! i)) (rv_currentRevision (revs ! i)) x
        | Inl err \<Rightarrow> cs ! i = rv_changeRevision (revs ! i) \<and> \<not> isTimeout env err
      else cs ! i = (if rv_currentRevision (revs ! i) \<noteq> [] \<and> rv_isHelmRepo (revs ! i)
        then rv_gitRevision (revs ! i) else rv_changeRevision (revs ! i)))"
proof -
  from assms(3,4,5) obtain ps where ps: "patch_sources env app revs (w1, m) = (Inr ps, st')" "ps \<noteq> []"
    "p = makeAnnotationPatch a (fst (ps ! 0)) (map fst ps) (snd (ps ! 0)) (map snd ps)"
    by (auto elim: makeChangeRevisionPatch_Inr)
  have "coherent holds answer (rw_ext (server w1))"
    using repo_server_client.run_sound [OF assms(1) repo_server_client.Get_runs [OF assms(1,5)] assms(2)] .
  note right = repo_server_client.source_calculation_sound [OF assms(1) this]
  have len: "length ps = length revs" using patch_sources_nth [OF ps(1)] by blast
  have anns: "app_Annotations (patched a p) = app_Annotations a ++ wanted (fst (ps ! 0)) (map fst ps) (snd (ps ! 0)) (map snd ps)"
    using ps(3) by (rule patched_annotations)
  show ?thesis
  proof (intro exI [of _ "map fst ps"] conjI allI impI, goal_cases)
    case 1
    show ?case using len by simp
  next
    case 2
    show ?case using ps(2) by (simp add: anns wanted_values map_add_def)
  next
    case 3
    show ?case by (simp add: anns wanted_values map_add_def)
  next
    case (4 i)
    note v = patch_sources_values [OF ps(1) 4]
    show ?case
      using v(1,2) right [of app revs i m] len 4
      by (cases "fst (source_calculation env app (revs ! i) (source_state env app revs (w1, m) i))") simp_all
  qed
qed

theorem annotations_name_newest_change_witness:
  "\<exists>q st'. makeChangeRevisionPatch (direct_env deployed_app (memory_service sample_git) mem_db) deployed_app ((sample_world, empty_db), sample_metrics) =
     Ret (Inr (Some q), st') \<and> q CHANGE_REVISION_ANN = Some sha_b \<and>
     right_record (fst \<circ> sample_git) deployed_app deployed_revisions sha_b"
proof -
  obtain q st' where q: "makeChangeRevisionPatch (direct_env deployed_app (memory_service sample_git) mem_db) deployed_app ((sample_world, empty_db), sample_metrics)
    = Ret (Inr (Some q), st')" "q CHANGE_REVISION_ANN = Some sha_b" by (rule deployed_app_patch)
  have c: "coherent (\<lambda>g k v. g k = Some v) (fst \<circ> sample_git) (rw_ext (fst (sample_world, empty_db)))"
    by (simp add: sample_world_def new_world_def coherent_def)
  have g: "env_Get (direct_env deployed_app (memory_service sample_git) mem_db) (app_Namespace deployed_app) (app_Name deployed_app) (sample_world, empty_db)
    = (Inr deployed_app, (sample_world, empty_db))" by (simp add: direct_env_def)
  have calc: "calculated deployed_revisions" by code_simp
  let ?calc = "fst (source_calculation (direct_env deployed_app (memory_service sample_git) mem_db) deployed_app deployed_revisions
    (source_state (direct_env deployed_app (memory_service sample_git) mem_db) deployed_app [deployed_revisions] ((sample_world, empty_db), sample_metrics) 0))"
  from annotations_name_newest_change [OF mem_client.repo_server_client_axioms c q(1) deployed_app_revisions g]
  obtain cs where cs: "app_Annotations (patched deployed_app (Some q)) CHANGE_REVISION_ANN = Some (cs ! 0)"
    and each: "\<forall>i < length [deployed_revisions]. if calculated ([deployed_revisions] ! i)
      then case fst (source_calculation (direct_env deployed_app (memory_service sample_git) mem_db) deployed_app ([deployed_revisions] ! i)
          (source_state (direct_env deployed_app (memory_service sample_git) mem_db) deployed_app [deployed_revisions] ((sample_world, empty_db), sample_metrics) i)) of
          Inr x \<Rightarrow> cs ! i = recorded ([deployed_revisions] ! i) x \<and> right_answer (fst \<circ> sample_git)
            (GetSourceRefreshPaths deployed_app (rv_path ([deployed_revisions] ! i))) (rv_previousRevision ([deployed_revisions] ! i))
            (rv_currentRevision ([deployed_revisions] ! i)) x
        | Inl err \<Rightarrow> cs ! i = rv_changeRevision ([deployed_revisions] ! i) \<and>
            \<not> isTimeout (direct_env deployed_app (memory_service sample_git) mem_db) err
      else cs ! i = (if rv_currentRevision ([deployed_revisions] ! i) \<noteq> [] \<and> rv_isHelmRepo ([deployed_revisions] ! i)
        then rv_gitRevision ([deployed_revisions] ! i) else rv_changeRevision ([deployed_revisions] ! i))" by blast
  have cs: "app_Annotations (patched deployed_app (Some q)) CHANGE_REVISION_ANN = Some (cs ! 0)"
    "right_record (fst \<circ> sample_git) deployed_app deployed_revisions (cs ! 0) \<or> cs ! 0 = rv_changeRevision deployed_revisions"
    using cs spec [OF each, of 0] calc by (cases ?calc; auto simp: right_record_def)+
  have "cs ! 0 = sha_b" using cs(1) q(2) by (simp add: patched_def apply_patch_def map_add_def)
  with cs(2) q show ?thesis by (auto simp: deployed_revisions_def sha_b_def)
qed

end
